(* ===== verification/Baker_Prelude.thy ===== *)
theory Baker_Prelude
  imports Complex_Main "HOL-Library.AList"
begin

text \<open>
  Shared vocabulary of the development.

  \<^item> Go maps are association lists (\<open>'v gomap\<close>): a lookup is \<^const>\<open>map_of\<close>, a store is
    \<^const>\<open>AList.update\<close>, a delete is \<^const>\<open>AList.delete\<close>. The list order stands for the order in
    which a \<open>range\<close> loop happens to visit the map, so a property of such a loop is stated for
    every order.
  \<^item> A Go pointer that may be nil is an \<open>option\<close>.
  \<^item> A function that returns \<open>(T, error)\<close> returns \<open>'e + 'a\<close>, with \<^const>\<open>Inl\<close> for the error.
  \<^item> A method that also changes state is a \<open>('s, 'e, 'a) rmonad\<close>: the state is threaded through
    the error branch as well, because an early \<open>return err\<close> keeps every mutation made before it.
  \<^item> \<open>int64\<close> values are \<^typ>\<open>int\<close>; \<open>wrap64\<close> writes out the wrap-around of Go's arithmetic.
\<close>

named_theorems go_defs "definitions of Go library functions, for evaluation on closed terms"
named_theorems rm_simps "laws of the state-and-error monad"

type_synonym 'v gomap = "(string \<times> 'v) list"
type_synonym ('s, 'e, 'a) rmonad = "'s \<Rightarrow> ('e + 'a) \<times> 's"

section \<open>Go maps\<close>

definition map_get :: "string gomap \<Rightarrow> string \<Rightarrow> string" where
  \<comment> \<open>\<open>m[k]\<close> on a \<open>map[string]string\<close>: the zero value when the key is absent\<close>
  "map_get m k = (case map_of m k of None \<Rightarrow> '''' | Some v \<Rightarrow> v)"

lemma map_get_update [simp]:
  "map_get (AList.update k v m) k' = (if k' = k then v else map_get m k')"
  by (simp add: map_get_def update_conv')

lemma map_get_delete [simp]:
  "map_get (AList.delete k m) k' = (if k' = k then '''' else map_get m k')"
  by (simp add: map_get_def delete_conv')

lemma map_of_update [simp]: "map_of (AList.update k v m) = (map_of m)(k \<mapsto> v)"
  by (rule update_conv')

lemma map_of_delete [simp]: "map_of (AList.delete k m) = (map_of m)(k := None)"
  by (rule delete_conv')

section \<open>Machine integers\<close>

definition wrap64 :: "int \<Rightarrow> int" where
  "wrap64 x = (x + 2 ^ 63) mod 2 ^ 64 - 2 ^ 63"

definition int64_range :: "int \<Rightarrow> bool" where
  "int64_range x \<longleftrightarrow> - (2 ^ 63) \<le> x \<and> x < 2 ^ 63"

lemma wrap64_in_range [simp, intro]: "int64_range (wrap64 x)"
proof -
  have "0 \<le> (x + 2 ^ 63) mod (2 ^ 64 :: int)" "(x + 2 ^ 63) mod (2 ^ 64 :: int) < 2 ^ 64"
    by simp_all
  then show ?thesis by (simp add: wrap64_def int64_range_def)
qed

lemma wrap64_id [simp]: "int64_range x \<Longrightarrow> wrap64 x = x"
  by (simp add: wrap64_def int64_range_def)

text \<open>Go's integer division and remainder truncate towards zero.\<close>

definition quot :: "int \<Rightarrow> int \<Rightarrow> int" where
  "quot a b = sgn a * sgn b * (\<bar>a\<bar> div \<bar>b\<bar>)"

definition remd :: "int \<Rightarrow> int \<Rightarrow> int" where
  "remd a b = a - b * quot a b"

lemma quot_nonneg [simp]: "0 \<le> a \<Longrightarrow> 0 < b \<Longrightarrow> quot a b = a div b"
  by (cases "a = 0") (simp_all add: quot_def)

lemma remd_nonneg [simp]: "0 \<le> a \<Longrightarrow> 0 < b \<Longrightarrow> remd a b = a mod b"
  by (simp add: remd_def minus_mult_div_eq_mod)

section \<open>State with errors\<close>

definition ret :: "'a \<Rightarrow> ('s, 'e, 'a) rmonad" where
  "ret x = (\<lambda>s. (Inr x, s))"

definition raise :: "'e \<Rightarrow> ('s, 'e, 'a) rmonad" where
  "raise e = (\<lambda>s. (Inl e, s))"

definition bindr :: "('s, 'e, 'a) rmonad \<Rightarrow> ('a \<Rightarrow> ('s, 'e, 'b) rmonad) \<Rightarrow> ('s, 'e, 'b) rmonad" where
  "bindr m f = (\<lambda>s. case m s of (Inl e, s') \<Rightarrow> (Inl e, s') | (Inr x, s') \<Rightarrow> f x s')"

definition seqr :: "('s, 'e, 'a) rmonad \<Rightarrow> ('s, 'e, 'b) rmonad \<Rightarrow> ('s, 'e, 'b) rmonad" where
  "seqr m n = bindr m (\<lambda>_. n)"

definition tryr :: "('s, 'e, 'a) rmonad \<Rightarrow> ('s, 'e, 'e + 'a) rmonad" where
  \<comment> \<open>\<open>x, err := f()\<close> where the caller inspects \<open>err\<close> itself\<close>
  "tryr m = (\<lambda>s. case m s of (r, s') \<Rightarrow> (Inr r, s'))"

definition gets :: "('s \<Rightarrow> 'a) \<Rightarrow> ('s, 'e, 'a) rmonad" where
  "gets f = (\<lambda>s. (Inr (f s), s))"

definition modify :: "('s \<Rightarrow> 's) \<Rightarrow> ('s, 'e, unit) rmonad" where
  "modify f = (\<lambda>s. (Inr (), f s))"

lemma ret_apply [rm_simps]: "ret x s = (Inr x, s)"
  by (simp add: ret_def)

lemma raise_apply [rm_simps]: "raise e s = (Inl e, s)"
  by (simp add: raise_def)

lemma gets_apply [rm_simps]: "gets f s = (Inr (f s), s)"
  by (simp add: gets_def)

lemma modify_apply [rm_simps]: "modify f s = (Inr (), f s)"
  by (simp add: modify_def)

lemma tryr_apply [rm_simps]: "tryr m s = (Inr (fst (m s)), snd (m s))"
  by (simp add: tryr_def case_prod_beta)

lemma bindr_ret [rm_simps]: "bindr (ret x) f = f x"
  by (simp add: bindr_def ret_def)

lemma bindr_raise [rm_simps]: "bindr (raise e) f = raise e"
  by (simp add: bindr_def raise_def)

lemma bindr_gets [rm_simps]: "bindr (gets g) f s = f (g s) s"
  by (simp add: bindr_def gets_def)

lemma bindr_modify [rm_simps]: "bindr (modify g) f s = f () (g s)"
  by (simp add: bindr_def modify_def)

lemma bindr_assoc: "bindr (bindr m f) g = bindr m (\<lambda>x. bindr (f x) g)"
  by (rule ext) (simp add: bindr_def split: prod.split sum.split)

lemma bindr_cases:
  assumes "bindr m f s = (r, s')"
  obtains (err) e where "m s = (Inl e, s')" "r = Inl e"
    | (ok) x t where "m s = (Inr x, t)" "f x t = (r, s')"
  using assms by (auto simp: bindr_def split: prod.splits sum.splits)

text \<open>
  Postconditions of a step: \<open>holds P m Q\<close> says that from a state with \<open>P\<close> every outcome of \<open>m\<close>,
  error or not, satisfies \<open>Q\<close>.
\<close>

definition holds :: "('s \<Rightarrow> bool) \<Rightarrow> ('s, 'e, 'a) rmonad \<Rightarrow> (('e + 'a) \<Rightarrow> 's \<Rightarrow> bool) \<Rightarrow> bool" where
  "holds P m Q \<longleftrightarrow> (\<forall>s. P s \<longrightarrow> Q (fst (m s)) (snd (m s)))"

lemma holdsD: "holds P m Q \<Longrightarrow> P s \<Longrightarrow> m s = (r, s') \<Longrightarrow> Q r s'"
  by (force simp: holds_def)

lemma holds_bindr:
  assumes "holds P m (\<lambda>r s. case r of Inl e \<Rightarrow> Q (Inl e) s | Inr x \<Rightarrow> R x s)"
    and "\<And>x. holds (R x) (f x) Q"
  shows "holds P (bindr m f) Q"
  unfolding holds_def
proof (intro allI impI)
  fix s assume "P s"
  obtain r t where m: "m s = (r, t)" by (cases "m s")
  from holdsD [OF assms(1) \<open>P s\<close> m]
  show "Q (fst (bindr m f s)) (snd (bindr m f s))"
    using assms(2) by (cases r) (auto simp: bindr_def m holds_def)
qed

lemma holds_ret: "(\<And>s. P s \<Longrightarrow> Q (Inr x) s) \<Longrightarrow> holds P (ret x) Q"
  by (simp add: holds_def ret_def)

lemma holds_raise: "(\<And>s. P s \<Longrightarrow> Q (Inl e) s) \<Longrightarrow> holds P (raise e) Q"
  by (simp add: holds_def raise_def)

lemma holds_weaken:
  "holds P' m Q' \<Longrightarrow> (\<And>s. P s \<Longrightarrow> P' s) \<Longrightarrow> (\<And>r s. Q' r s \<Longrightarrow> Q r s) \<Longrightarrow> holds P m Q"
  by (auto simp: holds_def)

section \<open>Lists\<close>

lemma list_all_filter_id: "list_all P xs \<Longrightarrow> filter P xs = xs"
  by (induction xs) auto

lemma find_Some_in: "find P xs = Some x \<Longrightarrow> x \<in> set xs \<and> P x"
  by (induction xs) (auto split: if_splits)

lemma find_None_all: "find P xs = None \<longleftrightarrow> (\<forall>x\<in>set xs. \<not> P x)"
  by (auto simp: find_None_iff)

lemma sum_list_zero_iff_nat: "sum_list (xs :: nat list) = 0 \<longleftrightarrow> (\<forall>x\<in>set xs. x = 0)"
  by (induction xs) auto

end
