(* ===== verification/Go_Strings.thy ===== *)
theory Go_Strings
  imports Baker_Prelude
begin

text \<open>
  The parts of Go's \<open>strings\<close> and \<open>strconv\<close> packages the program uses, on byte strings
  (\<^typ>\<open>string\<close>, a \<^typ>\<open>char\<close> is a byte). \<open>ToLower\<close>, \<open>EqualFold\<close> and \<open>TrimSpace\<close> act on the ASCII
  letters and ASCII white space; bytes of multi-byte UTF-8 sequences are left alone, so Unicode case
  mapping and Unicode white space are outside the model.
\<close>

section \<open>Bytes\<close>

definition byte :: "char \<Rightarrow> nat" where
  "byte c = of_char c"

definition is_digit :: "char \<Rightarrow> bool" where
  "is_digit c \<longleftrightarrow> 48 \<le> byte c \<and> byte c \<le> 57"

definition digit_val :: "char \<Rightarrow> nat" where
  "digit_val c = byte c - 48"

definition digit_char :: "nat \<Rightarrow> char" where
  "digit_char d = char_of (48 + d)"

definition is_space :: "char \<Rightarrow> bool" where
  "is_space c \<longleftrightarrow> byte c \<in> {9, 10, 11, 12, 13, 32}"

definition lower_char :: "char \<Rightarrow> char" where
  "lower_char c = (if 65 \<le> byte c \<and> byte c \<le> 90 then char_of (byte c + 32) else c)"

lemma byte_lt: "byte c < 256"
  by (simp add: byte_def)

lemma digit_char_inv:
  assumes "d < 10"
  shows "is_digit (digit_char d)" "digit_val (digit_char d) = d"
proof -
  have "byte (digit_char d) = 48 + d"
    using assms by (simp add: byte_def digit_char_def)
  with assms show "is_digit (digit_char d)" "digit_val (digit_char d) = d"
    by (simp_all add: is_digit_def digit_val_def)
qed

lemma lower_char_idem [simp]: "lower_char (lower_char c) = lower_char c"
  by (auto simp: lower_char_def byte_def)

section \<open>Package strings\<close>

definition HasPrefix :: "string \<Rightarrow> string \<Rightarrow> bool" where
  "HasPrefix s p \<longleftrightarrow> take (length p) s = p"

definition HasSuffix :: "string \<Rightarrow> string \<Rightarrow> bool" where
  "HasSuffix s p \<longleftrightarrow> length p \<le> length s \<and> drop (length s - length p) s = p"

fun Index :: "string \<Rightarrow> string \<Rightarrow> nat option" where
  \<comment> \<open>\<^const>\<open>None\<close> is Go's \<open>-1\<close>\<close>
  "Index [] p = (if p = [] then Some 0 else None)"
| "Index (c # s) p = (if HasPrefix (c # s) p then Some 0 else map_option Suc (Index s p))"

definition Contains :: "string \<Rightarrow> string \<Rightarrow> bool" where
  "Contains s p \<longleftrightarrow> Index s p \<noteq> None"

fun IndexByte :: "string \<Rightarrow> char \<Rightarrow> nat option" where
  "IndexByte [] b = None"
| "IndexByte (c # s) b = (if c = b then Some 0 else map_option Suc (IndexByte s b))"

fun LastIndexByte :: "string \<Rightarrow> char \<Rightarrow> nat option" where
  "LastIndexByte [] b = None"
| "LastIndexByte (c # s) b =
     (case LastIndexByte s b of Some i \<Rightarrow> Some (Suc i) | None \<Rightarrow> if c = b then Some 0 else None)"

definition TrimSpace :: "string \<Rightarrow> string" where
  "TrimSpace s = rev (dropWhile is_space (rev (dropWhile is_space s)))"

definition ToLower :: "string \<Rightarrow> string" where
  "ToLower s = map lower_char s"

definition EqualFold :: "string \<Rightarrow> string \<Rightarrow> bool" where
  "EqualFold s t \<longleftrightarrow> ToLower s = ToLower t"

definition TrimPrefix :: "string \<Rightarrow> string \<Rightarrow> string" where
  "TrimPrefix s p = (if HasPrefix s p then drop (length p) s else s)"

definition TrimSuffix :: "string \<Rightarrow> string \<Rightarrow> string" where
  "TrimSuffix s p = (if HasSuffix s p then take (length s - length p) s else s)"

definition CutPrefix :: "string \<Rightarrow> string \<Rightarrow> string \<times> bool" where
  "CutPrefix s p = (if HasPrefix s p then (drop (length p) s, True) else (s, False))"

fun SplitByte :: "string \<Rightarrow> char \<Rightarrow> string list" where
  \<comment> \<open>\<open>strings.Split\<close> with a one-byte separator\<close>
  "SplitByte [] b = [[]]"
| "SplitByte (c # s) b =
     (if c = b then [] # SplitByte s b
      else case SplitByte s b of [] \<Rightarrow> [[c]] | x # xs \<Rightarrow> (c # x) # xs)"

fun Join :: "string list \<Rightarrow> string \<Rightarrow> string" where
  "Join [] sep = []"
| "Join [x] sep = x"
| "Join (x # y # xs) sep = x @ sep @ Join (y # xs) sep"

lemma HasPrefix_iff: "HasPrefix s p \<longleftrightarrow> (\<exists>r. s = p @ r)"
proof
  assume "HasPrefix s p"
  then have "s = p @ drop (length p) s"
    by (metis HasPrefix_def append_take_drop_id)
  then show "\<exists>r. s = p @ r" ..
next
  show "\<exists>r. s = p @ r \<Longrightarrow> HasPrefix s p" by (auto simp: HasPrefix_def)
qed

lemma Index_SomeD: "Index s p = Some i \<Longrightarrow> \<exists>u v. s = u @ p @ v \<and> length u = i"
proof (induction s arbitrary: i)
  case (Cons c s)
  show ?case
  proof (cases "HasPrefix (c # s) p")
    case True
    with Cons.prems show ?thesis by (auto simp: HasPrefix_iff)
  next
    case False
    with Cons.prems obtain j where "Index s p = Some j" "i = Suc j" by auto
    with Cons.IH obtain u v where "s = u @ p @ v" "length u = j" by blast
    with \<open>i = Suc j\<close> have "c # s = (c # u) @ p @ v" "length (c # u) = i" by simp_all
    then show ?thesis by blast
  qed
qed (auto split: if_splits)

lemma Index_exists: "\<exists>i. Index (u @ p @ v) p = Some i"
proof (induction u)
  case Nil
  show ?case
  proof (cases "p @ v")
    case (Cons c s)
    have "HasPrefix (p @ v) p" by (auto simp: HasPrefix_iff)
    with Cons show ?thesis by auto
  qed auto
qed auto

lemma Contains_iff: "Contains s p \<longleftrightarrow> (\<exists>u v. s = u @ p @ v)"
proof
  assume "Contains s p"
  then obtain i where "Index s p = Some i" by (auto simp: Contains_def)
  from Index_SomeD [OF this] show "\<exists>u v. s = u @ p @ v" by blast
next
  assume "\<exists>u v. s = u @ p @ v"
  then obtain u v where s: "s = u @ p @ v" by blast
  obtain i where "Index (u @ p @ v) p = Some i" using Index_exists by blast
  with s show "Contains s p" by (simp add: Contains_def)
qed

lemma IndexByte_SomeD:
  "IndexByte s b = Some i \<Longrightarrow> i < length s \<and> s ! i = b \<and> b \<notin> set (take i s)"
  by (induction s arbitrary: i) (auto split: if_splits)

lemma IndexByte_None_iff [simp]: "IndexByte s b = None \<longleftrightarrow> b \<notin> set s"
  by (induction s) auto

lemma IndexByte_append: "b \<notin> set u \<Longrightarrow> IndexByte (u @ b # v) b = Some (length u)"
  by (induction u) auto

lemma LastIndexByte_SomeD:
  "LastIndexByte s b = Some i \<Longrightarrow> i < length s \<and> s ! i = b \<and> b \<notin> set (drop (Suc i) s)"
proof (induction s arbitrary: i)
  case (Cons c s)
  show ?case
  proof (cases "LastIndexByte s b")
    case None
    have "LastIndexByte s b = None \<Longrightarrow> b \<notin> set s"
      by (induction s) (auto split: option.splits if_splits)
    with None Cons.prems show ?thesis by (auto split: if_splits)
  next
    case (Some j)
    with Cons show ?thesis by auto
  qed
qed simp

lemma LastIndexByte_None_iff [simp]: "LastIndexByte s b = None \<longleftrightarrow> b \<notin> set s"
  by (induction s) (auto split: option.splits)

lemma IndexByte_absent [simp]: "b \<notin> set s \<Longrightarrow> IndexByte s b = None"
  by simp

lemma LastIndexByte_absent [simp]: "b \<notin> set s \<Longrightarrow> LastIndexByte s b = None"
  by simp

lemma LastIndexByte_append: "b \<notin> set v \<Longrightarrow> LastIndexByte (u @ b # v) b = Some (length u)"
proof (induction u)
  case Nil
  then have "LastIndexByte v b = None" by simp
  then show ?case by (simp only: append_Nil LastIndexByte.simps) simp
qed simp

lemma ToLower_idem [simp]: "ToLower (ToLower s) = ToLower s"
  by (simp add: ToLower_def)

lemma ToLower_append [simp]: "ToLower (s @ t) = ToLower s @ ToLower t"
  by (simp add: ToLower_def)

lemma ToLower_eq_Nil [simp]: "ToLower s = [] \<longleftrightarrow> s = []"
  by (simp add: ToLower_def)

lemma TrimSpace_Nil [simp]: "TrimSpace [] = []"
  by (simp add: TrimSpace_def)

lemma TrimSpace_id: "list_all (\<lambda>c. \<not> is_space c) s \<Longrightarrow> TrimSpace s = s"
proof -
  assume *: "list_all (\<lambda>c. \<not> is_space c) s"
  then have "dropWhile is_space s = s" by (cases s) auto
  moreover from * have "dropWhile is_space (rev s) = rev s"
    by (cases s rule: rev_cases) auto
  ultimately show ?thesis by (simp add: TrimSpace_def)
qed

section \<open>Package strconv\<close>

fun nat_dec :: "nat \<Rightarrow> string" where
  "nat_dec n = (if n < 10 then [digit_char n] else nat_dec (n div 10) @ [digit_char (n mod 10)])"

declare nat_dec.simps [simp del]

definition Itoa :: "int \<Rightarrow> string" where
  "Itoa n = (if n < 0 then CHR ''-'' # nat_dec (nat (- n)) else nat_dec (nat n))"

fun dec_val :: "nat \<Rightarrow> string \<Rightarrow> nat option" where
  "dec_val acc [] = Some acc"
| "dec_val acc (c # s) = (if is_digit c then dec_val (acc * 10 + digit_val c) s else None)"

definition ParseInt :: "string \<Rightarrow> int option" where
  \<comment> \<open>\<open>strconv.ParseInt(s, 10, 64)\<close> and \<open>strconv.Atoi\<close>; \<^const>\<open>None\<close> is a syntax or range error\<close>
  "ParseInt s =
     (let (neg, t) = (case s of [] \<Rightarrow> (False, [])
                      | c # r \<Rightarrow> if c = CHR ''-'' then (True, r) else if c = CHR ''+'' then (False, r)
                                else (False, s))
      in if t = [] then None
         else case dec_val 0 t of None \<Rightarrow> None
              | Some n \<Rightarrow> if neg then (if n \<le> 2 ^ 63 then Some (- int n) else None)
                          else (if n < 2 ^ 63 then Some (int n) else None))"

lemma dec_val_append:
  "dec_val acc (s @ t) = (case dec_val acc s of None \<Rightarrow> None | Some n \<Rightarrow> dec_val n t)"
  by (induction s arbitrary: acc) auto

lemma dec_val_nat_dec: "dec_val 0 (nat_dec n) = Some n"
proof (induction n rule: nat_dec.induct)
  case (1 n)
  show ?case
  proof (cases "n < 10")
    case True
    then show ?thesis by (simp add: nat_dec.simps [of n] digit_char_inv)
  next
    case False
    with "1.IH" show ?thesis
      by (simp add: nat_dec.simps [of n] dec_val_append digit_char_inv)
  qed
qed

lemma nat_dec_not_Nil [simp]: "nat_dec n \<noteq> []"
  by (simp add: nat_dec.simps [of n])

lemma nat_dec_digits: "c \<in> set (nat_dec n) \<Longrightarrow> is_digit c"
proof (induction n rule: nat_dec.induct)
  case (1 n)
  then show ?case
    by (auto simp: nat_dec.simps [of n] digit_char_inv split: if_splits)
qed

lemma nat_dec_inj: "nat_dec m = nat_dec n \<Longrightarrow> m = n"
  by (metis dec_val_nat_dec option.inject)

lemma ParseInt_Itoa: "int64_range n \<Longrightarrow> ParseInt (Itoa n) = Some n"
proof (cases "n < 0")
  case True
  assume "int64_range n"
  with True show ?thesis
    by (simp add: ParseInt_def Itoa_def dec_val_nat_dec int64_range_def)
next
  case False
  assume r: "int64_range n"
  obtain c r' where c: "nat_dec (nat n) = c # r'"
    by (cases "nat_dec (nat n)") simp_all
  then have "is_digit c" using nat_dec_digits [of c "nat n"] by simp
  then have "c \<noteq> CHR ''-''" "c \<noteq> CHR ''+''" by (auto simp: is_digit_def byte_def)
  then show ?thesis
    using False r c dec_val_nat_dec [of "nat n"]
    by (simp add: ParseInt_def Itoa_def int64_range_def)
qed

lemma Itoa_inj: "Itoa m = Itoa n \<Longrightarrow> m = n"
proof -
  have minus: "CHR ''-'' \<notin> set (nat_dec k)" for k
    using nat_dec_digits [of "CHR ''-''" k] by (auto simp: is_digit_def byte_def)
  have mixed: "CHR ''-'' # s \<noteq> nat_dec k" "nat_dec k \<noteq> CHR ''-'' # s" for s k
    using minus [of k] by (metis list.set_intros(1))+
  assume "Itoa m = Itoa n"
  then show ?thesis
    by (auto simp: Itoa_def mixed split: if_splits dest: nat_dec_inj)
qed

lemma ParseInt_int64: "ParseInt s = Some n \<Longrightarrow> int64_range n"
  by (auto simp: ParseInt_def int64_range_def Let_def split: list.splits if_splits option.splits)

end
