(* ===== verification/Go_Time.thy ===== *)
theory Go_Time
  imports Go_Strings
begin

text \<open>
  The part of Go's \<open>time\<close> package the program uses. A \<open>Duration\<close> is an \<open>int64\<close> number of
  nanoseconds; an instant (\<open>time.Time\<close>, \<open>metav1.Time\<close>) is the number of nanoseconds since the Unix
  epoch, with \<open>zero_time\<close> for the zero value that \<open>IsZero\<close> recognises. \<open>ParseDuration\<close> is
  translated with its \<open>uint64\<close> accumulation, the one place where that wraps included, and with the
  \<open>float64\<close> arithmetic it uses for a fraction (53-bit significands, round half to even).
\<close>

type_synonym duration = int
type_synonym time = int

definition Nanosecond :: duration where "Nanosecond = 1"
definition Microsecond :: duration where "Microsecond = 1000"
definition Millisecond :: duration where "Millisecond = 1000000"
definition Second :: duration where "Second = 1000000000"
definition Minute :: duration where "Minute = 60000000000"
definition Hour :: duration where "Hour = 3600000000000"

lemmas duration_defs = Nanosecond_def Microsecond_def Millisecond_def Second_def Minute_def Hour_def

definition zero_time :: time where
  \<comment> \<open>January 1, year 1, 00:00:00 UTC\<close>
  "zero_time = - 62135596800 * Second"

definition IsZero :: "time \<Rightarrow> bool" where
  "IsZero t \<longleftrightarrow> t = zero_time"

definition time_Sub :: "time \<Rightarrow> time \<Rightarrow> duration" where
  \<comment> \<open>\<open>t.Sub(u)\<close> saturates at the ends of \<open>int64\<close>\<close>
  "time_Sub t u = max (- (2 ^ 63)) (min (2 ^ 63 - 1) (t - u))"

section \<open>Rounding to a float64\<close>

text \<open>A positive float is \<open>m * 2 powi e\<close>, given as the pair \<open>(m, e)\<close> with \<open>2 ^ 52 \<le> m < 2 ^ 53\<close>
  (or a smaller exact \<open>m\<close> with \<open>e = 0\<close>).\<close>

type_synonym float64 = "nat \<times> int"

fun bit_length :: "nat \<Rightarrow> nat" where
  "bit_length n = (if n = 0 then 0 else Suc (bit_length (n div 2)))"

declare bit_length.simps [simp del]

definition round_even :: "nat \<Rightarrow> nat \<Rightarrow> nat" where
  \<comment> \<open>the integer nearest to \<open>a / b\<close>, ties to even\<close>
  "round_even a b =
     (let q = a div b; r = a mod b
      in if 2 * r > b \<or> (2 * r = b \<and> odd q) then q + 1 else q)"

definition round_at :: "nat \<Rightarrow> nat \<Rightarrow> int \<Rightarrow> float64" where
  \<comment> \<open>\<open>a / b\<close> rounded to a multiple of \<open>2 powi e\<close>\<close>
  "round_at a b e =
     (if 0 \<le> e then round_even a (b * 2 ^ nat e) else round_even (a * 2 ^ nat (- e)) b, e)"

definition fl_div :: "nat \<Rightarrow> nat \<Rightarrow> float64" where
  "fl_div a b =
     (let e = int (bit_length a) - int (bit_length b) - 53;
          f = round_at a b e
      in if fst f < 2 ^ 53 then f else round_at a b (e + 1))"

definition fl_of_nat :: "nat \<Rightarrow> float64" where
  "fl_of_nat n = (if n < 2 ^ 53 then (n, 0) else fl_div n 1)"

definition fl_mult :: "float64 \<Rightarrow> float64 \<Rightarrow> float64" where
  "fl_mult x y =
     (let m = fst x * fst y; e = snd x + snd y; z = fl_of_nat m
      in (fst z, snd z + e))"

definition fl_trunc :: "float64 \<Rightarrow> nat" where
  "fl_trunc x = (if 0 \<le> snd x then fst x * 2 ^ nat (snd x) else fst x div 2 ^ nat (- snd x))"

section \<open>ParseDuration\<close>

fun leadingInt :: "nat \<Rightarrow> string \<Rightarrow> (nat \<times> string) option" where
  "leadingInt x [] = Some (x, [])"
| "leadingInt x (c # s) =
     (if \<not> is_digit c then Some (x, c # s)
      else if x > 2 ^ 63 div 10 then None
      else let y = x * 10 + digit_val c in if y > 2 ^ 63 then None else leadingInt y s)"

fun leadingFraction :: "nat \<Rightarrow> nat \<Rightarrow> bool \<Rightarrow> string \<Rightarrow> nat \<times> nat \<times> string" where
  \<comment> \<open>the scale is a power of ten of at most 19 digits, exact in a \<open>float64\<close>\<close>
  "leadingFraction x scale overflow [] = (x, scale, [])"
| "leadingFraction x scale overflow (c # s) =
     (if \<not> is_digit c then (x, scale, c # s)
      else if overflow then leadingFraction x scale True s
      else if x > (2 ^ 63 - 1) div 10 then leadingFraction x scale True s
      else let y = x * 10 + digit_val c
           in if y > 2 ^ 63 then leadingFraction x scale True s
              else leadingFraction y (scale * 10) False s)"

definition unitMap :: "(string \<times> nat) list" where
  "unitMap =
     [(''ns'', 1), (''us'', 1000),
      ([char_of (194::nat), char_of (181::nat), CHR ''s''], 1000),
      ([char_of (206::nat), char_of (188::nat), CHR ''s''], 1000),
      (''ms'', 1000000), (''s'', 1000000000), (''m'', 60000000000), (''h'', 3600000000000)]"

definition unit_char :: "char \<Rightarrow> bool" where
  "unit_char c \<longleftrightarrow> c \<noteq> CHR ''.'' \<and> \<not> is_digit c"

definition fraction :: "nat \<Rightarrow> nat \<Rightarrow> nat \<Rightarrow> nat" where
  \<comment> \<open>\<open>uint64(float64(f) * (float64(unit) / scale))\<close>\<close>
  "fraction f u scale = fl_trunc (fl_mult (fl_of_nat f) (fl_div u scale))"

definition duration_term :: "string \<Rightarrow> (nat \<times> string) option" where
  \<comment> \<open>one round of the loop: a number with its unit, and the rest\<close>
  "duration_term s =
     (case s of [] \<Rightarrow> None
      | c # _ \<Rightarrow>
        if \<not> (c = CHR ''.'' \<or> is_digit c) then None
        else case leadingInt 0 s of
          None \<Rightarrow> None
        | Some (v, s1) \<Rightarrow>
            let pre = length s1 \<noteq> length s;
                (f, scale, s2) = (case s1 of
                    [] \<Rightarrow> (0, 1, [])
                  | d # r \<Rightarrow> if d = CHR ''.'' then leadingFraction 0 1 False r else (0, 1, s1));
                post = (case s1 of [] \<Rightarrow> False | d # r \<Rightarrow> d = CHR ''.'' \<and> length s2 \<noteq> length r);
                u = takeWhile unit_char s2; s3 = dropWhile unit_char s2
            in if \<not> pre \<and> \<not> post then None
               else if u = [] then None
               else case map_of unitMap u of
                 None \<Rightarrow> None
               | Some w \<Rightarrow>
                   if v > 2 ^ 63 div w then None
                   else let v1 = (if f > 0 then v * w + fraction f w scale else v * w)
                        in if f > 0 \<and> v1 > 2 ^ 63 then None else Some (v1, s3))"

lemma leadingInt_length: "leadingInt x s = Some (v, r) \<Longrightarrow> length r \<le> length s"
  by (induction x s rule: leadingInt.induct) (auto simp: Let_def split: if_splits)

lemma leadingFraction_length: "leadingFraction x sc ov s = (f, sc', r) \<Longrightarrow> length r \<le> length s"
  by (induction x sc ov s rule: leadingFraction.induct) (auto simp: Let_def split: if_splits)

lemma unit_shorter: "takeWhile unit_char s \<noteq> [] \<Longrightarrow> length (dropWhile unit_char s) < length s"
  by (cases s) (auto simp: length_dropWhile_le le_imp_less_Suc split: if_splits)

lemma duration_term_shorter: "duration_term s = Some (v, r) \<Longrightarrow> length r < length s"
proof -
  assume a: "duration_term s = Some (v, r)"
  then obtain v0 s1 where l: "leadingInt 0 s = Some (v0, s1)"
    by (auto simp: duration_term_def split: list.splits if_splits option.splits)
  obtain f sc s2 where f: "(case s1 of [] \<Rightarrow> (0, 1, [])
      | d # r \<Rightarrow> if d = CHR ''.'' then leadingFraction 0 1 False r else (0, 1, s1)) = (f, sc, s2)"
    by (metis prod_cases3)
  have "length s2 \<le> length s1"
    using f leadingFraction_length by (force split: list.splits if_splits)
  moreover have "length s1 \<le> length s" by (rule leadingInt_length [OF l])
  moreover have "takeWhile unit_char s2 \<noteq> [] \<and> r = dropWhile unit_char s2"
    using a unfolding duration_term_def l
    by (auto simp: Let_def f split: list.splits if_splits option.splits)
  ultimately show ?thesis using unit_shorter [of s2] by simp
qed

function duration_loop :: "nat \<Rightarrow> string \<Rightarrow> nat option" where
  "duration_loop d s =
     (if s = [] then Some d
      else case duration_term s of
        None \<Rightarrow> None
      | Some (v, r) \<Rightarrow>
          let d1 = (d + v) mod 2 ^ 64 in if d1 > 2 ^ 63 then None else duration_loop d1 r)"
  by pat_completeness auto
termination
  by (relation "measure (\<lambda>(d, s). length s)") (auto dest: duration_term_shorter)

declare duration_loop.simps [simp del]

definition ParseDuration :: "string \<Rightarrow> duration option" where
  "ParseDuration orig =
     (let (neg, s) = (case orig of [] \<Rightarrow> (False, [])
           | c # r \<Rightarrow> if c = CHR ''-'' \<or> c = CHR ''+'' then (c = CHR ''-'', r) else (False, orig))
      in if s = ''0'' then Some 0
         else if s = [] then None
         else case duration_loop 0 s of
           None \<Rightarrow> None
         | Some d \<Rightarrow> if neg then Some (wrap64 (- wrap64 (int d)))
                     else if d > 2 ^ 63 - 1 then None else Some (int d))"

section \<open>Whole numbers of a unit\<close>

lemma leadingInt_digits:
  assumes "dec_val x ds = Some n" "n \<le> 2 ^ 63" "r = [] \<or> \<not> is_digit (hd r)"
  shows "leadingInt x (ds @ r) = Some (n, r)"
  using assms
proof (induction x ds rule: dec_val.induct)
  case (1 acc)
  then show ?case by (cases r) auto
next
  case (2 acc c s)
  have grow: "dec_val y t = Some n \<Longrightarrow> y \<le> n" for y t
  proof (induction y t rule: dec_val.induct)
    case (2 acc c s)
    then have "acc * 10 + digit_val c \<le> n" by (simp split: if_splits)
    then show ?case by simp
  qed simp
  from 2 have "is_digit c" and d: "dec_val (acc * 10 + digit_val c) s = Some n"
    by (auto split: if_splits)
  with grow [OF d] "2.prems"(2) "2.IH" "2.prems"(3) show ?case by (simp add: Let_def)
qed

lemma ParseDuration_whole:
  assumes "map_of unitMap [c] = Some w" "unit_char c" "n * w < 2 ^ 63"
  shows "ParseDuration (nat_dec n @ [c]) = Some (int (n * w))"
proof -
  obtain d ds where dd: "nat_dec n = d # ds" by (cases "nat_dec n") simp_all
  then have d: "is_digit d" using nat_dec_digits [of d n] by simp
  then have sign: "d \<noteq> CHR ''-''" "d \<noteq> CHR ''+''" by (auto simp: is_digit_def byte_def)
  have "c \<noteq> CHR ''.''" "\<not> is_digit c" using assms(2) by (simp_all add: unit_char_def)
  have w: "0 < w" using assms(1) by (auto simp: unitMap_def split: if_splits)
  then have "n \<le> n * w" by simp
  then have "n \<le> 2 ^ 63" using assms(3) by linarith
  then have li: "leadingInt 0 (nat_dec n @ [c]) = Some (n, [c])"
    using leadingInt_digits [OF dec_val_nat_dec, of n "[c]"] \<open>\<not> is_digit c\<close> by simp
  have "n \<le> 2 ^ 63 div w" using w assms(3) by (simp add: less_eq_div_iff_mult_less_eq)
  then have "duration_term (nat_dec n @ [c]) = Some (n * w, [])"
    using d li dd assms(1,2) \<open>c \<noteq> CHR ''.''\<close> by (simp add: duration_term_def)
  then have "duration_loop 0 (nat_dec n @ [c]) = Some (n * w)"
    using assms(3) by (simp add: duration_loop.simps [of 0 "nat_dec n @ [c]"] duration_loop.simps [of _ "[]"])
  with dd sign assms(3) \<open>\<not> is_digit c\<close> show ?thesis
    by (auto simp: ParseDuration_def)
qed

lemma ParseDuration_range: "ParseDuration s = Some d \<Longrightarrow> int64_range d"
proof -
  have small: "k \<le> 9223372036854775807 \<Longrightarrow> int64_range (int k)" for k
    by (simp add: int64_range_def)
  have "int64_range 0" by (simp add: int64_range_def)
  then show "ParseDuration s = Some d \<Longrightarrow> int64_range d"
    by (auto simp: ParseDuration_def Let_def intro!: small
        split: list.splits if_splits option.splits)
qed

end
