(* ===== verification/App_Types.thy ===== *)
theory App_Types
  imports Go_Time
begin

text \<open>
  \<open>api/v1alpha1/app_types.go\<close>: the App resource, its spec and its status.

  A struct is a record whose fields carry a prefix of the struct's name; an embedded struct is a
  field. Pointers are options. Slices and maps are lists: for these types the program only uses
  \<open>len\<close>, \<open>range\<close> and lookups, which do not tell a nil value from an empty one. The typed strings
  (\<open>Phase\<close>, \<open>BuildResult\<close>, \<open>StepStatus\<close>, ...) stay strings with named constants, because objects
  written by other versions can carry any value and the code compares for equality only.
\<close>

section \<open>Constants\<close>

abbreviation RebuildAnnotation where "RebuildAnnotation \<equiv> ''rebuild.baker.toggle-corp.com/requested-at''"
abbreviation RebuildByAnnotation where "RebuildByAnnotation \<equiv> ''rebuild.baker.toggle-corp.com/by''"
abbreviation RebuildCommitAnnotation where "RebuildCommitAnnotation \<equiv> ''rebuild.baker.toggle-corp.com/commit''"
abbreviation WatchLastSeenAnnotation where "WatchLastSeenAnnotation \<equiv> ''watch.baker.toggle-corp.com/last-seen-sha''"
abbreviation FinalizerName where "FinalizerName \<equiv> ''baker.toggle-corp.com/finalizer''"
abbreviation AppResource where "AppResource \<equiv> ''apps''"
abbreviation SpecHashAnnotation where "SpecHashAnnotation \<equiv> ''baker.toggle-corp.com/spec-hash''"
abbreviation CleanupCacheRequestedAtAnnotation where "CleanupCacheRequestedAtAnnotation \<equiv> ''cleanup-cache.baker.toggle-corp.com/requested-at''"
abbreviation CleanupCacheByAnnotation where "CleanupCacheByAnnotation \<equiv> ''cleanup-cache.baker.toggle-corp.com/by''"
abbreviation CleanupReleasesRequestedAtAnnotation where "CleanupReleasesRequestedAtAnnotation \<equiv> ''cleanup-releases.baker.toggle-corp.com/requested-at''"
abbreviation CleanupReleasesByAnnotation where "CleanupReleasesByAnnotation \<equiv> ''cleanup-releases.baker.toggle-corp.com/by''"

abbreviation PhaseAwaitingFirstBuild where "PhaseAwaitingFirstBuild \<equiv> ''AwaitingFirstBuild''"
abbreviation PhaseBuilding where "PhaseBuilding \<equiv> ''Building''"
abbreviation PhaseReady where "PhaseReady \<equiv> ''Ready''"
abbreviation PhaseDegraded where "PhaseDegraded \<equiv> ''Degraded''"

definition AllPhases :: "string list" where
  "AllPhases = [PhaseAwaitingFirstBuild, PhaseBuilding, PhaseReady, PhaseDegraded]"

abbreviation ConditionReady where "ConditionReady \<equiv> ''Ready''"
abbreviation ConditionBuildSucceeded where "ConditionBuildSucceeded \<equiv> ''BuildSucceeded''"
abbreviation ConditionIngressReady where "ConditionIngressReady \<equiv> ''IngressReady''"
abbreviation ConditionDegraded where "ConditionDegraded \<equiv> ''Degraded''"

abbreviation ReasonAwaitingFirstBuild where "ReasonAwaitingFirstBuild \<equiv> ''AwaitingFirstBuild''"
abbreviation ReasonBuilding where "ReasonBuilding \<equiv> ''Building''"
abbreviation ReasonReady where "ReasonReady \<equiv> ''Ready''"
abbreviation ReasonInvalidStorageClass where "ReasonInvalidStorageClass \<equiv> ''InvalidStorageClass''"
abbreviation ReasonImageNotAllowed where "ReasonImageNotAllowed \<equiv> ''ImageNotAllowed''"
abbreviation ReasonUnknownNodeVersion where "ReasonUnknownNodeVersion \<equiv> ''UnknownNodeVersion''"
abbreviation ReasonInvalidStorage where "ReasonInvalidStorage \<equiv> ''InvalidStorage''"
abbreviation ReasonInvalidSpec where "ReasonInvalidSpec \<equiv> ''InvalidSpec''"
abbreviation ReasonMissingTLSSecret where "ReasonMissingTLSSecret \<equiv> ''MissingTLSSecret''"
abbreviation ReasonConfigError where "ReasonConfigError \<equiv> ''ConfigError''"
abbreviation ReasonInvalidRepoAuth where "ReasonInvalidRepoAuth \<equiv> ''InvalidRepoAuth''"
abbreviation ReasonBuildFailed where "ReasonBuildFailed \<equiv> ''BuildFailed''"
abbreviation TerminationReasonOOMKilled where "TerminationReasonOOMKilled \<equiv> ''OOMKilled''"
abbreviation ReasonOOMKilled where "ReasonOOMKilled \<equiv> TerminationReasonOOMKilled"

abbreviation BuildResultSucceeded where "BuildResultSucceeded \<equiv> ''Succeeded''"
abbreviation BuildResultFailed where "BuildResultFailed \<equiv> ''Failed''"
abbreviation BuildResultAborted where "BuildResultAborted \<equiv> ''Aborted''"

abbreviation StepStatusPending where "StepStatusPending \<equiv> ''Pending''"
abbreviation StepStatusRunning where "StepStatusRunning \<equiv> ''Running''"
abbreviation StepStatusSucceeded where "StepStatusSucceeded \<equiv> ''Succeeded''"
abbreviation StepStatusFailed where "StepStatusFailed \<equiv> ''Failed''"
abbreviation StepStatusAborted where "StepStatusAborted \<equiv> ''Aborted''"

abbreviation StepClone where "StepClone \<equiv> ''clone''"
abbreviation StepSetup where "StepSetup \<equiv> ''setup''"
abbreviation StepFetch where "StepFetch \<equiv> ''fetch''"
abbreviation StepBuild where "StepBuild \<equiv> ''build''"
abbreviation StepCopier where "StepCopier \<equiv> ''copier''"
abbreviation StepRelease where "StepRelease \<equiv> ''release''"

abbreviation BuildTriggerScheduled where "BuildTriggerScheduled \<equiv> ''Scheduled''"
abbreviation BuildTriggerManual where "BuildTriggerManual \<equiv> ''Manual''"
abbreviation BuildTriggerSpecChange where "BuildTriggerSpecChange \<equiv> ''SpecChange''"
abbreviation BuildTriggerCommit where "BuildTriggerCommit \<equiv> ''Commit''"

abbreviation BuildPhasePending where "BuildPhasePending \<equiv> ''Pending''"
abbreviation BuildPhaseRunning where "BuildPhaseRunning \<equiv> ''Running''"
abbreviation BuildPhaseComplete where "BuildPhaseComplete \<equiv> ''Complete''"

abbreviation PackageManagerYarn where "PackageManagerYarn \<equiv> ''yarn''"
abbreviation PackageManagerPnpm where "PackageManagerPnpm \<equiv> ''pnpm''"

section \<open>Spec\<close>

record ConfigMapKeySelector =
  cks_Name :: string
  cks_Key :: string

record SecretKeySelector =
  sks_Name :: string
  sks_Key :: string

record EnvVarSource =
  evs_ConfigMapKeyRef :: "ConfigMapKeySelector option"

record EnvVar =
  ev_Name :: string
  ev_Value :: string
  ev_ValueFrom :: "EnvVarSource option"

record EnvVarWithSecretSource =
  evss_SecretKeyRef :: SecretKeySelector

record EnvVarWithSecret =
  evs_Name :: string
  evs_ValueFrom :: EnvVarWithSecretSource

record PhaseSpec =
  ps_Image :: string
  ps_Command :: "string list"
  ps_Env :: "EnvVar list"
  ps_EnvMap :: "string gomap"
  ps_RunAsUser :: "int option"
  ps_MemoryLimit :: string

record BuildPhaseSpec =
  bps_Phase :: PhaseSpec
  bps_OutputDir :: string

record FetchPhaseSpec =
  fps_Phase :: PhaseSpec
  fps_Secrets :: "EnvVarWithSecret list"

record SetupPhaseSpec =
  sps_Phase :: PhaseSpec
  sps_Skip :: bool

record PhasesSpec =
  phs_Setup :: SetupPhaseSpec
  phs_Fetch :: FetchPhaseSpec
  phs_Build :: BuildPhaseSpec

record PipelineSpec =
  pl_NodeVersion :: int
  pl_PackageManager :: string
  pl_Submodules :: bool
  pl_Timeout :: "duration option"
  pl_Phases :: PhasesSpec

record TLSConfig =
  tls_SecretName :: string

record IngressConfig =
  ing_ClassName :: "string option"
  ing_Host :: string
  ing_TLS :: "TLSConfig option"
  ing_Annotations :: "string gomap"

record AuthSecretRef =
  asr_Name :: string
  asr_Key :: string

record AuthConfig =
  auth_PasswordHash :: "string option"
  auth_SecretRef :: "AuthSecretRef option"

record RepoAuthSecretRef =
  rasr_Name :: string

record RepoAuthConfig =
  ra_SecretRef :: RepoAuthSecretRef

record CacheThresholds =
  ct_CleanupBytes :: int
  ct_AlertBytes :: int

record DataCacheThresholds =
  dct_CleanupBytes :: int
  dct_AlertBytes :: int
  dct_RunDeltaBytes :: int

record OutputThresholds =
  ot_AlertBytes :: int
  ot_CapBytes :: int

record StorageSpec =
  sts_Cache :: CacheThresholds
  sts_DataCache :: DataCacheThresholds
  sts_Output :: OutputThresholds

record ScheduledBuildsSpec =
  sb_Enabled :: bool
  sb_Schedule :: string
  sb_AlertThreshold :: int

record WatchCommitsSpec =
  wc_Enabled :: bool
  wc_Interval :: string

record HistorySpec =
  hs_KeepRecent :: int
  hs_KeepFailed :: int

record AppSpec =
  spec_Repo :: string
  spec_Ref :: string
  spec_Group :: string
  spec_ScheduledBuilds :: "ScheduledBuildsSpec option"
  spec_WatchCommits :: "WatchCommitsSpec option"
  spec_Pipeline :: PipelineSpec
  spec_KeepReleases :: int
  spec_RepoAuth :: "RepoAuthConfig option"
  spec_Ingress :: IngressConfig
  spec_Auth :: "AuthConfig option"
  spec_Storage :: StorageSpec
  spec_History :: "HistorySpec option"

section \<open>Status\<close>

record BuildStep =
  step_Name :: string
  step_Status :: string
  step_Message :: string
  step_PeakMemoryBytes :: int
  step_StartedAt :: "time option"
  step_FinishedAt :: "time option"
  step_MemoryLimit :: string

record BuildTermination =
  term_Reason :: string
  term_Container :: string
  term_ExitCode :: int
  term_MemoryLimit :: string
  term_FinishedAt :: "time option"

record BuildStatus =
  build_Phase :: string
  build_Result :: string
  build_JobName :: string
  build_PodName :: string
  build_StartTime :: "time option"
  build_CompletionTime :: "time option"
  build_Attempts :: int
  build_Trigger :: string
  build_TriggeredBy :: string
  build_Commit :: string
  build_Steps :: "BuildStep list"
  build_ResolvedImages :: "string gomap"
  build_FailedStep :: string
  build_Message :: string
  build_LogsRef :: string
  build_Termination :: "BuildTermination option"

record ReleaseStatus =
  rel_Current :: string
  rel_Previous :: string
  rel_ServingSince :: "time option"

record StorageStatus =
  stor_MeasuredAt :: "time option"
  stor_Sizes :: "int gomap"
  stor_LastRunDeltas :: "int gomap"
  stor_ThresholdState :: string
  stor_ReleaseCount :: int
  stor_Capacities :: "int gomap"

record CleanupActionStatus =
  cas_RequestedAt :: string
  cas_RequestedBy :: string
  cas_Phase :: string
  cas_StartedAt :: "time option"
  cas_CompletedAt :: "time option"
  cas_ReclaimedBytes :: int
  cas_Message :: string

record CleanupStatus =
  cs_Cache :: "CleanupActionStatus option"
  cs_Releases :: "CleanupActionStatus option"

record ManualTrigger =
  mt_TriggeredBy :: string
  mt_Time :: "time option"

record Condition =
  cond_Type :: string
  cond_Status :: string
  cond_Reason :: string
  cond_Message :: string
  cond_LastTransitionTime :: time
  cond_ObservedGeneration :: int

abbreviation ConditionTrue where "ConditionTrue \<equiv> ''True''"
abbreviation ConditionFalse where "ConditionFalse \<equiv> ''False''"

record AppStatus =
  st_ObservedGeneration :: int
  st_Phase :: string
  st_NodeName :: string
  st_URL :: string
  st_SpecStale :: bool
  st_Conditions :: "Condition list"
  st_Build :: BuildStatus
  st_ConsecutiveScheduledFailures :: int
  st_BuildHistory :: "BuildStatus list"
  st_FailedBuildHistory :: "BuildStatus list"
  st_LastProcessedRebuild :: string
  st_LastBuiltSpecHash :: string
  st_LastBuildTime :: "time option"
  st_LastSuccessfulBuildTime :: "time option"
  st_Release :: ReleaseStatus
  st_Storage :: StorageStatus
  st_LastManualTrigger :: ManualTrigger
  st_Cleanup :: "CleanupStatus option"

record App =
  app_Name :: string
  app_Namespace :: string
  app_UID :: string
  app_Generation :: int
  app_Annotations :: "string gomap"
  app_Finalizers :: "string list"
  app_DeletionTimestamp :: "time option"
  app_Spec :: AppSpec
  app_Status :: AppStatus

record AppList =
  apps_Items :: "App list"

definition upd_status :: "(AppStatus \<Rightarrow> AppStatus) \<Rightarrow> App \<Rightarrow> App" where
  "upd_status f app = app\<lparr>app_Status := f (app_Status app)\<rparr>"

definition upd_build :: "(BuildStatus \<Rightarrow> BuildStatus) \<Rightarrow> App \<Rightarrow> App" where
  "upd_build f = upd_status (\<lambda>st. st\<lparr>st_Build := f (st_Build st)\<rparr>)"

definition upd_storage :: "(StorageStatus \<Rightarrow> StorageStatus) \<Rightarrow> App \<Rightarrow> App" where
  "upd_storage f = upd_status (\<lambda>st. st\<lparr>st_Storage := f (st_Storage st)\<rparr>)"

lemma upd_status_frame [simp]:
  "app_Name (upd_status f app) = app_Name app"
  "app_Namespace (upd_status f app) = app_Namespace app"
  "app_UID (upd_status f app) = app_UID app"
  "app_Generation (upd_status f app) = app_Generation app"
  "app_Annotations (upd_status f app) = app_Annotations app"
  "app_Finalizers (upd_status f app) = app_Finalizers app"
  "app_DeletionTimestamp (upd_status f app) = app_DeletionTimestamp app"
  "app_Spec (upd_status f app) = app_Spec app"
  "app_Status (upd_status f app) = f (app_Status app)"
  by (simp_all add: upd_status_def)

lemma upd_build_frame [simp]:
  "app_Name (upd_build f app) = app_Name app"
  "app_Namespace (upd_build f app) = app_Namespace app"
  "app_Annotations (upd_build f app) = app_Annotations app"
  "app_Generation (upd_build f app) = app_Generation app"
  "app_Spec (upd_build f app) = app_Spec app"
  "st_Build (app_Status (upd_build f app)) = f (st_Build (app_Status app))"
  "st_Conditions (app_Status (upd_build f app)) = st_Conditions (app_Status app)"
  "st_Storage (app_Status (upd_build f app)) = st_Storage (app_Status app)"
  "st_Cleanup (app_Status (upd_build f app)) = st_Cleanup (app_Status app)"
  "st_LastProcessedRebuild (app_Status (upd_build f app)) = st_LastProcessedRebuild (app_Status app)"
  "st_LastBuiltSpecHash (app_Status (upd_build f app)) = st_LastBuiltSpecHash (app_Status app)"
  "st_LastSuccessfulBuildTime (app_Status (upd_build f app)) = st_LastSuccessfulBuildTime (app_Status app)"
  by (simp_all add: upd_build_def)

lemma upd_storage_frame [simp]:
  "app_Name (upd_storage f app) = app_Name app"
  "app_Namespace (upd_storage f app) = app_Namespace app"
  "app_Annotations (upd_storage f app) = app_Annotations app"
  "app_Generation (upd_storage f app) = app_Generation app"
  "app_Spec (upd_storage f app) = app_Spec app"
  "st_Storage (app_Status (upd_storage f app)) = f (st_Storage (app_Status app))"
  "st_Build (app_Status (upd_storage f app)) = st_Build (app_Status app)"
  "st_Conditions (app_Status (upd_storage f app)) = st_Conditions (app_Status app)"
  "st_Cleanup (app_Status (upd_storage f app)) = st_Cleanup (app_Status app)"
  "st_LastProcessedRebuild (app_Status (upd_storage f app)) = st_LastProcessedRebuild (app_Status app)"
  "st_LastBuiltSpecHash (app_Status (upd_storage f app)) = st_LastBuiltSpecHash (app_Status app)"
  "st_LastSuccessfulBuildTime (app_Status (upd_storage f app)) = st_LastSuccessfulBuildTime (app_Status app)"
  by (simp_all add: upd_storage_def)

end
