(* ===== verification/Kube_Types.thy ===== *)
theory Kube_Types
  imports App_Types
begin

text \<open>
  The Kubernetes API types the operator reads and writes (\<open>k8s.io/api\<close>), restricted to the fields
  the sources use. A \<open>resource.Quantity\<close> is represented by its canonical string; parsing and
  evaluating quantities belong to the Kubernetes libraries and are parameters of the definitions
  that use them. \<open>object\<close> is the sum of the kinds the operator creates, applies or deletes.
\<close>

type_synonym quantity = string

record OwnerReference =
  or_UID :: string
  or_Controller :: "bool option"

record ObjectMeta =
  om_Name :: string
  om_Namespace :: string
  om_UID :: string
  om_Labels :: "string gomap"
  om_Annotations :: "string gomap"
  om_OwnerReferences :: "OwnerReference list"

definition new_meta :: "string \<Rightarrow> string \<Rightarrow> string gomap \<Rightarrow> ObjectMeta" where
  \<comment> \<open>\<open>metav1.ObjectMeta{Name: .., Namespace: .., Labels: ..}\<close>\<close>
  "new_meta name ns labels = \<lparr>om_Name = name, om_Namespace = ns, om_UID = '''', om_Labels = labels,
     om_Annotations = [], om_OwnerReferences = []\<rparr>"

section \<open>Pods\<close>

datatype env_source = ConfigMapKeyRef string string | SecretKeyRef string string

record kEnvVar =
  ke_Name :: string
  ke_Value :: string
  ke_ValueFrom :: "env_source option"

definition env_lit :: "string \<Rightarrow> string \<Rightarrow> kEnvVar" where
  "env_lit n v = \<lparr>ke_Name = n, ke_Value = v, ke_ValueFrom = None\<rparr>"

record VolumeMount =
  vm_Name :: string
  vm_MountPath :: string
  vm_ReadOnly :: bool

datatype volume_source =
    EmptyDir "int option"
  | PersistentVolumeClaim string bool
  | SecretVolume string "(string \<times> string) list"
  | ConfigMapVolume string

record Volume =
  vol_Name :: string
  vol_Source :: volume_source

record SecurityContext =
  sc_RunAsUser :: "int option"
  sc_RunAsGroup :: "int option"
  sc_RunAsNonRoot :: "bool option"
  sc_ReadOnlyRootFilesystem :: "bool option"
  sc_AllowPrivilegeEscalation :: "bool option"
  sc_CapDrop :: "string list"
  sc_CapAdd :: "string list"
  sc_SeccompProfile :: "string option"

record ResourceRequirements =
  rr_Requests :: "quantity gomap"
  rr_Limits :: "quantity gomap"

record Container =
  c_Name :: string
  c_Image :: string
  c_Command :: "string list"
  c_WorkingDir :: string
  c_Env :: "kEnvVar list"
  c_VolumeMounts :: "VolumeMount list"
  c_Resources :: ResourceRequirements
  c_SecurityContext :: "SecurityContext option"
  c_TerminationMessagePolicy :: string
  c_Ports :: "int list"

definition empty_container :: Container where
  "empty_container = \<lparr>c_Name = '''', c_Image = '''', c_Command = [], c_WorkingDir = '''', c_Env = [],
     c_VolumeMounts = [], c_Resources = \<lparr>rr_Requests = [], rr_Limits = []\<rparr>,
     c_SecurityContext = None, c_TerminationMessagePolicy = '''', c_Ports = []\<rparr>"

record PodSpec =
  pod_RestartPolicy :: string
  pod_AutomountServiceAccountToken :: "bool option"
  pod_ServiceAccountName :: string
  pod_RunAsNonRoot :: "bool option"
  pod_SeccompProfile :: "string option"
  pod_InitContainers :: "Container list"
  pod_Containers :: "Container list"
  pod_Volumes :: "Volume list"
  pod_ImagePullSecrets :: "string list"
  pod_NodeName :: string

record ContainerStateTerminated =
  cst_ExitCode :: int
  cst_Reason :: string
  cst_Message :: string
  cst_StartedAt :: time
  cst_FinishedAt :: time

record ContainerStatus =
  cstat_Name :: string
  cstat_Running :: "time option"
  cstat_Terminated :: "ContainerStateTerminated option"

record Pod =
  p_Meta :: ObjectMeta
  p_Spec :: PodSpec
  p_InitContainerStatuses :: "ContainerStatus list"
  p_ContainerStatuses :: "ContainerStatus list"

section \<open>Jobs\<close>

record JobCondition =
  jc_Type :: string
  jc_Status :: string
  jc_Message :: string

abbreviation JobComplete where "JobComplete \<equiv> ''Complete''"
abbreviation JobFailed where "JobFailed \<equiv> ''Failed''"

record Job =
  j_Meta :: ObjectMeta
  j_BackoffLimit :: "int option"
  j_ActiveDeadlineSeconds :: "int option"
  j_TTLSecondsAfterFinished :: "int option"
  j_TemplateLabels :: "string gomap"
  j_PodSpec :: PodSpec
  j_Conditions :: "JobCondition list"

record CronJob =
  cj_Meta :: ObjectMeta
  cj_Schedule :: string
  cj_ConcurrencyPolicy :: string
  cj_SuccessfulJobsHistoryLimit :: int
  cj_FailedJobsHistoryLimit :: int
  cj_BackoffLimit :: int
  cj_TemplateLabels :: "string gomap"
  cj_PodSpec :: PodSpec

section \<open>Other kinds\<close>

record PVC =
  pvc_Meta :: ObjectMeta
  pvc_AccessModes :: "string list"
  pvc_StorageClassName :: string
  pvc_Request :: quantity
  pvc_Capacity :: "quantity option"

record Secret =
  sec_Meta :: ObjectMeta
  sec_Type :: string
  sec_Data :: "string gomap"

record PolicyRule =
  pr_APIGroups :: "string list"
  pr_Resources :: "string list"
  pr_Verbs :: "string list"
  pr_ResourceNames :: "string list"

record np_peer =
  np_NamespaceSelector :: "string gomap option"
  np_PodSelector :: "string gomap option"
  np_IPBlock :: "(string \<times> string list) option"

record np_rule =
  np_Peers :: "np_peer list"
  np_Ports :: "(string \<times> int) list"

record NetworkPolicy =
  np_Meta :: ObjectMeta
  np_Selector :: "string gomap"
  np_PolicyTypes :: "string list"
  np_Ingress :: "np_rule list"
  np_Egress :: "np_rule list"

record Deployment =
  dep_Meta :: ObjectMeta
  dep_Replicas :: int
  dep_Strategy :: string
  dep_Selector :: "string gomap"
  dep_TemplateLabels :: "string gomap"
  dep_PodSpec :: PodSpec

record Ingress =
  in_Meta :: ObjectMeta
  in_ClassName :: "string option"
  in_Host :: string
  in_Path :: string
  in_PathType :: string
  in_Service :: string
  in_ServicePort :: int
  in_TLS :: "(string list \<times> string) list"

datatype object =
    OJob Job
  | OCronJob CronJob
  | OPVC PVC
  | OSecret Secret
  | OConfigMap ObjectMeta "string gomap"
  | OService ObjectMeta "string gomap" int int
  | ODeployment Deployment
  | OIngress Ingress
  | ONetworkPolicy NetworkPolicy
  | OServiceAccount ObjectMeta
  | ORole ObjectMeta "PolicyRule list"
  | ORoleBinding ObjectMeta "string \<times> string \<times> string" string
  | OMiddleware ObjectMeta string string

fun obj_meta :: "object \<Rightarrow> ObjectMeta" where
  "obj_meta (OJob j) = j_Meta j"
| "obj_meta (OCronJob c) = cj_Meta c"
| "obj_meta (OPVC p) = pvc_Meta p"
| "obj_meta (OSecret s) = sec_Meta s"
| "obj_meta (OConfigMap m d) = m"
| "obj_meta (OService m l p t) = m"
| "obj_meta (ODeployment d) = dep_Meta d"
| "obj_meta (OIngress i) = in_Meta i"
| "obj_meta (ONetworkPolicy n) = np_Meta n"
| "obj_meta (OServiceAccount m) = m"
| "obj_meta (ORole m rs) = m"
| "obj_meta (ORoleBinding m s r) = m"
| "obj_meta (OMiddleware m g s) = m"

datatype object_kind = KJob | KCronJob | KPVC | KSecret | KConfigMap | KService | KDeployment
  | KIngress | KNetworkPolicy | KServiceAccount | KRole | KRoleBinding | KMiddleware

fun obj_kind :: "object \<Rightarrow> object_kind" where
  "obj_kind (OJob _) = KJob"
| "obj_kind (OCronJob _) = KCronJob"
| "obj_kind (OPVC _) = KPVC"
| "obj_kind (OSecret _) = KSecret"
| "obj_kind (OConfigMap _ _) = KConfigMap"
| "obj_kind (OService _ _ _ _) = KService"
| "obj_kind (ODeployment _) = KDeployment"
| "obj_kind (OIngress _) = KIngress"
| "obj_kind (ONetworkPolicy _) = KNetworkPolicy"
| "obj_kind (OServiceAccount _) = KServiceAccount"
| "obj_kind (ORole _ _) = KRole"
| "obj_kind (ORoleBinding _ _ _) = KRoleBinding"
| "obj_kind (OMiddleware _ _ _) = KMiddleware"

end
