(* ===== verification/Domain_WatchCron.thy ===== *)
theory Domain_WatchCron
  imports Go_Time
begin

text \<open>
  \<open>internal/domain/watchschedule.go\<close>: a commit-watch poll interval as a cron schedule.
\<close>

datatype watch_error = BadDuration | BelowOneMinute | NotWholeMinutes | NotWholeHours | AboveMaxHours

definition every_minutes :: "int \<Rightarrow> string" where
  "every_minutes m = ''*/'' @ Itoa m @ '' * * * *''"

definition every_hours :: "int \<Rightarrow> string" where
  "every_hours h = ''0 */'' @ Itoa h @ '' * * *''"

definition WatchCron :: "string \<Rightarrow> watch_error + string" where
  "WatchCron interval =
     (case ParseDuration interval of
        None \<Rightarrow> Inl BadDuration
      | Some d \<Rightarrow>
          if d < Minute then Inl BelowOneMinute
          else if remd d Minute \<noteq> 0 then Inl NotWholeMinutes
          else let minutes = quot d Minute in
            if minutes \<le> 59 then Inr (every_minutes minutes)
            else if remd d Hour \<noteq> 0 then Inl NotWholeHours
            else let hours = quot d Hour in
              if hours > 23 then Inl AboveMaxHours
              else Inr (every_hours hours))"

lemma WatchCron_minutes:
  "ParseDuration s = Some (m * Minute) \<Longrightarrow> 1 \<le> m \<Longrightarrow> m \<le> 59 \<Longrightarrow> WatchCron s = Inr (every_minutes m)"
  by (simp add: WatchCron_def Minute_def)

lemma WatchCron_hours:
  "ParseDuration s = Some (h * Hour) \<Longrightarrow> 1 \<le> h \<Longrightarrow> h \<le> 23 \<Longrightarrow> WatchCron s = Inr (every_hours h)"
  by (simp add: WatchCron_def Minute_def Hour_def)

lemma multiple_of:
  assumes "0 < u" "u \<le> d" "remd d u = (0::int)"
  shows "d = quot d u * u" "1 \<le> quot d u"
proof -
  have "d mod u = 0" using assms by simp
  then show "d = quot d u * u" using assms by (simp add: mult.commute minus_mod_eq_mult_div [symmetric])
  show "1 \<le> quot d u" using assms by (simp add: pos_imp_zdiv_pos_iff int_one_le_iff_zero_less)
qed

text \<open>A schedule is produced exactly for the intervals cron can express: whole minutes from 1
  to 59, or whole hours from 1 to 23, and it polls at that period; every other interval, an
  unparseable one included, is an error.\<close>

theorem WatchCron_iff:
  "WatchCron s = Inr cron \<longleftrightarrow>
     (\<exists>m. 1 \<le> m \<and> m \<le> 59 \<and> ParseDuration s = Some (m * Minute) \<and> cron = every_minutes m) \<or>
     (\<exists>h. 1 \<le> h \<and> h \<le> 23 \<and> ParseDuration s = Some (h * Hour) \<and> cron = every_hours h)"
  (is "?lhs \<longleftrightarrow> ?rhs")
proof
  assume "?rhs"
  then show ?lhs using WatchCron_minutes WatchCron_hours by blast
next
  assume l: ?lhs
  then obtain d where d: "ParseDuration s = Some d" and ge: "Minute \<le> d" and r: "remd d Minute = 0"
    by (auto simp: WatchCron_def split: option.splits if_splits)
  have m: "d = quot d Minute * Minute" "1 \<le> quot d Minute"
    using multiple_of [OF _ ge r] by (auto simp only: Minute_def)
  show ?rhs
  proof (cases "quot d Minute \<le> 59")
    case True
    have "WatchCron s = Inr (every_minutes (quot d Minute))"
      using d ge r True by (simp add: WatchCron_def)
    with l True m d show ?thesis by (metis sum.inject(2))
  next
    case False
    then have "Hour \<le> d" using m(1) by (simp add: Minute_def Hour_def)
    moreover have h: "remd d Hour = 0" "quot d Hour \<le> 23" "cron = every_hours (quot d Hour)"
      using l d ge r False by (auto simp: WatchCron_def Let_def split: if_splits)
    ultimately have "d = quot d Hour * Hour" "1 \<le> quot d Hour"
      using multiple_of [OF _ _ h(1)] by (auto simp only: Hour_def)
    with h d show ?thesis by metis
  qed
qed

text \<open>The usual spellings are accepted: \<open>Nm\<close> for N from 1 to 59 and \<open>Nh\<close> for N from 1 to 23
  give the schedules with those numbers.\<close>

lemma WatchCron_spellings:
  assumes "1 \<le> n"
  shows "(n \<le> 59 \<longrightarrow> WatchCron (nat_dec n @ ''m'') = Inr (every_minutes (int n))) \<and>
    (n \<le> 23 \<longrightarrow> WatchCron (nat_dec n @ ''h'') = Inr (every_hours (int n)))"
proof -
  have "ParseDuration (nat_dec n @ ''m'') = Some (int n * Minute)" if "n \<le> 59"
    using ParseDuration_whole [of "CHR ''m''" 60000000000 n] that
    by (simp add: unitMap_def unit_char_def is_digit_def byte_def Minute_def)
  moreover have "ParseDuration (nat_dec n @ ''h'') = Some (int n * Hour)" if "n \<le> 23"
    using ParseDuration_whole [of "CHR ''h''" 3600000000000 n] that
    by (simp add: unitMap_def unit_char_def is_digit_def byte_def Hour_def)
  ultimately show ?thesis using assms by (simp add: WatchCron_minutes WatchCron_hours)
qed

end
