(* ===== verification/Build_Steps.thy ===== *)
theory Build_Steps
  imports Kube_Types Domain_WatchCron
begin

text \<open>
  \<open>internal/controller/buildsteps.go\<close>, \<open>termination.go\<close>, \<open>platformfault.go\<close> and \<open>naming.go\<close>: the
  step timeline of a build read from its pod, the trigger classification, the two history rings,
  the scheduled-failure streak, the termination record of a failed step, and the blame decision.
\<close>

section \<open>naming.go\<close>

definition cacheePVCName :: "App \<Rightarrow> string" where "cacheePVCName app = app_Name app @ ''-cache''"
definition dataCachePVCName :: "App \<Rightarrow> string" where "dataCachePVCName app = app_Name app @ ''-data-cache''"
definition outputPVCName :: "App \<Rightarrow> string" where "outputPVCName app = app_Name app @ ''-output''"
definition clockCronJobName :: "App \<Rightarrow> string" where "clockCronJobName app = app_Name app @ ''-clock''"
definition watchCronJobName :: "App \<Rightarrow> string" where "watchCronJobName app = app_Name app @ ''-watch''"
definition clockSAName :: "App \<Rightarrow> string" where "clockSAName app = app_Name app @ ''-clock''"
definition clockRoleName :: "App \<Rightarrow> string" where "clockRoleName app = app_Name app @ ''-clock''"
definition clockBindingName :: "App \<Rightarrow> string" where "clockBindingName app = app_Name app @ ''-clock''"
definition nginxDeployName :: "App \<Rightarrow> string" where "nginxDeployName app = app_Name app @ ''-nginx''"
definition nginxConfigName :: "App \<Rightarrow> string" where "nginxConfigName app = app_Name app @ ''-nginx-conf''"
definition serviceName :: "App \<Rightarrow> string" where "serviceName app = app_Name app"
definition ingressName :: "App \<Rightarrow> string" where "ingressName app = app_Name app"
definition middlewareName :: "App \<Rightarrow> string" where "middlewareName app = app_Name app @ ''-auth''"
definition buildNetPolName :: "App \<Rightarrow> string" where "buildNetPolName app = app_Name app @ ''-build''"
definition nginxNetPolName :: "App \<Rightarrow> string" where "nginxNetPolName app = app_Name app @ ''-nginx''"
definition triggerNetPolName :: "App \<Rightarrow> string" where "triggerNetPolName app = app_Name app @ ''-trigger''"
definition gitCredentialSecretName :: "App \<Rightarrow> string" where
  "gitCredentialSecretName app = app_Name app @ ''-git-credential''"

definition managedBy :: string where "managedBy = ''toggle-web-baker''"

abbreviation roleLabel where "roleLabel \<equiv> ''baker.toggle-corp.com/role''"
abbreviation instanceLabel where "instanceLabel \<equiv> ''app.kubernetes.io/instance''"

definition labelsFor :: "App \<Rightarrow> string gomap" where
  "labelsFor app = [(''app.kubernetes.io/name'', ''app''), (instanceLabel, app_Name app),
                    (''app.kubernetes.io/managed-by'', managedBy)]"

definition buildLabelsFor :: "App \<Rightarrow> string gomap" where
  "buildLabelsFor app = AList.update roleLabel ''build'' (labelsFor app)"

definition nginxLabelsFor :: "App \<Rightarrow> string gomap" where
  "nginxLabelsFor app = AList.update roleLabel ''nginx'' (labelsFor app)"

definition triggerLabelsFor :: "App \<Rightarrow> string gomap" where
  "triggerLabelsFor app = AList.update roleLabel ''trigger'' (labelsFor app)"

section \<open>Which steps apply\<close>

abbreviation pipeline where "pipeline app \<equiv> spec_Pipeline (app_Spec app)"
abbreviation phases where "phases app \<equiv> pl_Phases (spec_Pipeline (app_Spec app))"

definition phaseConfigured :: "PhaseSpec \<Rightarrow> bool" where
  "phaseConfigured p \<longleftrightarrow> ps_Image p \<noteq> '''' \<or> ps_Command p \<noteq> []"

definition setupRuns :: "App \<Rightarrow> bool" where
  "setupRuns app =
     (let setup = phs_Setup (phases app)
      in if sps_Skip setup then False
         else phaseConfigured (sps_Phase setup) \<or> pl_NodeVersion (pipeline app) \<noteq> 0)"

definition applicableSteps :: "App \<Rightarrow> string list" where
  "applicableSteps app =
     [StepClone] @
     (if setupRuns app then [StepSetup] else []) @
     (if phaseConfigured (fps_Phase (phs_Fetch (phases app))) then [StepFetch] else []) @
     [StepBuild, StepCopier, StepRelease]"

section \<open>Step timeline\<close>

definition new_step :: "string \<Rightarrow> string \<Rightarrow> BuildStep" where
  "new_step name status = \<lparr>step_Name = name, step_Status = status, step_Message = '''',
     step_PeakMemoryBytes = 0, step_StartedAt = None, step_FinishedAt = None, step_MemoryLimit = ''''\<rparr>"

definition containerStepStatus :: "ContainerStatus option \<Rightarrow> string" where
  "containerStepStatus cs =
     (case cs of
        None \<Rightarrow> StepStatusPending
      | Some c \<Rightarrow>
          (case cstat_Terminated c of
             Some t \<Rightarrow> if cst_ExitCode t = 0 then StepStatusSucceeded else StepStatusFailed
           | None \<Rightarrow> (case cstat_Running c of
               Some _ \<Rightarrow> StepStatusRunning
             | None \<Rightarrow> StepStatusPending)))"

definition allSucceeded :: "string list \<Rightarrow> BuildStep list" where
  "allSucceeded applicable = map (\<lambda>name. new_step name StepStatusSucceeded) applicable"

definition findContainerStatus :: "ContainerStatus list \<Rightarrow> string \<Rightarrow> ContainerStatus option" where
  "findContainerStatus statuses name = find (\<lambda>cs. cstat_Name cs = name) statuses"

definition containerRan :: "ContainerStatus option \<Rightarrow> bool" where
  "containerRan cs = (case cs of None \<Rightarrow> False
     | Some c \<Rightarrow> cstat_Running c \<noteq> None \<or> cstat_Terminated c \<noteq> None)"

definition stampStepTimes :: "BuildStep \<Rightarrow> ContainerStatus option \<Rightarrow> BuildStep" where
  "stampStepTimes step cs =
     (case cs of
        None \<Rightarrow> step
      | Some c \<Rightarrow>
          (case cstat_Terminated c of
             Some t \<Rightarrow>
               let step1 = (if \<not> IsZero (cst_StartedAt t) then step\<lparr>step_StartedAt := Some (cst_StartedAt t)\<rparr> else step)
               in if \<not> IsZero (cst_FinishedAt t) then step1\<lparr>step_FinishedAt := Some (cst_FinishedAt t)\<rparr> else step1
           | None \<Rightarrow> (case cstat_Running c of
               Some s \<Rightarrow> if \<not> IsZero s then step\<lparr>step_StartedAt := Some s\<rparr> else step
             | None \<Rightarrow> step)))"

definition peakMemoryKey :: string where "peakMemoryKey = ''peakMemoryBytes=''"

fun peak_lines :: "string list \<Rightarrow> int" where
  "peak_lines [] = 0"
| "peak_lines (line # rest) =
     (case CutPrefix (TrimSpace line) peakMemoryKey of
        (val, found) \<Rightarrow>
          if \<not> found then peak_lines rest
          else (case ParseInt (TrimSpace val) of
             None \<Rightarrow> 0
           | Some n \<Rightarrow> if n < 0 then 0 else n))"

definition parsePeakMemory :: "string \<Rightarrow> int" where
  "parsePeakMemory msg = peak_lines (SplitByte msg (CHR 0x0A))"

definition container_limit :: "string \<Rightarrow> Container list \<Rightarrow> string option" where
  \<comment> \<open>the inner loop of \<open>containerMemoryLimit\<close>: the answer of the first container of that name\<close>
  "container_limit name cs =
     (case find (\<lambda>c. c_Name c = name) cs of
        None \<Rightarrow> None
      | Some c \<Rightarrow> Some (case map_of (rr_Limits (c_Resources c)) ''memory'' of None \<Rightarrow> '''' | Some q \<Rightarrow> q))"

definition containerMemoryLimit :: "Pod \<Rightarrow> string \<Rightarrow> string" where
  "containerMemoryLimit pod name =
     (case container_limit name (pod_InitContainers (p_Spec pod)) of
        Some q \<Rightarrow> q
      | None \<Rightarrow> (case container_limit name (pod_Containers (p_Spec pod)) of Some q \<Rightarrow> q | None \<Rightarrow> ''''))"

definition container_step :: "Pod \<Rightarrow> string \<Rightarrow> ContainerStatus option \<Rightarrow> BuildStep" where
  \<comment> \<open>the lines the two container branches of \<open>deriveBuildSteps\<close> share\<close>
  "container_step pod name cs =
     (let step = stampStepTimes (new_step name (containerStepStatus cs)) cs
      in if containerRan cs then step\<lparr>step_MemoryLimit := containerMemoryLimit pod name\<rparr> else step)"

definition derive_step :: "Pod option \<Rightarrow> bool \<Rightarrow> string \<Rightarrow> BuildStep" where
  "derive_step pod releaseDone name =
     (if name = StepRelease then
        new_step name (if releaseDone then StepStatusSucceeded else StepStatusPending)
      else if name = StepCopier then
        (case pod of
           None \<Rightarrow> new_step name StepStatusPending
         | Some p \<Rightarrow> container_step p name (findContainerStatus (p_ContainerStatuses p) name))
      else
        (case pod of
           None \<Rightarrow> new_step name StepStatusPending
         | Some p \<Rightarrow>
             let cs = findContainerStatus (p_InitContainerStatuses p) name;
                 step = container_step p name cs
             in (case cs of
                   Some c \<Rightarrow> (case cstat_Terminated c of
                       Some t \<Rightarrow> step\<lparr>step_PeakMemoryBytes := parsePeakMemory (cst_Message t)\<rparr>
                     | None \<Rightarrow> step)
                 | None \<Rightarrow> step)))"

definition deriveBuildSteps :: "string list \<Rightarrow> Pod option \<Rightarrow> bool \<Rightarrow> BuildStep list" where
  "deriveBuildSteps applicable pod releaseDone = map (derive_step pod releaseDone) applicable"

fun failedStep :: "BuildStep list \<Rightarrow> string" where
  "failedStep [] = ''''"
| "failedStep (s # steps) =
     (if step_Status s = StepStatusFailed \<or> step_Status s = StepStatusAborted then step_Name s
      else failedStep steps)"

section \<open>Trigger, watch validation, streak\<close>

definition is_hex40 :: "string \<Rightarrow> bool" where
  \<comment> \<open>\<open>shaRefPattern\<close>: exactly forty lower-case hexadecimal digits\<close>
  "is_hex40 s \<longleftrightarrow> length s = 40 \<and> list_all (\<lambda>c. is_digit c \<or> (97 \<le> byte c \<and> byte c \<le> 102)) s"

datatype watch_commits_error = WatchInterval watch_error | PinnedSha string

definition validateWatchCommits :: "App \<Rightarrow> watch_commits_error option" where
  "validateWatchCommits app =
     (case spec_WatchCommits (app_Spec app) of
        None \<Rightarrow> None
      | Some wc \<Rightarrow>
          if \<not> wc_Enabled wc then None
          else
            let sha = (if is_hex40 (spec_Ref (app_Spec app)) then Some (PinnedSha (spec_Ref (app_Spec app))) else None)
            in if wc_Interval wc \<noteq> '''' then
                 (case WatchCron (wc_Interval wc) of Inl e \<Rightarrow> Some (WatchInterval e) | Inr _ \<Rightarrow> sha)
               else sha)"

definition classifyTrigger :: "App \<Rightarrow> string" where
  "classifyTrigger app =
     (if map_get (app_Annotations app) RebuildByAnnotation \<noteq> '''' then BuildTriggerManual
      else if map_get (app_Annotations app) RebuildCommitAnnotation \<noteq> '''' then BuildTriggerCommit
      else BuildTriggerScheduled)"

definition updateConsecutiveScheduledFailures :: "int \<Rightarrow> string \<Rightarrow> string \<Rightarrow> int" where
  "updateConsecutiveScheduledFailures current trigger result =
     (if result = BuildResultSucceeded then 0
      else if result = BuildResultFailed then
        (if trigger = BuildTriggerScheduled \<or> trigger = '''' then wrap64 (current + 1) else current)
      else current)"

section \<open>History rings\<close>

fun replace_job :: "BuildStatus list \<Rightarrow> BuildStatus \<Rightarrow> BuildStatus list option" where
  \<comment> \<open>the loop that overwrites the first entry with the record's job name, \<^const>\<open>None\<close> when there is none\<close>
  "replace_job [] rec = None"
| "replace_job (h # hs) rec =
     (if build_JobName h = build_JobName rec then Some (rec # hs) else map_option ((#) h) (replace_job hs rec))"

definition appendBuildHistory :: "BuildStatus list \<Rightarrow> BuildStatus \<Rightarrow> int \<Rightarrow> BuildStatus list" where
  "appendBuildHistory history rec cap =
     (case replace_job history rec of
        Some out \<Rightarrow> out
      | None \<Rightarrow>
          let out = rec # history
          in if cap \<ge> 0 \<and> int (length out) > cap then take (nat cap) out else out)"

definition trimToFailedStep :: "BuildStatus \<Rightarrow> BuildStatus" where
  "trimToFailedStep rec =
     (let want = (if build_FailedStep rec = '''' then failedStep (build_Steps rec) else build_FailedStep rec)
      in rec\<lparr>build_Steps := (case find (\<lambda>s. step_Name s = want) (build_Steps rec) of None \<Rightarrow> [] | Some s \<Rightarrow> [s])\<rparr>)"

definition appendFailedBuildHistory :: "BuildStatus list \<Rightarrow> BuildStatus \<Rightarrow> int \<Rightarrow> BuildStatus list" where
  "appendFailedBuildHistory history rec cap =
     (if build_Result rec \<noteq> BuildResultFailed then history
      else appendBuildHistory history (trimToFailedStep rec) cap)"

section \<open>termination.go\<close>

definition detectTermination :: "Pod option \<Rightarrow> string \<Rightarrow> BuildTermination option" where
  "detectTermination pod failedStepName =
     (case pod of
        None \<Rightarrow> None
      | Some p \<Rightarrow>
          if failedStepName = '''' \<or> failedStepName = StepRelease then None
          else
            let statuses = (if failedStepName = StepCopier then p_ContainerStatuses p else p_InitContainerStatuses p)
            in case findContainerStatus statuses failedStepName of
                 None \<Rightarrow> None
               | Some cs \<Rightarrow>
                   (case cstat_Terminated cs of
                      None \<Rightarrow> None
                    | Some t \<Rightarrow> Some \<lparr>term_Reason = cst_Reason t, term_Container = failedStepName,
                        term_ExitCode = cst_ExitCode t, term_MemoryLimit = containerMemoryLimit p failedStepName,
                        term_FinishedAt = (if IsZero (cst_FinishedAt t) then None else Some (cst_FinishedAt t))\<rparr>))"

fun stampStepMessage :: "BuildStep list \<Rightarrow> string \<Rightarrow> string \<Rightarrow> BuildStep list" where
  "stampStepMessage [] name msg = []"
| "stampStepMessage (s # steps) name msg =
     (if step_Name s = name then s\<lparr>step_Message := msg\<rparr> # steps else s # stampStepMessage steps name msg)"

definition terminationStepMessage :: "BuildTermination option \<Rightarrow> string" where
  "terminationStepMessage t =
     (case t of
        None \<Rightarrow> ''''
      | Some u \<Rightarrow>
          if term_Reason u = '''' then ''''
          else if term_MemoryLimit u \<noteq> '''' then term_Reason u @ '' (limit '' @ term_MemoryLimit u @ '')''
          else term_Reason u)"

definition oomConditionMessage :: "BuildTermination \<Rightarrow> string" where
  "oomConditionMessage t =
     (if term_MemoryLimit t \<noteq> '''' then
        ''the '' @ term_Container t @ '' step exceeded its '' @ term_MemoryLimit t @ '' memory limit''
      else ''the '' @ term_Container t @ '' step was OOMKilled'')"

section \<open>platformfault.go\<close>

definition isPlatformFault :: "string \<Rightarrow> string \<Rightarrow> bool" where
  "isPlatformFault reason failed =
     (if reason = ReasonConfigError then True
      else if reason = ReasonOOMKilled then failed = StepCopier
      else if reason \<noteq> ReasonBuildFailed then False
      else if failed = StepClone \<or> failed = StepSetup \<or> failed = StepFetch \<or> failed = StepBuild then False
      else True)"

section \<open>The rings as bounded, deduplicated logs\<close>

lemma replace_job_None: "replace_job hs rec = None \<longleftrightarrow> build_JobName rec \<notin> build_JobName ` set hs"
  by (induction hs) auto

lemma replace_job_Some:
  "replace_job hs rec = Some out \<Longrightarrow>
     map build_JobName out = map build_JobName hs \<and> rec \<in> set out \<and> set out \<subseteq> insert rec (set hs)"
  by (induction hs arbitrary: out) (auto split: if_splits)

lemma replace_job_map:
  "replace_job hs rec = Some out \<Longrightarrow> distinct (map build_JobName hs) \<Longrightarrow>
     out = map (\<lambda>h. if build_JobName h = build_JobName rec then rec else h) hs"
proof (induction hs arbitrary: out)
  case (Cons h hs)
  have "map (\<lambda>h'. if build_JobName h' = build_JobName h then rec else h') hs = hs"
    using Cons.prems(2) by (auto intro!: map_idI simp: image_iff)
  with Cons show ?case by (auto split: if_splits)
qed simp

text \<open>
  A ring keeps the entries of the records it accepts (\<open>keeps\<close>), stored in a trimmed form
  (\<open>view\<close>), newest first, one per job name, at most \<open>cap\<close> of them.
\<close>

locale build_ring =
  fixes store :: "BuildStatus list \<Rightarrow> BuildStatus \<Rightarrow> int \<Rightarrow> BuildStatus list"
    and keeps :: "BuildStatus \<Rightarrow> bool" and view :: "BuildStatus \<Rightarrow> BuildStatus"
  assumes skip: "\<not> keeps rec \<Longrightarrow> store hs rec cap = hs"
    and push: "keeps rec \<Longrightarrow> build_JobName rec \<notin> build_JobName ` set hs \<Longrightarrow> 0 \<le> cap \<Longrightarrow>
      store hs rec cap = take (nat cap) (view rec # hs)"
    and same_names: "keeps rec \<Longrightarrow> build_JobName rec \<in> build_JobName ` set hs \<Longrightarrow>
      map build_JobName (store hs rec cap) = map build_JobName hs"
    and replace: "keeps rec \<Longrightarrow> build_JobName rec \<in> build_JobName ` set hs \<Longrightarrow> distinct (map build_JobName hs) \<Longrightarrow>
      store hs rec cap = map (\<lambda>h. if build_JobName h = build_JobName rec then view rec else h) hs"
    and view_name: "build_JobName (view rec) = build_JobName rec"
begin

definition ring_ok :: "int \<Rightarrow> BuildStatus list \<Rightarrow> bool" where
  "ring_ok cap hs \<longleftrightarrow> distinct (map build_JobName hs) \<and> int (length hs) \<le> cap"

lemma record_ok:
  assumes "ring_ok cap hs" "0 \<le> cap"
  shows "ring_ok cap (store hs rec cap)"
proof -
  consider "\<not> keeps rec" | "keeps rec" "build_JobName rec \<in> build_JobName ` set hs"
    | "keeps rec" "build_JobName rec \<notin> build_JobName ` set hs" by blast
  then show ?thesis
  proof cases
    case 2
    from same_names [OF this, of cap] have "map build_JobName (store hs rec cap) = map build_JobName hs" .
    then show ?thesis using assms(1) unfolding ring_ok_def by (metis length_map)
  next
    case 3
    then have eq: "store hs rec cap = take (nat cap) (view rec # hs)" using assms(2) by (rule push)
    have "distinct (map build_JobName (view rec # hs))"
      using assms(1) 3(2) by (simp add: ring_ok_def view_name)
    then have "distinct (take (nat cap) (map build_JobName (view rec # hs)))" by (rule distinct_take)
    then show ?thesis using assms(2) by (simp add: ring_ok_def eq take_map [symmetric] del: list.map)
  qed (use assms in \<open>simp add: skip\<close>)
qed

lemma records_ok: "0 \<le> cap \<Longrightarrow> ring_ok cap (fold (\<lambda>rec hs. store hs rec cap) recs [])"
proof (induction recs rule: rev_induct)
  case Nil
  then show ?case by (simp add: ring_ok_def)
qed (simp add: record_ok)

text \<open>The entries are accepted records in their stored form, also after replacements.\<close>

lemma records_kept:
  "0 \<le> cap \<Longrightarrow> set (fold (\<lambda>rec hs. store hs rec cap) recs []) \<subseteq> view ` {rec \<in> set recs. keeps rec}"
proof (induction recs rule: rev_induct)
  case (snoc rec recs)
  let ?hs = "fold (\<lambda>rec hs. store hs rec cap) recs []"
  have "set (store ?hs rec cap) \<subseteq> insert (view rec) (set ?hs)" if "keeps rec"
  proof (cases "build_JobName rec \<in> build_JobName ` set ?hs")
    case True
    have "distinct (map build_JobName ?hs)" using records_ok [OF snoc.prems, of recs] by (simp add: ring_ok_def)
    from replace [OF that True this, of cap] show ?thesis by auto
  next
    case False
    from push [OF that this snoc.prems] set_take_subset [of "nat cap" "view rec # ?hs"] show ?thesis by simp
  qed
  with snoc.IH [OF snoc.prems] skip [of rec ?hs cap] show ?case by (cases "keeps rec") auto
qed simp

lemma records_newest:
  assumes "0 \<le> cap" "distinct (map build_JobName recs)"
  shows "fold (\<lambda>rec hs. store hs rec cap) recs [] = take (nat cap) (rev (map view (filter keeps recs)))"
  using assms(2)
proof (induction recs rule: rev_induct)
  case (snoc rec recs)
  let ?hs = "take (nat cap) (rev (map view (filter keeps recs)))"
  have IH: "fold (\<lambda>rec hs. store hs rec cap) recs [] = ?hs" using snoc by simp
  show ?case
  proof (cases "keeps rec")
    case True
    have "set ?hs \<subseteq> view ` set recs" using set_take_subset by fastforce
    then have "build_JobName rec \<notin> build_JobName ` set ?hs"
      using snoc.prems view_name by fastforce
    from push [OF True this assms(1)] True show ?thesis
      by (simp add: IH take_Cons' min_def split: nat.splits)
  qed (simp add: IH skip)
qed simp

end

interpretation recent_ring: build_ring appendBuildHistory "\<lambda>_. True" "\<lambda>rec. rec"
proof
  show "appendBuildHistory hs rec cap = take (nat cap) (rec # hs)"
    if "build_JobName rec \<notin> build_JobName ` set hs" "0 \<le> cap" for rec hs cap
    using that replace_job_None [of hs rec] by (auto simp: appendBuildHistory_def Let_def)
  show "map build_JobName (appendBuildHistory hs rec cap) = map build_JobName hs"
    if "build_JobName rec \<in> build_JobName ` set hs" for rec hs cap
    using that replace_job_None [of hs rec] replace_job_Some [of hs rec]
    by (auto simp: appendBuildHistory_def)
  show "appendBuildHistory hs rec cap = map (\<lambda>h. if build_JobName h = build_JobName rec then rec else h) hs"
    if "build_JobName rec \<in> build_JobName ` set hs" "distinct (map build_JobName hs)" for rec hs cap
    using that replace_job_None [of hs rec] replace_job_map [of hs rec] by (auto simp: appendBuildHistory_def)
qed simp_all

lemma trimToFailedStep_fields [simp]:
  "build_JobName (trimToFailedStep rec) = build_JobName rec"
  "build_FailedStep (trimToFailedStep rec) = build_FailedStep rec"
  "build_Termination (trimToFailedStep rec) = build_Termination rec"
  "length (build_Steps (trimToFailedStep rec)) \<le> 1"
  by (simp_all add: trimToFailedStep_def Let_def split: option.split)

interpretation failed_ring:
  build_ring appendFailedBuildHistory "\<lambda>rec. build_Result rec = BuildResultFailed" trimToFailedStep
proof
  show "appendFailedBuildHistory hs rec cap = take (nat cap) (trimToFailedStep rec # hs)"
    if "build_Result rec = BuildResultFailed" "build_JobName rec \<notin> build_JobName ` set hs" "0 \<le> cap"
    for rec hs cap
    using that recent_ring.push [of "trimToFailedStep rec" hs cap] by (simp add: appendFailedBuildHistory_def)
  show "map build_JobName (appendFailedBuildHistory hs rec cap) = map build_JobName hs"
    if "build_Result rec = BuildResultFailed" "build_JobName rec \<in> build_JobName ` set hs" for rec hs cap
    using that recent_ring.same_names [of "trimToFailedStep rec" hs cap] by (simp add: appendFailedBuildHistory_def)
  show "appendFailedBuildHistory hs rec cap = map (\<lambda>h. if build_JobName h = build_JobName rec then trimToFailedStep rec else h) hs"
    if "build_Result rec = BuildResultFailed" "build_JobName rec \<in> build_JobName ` set hs" "distinct (map build_JobName hs)" for rec hs cap
    using that recent_ring.replace [of "trimToFailedStep rec" hs cap] by (simp add: appendFailedBuildHistory_def)
qed (simp_all add: appendFailedBuildHistory_def)

section \<open>Failed steps and their containers\<close>

lemma new_step_fields [simp]:
  "step_Name (new_step n s) = n" "step_Status (new_step n s) = s" "step_MemoryLimit (new_step n s) = ''''"
  "step_StartedAt (new_step n s) = None" "step_FinishedAt (new_step n s) = None"
  by (simp_all add: new_step_def)

lemma stampStepTimes_fields [simp]:
  "step_Name (stampStepTimes st cs) = step_Name st"
  "step_Status (stampStepTimes st cs) = step_Status st"
  "step_MemoryLimit (stampStepTimes st cs) = step_MemoryLimit st"
  by (simp_all add: stampStepTimes_def Let_def split: option.splits)

lemma container_step_fields [simp]:
  "step_Name (container_step p n cs) = n"
  "step_Status (container_step p n cs) = containerStepStatus cs"
  by (simp_all add: container_step_def Let_def)

lemma containerStepStatus_failed:
  "containerStepStatus cs = StepStatusFailed \<longleftrightarrow>
     (\<exists>c t. cs = Some c \<and> cstat_Terminated c = Some t \<and> cst_ExitCode t \<noteq> 0)"
  by (auto simp: containerStepStatus_def split: option.splits)

lemma containerStepStatus_not_aborted: "containerStepStatus cs \<noteq> StepStatusAborted"
  by (auto simp: containerStepStatus_def split: option.splits)

definition step_statuses :: "Pod \<Rightarrow> string \<Rightarrow> ContainerStatus list" where
  \<comment> \<open>where the status of a step's container is looked up\<close>
  "step_statuses p name = (if name = StepCopier then p_ContainerStatuses p else p_InitContainerStatuses p)"

lemma derive_step_name [simp]: "step_Name (derive_step pod rd n) = n"
  by (auto simp: derive_step_def Let_def split: option.splits)

lemma derive_step_status:
  "step_Status (derive_step pod rd n) =
     (if n = StepRelease then (if rd then StepStatusSucceeded else StepStatusPending)
      else case pod of None \<Rightarrow> StepStatusPending
           | Some p \<Rightarrow> containerStepStatus (findContainerStatus (step_statuses p n) n))"
  by (auto simp: derive_step_def step_statuses_def Let_def split: option.splits)

lemma failedStep_cases:
  "failedStep steps = '''' \<or> (\<exists>s\<in>set steps. step_Name s = failedStep steps \<and>
     (step_Status s = StepStatusFailed \<or> step_Status s = StepStatusAborted))"
  by (induction steps) auto

lemma derived_failed_step:
  assumes "failedStep (deriveBuildSteps applicable pod rd) = name" "name \<noteq> ''''"
  obtains p c t where "pod = Some p" "name \<noteq> StepRelease" "name \<in> set applicable"
    "findContainerStatus (step_statuses p name) name = Some c" "cstat_Terminated c = Some t"
    "cst_ExitCode t \<noteq> 0"
proof -
  from failedStep_cases [of "deriveBuildSteps applicable pod rd"] assms
  have "name \<in> set applicable" and st: "step_Status (derive_step pod rd name) \<in> {StepStatusFailed, StepStatusAborted}"
    by (auto simp: deriveBuildSteps_def)
  then show thesis
    using that containerStepStatus_failed containerStepStatus_not_aborted
    by (auto simp: derive_step_status split: if_splits option.splits)
qed

lemma peak_lines_nonneg: "0 \<le> peak_lines ls"
  by (induction ls) (auto simp: case_prod_beta split: option.splits)

section \<open>Properties\<close>

text \<open>C26. Build history is a bounded, deduplicated log: after any sequence of terminal builds, recorded from an empty
  history with one fixed cap that is not negative, the ring has each Job once and at most cap entries, recording a Job
  that is in it replaces its entry in place, and for builds of different Jobs the ring is exactly the newest cap
  builds, newest first. All of this holds of the ring of failed builds too, with the failed builds alone, each cut
  down to at most one step: no number of successes can evict a failure from it.\<close>

theorem history_rings_newest_first:
  assumes "0 \<le> cap"
    and "recent = fold (\<lambda>rec hs. appendBuildHistory hs rec cap) recs []"
    and "failed = fold (\<lambda>rec hs. appendFailedBuildHistory hs rec cap) recs []"
  shows "distinct (map build_JobName recent) \<and> int (length recent) \<le> cap \<and> set recent \<subseteq> set recs \<and>
    distinct (map build_JobName failed) \<and> int (length failed) \<le> cap \<and>
    (\<forall>r \<in> set failed. build_Result r = BuildResultFailed \<and> length (build_Steps r) \<le> 1) \<and>
    (build_JobName rec \<in> build_JobName ` set recent \<longrightarrow>
       appendBuildHistory recent rec cap = map (\<lambda>h. if build_JobName h = build_JobName rec then rec else h) recent) \<and>
    (build_Result rec = BuildResultFailed \<longrightarrow> build_JobName rec \<in> build_JobName ` set failed \<longrightarrow>
       appendFailedBuildHistory failed rec cap =
         map (\<lambda>h. if build_JobName h = build_JobName rec then trimToFailedStep rec else h) failed) \<and>
    (distinct (map build_JobName recs) \<longrightarrow>
       recent = take (nat cap) (rev recs) \<and>
       failed = take (nat cap) (rev (map trimToFailedStep (filter (\<lambda>rec. build_Result rec = BuildResultFailed) recs))))"
proof -
  note ok = recent_ring.records_ok [OF assms(1), of recs, folded assms(2), unfolded recent_ring.ring_ok_def]
    failed_ring.records_ok [OF assms(1), of recs, folded assms(3), unfolded failed_ring.ring_ok_def]
  note kept = recent_ring.records_kept [OF assms(1), of recs, folded assms(2)]
    failed_ring.records_kept [OF assms(1), of recs, folded assms(3)]
  have "build_Result (trimToFailedStep r) = build_Result r" for r by (simp add: trimToFailedStep_def Let_def)
  then have "\<forall>r \<in> set failed. build_Result r = BuildResultFailed \<and> length (build_Steps r) \<le> 1"
    using kept(2) trimToFailedStep_fields(4) by fastforce
  moreover have "set recent \<subseteq> set recs" using kept(1) by auto
  moreover have "distinct (map build_JobName recs) \<longrightarrow> recent = take (nat cap) (rev recs)"
    using recent_ring.records_newest [OF assms(1), of recs, folded assms(2)] by auto
  moreover note failed_ring.records_newest [OF assms(1), of recs, folded assms(3)]
    recent_ring.replace [of rec recent cap] failed_ring.replace [of rec failed cap]
  ultimately show ?thesis using ok by blast
qed

definition sample_build :: "string \<Rightarrow> string \<Rightarrow> BuildStatus" where
  \<comment> \<open>a build record for examples\<close>
  "sample_build job result = \<lparr>build_Phase = BuildPhaseComplete, build_Result = result, build_JobName = job,
     build_PodName = '''', build_StartTime = None, build_CompletionTime = None, build_Attempts = 1,
     build_Trigger = BuildTriggerScheduled, build_TriggeredBy = '''', build_Commit = '''', build_Steps = [],
     build_ResolvedImages = [], build_FailedStep = '''', build_Message = '''', build_LogsRef = '''',
     build_Termination = None\<rparr>"

theorem history_rings_newest_first_witness:
  "fold (\<lambda>rec hs. appendBuildHistory hs rec 2) [sample_build ''a'' ''Failed'', sample_build ''b'' ''Succeeded'', sample_build ''c'' ''Succeeded''] [] =
     [sample_build ''c'' ''Succeeded'', sample_build ''b'' ''Succeeded'']"
  using history_rings_newest_first [OF _ refl refl, of 2 "[sample_build ''a'' ''Failed'', sample_build ''b'' ''Succeeded'', sample_build ''c'' ''Succeeded'']"]
  by (simp add: sample_build_def)

text \<open>Attribution is single-sourced: when the derived timeline names a failed step, that step is
  a real container of the build (never the synthetic release step), and the termination record
  taken for it is of that very container, which ended with a non-zero exit code.\<close>

theorem failed_step_has_termination:
  assumes "failedStep (deriveBuildSteps applicable pod releaseDone) = name" "name \<noteq> ''''"
  shows "\<exists>term. detectTermination pod name = Some term \<and> term_Container term = name \<and>
    term_ExitCode term \<noteq> 0 \<and> name \<in> set applicable \<and> name \<noteq> StepRelease"
proof -
  from assms obtain p c t where "pod = Some p" "name \<noteq> StepRelease" "name \<in> set applicable"
    "findContainerStatus (step_statuses p name) name = Some c" "cstat_Terminated c = Some t"
    "cst_ExitCode t \<noteq> 0" by (rule derived_failed_step)
  with assms(2) show ?thesis
    by (simp add: detectTermination_def step_statuses_def)
qed

definition sample_pod :: Pod where
  \<comment> \<open>a build pod whose build container was OOM-killed\<close>
  "sample_pod = \<lparr>p_Meta = new_meta ''p'' ''ns'' [],
     p_Spec = \<lparr>pod_RestartPolicy = ''Never'', pod_AutomountServiceAccountToken = Some False,
       pod_ServiceAccountName = '''', pod_RunAsNonRoot = Some True, pod_SeccompProfile = None,
       pod_InitContainers = [], pod_Containers = [], pod_Volumes = [], pod_ImagePullSecrets = [], pod_NodeName = ''n''\<rparr>,
     p_InitContainerStatuses =
       [\<lparr>cstat_Name = ''clone'', cstat_Running = None, cstat_Terminated =
          Some \<lparr>cst_ExitCode = 0, cst_Reason = ''Completed'', cst_Message = '''', cst_StartedAt = 5, cst_FinishedAt = 6\<rparr>\<rparr>,
        \<lparr>cstat_Name = ''build'', cstat_Running = None, cstat_Terminated =
          Some \<lparr>cst_ExitCode = 137, cst_Reason = ''OOMKilled'', cst_Message = '''', cst_StartedAt = 6, cst_FinishedAt = 9\<rparr>\<rparr>],
     p_ContainerStatuses = []\<rparr>"

theorem failed_step_has_termination_witness:
  "\<exists>term. detectTermination (Some sample_pod) ''build'' = Some term \<and> term_ExitCode term \<noteq> 0"
proof -
  have "failedStep (deriveBuildSteps [''clone'', ''build'', ''copier'', ''release''] (Some sample_pod) False) = ''build''"
    by code_simp
  from failed_step_has_termination [OF this] show ?thesis by auto
qed

text \<open>The peak-memory line the shim writes is read back exactly, whatever lines without that
  key come before it and whatever follows it; a result is never negative and fits in an int64.\<close>

theorem parsePeakMemory_roundtrip:
  assumes "int64_range n" "0 \<le> n" "CHR 0x0A \<notin> set pre" "\<not> HasPrefix (TrimSpace pre) peakMemoryKey"
  shows "parsePeakMemory (pre @ [CHR 0x0A] @ peakMemoryKey @ Itoa n @ [CHR 0x0A] @ rest) = n"
proof -
  have digits: "\<forall>c\<in>set (Itoa n). is_digit c"
    using assms(2) nat_dec_digits by (auto simp: Itoa_def)
  then have nl: "CHR 0x0A \<notin> set (peakMemoryKey @ Itoa n)"
    by (auto simp: peakMemoryKey_def is_digit_def byte_def)
  have split: "SplitByte (s @ CHR 0x0A # t) (CHR 0x0A) = s # SplitByte t (CHR 0x0A)" if "CHR 0x0A \<notin> set s" for s t
    using that by (induction s) auto
  have "list_all (\<lambda>c. \<not> is_space c) (peakMemoryKey @ Itoa n)"
    using digits by (auto simp: list_all_iff peakMemoryKey_def is_digit_def is_space_def byte_def)
  then have trim: "TrimSpace (peakMemoryKey @ Itoa n) = peakMemoryKey @ Itoa n"
    and trim': "TrimSpace (Itoa n) = Itoa n"
    by (simp_all add: TrimSpace_id)
  have cut: "CutPrefix (peakMemoryKey @ Itoa n) peakMemoryKey = (Itoa n, True)"
    by (simp add: CutPrefix_def HasPrefix_iff)
  have pre: "CutPrefix (TrimSpace pre) peakMemoryKey = (TrimSpace pre, False)"
    using assms(4) by (simp add: CutPrefix_def)
  have "SplitByte (pre @ [CHR 0x0A] @ peakMemoryKey @ Itoa n @ [CHR 0x0A] @ rest) (CHR 0x0A) =
      pre # (peakMemoryKey @ Itoa n) # SplitByte rest (CHR 0x0A)"
    using split [OF assms(3), of "(peakMemoryKey @ Itoa n) @ CHR 0x0A # rest"] split [OF nl, of rest] by simp
  then show ?thesis
    using assms(1,2) by (simp add: parsePeakMemory_def pre trim trim' cut ParseInt_Itoa)
qed

theorem parsePeakMemory_roundtrip_witness:
  "parsePeakMemory (''some log'' @ [CHR 0x0A] @ peakMemoryKey @ Itoa 123 @ [CHR 0x0A] @ ''tail'') = 123"
proof -
  have "\<not> HasPrefix (TrimSpace ''some log'') peakMemoryKey" by code_simp
  then show ?thesis
    by (intro parsePeakMemory_roundtrip) (simp_all add: int64_range_def)
qed

definition scheduled_failure :: "string \<times> string \<Rightarrow> bool" where
  "scheduled_failure b \<longleftrightarrow> snd b = BuildResultFailed \<and> (fst b = BuildTriggerScheduled \<or> fst b = '''')"

text \<open>The alert streak counts exactly the scheduled failures since the last success: successes
  reset it, failures of other triggers and aborted builds leave it, a failure with no recorded
  trigger counts as scheduled.\<close>

theorem streak_counts_since_success:
  assumes "length builds < 2 ^ 63"
  shows "fold (\<lambda>(trigger, result) n. updateConsecutiveScheduledFailures n trigger result) builds 0 =
    int (length (filter scheduled_failure (takeWhile (\<lambda>b. snd b \<noteq> BuildResultSucceeded) (rev builds))))"
  using assms
proof (induction builds rule: rev_induct)
  case (snoc b builds)
  let ?tail = "filter scheduled_failure (takeWhile (\<lambda>b. snd b \<noteq> BuildResultSucceeded) (rev builds))"
  have "length ?tail \<le> length (takeWhile (\<lambda>b. snd b \<noteq> BuildResultSucceeded) (rev builds))"
    by (rule length_filter_le)
  also have "\<dots> \<le> length builds" using length_takeWhile_le by (metis length_rev)
  finally have "int64_range (int (length ?tail) + 1)"
    using snoc.prems by (simp add: int64_range_def)
  moreover have "fold (\<lambda>(trigger, result) n. updateConsecutiveScheduledFailures n trigger result) builds 0 =
      int (length ?tail)"
    using snoc by simp
  ultimately show ?case
    by (cases b) (simp add: updateConsecutiveScheduledFailures_def scheduled_failure_def [of "(t, r)" for t r])
qed simp

theorem streak_counts_since_success_witness:
  "fold (\<lambda>(trigger, result) n. updateConsecutiveScheduledFailures n trigger result)
     [(''Scheduled'', ''Failed''), (''Manual'', ''Succeeded''), (''Scheduled'', ''Failed''), (''Manual'', ''Failed''), ('''', ''Failed'')] 0 = 2"
  using streak_counts_since_success
    [of "[(''Scheduled'', ''Failed''), (''Manual'', ''Succeeded''), (''Scheduled'', ''Failed''), (''Manual'', ''Failed''), ('''', ''Failed'')]"]
  by (simp add: scheduled_failure_def)

end
