(* ===== verification/Domain_Images.thy ===== *)
theory Domain_Images
  imports Go_Strings
begin

text \<open>
  \<open>internal/domain/registry.go\<close> (the registry allowlist of user-supplied images) and
  \<open>internal/domain/nodeimage.go\<close> (the resolution of a phase to its image, UID and HOME).

  Go panics on an out-of-range string index, so a function that indexes returns an \<open>option\<close>
  with \<^const>\<open>None\<close> for the panic; that it never happens is part of what is proved.
\<close>

section \<open>Registry allowlist\<close>

record PhaseImage =
  pi_Phase :: string
  pi_Image :: string

definition byte_at :: "string \<Rightarrow> nat \<Rightarrow> char option" where
  \<comment> \<open>\<open>s[i]\<close>, \<^const>\<open>None\<close> for the panic\<close>
  "byte_at s i = (if i < length s then Some (s ! i) else None)"

definition isImageBoundary :: "char \<Rightarrow> bool" where
  "isImageBoundary c \<longleftrightarrow> c = CHR ''/'' \<or> c = CHR '':'' \<or> c = CHR ''@''"

fun imageAllowed :: "string list \<Rightarrow> string \<Rightarrow> bool option" where
  "imageAllowed [] img = Some False"
| "imageAllowed (pre # allowlist) img =
     (if pre = '''' then imageAllowed allowlist img
      else if img = pre then Some True
      else if \<not> HasPrefix img pre then imageAllowed allowlist img
      else case byte_at pre (length pre - 1) of
        None \<Rightarrow> None
      | Some b \<Rightarrow>
          if isImageBoundary b then Some True
          else case byte_at img (length pre) of
            None \<Rightarrow> None
          | Some c \<Rightarrow> if isImageBoundary c then Some True else imageAllowed allowlist img)"

datatype image_error = NotOnAllowlist string string

fun CheckImagesAllowed :: "string list \<Rightarrow> PhaseImage list \<Rightarrow> image_error option option" where
  \<comment> \<open>outer \<^const>\<open>None\<close>: a panic; inner \<^const>\<open>None\<close>: a nil error\<close>
  "CheckImagesAllowed allowlist [] = Some None"
| "CheckImagesAllowed allowlist (p # images) =
     (case imageAllowed allowlist (pi_Image p) of
        None \<Rightarrow> None
      | Some ok \<Rightarrow> if \<not> ok then Some (Some (NotOnAllowlist (pi_Phase p) (pi_Image p)))
                    else CheckImagesAllowed allowlist images)"

definition covers :: "string \<Rightarrow> string \<Rightarrow> bool" where
  \<comment> \<open>the specification: an allowlist entry covers an image at a path, tag or digest boundary\<close>
  "covers pre img \<longleftrightarrow> pre \<noteq> '''' \<and>
     (\<exists>r. img = pre @ r \<and>
        (r = '''' \<or> last pre \<in> {CHR ''/'', CHR '':'', CHR ''@''} \<or> hd r \<in> {CHR ''/'', CHR '':'', CHR ''@''}))"

lemma imageAllowed_eq: "imageAllowed allowlist img = Some (\<exists>pre\<in>set allowlist. covers pre img)"
proof (induction allowlist)
  case (Cons pre allowlist)
  have boundary: "isImageBoundary c \<longleftrightarrow> c \<in> {CHR ''/'', CHR '':'', CHR ''@''}" for c by (simp add: isImageBoundary_def)
  have last: "byte_at pre (length pre - Suc 0) = Some (last pre)" if "pre \<noteq> ''''"
    using that by (simp add: byte_at_def last_conv_nth)
  have next_: "byte_at (pre @ r) (length pre) = Some (hd r)" if "r \<noteq> ''''" for r
    using that by (simp add: byte_at_def nth_append hd_conv_nth)
  show ?case
  proof (cases "\<exists>r. r \<noteq> '''' \<and> img = pre @ r")
    case True
    then obtain r where "r \<noteq> ''''" "img = pre @ r" by blast
    with Cons show ?thesis
      by (auto simp: last next_ HasPrefix_iff covers_def boundary simp del: insert_iff)
  next
    case False
    with Cons show ?thesis by (auto simp: HasPrefix_iff covers_def)
  qed
qed simp

section \<open>Node images\<close>

record NodeImage =
  ni_Image :: string
  ni_RunAsUser :: "int option"
  ni_Home :: string

definition DefaultNodeHome :: string where
  "DefaultNodeHome = ''/work''"

record ResolvedPhase =
  rp_Image :: string
  rp_RunAsUser :: "int option"
  rp_Home :: string

definition LookupNodeImage :: "NodeImage gomap \<Rightarrow> int \<Rightarrow> NodeImage option" where
  "LookupNodeImage nodeImages nodeVersion =
     (if nodeVersion = 0 then None else map_of nodeImages (Itoa nodeVersion))"

definition ResolvePhase ::
  "string \<Rightarrow> int option \<Rightarrow> int \<Rightarrow> NodeImage gomap \<Rightarrow> string \<Rightarrow> ResolvedPhase" where
  "ResolvePhase userImage userRunAsUser nodeVersion nodeImages cloneFallback =
     (if userImage \<noteq> '''' then \<lparr>rp_Image = userImage, rp_RunAsUser = userRunAsUser, rp_Home = ''''\<rparr>
      else case LookupNodeImage nodeImages nodeVersion of
        Some ni \<Rightarrow> \<lparr>rp_Image = ni_Image ni, rp_RunAsUser = ni_RunAsUser ni,
                    rp_Home = (if ni_Home ni = '''' then DefaultNodeHome else ni_Home ni)\<rparr>
      | None \<Rightarrow> \<lparr>rp_Image = cloneFallback, rp_RunAsUser = None, rp_Home = ''''\<rparr>)"

lemma ResolvePhase_user: "userImage \<noteq> '''' \<Longrightarrow>
     ResolvePhase userImage u v nodeImages c = \<lparr>rp_Image = userImage, rp_RunAsUser = u, rp_Home = ''''\<rparr>"
  by (simp add: ResolvePhase_def)

lemma ResolvePhase_managed:
  "LookupNodeImage nodeImages v = Some ni \<Longrightarrow>
     rp_RunAsUser (ResolvePhase '''' u v nodeImages c) = ni_RunAsUser ni \<and>
     rp_Home (ResolvePhase '''' u v nodeImages c) \<noteq> ''''"
  by (simp add: ResolvePhase_def DefaultNodeHome_def)

section \<open>Properties\<close>

text \<open>C39. The allowlist check accepts a list of images exactly when every image is covered by an
  entry at a boundary (equal to it, or a continuation of it where the last character of the entry or the next one of
  the image is \<open>/\<close>, \<open>:\<close> or \<open>@\<close>), an empty entry covers nothing, and the byte indexing in the check never panics.\<close>

theorem CheckImagesAllowed_iff:
  "(CheckImagesAllowed allowlist images = Some None \<longleftrightarrow>
     (\<forall>p\<in>set images. \<exists>pre\<in>set allowlist. covers pre (pi_Image p))) \<and>
   CheckImagesAllowed allowlist images \<noteq> None"
  by (induction images) (auto simp: imageAllowed_eq)

theorem CheckImagesAllowed_iff_witness:
  "CheckImagesAllowed [''ghcr.io/toggle-corp'']
     [\<lparr>pi_Phase = ''build'', pi_Image = ''ghcr.io/toggle-corp-evil/x''\<rparr>] \<noteq> Some None"
proof -
  have "\<not> covers ''ghcr.io/toggle-corp'' ''ghcr.io/toggle-corp-evil/x''"
    by (auto simp: covers_def)
  then show ?thesis
    using CheckImagesAllowed_iff [of "[''ghcr.io/toggle-corp'']"
      "[\<lparr>pi_Phase = ''build'', pi_Image = ''ghcr.io/toggle-corp-evil/x''\<rparr>]"] by simp
qed

end
