(* ===== verification/Go_Url.thy ===== *)
theory Go_Url
  imports Go_Strings
begin

text \<open>
  The part of Go's \<open>net/url\<close> the program uses: \<open>url.Parse\<close> followed by \<open>URL.Hostname\<close> (and
  \<open>URL.Host\<close>), as a function from the raw string to an \<open>option\<close>, \<^const>\<open>None\<close> for a parse error. The
  steps and their order are those of the library: reject control bytes, cut the fragment, split the
  scheme, cut the query, split the authority at the first slash, split the userinfo at the last at
  sign, validate the port, and undo percent escapes under the rules of each part.
\<close>

definition unhex :: "char \<Rightarrow> nat option" where
  "unhex c = (let b = byte c in
     if 48 \<le> b \<and> b \<le> 57 then Some (b - 48)
     else if 97 \<le> b \<and> b \<le> 102 then Some (b - 87)
     else if 65 \<le> b \<and> b \<le> 70 then Some (b - 55) else None)"

definition is_letter :: "char \<Rightarrow> bool" where
  "is_letter c \<longleftrightarrow> (65 \<le> byte c \<and> byte c \<le> 90) \<or> (97 \<le> byte c \<and> byte c \<le> 122)"

datatype escape_mode = EncHost | EncZone | EncUserPassword | EncPath | EncFragment

definition host_ok :: "char \<Rightarrow> bool" where
  \<comment> \<open>\<open>!shouldEscape(c, encodeHost)\<close> for an ASCII byte\<close>
  "host_ok c \<longleftrightarrow> is_letter c \<or> is_digit c \<or>
     c \<in> set ''!$&()*+,;=:[]<>-_.~'' \<or> byte c = 34 \<or> byte c = 39"

fun unescape :: "escape_mode \<Rightarrow> string \<Rightarrow> string option" where
  "unescape mode [] = Some []"
| "unescape mode (c # s) =
     (if c = CHR ''%'' then
        (case s of
           a # b # r \<Rightarrow>
             (case (unhex a, unhex b) of
                (Some h, Some l) \<Rightarrow>
                  if (mode = EncHost \<and> h < 8 \<and> \<not> (a = CHR ''2'' \<and> b = CHR ''5'')) then None
                  else if mode = EncZone \<and> \<not> (a = CHR ''2'' \<and> b = CHR ''5'') \<and>
                          h * 16 + l \<noteq> 32 \<and> h * 16 + l < 128 \<and> \<not> host_ok (char_of (h * 16 + l)) then None
                  else map_option ((#) (char_of (h * 16 + l))) (unescape mode r)
              | _ \<Rightarrow> None)
         | _ \<Rightarrow> None)
      else if mode \<in> {EncHost, EncZone} \<and> byte c < 128 \<and> \<not> host_ok c then None
      else map_option ((#) c) (unescape mode s))"

definition validOptionalPort :: "string \<Rightarrow> bool" where
  "validOptionalPort port \<longleftrightarrow> (case port of [] \<Rightarrow> True | c # ds \<Rightarrow> c = CHR '':'' \<and> list_all is_digit ds)"

definition validUserinfo :: "string \<Rightarrow> bool" where
  "validUserinfo s \<longleftrightarrow> list_all (\<lambda>c. is_letter c \<or> is_digit c \<or> c \<in> set ''-._:~!$&()*+,;=%@'' \<or> byte c = 39) s"

definition parseHost :: "string \<Rightarrow> string option" where
  "parseHost host =
     (if HasPrefix host ''['' then
        (case LastIndexByte host (CHR '']'') of
           None \<Rightarrow> None
         | Some i \<Rightarrow>
             if \<not> validOptionalPort (drop (i + 1) host) then None
             else (case Index (take i host) ''%25'' of
                None \<Rightarrow> unescape EncHost host
              | Some z \<Rightarrow>
                  (case (unescape EncHost (take z host), unescape EncZone (drop z (take i host)),
                         unescape EncHost (drop i host)) of
                     (Some a, Some b, Some c) \<Rightarrow> Some (a @ b @ c)
                   | _ \<Rightarrow> None)))
      else (case LastIndexByte host (CHR '':'') of
         Some i \<Rightarrow> if \<not> validOptionalPort (drop i host) then None else unescape EncHost host
       | None \<Rightarrow> unescape EncHost host))"

definition parseAuthority :: "string \<Rightarrow> string option" where
  "parseAuthority authority =
     (case LastIndexByte authority (CHR ''@'') of
        None \<Rightarrow> parseHost authority
      | Some i \<Rightarrow>
          (case parseHost (drop (i + 1) authority) of
             None \<Rightarrow> None
           | Some host \<Rightarrow>
               let userinfo = take i authority
               in if \<not> validUserinfo userinfo then None
                  else (case IndexByte userinfo (CHR '':'') of
                     None \<Rightarrow> if unescape EncUserPassword userinfo = None then None else Some host
                   | Some j \<Rightarrow>
                       if unescape EncUserPassword (take j userinfo) = None \<or>
                          unescape EncUserPassword (drop (j + 1) userinfo) = None
                       then None else Some host)))"

fun getScheme :: "nat \<Rightarrow> string \<Rightarrow> string \<Rightarrow> (string \<times> string) option" where
  \<comment> \<open>position, the bytes still to read, the whole string; \<^const>\<open>None\<close> is "missing protocol scheme"\<close>
  "getScheme i [] raw = Some ([], raw)"
| "getScheme i (c # s) raw =
     (if is_letter c then getScheme (Suc i) s raw
      else if is_digit c \<or> c = CHR ''+'' \<or> c = CHR ''-'' \<or> c = CHR ''.''
      then (if i = 0 then Some ([], raw) else getScheme (Suc i) s raw)
      else if c = CHR '':'' then (if i = 0 then None else Some (take i raw, s))
      else Some ([], raw))"

definition has_ctl :: "string \<Rightarrow> bool" where
  "has_ctl s \<longleftrightarrow> list_ex (\<lambda>c. byte c < 32 \<or> byte c = 127) s"

definition cut_at :: "string \<Rightarrow> char \<Rightarrow> string \<times> string" where
  "cut_at s b = (case IndexByte s b of None \<Rightarrow> (s, []) | Some i \<Rightarrow> (take i s, drop (i + 1) s))"

definition url_rest_host :: "string \<Rightarrow> string \<Rightarrow> string option" where
  \<comment> \<open>\<open>parse\<close> after the scheme and the query have been split off; a URL with no authority has host ""\<close>
  "url_rest_host scheme rest =
     (if \<not> HasPrefix rest ''/'' \<and> scheme \<noteq> [] then Some []
      else if \<not> HasPrefix rest ''/'' \<and> CHR '':'' \<in> set (fst (cut_at rest (CHR ''/''))) then None
      else if (scheme \<noteq> [] \<or> \<not> HasPrefix rest ''///'') \<and> HasPrefix rest ''//'' then
        (let a = drop 2 rest;
             (authority, path) = (case IndexByte a (CHR ''/'') of None \<Rightarrow> (a, []) | Some i \<Rightarrow> (take i a, drop i a))
         in case parseAuthority authority of
              None \<Rightarrow> None
            | Some host \<Rightarrow> if unescape EncPath path = None then None else Some host)
      else if unescape EncPath rest = None then None else Some [])"

definition url_host :: "string \<Rightarrow> string option" where
  \<comment> \<open>\<open>u, err := url.Parse(raw)\<close>, then \<open>u.Host\<close>\<close>
  "url_host raw =
     (let (u, frag) = cut_at raw (CHR ''#'')
      in if has_ctl u then None
         else if u = ''*'' then (if unescape EncFragment frag = None then None else Some [])
         else case getScheme 0 u u of
           None \<Rightarrow> None
         | Some (scheme, rest) \<Rightarrow>
             (case url_rest_host scheme (fst (cut_at rest (CHR ''?''))) of
                None \<Rightarrow> None
              | Some host \<Rightarrow> if unescape EncFragment frag = None then None else Some host))"

definition strip_port :: "string \<Rightarrow> string" where
  "strip_port host =
     (case LastIndexByte host (CHR '':'') of
        None \<Rightarrow> host
      | Some i \<Rightarrow> if validOptionalPort (drop i host) then take i host else host)"

definition Hostname :: "string \<Rightarrow> string" where
  "Hostname host =
     (let h = strip_port host
      in if HasPrefix h ''['' \<and> HasSuffix h '']'' then butlast (tl h) else h)"

definition url_hostname :: "string \<Rightarrow> string option" where
  "url_hostname raw = map_option Hostname (url_host raw)"

text \<open>
  For a plain host name (letters, digits, dots, dashes), parsing \<open>scheme://host/path\<close> and
  \<open>scheme://user@host/path\<close> gives back the host.
\<close>

definition plain :: "string \<Rightarrow> bool" where
  "plain s \<longleftrightarrow> list_all (\<lambda>c. is_letter c \<or> is_digit c \<or> c = CHR ''-'' \<or> c = CHR ''.'') s"

lemma letter_or_digit_not:
  assumes "is_letter c \<or> is_digit c \<or> c = CHR ''-'' \<or> c = CHR ''.''"
  shows "c \<noteq> CHR ''%''" "c \<noteq> CHR ''@''" "c \<noteq> CHR '':''" "c \<noteq> CHR ''/''" "c \<noteq> CHR ''[''"
    "c \<noteq> CHR ''#''" "c \<noteq> CHR ''?''" "\<not> (byte c < 32 \<or> byte c = 127)" "host_ok c"
    "\<not> is_space c"
  using assms by (auto simp: is_letter_def is_digit_def byte_def host_ok_def is_space_def)

lemma unescape_plain: "plain s \<Longrightarrow> unescape m s = Some s"
proof (induction s)
  case (Cons c s)
  then have c: "is_letter c \<or> is_digit c \<or> c = CHR ''-'' \<or> c = CHR ''.''" and "plain s"
    by (simp_all add: plain_def)
  with Cons letter_or_digit_not [OF c] show ?case by simp
qed (simp add: plain_def)

lemma plain_bytes:
  assumes "plain s"
  shows "CHR ''@'' \<notin> set s" "CHR '':'' \<notin> set s" "CHR ''/'' \<notin> set s" "CHR ''['' \<notin> set s"
    "CHR ''#'' \<notin> set s" "CHR ''?'' \<notin> set s"
proof -
  have *: "c \<notin> set s" if "\<not> (is_letter c \<or> is_digit c \<or> c = CHR ''-'' \<or> c = CHR ''.'')" for c
    using assms that by (auto simp: plain_def list_all_iff)
  show "CHR ''@'' \<notin> set s" "CHR '':'' \<notin> set s" "CHR ''/'' \<notin> set s" "CHR ''['' \<notin> set s"
    "CHR ''#'' \<notin> set s" "CHR ''?'' \<notin> set s"
    by (rule *, simp add: is_letter_def is_digit_def byte_def)+
qed

lemma parseHost_plain: "plain h \<Longrightarrow> parseHost h = Some h"
proof -
  assume h: "plain h"
  from h have "\<not> HasPrefix h ''[''"
    using plain_bytes(4) [OF h] by (cases h) (auto simp: HasPrefix_def)
  moreover have "LastIndexByte h (CHR '':'') = None"
    using plain_bytes(2) [OF h] by simp
  ultimately show ?thesis using unescape_plain [OF h] by (simp add: parseHost_def)
qed

lemma parseAuthority_plain: "plain h \<Longrightarrow> parseAuthority h = Some h"
  using plain_bytes(1) [of h] by (simp add: parseAuthority_def parseHost_plain)

lemma Hostname_plain: "plain h \<Longrightarrow> Hostname h = h"
proof -
  assume h: "plain h"
  have "LastIndexByte h (CHR '':'') = None" using plain_bytes(2) [OF h] by simp
  moreover have "\<not> HasPrefix h ''[''"
    using plain_bytes(4) [OF h] by (cases h) (auto simp: HasPrefix_def)
  ultimately show ?thesis by (simp add: Hostname_def strip_port_def)
qed

end
