(* ===== verification/Go_Net.thy ===== *)
theory Go_Net
  imports Go_Url
begin

text \<open>
  \<open>net.ParseCIDR\<close>, as far as its callers look: whether it returns an error. An address is reduced
  to its bit length (32 or 128). The grammar is that of \<open>netip.ParseAddr\<close>: four decimal fields
  without leading zeros, or sixteen-bit hexadecimal groups with at most one \<open>::\<close> and an optional
  embedded IPv4 tail; a zone is rejected by \<open>ParseCIDR\<close>.
\<close>

definition ipv4_field :: "string \<Rightarrow> bool" where
  "ipv4_field f \<longleftrightarrow> f \<noteq> [] \<and> list_all is_digit f \<and> (length f > 1 \<longrightarrow> hd f \<noteq> CHR ''0'') \<and>
     length f \<le> 3 \<and> (case dec_val 0 f of Some n \<Rightarrow> n \<le> 255 | None \<Rightarrow> False)"

definition parseIPv4 :: "string \<Rightarrow> bool" where
  "parseIPv4 s \<longleftrightarrow> (let fs = SplitByte s (CHR ''.'') in length fs = 4 \<and> list_all ipv4_field fs)"

definition is_hex :: "char \<Rightarrow> bool" where
  "is_hex c \<longleftrightarrow> unhex c \<noteq> None"

fun ipv6_groups :: "nat \<Rightarrow> bool \<Rightarrow> nat \<Rightarrow> string \<Rightarrow> bool" where
  \<comment> \<open>rounds left, whether \<open>::\<close> was seen, bytes filled so far, the rest of the text\<close>
  "ipv6_groups 0 ell i s = (s = [] \<and> \<not> ell)"
| "ipv6_groups (Suc k) ell i s =
     (let g = takeWhile is_hex s; r = dropWhile is_hex s
      in if g = [] \<or> length g > 4 then False
         else case r of
           [] \<Rightarrow> if i + 2 < 16 then ell else \<not> ell
         | c # r1 \<Rightarrow>
             if c = CHR ''.'' then
               (ell \<or> i = 12) \<and> i + 4 \<le> 16 \<and> parseIPv4 s \<and> (if i + 4 < 16 then ell else \<not> ell)
             else if c \<noteq> CHR '':'' \<or> r1 = [] then False
             else if hd r1 = CHR '':'' then
               (if ell then False
                else if tl r1 = [] then i + 2 < 16
                else ipv6_groups k True (i + 2) (tl r1))
             else ipv6_groups k ell (i + 2) r1)"

definition parseIPv6 :: "string \<Rightarrow> bool" where
  "parseIPv6 s \<longleftrightarrow>
     (if HasPrefix s ''::'' then drop 2 s = [] \<or> ipv6_groups 8 True 0 (drop 2 s)
      else ipv6_groups 8 False 0 s)"

fun first_sep :: "string \<Rightarrow> char option" where
  "first_sep [] = None"
| "first_sep (c # s) = (if c = CHR ''.'' \<or> c = CHR '':'' \<or> c = CHR ''%'' then Some c else first_sep s)"

definition ip_bits :: "string \<Rightarrow> nat option" where
  \<comment> \<open>\<open>netip.ParseAddr\<close> without a zone\<close>
  "ip_bits s =
     (if first_sep s = Some (CHR ''.'') then (if parseIPv4 s then Some 32 else None)
      else if first_sep s = Some (CHR '':'') then
        (if CHR ''%'' \<notin> set s \<and> parseIPv6 s then Some 128 else None)
      else None)"

definition ParseCIDR :: "string \<Rightarrow> bool" where
  \<comment> \<open>\<^const>\<open>True\<close> when \<open>err == nil\<close>\<close>
  "ParseCIDR s \<longleftrightarrow>
     (case IndexByte s (CHR ''/'') of
        None \<Rightarrow> False
      | Some i \<Rightarrow>
          (case ip_bits (take i s) of
             None \<Rightarrow> False
           | Some bits \<Rightarrow>
               let mask = drop (i + 1) s
               in mask \<noteq> [] \<and> (case dec_val 0 mask of None \<Rightarrow> False | Some n \<Rightarrow> n \<le> bits)))"

end
