(* ===== verification/Operator_Config.thy ===== *)
theory Operator_Config
  imports Kube_Types Domain_Images Domain_WatchCron Go_Net
begin

text \<open>
  \<open>internal/controller/config.go\<close>: the operator configuration, its loading and its validation.

  The YAML decoder (\<open>sigs.k8s.io/yaml\<close>), the cron parser (\<open>robfig/cron\<close>) and the quantity parser
  (\<open>k8s.io/apimachinery\<close>) are libraries: they are the fields of the parameter \<open>config_libs\<close>,
  together with the result of reading the file.
\<close>

abbreviation DefaultHistoryKeepRecent where "DefaultHistoryKeepRecent \<equiv> (5 :: int)"
abbreviation DefaultHistoryKeepFailed where "DefaultHistoryKeepFailed \<equiv> (10 :: int)"
abbreviation DefaultScheduledAlertThreshold where "DefaultScheduledAlertThreshold \<equiv> (3 :: int)"

section \<open>Types\<close>

record PlatformImages =
  img_Clone :: string
  img_Copier :: string
  img_Du :: string
  img_Cleanup :: string
  img_Clock :: string
  img_Shim :: string
  img_Nginx :: string

record GitAuth =
  ga_SecretName :: string
  ga_Hosts :: "string list"

definition GitAuth_Enabled :: "GitAuth \<Rightarrow> bool" where
  "GitAuth_Enabled g \<longleftrightarrow> ga_SecretName g \<noteq> ''''"

record PhaseResourceDefaults =
  prd_CPURequest :: quantity
  prd_CPULimit :: quantity
  prd_MemorySetup :: quantity
  prd_MemoryFetch :: quantity
  prd_MemoryBuild :: quantity

definition MemoryForPhase :: "PhaseResourceDefaults \<Rightarrow> string \<Rightarrow> quantity" where
  "MemoryForPhase d phase =
     (if phase = ''setup'' then prd_MemorySetup d
      else if phase = ''fetch'' then prd_MemoryFetch d
      else prd_MemoryBuild d)"

record OperatorConfig =
  cfg_RegistryAllowlist :: "string list"
  cfg_ClusterCIDRs :: "string list"
  cfg_TraefikGroup :: string
  cfg_ImagePullSecret :: string
  cfg_MeasureInterval :: duration
  cfg_DefaultSchedule :: string
  cfg_DefaultWatchInterval :: string
  cfg_Images :: PlatformImages
  cfg_NodeImages :: "NodeImage gomap"
  cfg_DefaultSetupCommands :: "string list gomap"
  cfg_PhaseResourceDefaults :: PhaseResourceDefaults
  cfg_ActiveDeadlineSeconds :: int
  cfg_GitAuth :: GitAuth
  cfg_CloneRetries :: int
  cfg_CloneRetryBaseDelay :: int
  cfg_HistoryKeepRecent :: int
  cfg_HistoryKeepFailed :: int
  cfg_ScheduledAlertThreshold :: int

record ManagerOptions =
  mo_MetricsBindAddress :: string
  mo_HealthProbeBindAddress :: string
  mo_LeaderElect :: bool
  mo_StorageClass :: string
  mo_TraefikNamespace :: string

record filePhaseResources =
  fpr_CPURequest :: string
  fpr_CPULimit :: string
  fpr_MemorySetup :: string
  fpr_MemoryFetch :: string
  fpr_MemoryBuild :: string

record FileConfig =
  fc_MetricsBindAddress :: string
  fc_HealthProbeBindAddress :: string
  fc_LeaderElect :: "bool option"
  fc_RegistryAllowlist :: "string list"
  fc_ClusterCIDRs :: "string list"
  fc_TraefikGroup :: string
  fc_TraefikNamespace :: string
  fc_ImagePullSecret :: string
  fc_StorageClass :: string
  fc_MeasureInterval :: string
  fc_DefaultSchedule :: string
  fc_DefaultWatchInterval :: string
  fc_Images :: PlatformImages
  fc_NodeImages :: "NodeImage gomap"
  fc_DefaultSetupCommands :: "string list gomap"
  fc_PhaseResources :: filePhaseResources
  fc_ActiveDeadlineSeconds :: int
  fc_CloneRetries :: "int option"
  fc_CloneRetryBaseDelay :: "int option"
  fc_HistoryKeepRecent :: "int option"
  fc_HistoryKeepFailed :: "int option"
  fc_ScheduledAlertThreshold :: "int option"
  fc_GitAuth :: GitAuth

datatype config_error = ReadError string | ParseError string | BadMeasureInterval string
  | BadSchedule string | BadWatchInterval watch_error | BadQuantity string string
  | BadDeadline int | BadCloneRetries int | BadCloneRetryBaseDelay int
  | BadHistoryKeepRecent int | BadHistoryKeepFailed int | BadScheduledAlertThreshold int
  | GitAuthNoHosts | GitAuthNoSecret
  | NoClusterCIDRs | BadCIDR string | BadMetadataCIDR | NoTraefikGroup
  | NodeKeyNotNumeric string | NodeEmptyImage string | NodeNoUser string | NodeRootUser string int
  | UnknownPackageManager string | EmptySetupCommand string | EmptySetupArgv0 string | BadNodeImagesJSON string

section \<open>Helpers and validation\<close>

definition defaultStr :: "string \<Rightarrow> string \<Rightarrow> string" where
  "defaultStr v d = (if v = '''' then d else v)"

definition defaultInt :: "int option \<Rightarrow> int \<Rightarrow> int" where
  "defaultInt v d = (case v of None \<Rightarrow> d | Some n \<Rightarrow> n)"

fun validateNodeImages :: "NodeImage gomap \<Rightarrow> config_error option" where
  "validateNodeImages [] = None"
| "validateNodeImages ((major, ni) # m) =
     (if ParseInt major = None then Some (NodeKeyNotNumeric major)
      else if ni_Image ni = '''' then Some (NodeEmptyImage major)
      else case ni_RunAsUser ni of
        None \<Rightarrow> Some (NodeNoUser major)
      | Some u \<Rightarrow> if u < 1 then Some (NodeRootUser major u) else validateNodeImages m)"

definition defaultSetupCommandFallbacks :: "string list gomap" where
  "defaultSetupCommandFallbacks =
     [(PackageManagerYarn, [''yarn'', ''install'', ''--frozen-lockfile'']),
      (PackageManagerPnpm, [''pnpm'', ''install'', ''--frozen-lockfile''])]"

definition mergeSetupCommands :: "string list gomap \<Rightarrow> string list gomap" where
  "mergeSetupCommands file =
     map (\<lambda>(pm, fallback). (pm, case map_of file pm of Some v \<Rightarrow> v | None \<Rightarrow> fallback)) defaultSetupCommandFallbacks"

fun validateDefaultSetupCommands :: "string list gomap \<Rightarrow> config_error option" where
  "validateDefaultSetupCommands [] = None"
| "validateDefaultSetupCommands ((pm, argv) # m) =
     (if map_of defaultSetupCommandFallbacks pm = None then Some (UnknownPackageManager pm)
      else case argv of
        [] \<Rightarrow> Some (EmptySetupCommand pm)
      | a # _ \<Rightarrow> if a = '''' then Some (EmptySetupArgv0 pm) else validateDefaultSetupCommands m)"

definition DefaultSetupCommand :: "OperatorConfig \<Rightarrow> string \<Rightarrow> string list" where
  "DefaultSetupCommand c pm = (case map_of (cfg_DefaultSetupCommands c) pm of None \<Rightarrow> [] | Some v \<Rightarrow> v)"

definition MetadataIP :: string where "MetadataIP = ''169.254.169.254/32''"

definition Validate :: "OperatorConfig \<Rightarrow> config_error option" where
  "Validate c =
     (if cfg_ClusterCIDRs c = [] then Some NoClusterCIDRs
      else case find (\<lambda>cidr. \<not> ParseCIDR cidr) (cfg_ClusterCIDRs c) of
        Some cidr \<Rightarrow> Some (BadCIDR cidr)
      | None \<Rightarrow>
          if \<not> ParseCIDR MetadataIP then Some BadMetadataCIDR
          else if cfg_TraefikGroup c = '''' then Some NoTraefikGroup
          else None)"

definition zeros64 :: string where "zeros64 = replicate 64 (CHR ''0'')"

definition default_image :: "string \<Rightarrow> string \<Rightarrow> string" where
  "default_image cur name =
     (if cur = '''' then ''ghcr.io/toggle-corp/toggle-web-baker-'' @ name @ ''@sha256:'' @ zeros64 else cur)"

definition Defaults :: "OperatorConfig \<Rightarrow> OperatorConfig" where
  "Defaults c = c\<lparr>
     cfg_TraefikGroup := (if cfg_TraefikGroup c = '''' then ''traefik.io'' else cfg_TraefikGroup c),
     cfg_MeasureInterval := (if cfg_MeasureInterval c \<le> 0 then Hour else cfg_MeasureInterval c),
     cfg_DefaultSchedule := (if cfg_DefaultSchedule c = '''' then ''0 */12 * * *'' else cfg_DefaultSchedule c),
     cfg_DefaultWatchInterval := (if cfg_DefaultWatchInterval c = '''' then ''10m'' else cfg_DefaultWatchInterval c),
     cfg_CloneRetries := (if cfg_CloneRetries c = 0 then 3 else cfg_CloneRetries c),
     cfg_HistoryKeepRecent := (if cfg_HistoryKeepRecent c = 0 then 5 else cfg_HistoryKeepRecent c),
     cfg_HistoryKeepFailed := (if cfg_HistoryKeepFailed c = 0 then 10 else cfg_HistoryKeepFailed c),
     cfg_ScheduledAlertThreshold := (if cfg_ScheduledAlertThreshold c = 0 then 3 else cfg_ScheduledAlertThreshold c),
     cfg_Images := \<lparr>
       img_Clone = default_image (img_Clone (cfg_Images c)) ''clone'',
       img_Copier = default_image (img_Copier (cfg_Images c)) ''copier'',
       img_Du = default_image (img_Du (cfg_Images c)) ''du'',
       img_Cleanup = default_image (img_Cleanup (cfg_Images c)) ''cleanup'',
       img_Clock = default_image (img_Clock (cfg_Images c)) ''clock'',
       img_Shim = default_image (img_Shim (cfg_Images c)) ''shim'',
       img_Nginx = (if img_Nginx (cfg_Images c) = '''' then ''docker.io/nginxinc/nginx-unprivileged:1.27-alpine''
                    else img_Nginx (cfg_Images c))\<rparr>\<rparr>"

section \<open>LoadConfig\<close>

record config_libs =
  lib_ReadFile :: "string \<Rightarrow> string option"
  lib_yaml_Unmarshal :: "string \<Rightarrow> FileConfig option"
  lib_cron_ParseStandard :: "string \<Rightarrow> bool"
  lib_ParseQuantity :: "string \<Rightarrow> quantity option"

type_synonym 'a checked = "config_error + 'a"

definition check :: "bool \<Rightarrow> config_error \<Rightarrow> unit checked" where
  "check b e = (if b then Inr () else Inl e)"

definition bind_c :: "'a checked \<Rightarrow> ('a \<Rightarrow> 'b checked) \<Rightarrow> 'b checked" where
  "bind_c m f = (case m of Inl e \<Rightarrow> Inl e | Inr x \<Rightarrow> f x)"

definition then_c :: "'a checked \<Rightarrow> 'b checked \<Rightarrow> 'b checked" where
  "then_c m n = bind_c m (\<lambda>_. n)"

definition of_err :: "config_error option \<Rightarrow> unit checked" where
  "of_err e = (case e of None \<Rightarrow> Inr () | Some x \<Rightarrow> Inl x)"

definition quantity_field :: "config_libs \<Rightarrow> string \<Rightarrow> string \<Rightarrow> quantity checked" where
  "quantity_field lib name raw =
     (case lib_ParseQuantity lib raw of None \<Rightarrow> Inl (BadQuantity name raw) | Some q \<Rightarrow> Inr q)"

definition parse_resources :: "config_libs \<Rightarrow> filePhaseResources \<Rightarrow> PhaseResourceDefaults checked" where
  "parse_resources lib pr =
     bind_c (quantity_field lib ''phaseResources.cpu.request'' (fpr_CPURequest pr)) (\<lambda>a.
     bind_c (quantity_field lib ''phaseResources.cpu.limit'' (fpr_CPULimit pr)) (\<lambda>b.
     bind_c (quantity_field lib ''phaseResources.memory.setup'' (fpr_MemorySetup pr)) (\<lambda>c.
     bind_c (quantity_field lib ''phaseResources.memory.fetch'' (fpr_MemoryFetch pr)) (\<lambda>d.
     bind_c (quantity_field lib ''phaseResources.memory.build'' (fpr_MemoryBuild pr)) (\<lambda>e.
       Inr \<lparr>prd_CPURequest = a, prd_CPULimit = b, prd_MemorySetup = c, prd_MemoryFetch = d, prd_MemoryBuild = e\<rparr>)))))"

definition parse_interval :: "string \<Rightarrow> duration checked" where
  "parse_interval s =
     (if s = '''' then Inr Hour
      else case ParseDuration s of None \<Rightarrow> Inl (BadMeasureInterval s) | Some d \<Rightarrow> Inr d)"

definition check_knobs :: "FileConfig \<Rightarrow> unit checked" where
  \<comment> \<open>the range checks of \<open>LoadConfig\<close>, in its order\<close>
  "check_knobs fc =
     then_c (check (fc_ActiveDeadlineSeconds fc > 0) (BadDeadline (fc_ActiveDeadlineSeconds fc)))
     (let cr = defaultInt (fc_CloneRetries fc) 3;
          cd = defaultInt (fc_CloneRetryBaseDelay fc) 2;
          kr = defaultInt (fc_HistoryKeepRecent fc) DefaultHistoryKeepRecent;
          kf = defaultInt (fc_HistoryKeepFailed fc) DefaultHistoryKeepFailed;
          th = defaultInt (fc_ScheduledAlertThreshold fc) DefaultScheduledAlertThreshold
      in then_c (check (cr \<ge> 1) (BadCloneRetries cr))
        (then_c (check (cd \<ge> 0) (BadCloneRetryBaseDelay cd))
        (then_c (check (1 \<le> kr \<and> kr \<le> 50) (BadHistoryKeepRecent kr))
        (then_c (check (1 \<le> kf \<and> kf \<le> 50) (BadHistoryKeepFailed kf))
        (check (th \<ge> 1) (BadScheduledAlertThreshold th))))))"

definition check_gitauth :: "GitAuth \<Rightarrow> unit checked" where
  "check_gitauth g =
     (if ga_SecretName g \<noteq> '''' \<and> ga_Hosts g = [] then Inl GitAuthNoHosts
      else if ga_SecretName g = '''' \<and> ga_Hosts g \<noteq> [] then Inl GitAuthNoSecret
      else Inr ())"

definition file_operator_config :: "FileConfig \<Rightarrow> duration \<Rightarrow> PhaseResourceDefaults \<Rightarrow> OperatorConfig" where
  "file_operator_config fc interval prd = \<lparr>
     cfg_RegistryAllowlist = fc_RegistryAllowlist fc,
     cfg_ClusterCIDRs = fc_ClusterCIDRs fc,
     cfg_TraefikGroup = fc_TraefikGroup fc,
     cfg_ImagePullSecret = fc_ImagePullSecret fc,
     cfg_MeasureInterval = interval,
     cfg_DefaultSchedule = defaultStr (fc_DefaultSchedule fc) ''0 */12 * * *'',
     cfg_DefaultWatchInterval = defaultStr (fc_DefaultWatchInterval fc) ''10m'',
     cfg_Images = fc_Images fc,
     cfg_NodeImages = fc_NodeImages fc,
     cfg_DefaultSetupCommands = mergeSetupCommands (fc_DefaultSetupCommands fc),
     cfg_PhaseResourceDefaults = prd,
     cfg_ActiveDeadlineSeconds = fc_ActiveDeadlineSeconds fc,
     cfg_GitAuth = fc_GitAuth fc,
     cfg_CloneRetries = defaultInt (fc_CloneRetries fc) 3,
     cfg_CloneRetryBaseDelay = defaultInt (fc_CloneRetryBaseDelay fc) 2,
     cfg_HistoryKeepRecent = defaultInt (fc_HistoryKeepRecent fc) DefaultHistoryKeepRecent,
     cfg_HistoryKeepFailed = defaultInt (fc_HistoryKeepFailed fc) DefaultHistoryKeepFailed,
     cfg_ScheduledAlertThreshold = defaultInt (fc_ScheduledAlertThreshold fc) DefaultScheduledAlertThreshold\<rparr>"

definition manager_options :: "FileConfig \<Rightarrow> ManagerOptions" where
  "manager_options fc = \<lparr>
     mo_MetricsBindAddress = defaultStr (fc_MetricsBindAddress fc) '':8080'',
     mo_HealthProbeBindAddress = defaultStr (fc_HealthProbeBindAddress fc) '':8081'',
     mo_LeaderElect = (case fc_LeaderElect fc of None \<Rightarrow> True | Some b \<Rightarrow> b),
     mo_StorageClass = fc_StorageClass fc,
     mo_TraefikNamespace = defaultStr (fc_TraefikNamespace fc) ''traefik''\<rparr>"

definition load_file :: "config_libs \<Rightarrow> FileConfig \<Rightarrow> (OperatorConfig \<times> ManagerOptions) checked" where
  "load_file lib fc =
     bind_c (parse_interval (fc_MeasureInterval fc)) (\<lambda>interval.
     then_c (check (lib_cron_ParseStandard lib (defaultStr (fc_DefaultSchedule fc) ''0 */12 * * *''))
               (BadSchedule (fc_DefaultSchedule fc)))
     (bind_c (case WatchCron (defaultStr (fc_DefaultWatchInterval fc) ''10m'') of
                Inl e \<Rightarrow> Inl (BadWatchInterval e) | Inr c \<Rightarrow> Inr c) (\<lambda>_.
      bind_c (parse_resources lib (fc_PhaseResources fc)) (\<lambda>prd.
      then_c (check_knobs fc)
      (then_c (check_gitauth (fc_GitAuth fc))
      (then_c (of_err (validateDefaultSetupCommands (fc_DefaultSetupCommands fc)))
      (let cfg = Defaults (file_operator_config fc interval prd)
       in then_c (of_err (Validate cfg))
          (then_c (of_err (validateNodeImages (cfg_NodeImages cfg)))
          (Inr (cfg, manager_options fc))))))))))"

definition LoadConfig :: "config_libs \<Rightarrow> string \<Rightarrow> (OperatorConfig \<times> ManagerOptions) checked" where
  "LoadConfig lib path =
     (case lib_ReadFile lib path of
        None \<Rightarrow> Inl (ReadError path)
      | Some raw \<Rightarrow>
          (case lib_yaml_Unmarshal lib raw of
             None \<Rightarrow> Inl (ParseError path)
           | Some fc \<Rightarrow> load_file lib fc))"

definition ParseNodeImages :: "(string \<Rightarrow> NodeImage gomap option) \<Rightarrow> string \<Rightarrow> NodeImage gomap checked" where
  \<comment> \<open>\<open>unmarshal\<close> is \<open>json.Unmarshal\<close> into the map type\<close>
  "ParseNodeImages unmarshal s =
     (if s = '''' then Inr []
      else case unmarshal s of
        None \<Rightarrow> Inl (BadNodeImagesJSON s)
      | Some m \<Rightarrow> (case validateNodeImages m of Some e \<Rightarrow> Inl e | None \<Rightarrow> Inr m))"

section \<open>What a loaded configuration guarantees\<close>

definition config_ok :: "config_libs \<Rightarrow> OperatorConfig \<Rightarrow> bool" where
  "config_ok lib c \<longleftrightarrow>
     cfg_ClusterCIDRs c \<noteq> [] \<and> list_all ParseCIDR (cfg_ClusterCIDRs c) \<and> cfg_TraefikGroup c \<noteq> '''' \<and>
     0 < cfg_MeasureInterval c \<and> 0 < cfg_ActiveDeadlineSeconds c \<and>
     1 \<le> cfg_CloneRetries c \<and> 0 \<le> cfg_CloneRetryBaseDelay c \<and>
     1 \<le> cfg_HistoryKeepRecent c \<and> cfg_HistoryKeepRecent c \<le> 50 \<and>
     1 \<le> cfg_HistoryKeepFailed c \<and> cfg_HistoryKeepFailed c \<le> 50 \<and>
     1 \<le> cfg_ScheduledAlertThreshold c \<and>
     lib_cron_ParseStandard lib (cfg_DefaultSchedule c) \<and>
     (\<exists>cron. WatchCron (cfg_DefaultWatchInterval c) = Inr cron) \<and>
     (GitAuth_Enabled (cfg_GitAuth c) \<longleftrightarrow> ga_Hosts (cfg_GitAuth c) \<noteq> []) \<and>
     list_all (\<lambda>pm. DefaultSetupCommand c pm \<noteq> [] \<and> hd (DefaultSetupCommand c pm) \<noteq> '''') [PackageManagerYarn, PackageManagerPnpm] \<and>
     list_all (\<lambda>(major, ni). ParseInt major \<noteq> None \<and> ni_Image ni \<noteq> '''' \<and>
       (case ni_RunAsUser ni of None \<Rightarrow> False | Some u \<Rightarrow> 1 \<le> u)) (cfg_NodeImages c)"

lemma bind_c_Inr: "bind_c m f = Inr y \<longleftrightarrow> (\<exists>x. m = Inr x \<and> f x = Inr y)"
  by (simp add: bind_c_def split: sum.split)

lemma then_c_Inr: "then_c m n = Inr y \<longleftrightarrow> (\<exists>x. m = Inr x) \<and> n = Inr y"
  by (simp add: then_c_def bind_c_Inr)

lemma check_Inr: "check b e = Inr u \<longleftrightarrow> b"
  by (simp add: check_def)

lemma of_err_Inr: "of_err e = Inr u \<longleftrightarrow> e = None"
  by (simp add: of_err_def split: option.split)

lemmas checked_Inr = bind_c_Inr then_c_Inr check_Inr of_err_Inr

lemma validateNodeImages_None:
  "validateNodeImages m = None \<longleftrightarrow> list_all (\<lambda>(major, ni). ParseInt major \<noteq> None \<and> ni_Image ni \<noteq> '''' \<and>
     (case ni_RunAsUser ni of None \<Rightarrow> False | Some u \<Rightarrow> 1 \<le> u)) m"
  by (induction m rule: validateNodeImages.induct) (auto split: option.splits)

text \<open>A parsed node-image map passes the check that the file's map has to pass.\<close>

lemma ParseNodeImages_ok: "ParseNodeImages unmarshal s = Inr m \<Longrightarrow> validateNodeImages m = None"
  by (auto simp: ParseNodeImages_def split: if_splits option.splits)

lemma validateDefaultSetupCommands_None:
  "validateDefaultSetupCommands m = None \<Longrightarrow> map_of m pm = Some argv \<Longrightarrow> argv \<noteq> [] \<and> hd argv \<noteq> ''''"
  by (induction m rule: validateDefaultSetupCommands.induct) (auto split: if_splits list.splits)

lemma mergeSetupCommands_ok:
  assumes "validateDefaultSetupCommands m = None" "pm \<in> {PackageManagerYarn, PackageManagerPnpm}"
  shows "\<exists>argv. map_of (mergeSetupCommands m) pm = Some argv \<and> argv \<noteq> [] \<and> hd argv \<noteq> ''''"
  using assms validateDefaultSetupCommands_None [OF assms(1), of pm]
  by (auto simp: mergeSetupCommands_def defaultSetupCommandFallbacks_def split: option.splits)

lemma MetadataIP_valid [simp]: "ParseCIDR MetadataIP"
  by code_simp

lemma Validate_None:
  "Validate c = None \<longleftrightarrow> cfg_ClusterCIDRs c \<noteq> [] \<and> list_all ParseCIDR (cfg_ClusterCIDRs c) \<and> cfg_TraefikGroup c \<noteq> ''''"
  by (auto simp: Validate_def list_all_iff find_None_all split: option.splits dest!: find_Some_in)

lemma check_knobs_ok:
  assumes "check_knobs fc = Inr u"
  shows "0 < fc_ActiveDeadlineSeconds fc" "1 \<le> defaultInt (fc_CloneRetries fc) 3"
    "0 \<le> defaultInt (fc_CloneRetryBaseDelay fc) 2"
    "1 \<le> defaultInt (fc_HistoryKeepRecent fc) 5" "defaultInt (fc_HistoryKeepRecent fc) 5 \<le> 50"
    "1 \<le> defaultInt (fc_HistoryKeepFailed fc) 10" "defaultInt (fc_HistoryKeepFailed fc) 10 \<le> 50"
    "1 \<le> defaultInt (fc_ScheduledAlertThreshold fc) 3"
  using assms by (simp_all add: check_knobs_def Let_def checked_Inr)

lemma check_gitauth_ok: "check_gitauth g = Inr u \<Longrightarrow> GitAuth_Enabled g \<longleftrightarrow> ga_Hosts g \<noteq> []"
  by (auto simp: check_gitauth_def GitAuth_Enabled_def split: if_splits)

lemma load_file_ok:
  assumes "load_file lib fc = Inr (cfg, mgr)"
  shows "config_ok lib cfg"
proof -
  from assms obtain interval prd u1 u2 cron where
    sched: "lib_cron_ParseStandard lib (defaultStr (fc_DefaultSchedule fc) ''0 */12 * * *'')" and
    watch: "WatchCron (defaultStr (fc_DefaultWatchInterval fc) ''10m'') = Inr cron" and
    knobs: "check_knobs fc = Inr u1" and git: "check_gitauth (fc_GitAuth fc) = Inr u2" and
    vcmds: "validateDefaultSetupCommands (fc_DefaultSetupCommands fc) = None" and
    cfg: "cfg = Defaults (file_operator_config fc interval prd)" and
    valid: "Validate cfg = None" and nodes: "validateNodeImages (cfg_NodeImages cfg) = None"
    by (auto simp: load_file_def checked_Inr Let_def split: sum.splits)
  have schedule: "cfg_DefaultSchedule cfg = defaultStr (fc_DefaultSchedule fc) ''0 */12 * * *''"
    and watchd: "cfg_DefaultWatchInterval cfg = defaultStr (fc_DefaultWatchInterval fc) ''10m''"
    and git': "cfg_GitAuth cfg = fc_GitAuth fc"
    and cmds: "cfg_DefaultSetupCommands cfg = mergeSetupCommands (fc_DefaultSetupCommands fc)"
    and interval': "0 < cfg_MeasureInterval cfg"
    by (simp_all add: cfg Defaults_def file_operator_config_def defaultStr_def Hour_def)
  have "list_all (\<lambda>pm. DefaultSetupCommand cfg pm \<noteq> [] \<and> hd (DefaultSetupCommand cfg pm) \<noteq> '''') [PackageManagerYarn, PackageManagerPnpm]"
    using mergeSetupCommands_ok [OF vcmds, of PackageManagerYarn] mergeSetupCommands_ok [OF vcmds, of PackageManagerPnpm]
    by (auto simp: DefaultSetupCommand_def cmds)
  moreover have "0 < cfg_ActiveDeadlineSeconds cfg \<and> 1 \<le> cfg_CloneRetries cfg \<and> 0 \<le> cfg_CloneRetryBaseDelay cfg \<and>
      1 \<le> cfg_HistoryKeepRecent cfg \<and> cfg_HistoryKeepRecent cfg \<le> 50 \<and>
      1 \<le> cfg_HistoryKeepFailed cfg \<and> cfg_HistoryKeepFailed cfg \<le> 50 \<and> 1 \<le> cfg_ScheduledAlertThreshold cfg"
    using check_knobs_ok [OF knobs] by (auto simp: cfg Defaults_def file_operator_config_def)
  ultimately show ?thesis
    using sched watch check_gitauth_ok [OF git] valid nodes schedule watchd git' interval'
    unfolding config_ok_def Validate_None validateNodeImages_None by simp
qed

section \<open>Properties\<close>

text \<open>C30. Loading is fail-closed: whatever file is given, a configuration that is returned has valid
  non-empty cluster CIDRs, positive deadline and measure interval, history caps in 1..50, usable
  default schedules, an install command for both package managers, node images with a non-root
  UID, and a git credential exactly when it has a host allowlist.\<close>

theorem LoadConfig_fail_closed:
  assumes "LoadConfig lib path = Inr (cfg, mgr)"
  shows "config_ok lib cfg"
  using assms load_file_ok by (auto simp: LoadConfig_def split: option.splits)

definition sample_file :: FileConfig where
  "sample_file = \<lparr>fc_MetricsBindAddress = '''', fc_HealthProbeBindAddress = '''', fc_LeaderElect = None,
     fc_RegistryAllowlist = [], fc_ClusterCIDRs = [''10.0.0.0/8''], fc_TraefikGroup = '''', fc_TraefikNamespace = '''',
     fc_ImagePullSecret = '''', fc_StorageClass = ''local-path'', fc_MeasureInterval = '''', fc_DefaultSchedule = '''',
     fc_DefaultWatchInterval = ''5m'',
     fc_Images = \<lparr>img_Clone = '''', img_Copier = '''', img_Du = '''', img_Cleanup = '''', img_Clock = '''', img_Shim = '''', img_Nginx = ''''\<rparr>,
     fc_NodeImages = [(''20'', \<lparr>ni_Image = ''node:20'', ni_RunAsUser = Some 1000, ni_Home = ''''\<rparr>)],
     fc_DefaultSetupCommands = [],
     fc_PhaseResources = \<lparr>fpr_CPURequest = ''1'', fpr_CPULimit = ''2'', fpr_MemorySetup = ''1Gi'', fpr_MemoryFetch = ''1Gi'', fpr_MemoryBuild = ''2Gi''\<rparr>,
     fc_ActiveDeadlineSeconds = 3600, fc_CloneRetries = None, fc_CloneRetryBaseDelay = None, fc_HistoryKeepRecent = None,
     fc_HistoryKeepFailed = None, fc_ScheduledAlertThreshold = None,
     fc_GitAuth = \<lparr>ga_SecretName = '''', ga_Hosts = []\<rparr>\<rparr>"

definition sample_libs :: config_libs where
  "sample_libs = \<lparr>lib_ReadFile = (\<lambda>_. Some ''''), lib_yaml_Unmarshal = (\<lambda>_. Some sample_file),
     lib_cron_ParseStandard = (\<lambda>s. s \<noteq> ''''), lib_ParseQuantity = (\<lambda>s. if s = '''' then None else Some s)\<rparr>"

definition sample_config :: OperatorConfig where
  "sample_config = Defaults (file_operator_config sample_file Hour
     \<lparr>prd_CPURequest = ''1'', prd_CPULimit = ''2'', prd_MemorySetup = ''1Gi'', prd_MemoryFetch = ''1Gi'', prd_MemoryBuild = ''2Gi''\<rparr>)"

lemma Defaults_idem: "Defaults (Defaults c) = Defaults c"
  by (simp add: Defaults_def default_image_def)

lemma LoadConfig_loaded:
  assumes "LoadConfig lib path = Inr (cfg, mgr)"
  shows "config_ok lib cfg" "Defaults cfg = cfg"
proof -
  from assms obtain fc where fc: "load_file lib fc = Inr (cfg, mgr)"
    by (auto simp: LoadConfig_def split: option.splits)
  show "config_ok lib cfg" by (rule load_file_ok [OF fc])
  show "Defaults cfg = cfg"
    using fc by (auto simp: load_file_def Let_def bind_c_Inr then_c_Inr Defaults_idem)
qed

lemma sample_loaded: "LoadConfig sample_libs path = Inr (sample_config, manager_options sample_file)"
proof -
  have "nat_dec 5 = ''5''" by code_simp
  then have "ParseDuration ''5m'' = Some (5 * Minute)"
    using ParseDuration_whole [of "CHR ''m''" 60000000000 5]
    by (simp add: unitMap_def unit_char_def is_digit_def byte_def Minute_def)
  then have watch: "WatchCron ''5m'' = Inr (every_minutes 5)" by (rule WatchCron_minutes) simp_all
  have cidr: "ParseCIDR ''10.0.0.0/8''" by code_simp
  have "Itoa 20 = ''20''" by code_simp
  then have node: "ParseInt ''20'' = Some 20" using ParseInt_Itoa [of 20] by (simp add: int64_range_def)
  have res: "parse_resources sample_libs (fc_PhaseResources sample_file) =
      Inr \<lparr>prd_CPURequest = ''1'', prd_CPULimit = ''2'', prd_MemorySetup = ''1Gi'', prd_MemoryFetch = ''1Gi'', prd_MemoryBuild = ''2Gi''\<rparr>"
    by (simp add: parse_resources_def quantity_field_def sample_libs_def sample_file_def bind_c_def)
  have knobs: "check_knobs sample_file = Inr ()"
    by (simp add: check_knobs_def sample_file_def defaultInt_def then_c_def bind_c_def check_def)
  have valid: "Validate sample_config = None" "validateNodeImages (cfg_NodeImages sample_config) = None"
    using cidr node
    by (simp_all add: Validate_None sample_config_def Defaults_def file_operator_config_def sample_file_def)
  have "load_file sample_libs sample_file = Inr (sample_config, manager_options sample_file)"
    unfolding load_file_def res knobs
    using watch valid
    by (simp add: bind_c_def then_c_def of_err_def check_def parse_interval_def check_gitauth_def defaultStr_def
        sample_file_def [THEN arg_cong [where f = fc_MeasureInterval]]
        sample_file_def [THEN arg_cong [where f = fc_DefaultSchedule]]
        sample_file_def [THEN arg_cong [where f = fc_DefaultWatchInterval]]
        sample_file_def [THEN arg_cong [where f = fc_GitAuth]]
        sample_file_def [THEN arg_cong [where f = fc_DefaultSetupCommands]]
        sample_libs_def sample_config_def [symmetric])
  then show ?thesis by (simp add: LoadConfig_def sample_libs_def)
qed

theorem LoadConfig_fail_closed_witness: "config_ok sample_libs sample_config"
  by (rule LoadConfig_fail_closed [OF sample_loaded])

end
