(* ===== verification/Domain_Storage.thy ===== *)
theory Domain_Storage
  imports Go_Strings "HOL-Library.Multiset"
begin

text \<open>
  \<open>internal/domain/storage.go\<close>: per-volume thresholds, their validation, and the classification of
  measured sizes. Byte counts are \<open>int64\<close> values and are only compared here.
\<close>

section \<open>Thresholds\<close>

abbreviation ThresholdStateOK :: string where "ThresholdStateOK \<equiv> ''OK''"
abbreviation ThresholdStateAlert :: string where "ThresholdStateAlert \<equiv> ''Alert''"
abbreviation ThresholdStateCritical :: string where "ThresholdStateCritical \<equiv> ''Critical''"

record VolumeThresholds =
  CleanupBytes :: int
  AlertBytes :: int
  CapBytes :: int

definition noThresholds :: VolumeThresholds where
  "noThresholds = \<lparr>CleanupBytes = 0, AlertBytes = 0, CapBytes = 0\<rparr>"

record StorageConfig =
  sc_Cache :: VolumeThresholds
  sc_DataCache :: VolumeThresholds
  sc_Output :: VolumeThresholds

definition Volumes :: "StorageConfig \<Rightarrow> (string \<times> VolumeThresholds) list" where
  "Volumes cfg = [(''cache'', sc_Cache cfg), (''dataCache'', sc_DataCache cfg), (''output'', sc_Output cfg)]"

section \<open>Validation\<close>

text \<open>The error carries what the message prints: volume, both labels and both values.\<close>

datatype storage_error = NotBelow string string int string int

fun checkOrder :: "string \<Rightarrow> (string \<times> int) option \<Rightarrow> (string \<times> int) list \<Rightarrow> storage_error option" where
  \<comment> \<open>the loop of \<open>validateVolume\<close>; the second argument is the previous present threshold\<close>
  "checkOrder name prev [] = None"
| "checkOrder name prev ((label, val) # rest) =
     (if val = 0 then checkOrder name prev rest
      else case prev of
        Some (plabel, pval) \<Rightarrow>
          if pval \<ge> val then Some (NotBelow name plabel pval label val)
          else checkOrder name (Some (label, val)) rest
      | None \<Rightarrow> checkOrder name (Some (label, val)) rest)"

definition validateVolume :: "string \<Rightarrow> VolumeThresholds \<Rightarrow> storage_error option" where
  "validateVolume name v =
     checkOrder name None [(''cleanupThreshold'', CleanupBytes v), (''alertThreshold'', AlertBytes v),
                           (''releaseSizeCap'', CapBytes v)]"

fun validateVolumes :: "(string \<times> VolumeThresholds) list \<Rightarrow> storage_error option" where
  "validateVolumes [] = None"
| "validateVolumes ((name, v) # vols) =
     (case validateVolume name v of Some e \<Rightarrow> Some e | None \<Rightarrow> validateVolumes vols)"

definition ValidateStorage :: "StorageConfig \<Rightarrow> storage_error option" where
  "ValidateStorage cfg = validateVolumes (Volumes cfg)"

definition present :: "VolumeThresholds \<Rightarrow> int list" where
  "present v = filter (\<lambda>x. x \<noteq> 0) [CleanupBytes v, AlertBytes v, CapBytes v]"

lemma list_all2_in_set1:
  "list_all2 R xs ys \<Longrightarrow> x \<in> set xs \<Longrightarrow> \<exists>y\<in>set ys. R x y"
  by (metis in_set_conv_nth list_all2_conv_all_nth)

lemma checkOrder_None_iff:
  "checkOrder name prev xs = None \<longleftrightarrow>
     sorted_wrt (<) ((case prev of None \<Rightarrow> [] | Some (_, p) \<Rightarrow> [p]) @ filter (\<lambda>x. x \<noteq> 0) (map snd xs))"
  by (induction name prev xs rule: checkOrder.induct) (auto split: option.splits)

lemma validateVolume_None_iff: "validateVolume name v = None \<longleftrightarrow> sorted_wrt (<) (present v)"
  by (simp only: validateVolume_def checkOrder_None_iff present_def) simp

lemma validateVolumes_None_iff:
  "validateVolumes vols = None \<longleftrightarrow> (\<forall>(n, v)\<in>set vols. sorted_wrt (<) (present v))"
  by (induction vols) (auto simp: validateVolume_None_iff split: option.splits)

section \<open>Classification of measured sizes\<close>

definition thresholdsForKey :: "string \<Rightarrow> StorageConfig \<Rightarrow> VolumeThresholds option" where
  "thresholdsForKey key cfg =
     (let k = ToLower key
      in if Contains k ''total'' then None
         else if Contains k ''output'' then Some (sc_Output cfg)
         else if Contains k ''data'' then Some (sc_DataCache cfg)
         else if Contains k ''cache'' then Some (sc_Cache cfg)
         else None)"

fun classify :: "StorageConfig \<Rightarrow> int gomap \<Rightarrow> bool \<Rightarrow> bool \<Rightarrow> bool \<times> bool" where
  \<comment> \<open>the \<open>range\<close> loop of \<open>EvaluateThresholdState\<close> over its two flags\<close>
  "classify cfg [] critical alert = (critical, alert)"
| "classify cfg ((key, sz) # rest) critical alert =
     (case thresholdsForKey key cfg of
        None \<Rightarrow> classify cfg rest critical alert
      | Some v \<Rightarrow> classify cfg rest (critical \<or> (CapBytes v > 0 \<and> sz \<ge> CapBytes v))
                                    (alert \<or> (AlertBytes v > 0 \<and> sz \<ge> AlertBytes v)))"

definition EvaluateThresholdState :: "int gomap \<Rightarrow> StorageConfig \<Rightarrow> string" where
  "EvaluateThresholdState sizes cfg =
     (if sizes = [] then ''''
      else case classify cfg sizes False False of
        (critical, alert) \<Rightarrow> if critical then ThresholdStateCritical
                              else if alert then ThresholdStateAlert else ThresholdStateOK)"

definition overCap :: "StorageConfig \<Rightarrow> string \<times> int \<Rightarrow> bool" where
  "overCap cfg kv \<longleftrightarrow> (\<exists>v. thresholdsForKey (fst kv) cfg = Some v \<and> CapBytes v > 0 \<and> snd kv \<ge> CapBytes v)"

definition overAlert :: "StorageConfig \<Rightarrow> string \<times> int \<Rightarrow> bool" where
  "overAlert cfg kv \<longleftrightarrow> (\<exists>v. thresholdsForKey (fst kv) cfg = Some v \<and> AlertBytes v > 0 \<and> snd kv \<ge> AlertBytes v)"

lemma classify_eq:
  "classify cfg sizes c a = (c \<or> (\<exists>kv\<in>set sizes. overCap cfg kv), a \<or> (\<exists>kv\<in>set sizes. overAlert cfg kv))"
  by (induction cfg sizes c a rule: classify.induct)
     (auto simp: overCap_def overAlert_def split: option.splits)

lemma EvaluateThresholdState_eq:
  "EvaluateThresholdState sizes cfg =
     (if sizes = [] then ''''
      else if \<exists>kv\<in>set sizes. overCap cfg kv then ThresholdStateCritical
      else if \<exists>kv\<in>set sizes. overAlert cfg kv then ThresholdStateAlert else ThresholdStateOK)"
  by (simp add: EvaluateThresholdState_def classify_eq)

fun state_rank :: "string \<Rightarrow> nat" where
  "state_rank s = (if s = ThresholdStateCritical then 3 else if s = ThresholdStateAlert then 2
                   else if s = ThresholdStateOK then 1 else 0)"

lemma thresholdsForKey_cases:
  "thresholdsForKey key cfg = Some v \<Longrightarrow> v = sc_Output cfg \<or> v = sc_DataCache cfg \<or> v = sc_Cache cfg"
  by (auto simp: thresholdsForKey_def Let_def split: if_splits)

lemma overCap_mono: "overCap cfg a \<Longrightarrow> fst a = fst b \<and> snd a \<le> snd b \<Longrightarrow> overCap cfg b"
  by (auto simp: overCap_def)

lemma overAlert_mono: "overAlert cfg a \<Longrightarrow> fst a = fst b \<and> snd a \<le> snd b \<Longrightarrow> overAlert cfg b"
  by (auto simp: overAlert_def)

lemma overCap_imp_overAlert:
  assumes "ValidateStorage cfg = None" and "overCap cfg kv"
    and "\<And>v. thresholdsForKey (fst kv) cfg = Some v \<Longrightarrow> AlertBytes v > 0"
  shows "overAlert cfg kv"
proof -
  from assms(2) obtain v where v: "thresholdsForKey (fst kv) cfg = Some v" "CapBytes v > 0" "snd kv \<ge> CapBytes v"
    by (auto simp: overCap_def)
  from assms(1) have "\<forall>w\<in>{sc_Cache cfg, sc_DataCache cfg, sc_Output cfg}. sorted_wrt (<) (present w)"
    unfolding ValidateStorage_def validateVolumes_None_iff by (simp add: Volumes_def)
  with thresholdsForKey_cases [OF v(1)] have "sorted_wrt (<) (present v)" by auto
  moreover have "AlertBytes v > 0" using assms(3) v(1) by blast
  ultimately have "AlertBytes v < CapBytes v"
    using v(2) by (auto simp: present_def split: if_splits)
  with v \<open>AlertBytes v > 0\<close> show ?thesis by (auto simp: overAlert_def)
qed

section \<open>Properties\<close>

text \<open>A storage configuration is accepted exactly when, for each of the three volumes, the
  thresholds that are set (non-zero) are strictly increasing in the order cleanup, alert, cap, also
  across an unset middle threshold.\<close>

theorem ValidateStorage_iff:
  "ValidateStorage cfg = None \<longleftrightarrow> (\<forall>(n, v)\<in>set (Volumes cfg). sorted_wrt (<) (present v))"
  by (simp add: ValidateStorage_def validateVolumes_None_iff)

theorem ValidateStorage_iff_witness:
  "ValidateStorage \<lparr>sc_Cache = noThresholds\<lparr>CleanupBytes := 5\<rparr>, sc_DataCache = noThresholds,
     sc_Output = noThresholds\<lparr>AlertBytes := 7, CapBytes := 9\<rparr>\<rparr> = None"
  by (subst ValidateStorage_iff) (simp add: Volumes_def present_def noThresholds_def)

text \<open>The threshold state is Critical exactly when some measured volume reached its cap, Alert
  exactly when none did but some volume reached its alert threshold, OK otherwise, and empty when
  nothing was measured: it does not depend on the order in which Go visits the sizes map.\<close>

theorem EvaluateThresholdState_order_independent:
  assumes "mset sizes = mset sizes'"
  shows "EvaluateThresholdState sizes cfg = EvaluateThresholdState sizes' cfg \<and>
    (EvaluateThresholdState sizes cfg = ThresholdStateCritical \<longleftrightarrow> (\<exists>kv\<in>set sizes. overCap cfg kv)) \<and>
    (EvaluateThresholdState sizes cfg = ThresholdStateAlert \<longleftrightarrow>
       (\<exists>kv\<in>set sizes. overAlert cfg kv) \<and> \<not> (\<exists>kv\<in>set sizes. overCap cfg kv)) \<and>
    (EvaluateThresholdState sizes cfg = '''' \<longleftrightarrow> sizes = [])"
proof -
  have "set sizes = set sizes'" using mset_eq_setD [OF assms] .
  moreover have "sizes = [] \<longleftrightarrow> sizes' = []" using assms by (metis mset_zero_iff)
  ultimately show ?thesis by (auto simp: EvaluateThresholdState_eq)
qed

theorem EvaluateThresholdState_order_independent_witness:
  "EvaluateThresholdState [(''output'', 9), (''cache'', 1)]
     \<lparr>sc_Cache = noThresholds, sc_DataCache = noThresholds, sc_Output = noThresholds\<rparr> =
   EvaluateThresholdState [(''cache'', 1), (''output'', 9)]
     \<lparr>sc_Cache = noThresholds, sc_DataCache = noThresholds, sc_Output = noThresholds\<rparr>"
  by (rule conjunct1 [OF EvaluateThresholdState_order_independent]) simp

text \<open>A valid configuration warns before it blocks: a volume that reached its cap has also
  reached its alert threshold when it has one, and growing volumes never lower the reported state.\<close>

theorem threshold_state_warns_and_grows:
  assumes "ValidateStorage cfg = None"
    and "list_all2 (\<lambda>a b. fst a = fst b \<and> snd a \<le> snd b) sizes sizes'"
  shows "(\<forall>kv\<in>set sizes. overCap cfg kv \<longrightarrow>
           (\<forall>v. thresholdsForKey (fst kv) cfg = Some v \<longrightarrow> AlertBytes v > 0) \<longrightarrow> overAlert cfg kv) \<and>
         state_rank (EvaluateThresholdState sizes cfg) \<le> state_rank (EvaluateThresholdState sizes' cfg)"
proof
  show "\<forall>kv\<in>set sizes. overCap cfg kv \<longrightarrow>
      (\<forall>v. thresholdsForKey (fst kv) cfg = Some v \<longrightarrow> AlertBytes v > 0) \<longrightarrow> overAlert cfg kv"
    using overCap_imp_overAlert [OF assms(1)] by blast
  have cap: "\<exists>b\<in>set sizes'. overCap cfg b" if "a \<in> set sizes" "overCap cfg a" for a
    using list_all2_in_set1 [OF assms(2) that(1)] overCap_mono [OF that(2)] by blast
  have alert: "\<exists>b\<in>set sizes'. overAlert cfg b" if "a \<in> set sizes" "overAlert cfg a" for a
    using list_all2_in_set1 [OF assms(2) that(1)] overAlert_mono [OF that(2)] by blast
  have "sizes = [] \<longleftrightarrow> sizes' = []" using assms(2) by auto
  with cap alert
  show "state_rank (EvaluateThresholdState sizes cfg) \<le> state_rank (EvaluateThresholdState sizes' cfg)"
    by (auto simp: EvaluateThresholdState_eq)
qed

theorem threshold_state_warns_and_grows_witness:
  "state_rank (EvaluateThresholdState [(''output'', 8)] \<lparr>sc_Cache = noThresholds, sc_DataCache = noThresholds,
       sc_Output = noThresholds\<lparr>AlertBytes := 7, CapBytes := 9\<rparr>\<rparr>)
   \<le> state_rank (EvaluateThresholdState [(''output'', 10)] \<lparr>sc_Cache = noThresholds, sc_DataCache = noThresholds,
       sc_Output = noThresholds\<lparr>AlertBytes := 7, CapBytes := 9\<rparr>\<rparr>)"
  by (rule conjunct2 [OF threshold_state_warns_and_grows])
     (simp_all add: ValidateStorage_def validateVolume_def Volumes_def noThresholds_def)

end
