(* ===== verification/Go_Hash.thy ===== *)
theory Go_Hash
  imports Go_Strings "HOL-Library.Word" "HOL-Library.Multiset" "HOL-Library.Char_ord" "HOL-Library.List_Lexorder"
begin

text \<open>
  The encoders behind the build-spec hash: \<open>encoding/json\<close> strings, integers and lists,
  \<open>crypto/sha256\<close> on 32-bit words, and \<open>encoding/hex\<close>. The JSON part comes with the law that makes
  it usable as a fingerprint: an encoding followed by anything can be read back in one way only
  (the locale \<open>prefix_code\<close>).
\<close>

unbundle bit_operations_syntax

section \<open>encoding/hex\<close>

definition hex_digit :: "nat \<Rightarrow> char" where
  "hex_digit n = (if n < 10 then char_of (48 + n) else char_of (87 + n))"

definition hex_byte :: "char \<Rightarrow> string" where
  "hex_byte c = [hex_digit (byte c div 16), hex_digit (byte c mod 16)]"

definition EncodeToString :: "string \<Rightarrow> string" where
  "EncodeToString s = concat (map hex_byte s)"

section \<open>crypto/sha256\<close>

type_synonym w32 = "32 word"

definition sha_k :: "w32 list" where
  \<comment> \<open>the first 32 bits of the fractional parts of the cube roots of the first 64 primes, in decimal\<close>
  "sha_k = [
    1116352408, 1899447441, 3049323471, 3921009573, 961987163, 1508970993, 2453635748, 2870763221,
    3624381080, 310598401, 607225278, 1426881987, 1925078388, 2162078206, 2614888103, 3248222580,
    3835390401, 4022224774, 264347078, 604807628, 770255983, 1249150122, 1555081692, 1996064986,
    2554220882, 2821834349, 2952996808, 3210313671, 3336571891, 3584528711, 113926993, 338241895,
    666307205, 773529912, 1294757372, 1396182291, 1695183700, 1986661051, 2177026350, 2456956037,
    2730485921, 2820302411, 3259730800, 3345764771, 3516065817, 3600352804, 4094571909, 275423344,
    430227734, 506948616, 659060556, 883997877, 958139571, 1322822218, 1537002063, 1747873779,
    1955562222, 2024104815, 2227730452, 2361852424, 2428436474, 2756734187, 3204031479, 3329325298]"

definition sha_init :: "w32 list" where
  \<comment> \<open>the same of the square roots of the first 8 primes\<close>
  "sha_init = [1779033703, 3144134277, 1013904242, 2773480762,
               1359893119, 2600822924, 528734635, 1541459225]"

definition rotr :: "nat \<Rightarrow> w32 \<Rightarrow> w32" where
  \<comment> \<open>\<open>bits.RotateLeft32(x, -n)\<close>\<close>
  "rotr n x = drop_bit n x OR push_bit (32 - n) x"

definition sha_sigma :: "nat \<Rightarrow> nat \<Rightarrow> nat \<Rightarrow> w32 \<Rightarrow> w32" where
  "sha_sigma a b c x = rotr a x XOR rotr b x XOR drop_bit c x"

definition sha_Sigma :: "nat \<Rightarrow> nat \<Rightarrow> nat \<Rightarrow> w32 \<Rightarrow> w32" where
  "sha_Sigma a b c x = rotr a x XOR rotr b x XOR rotr c x"

definition word_of_bytes :: "string \<Rightarrow> w32" where
  "word_of_bytes s = fold (\<lambda>c w. push_bit 8 w OR of_nat (byte c)) s 0"

definition bytes_of_word :: "w32 \<Rightarrow> string" where
  "bytes_of_word w = map (\<lambda>i. char_of (unat (drop_bit i w) mod 256)) [24, 16, 8, 0]"

definition sha_pad :: "string \<Rightarrow> string" where
  "sha_pad s =
     (let n = length s; z = (119 - n mod 64) mod 64
      in s @ [char_of (128::nat)] @ replicate z (char_of (0::nat)) @
         map (\<lambda>i. char_of (8 * n div 256 ^ i mod 256)) [7, 6, 5, 4, 3, 2, 1, 0])"

fun chunks :: "nat \<Rightarrow> nat \<Rightarrow> 'a list \<Rightarrow> 'a list list" where
  "chunks 0 n s = []"
| "chunks (Suc k) n s = take n s # chunks k n (drop n s)"

fun schedule :: "nat \<Rightarrow> w32 list \<Rightarrow> w32 list" where
  \<comment> \<open>the message schedule, extended by the given number of words\<close>
  "schedule 0 w = w"
| "schedule (Suc k) w =
     (let i = length w
      in schedule k (w @ [sha_sigma 17 19 10 (w ! (i - 2)) + w ! (i - 7) +
                          sha_sigma 7 18 3 (w ! (i - 15)) + w ! (i - 16)]))"

definition sha_round :: "w32 \<times> w32 \<Rightarrow> w32 list \<Rightarrow> w32 list" where
  "sha_round kw st =
     (case st of
        [a, b, c, d, e, f, g, h] \<Rightarrow>
          let t1 = h + sha_Sigma 6 11 25 e + ((e AND f) XOR (NOT e AND g)) + fst kw + snd kw;
              t2 = sha_Sigma 2 13 22 a + ((a AND b) XOR (a AND c) XOR (b AND c))
          in [t1 + t2, a, b, c, d + t1, e, f, g]
      | _ \<Rightarrow> st)"

definition sha_block :: "w32 list \<Rightarrow> w32 list \<Rightarrow> w32 list" where
  "sha_block w st = map2 (+) st (fold sha_round (zip sha_k (schedule 48 w)) st)"

definition Sum256 :: "string \<Rightarrow> string" where
  "Sum256 s =
     (let p = sha_pad s;
          blocks = map (\<lambda>b. map word_of_bytes (chunks 16 4 b)) (chunks (length p div 64) 64 p)
      in concat (map bytes_of_word (fold sha_block blocks sha_init)))"

lemma length_sha_round [simp]: "length (sha_round kw st) = length st"
  by (simp add: sha_round_def Let_def split: list.split)

lemma length_sha_rounds [simp]: "length (fold sha_round kws st) = length st"
  by (induction kws arbitrary: st) simp_all

lemma length_sha_blocks [simp]: "length (fold sha_block blocks st) = length st"
  by (induction blocks arbitrary: st) (simp_all add: sha_block_def)

lemma length_Sum256: "length (Sum256 s) = 32"
  by (simp add: Sum256_def Let_def length_concat comp_def bytes_of_word_def sum_list_triv sha_init_def)

lemma length_EncodeToString [simp]: "length (EncodeToString s) = 2 * length s"
  by (induction s) (simp_all add: EncodeToString_def hex_byte_def)

section \<open>encoding/json\<close>

definition json_esc :: "char \<Rightarrow> string" where
  \<comment> \<open>an ASCII byte of a JSON string, HTML escaping on\<close>
  "json_esc c =
     (if c = CHR 0x22 \<or> c = CHR 0x5C then [CHR 0x5C, c]
      else if c = CHR 0x08 then [CHR 0x5C, CHR ''b'']
      else if c = CHR 0x0C then [CHR 0x5C, CHR ''f'']
      else if c = CHR 0x0A then [CHR 0x5C, CHR ''n'']
      else if c = CHR 0x0D then [CHR 0x5C, CHR ''r'']
      else if c = CHR 0x09 then [CHR 0x5C, CHR ''t'']
      else if byte c < 32 \<or> c = CHR ''<'' \<or> c = CHR ''>'' \<or> c = CHR ''&''
      then [CHR 0x5C, CHR ''u'', CHR ''0'', CHR ''0''] @ hex_byte c
      else [c])"

definition in_range :: "nat \<Rightarrow> nat \<Rightarrow> char \<Rightarrow> bool" where
  "in_range lo hi c \<longleftrightarrow> lo \<le> byte c \<and> byte c \<le> hi"

definition utf8_tail :: "string \<Rightarrow> nat" where
  \<comment> \<open>the number of continuation bytes of a well-formed multi-byte rune at the front, 0 if ill-formed\<close>
  "utf8_tail s =
     (case s of
        a # b # r \<Rightarrow>
          if in_range 194 223 a \<and> in_range 128 191 b then 1
          else (case r of
             c # r' \<Rightarrow>
               if in_range 128 191 c \<and>
                  ((byte a = 224 \<and> in_range 160 191 b) \<or>
                   ((in_range 225 236 a \<or> in_range 238 239 a) \<and> in_range 128 191 b) \<or>
                   (byte a = 237 \<and> in_range 128 159 b)) then 2
               else (case r' of
                  d # _ \<Rightarrow>
                    if in_range 128 191 c \<and> in_range 128 191 d \<and>
                       ((byte a = 240 \<and> in_range 144 191 b) \<or>
                        (in_range 241 243 a \<and> in_range 128 191 b) \<or>
                        (byte a = 244 \<and> in_range 128 143 b)) then 3 else 0
                | [] \<Rightarrow> 0)
           | [] \<Rightarrow> 0)
      | _ \<Rightarrow> 0)"

definition line_sep :: "string \<Rightarrow> bool" where
  \<comment> \<open>U+2028 and U+2029\<close>
  "line_sep s \<longleftrightarrow> map byte s = [226, 128, 168] \<or> map byte s = [226, 128, 169]"

function (sequential) json_chars :: "string \<Rightarrow> string" where
  "json_chars [] = []"
| "json_chars (c # s) =
     (if byte c < 128 then json_esc c @ json_chars s
      else let n = utf8_tail (c # s); rune = c # take n s
           in (if n = 0 then CHR 0x5C # ''ufffd''
               else if line_sep rune then CHR 0x5C # ''u202'' @ [if byte (last rune) = 168 then CHR ''8'' else CHR ''9'']
               else rune) @ json_chars (drop n s))"
  by pat_completeness auto
termination
  by (relation "measure length") (auto simp: less_Suc_eq_le)

definition quote :: char where
  "quote = CHR 0x22"

definition json_string :: "string \<Rightarrow> string" where
  "json_string s = quote # json_chars s @ [quote]"

definition json_list :: "string list option \<Rightarrow> string" where
  \<comment> \<open>a nil slice is \<open>null\<close>, an empty one \<open>[]\<close>\<close>
  "json_list xs = (case xs of None \<Rightarrow> ''null''
     | Some ys \<Rightarrow> ''['' @ Join (map json_string ys) '','' @ '']'')"

definition sort_keys :: "'v gomap \<Rightarrow> 'v gomap" where
  "sort_keys m = sort_key fst m"

definition json_pair :: "string \<times> string \<Rightarrow> string" where
  "json_pair kv = json_string (fst kv) @ '':'' @ json_string (snd kv)"

definition json_map :: "string gomap \<Rightarrow> string" where
  \<comment> \<open>a map is an object with its keys in increasing byte order\<close>
  "json_map m = ''{'' @ Join (map json_pair (sort_keys m)) '','' @ ''}''"

section \<open>Unique readability\<close>

locale prefix_code =
  fixes enc :: "'a \<Rightarrow> string" and ok :: "'a \<Rightarrow> bool"
  assumes read: "ok x \<Longrightarrow> ok y \<Longrightarrow> enc x @ r = enc y @ r' \<Longrightarrow> x = y \<and> r = r'"
    and starts_with_quote: "\<exists>t. enc x = quote # t"
begin

lemma enc_inj: "ok x \<Longrightarrow> ok y \<Longrightarrow> enc x = enc y \<Longrightarrow> x = y"
  using read [of x y "[]" "[]"] by simp

lemma Join_Cons: "Join (map enc (x # xs)) '','' = enc x @ concat (map (\<lambda>y. CHR '','' # enc y) xs)"
  by (induction xs arbitrary: x) simp_all

lemma read_tail:
  assumes "z \<noteq> CHR '',''" "\<forall>x\<in>set xs. ok x" "\<forall>y\<in>set ys. ok y"
    and "concat (map (\<lambda>y. CHR '','' # enc y) xs) @ z # r = concat (map (\<lambda>y. CHR '','' # enc y) ys) @ z # r'"
  shows "xs = ys \<and> r = r'"
  using assms(2-)
proof (induction xs arbitrary: ys)
  case Nil
  with assms(1) show ?case by (cases ys) auto
next
  case (Cons x xs)
  then obtain y ys' where ys: "ys = y # ys'" using assms(1) by (cases ys) auto
  with Cons.prems have "x = y \<and> concat (map (\<lambda>y. CHR '','' # enc y) xs) @ z # r =
      concat (map (\<lambda>y. CHR '','' # enc y) ys') @ z # r'"
    by (intro read) auto
  moreover from this have "xs = ys' \<and> r = r'"
    using Cons.prems ys by (intro Cons.IH) auto
  ultimately show ?case using ys by simp
qed

lemma read_list:
  assumes "z \<noteq> CHR '',''" "z \<noteq> quote" "\<forall>x\<in>set xs. ok x" "\<forall>y\<in>set ys. ok y"
    and eq: "Join (map enc xs) '','' @ z # r = Join (map enc ys) '','' @ z # r'"
  shows "xs = ys \<and> r = r'"
proof (cases xs)
  case Nil
  have "ys = []"
  proof (rule ccontr)
    assume "ys \<noteq> []"
    then obtain y ys' t where "ys = y # ys'" "enc y = quote # t"
      using starts_with_quote by (metis neq_Nil_conv)
    with eq Nil assms(2) show False by (simp add: Join_Cons del: list.map(2))
  qed
  with eq Nil show ?thesis by simp
next
  case (Cons x xs')
  have "ys \<noteq> []"
  proof
    assume "ys = []"
    with eq Cons assms(2) starts_with_quote [of x] show False
      by (auto simp: Join_Cons simp del: list.map(2))
  qed
  then obtain y ys' where ys: "ys = y # ys'" by (cases ys) auto
  have "x = y \<and> concat (map (\<lambda>y. CHR '','' # enc y) xs') @ z # r =
      concat (map (\<lambda>y. CHR '','' # enc y) ys') @ z # r'"
    using eq assms(3,4) unfolding Cons ys Join_Cons append_assoc by (intro read) auto
  with read_tail [OF assms(1), of xs' ys' r r'] assms(3,4) Cons ys show ?thesis by auto
qed

end

lemma byte_inj: "byte c = byte d \<longleftrightarrow> c = d"
  by (simp add: byte_def)

lemma json_esc_decode:
  assumes "byte a < 128" "byte b < 128" "json_esc a @ r = json_esc b @ r'"
  shows "a = b \<and> r = r'"
proof -
  have hex: "hex_digit i = hex_digit j \<Longrightarrow> i < 16 \<Longrightarrow> j < 16 \<Longrightarrow> i = j" for i j
    unfolding hex_digit_def
    by (drule arg_cong [where f = byte]) (auto simp: byte_def split: if_splits)
  have hexb: "byte a = byte b" if "byte a div 16 = byte b div 16" "byte a mod 16 = byte b mod 16"
    using that by (metis mult_div_mod_eq)
  have hexs: "hex_byte a = hex_byte b \<Longrightarrow> a = b"
    using hexb assms(1,2) by (auto simp: hex_byte_def byte_inj dest!: hex)
  have len: "length (hex_byte c) = 2" for c by (simp add: hex_byte_def)
  have "a = b \<and> hex_byte a = hex_byte b \<and> r = r'" if "hex_byte a @ r = hex_byte b @ r'"
    using that hexs by (simp add: append_eq_append_conv len)
  with assms(3) show ?thesis
    by (simp only: json_esc_def split: if_splits) auto
qed

lemma utf8_tail_lead:
  assumes "utf8_tail (c # s) \<noteq> 0"
  shows "128 \<le> byte c" "utf8_tail (c # s) = (if byte c < 224 then 1 else if byte c < 240 then 2 else 3)"
    "utf8_tail (c # s) \<le> length s"
proof -
  let ?two = "in_range 194 223 c" and ?three = "byte c = 224 \<or> in_range 225 236 c \<or> in_range 238 239 c \<or> byte c = 237"
    and ?four = "byte c = 240 \<or> in_range 241 243 c \<or> byte c = 244"
  from assms obtain b r where s: "s = b # r" by (cases s) (simp_all add: utf8_tail_def)
  from assms have "?two \<and> utf8_tail (c # s) = 1 \<or> ?three \<and> utf8_tail (c # s) = 2 \<and> 1 \<le> length r \<or>
      ?four \<and> utf8_tail (c # s) = 3 \<and> 2 \<le> length r"
    unfolding utf8_tail_def s list.case by (simp only: list.case split: list.splits if_splits) auto
  then show "128 \<le> byte c" "utf8_tail (c # s) = (if byte c < 224 then 1 else if byte c < 240 then 2 else 3)"
    "utf8_tail (c # s) \<le> length s"
    unfolding in_range_def s by (elim disjE conjE; simp)+
qed

fun valid_utf8 :: "string \<Rightarrow> bool" where
  "valid_utf8 [] \<longleftrightarrow> True"
| "valid_utf8 (c # s) \<longleftrightarrow>
     (if byte c < 128 then valid_utf8 s else utf8_tail (c # s) \<noteq> 0 \<and> valid_utf8 (drop (utf8_tail (c # s)) s))"

definition rune_json :: "string \<Rightarrow> string" where
  \<comment> \<open>the encoding of one rune, given by its bytes\<close>
  "rune_json u =
     (if byte (hd u) < 128 then json_esc (hd u)
      else if line_sep u then CHR 0x5C # ''u202'' @ [if byte (last u) = 168 then CHR ''8'' else CHR ''9'']
      else u)"

definition rune_size :: "char \<Rightarrow> nat" where
  "rune_size c = (if byte c < 128 then 1 else if byte c < 224 then 2 else if byte c < 240 then 3 else 4)"

lemma valid_utf8_rune:
  assumes "valid_utf8 s" "s \<noteq> []"
  obtains u t where "s = u @ t" "u \<noteq> []" "length u = rune_size (hd u)" "valid_utf8 t" "json_chars s = rune_json u @ json_chars t"
proof (cases s)
  case (Cons c s')
  show thesis
  proof (cases "byte c < 128")
    case True
    with assms Cons that [of "[c]" s'] show thesis by (simp add: rune_json_def rune_size_def)
  next
    case False
    let ?n = "utf8_tail (c # s')"
    have n: "?n \<noteq> 0" "valid_utf8 (drop ?n s')" using assms(1) False Cons by simp_all
    note lead = utf8_tail_lead [OF n(1)]
    show thesis
    proof (rule that [of "c # take ?n s'" "drop ?n s'"])
      show "length (c # take ?n s') = rune_size (hd (c # take ?n s'))" using False lead(2,3) by (simp add: rune_size_def)
      show "json_chars s = rune_json (c # take ?n s') @ json_chars (drop ?n s')"
        using False n(1) by (simp add: Cons rune_json_def Let_def)
    qed (use Cons n in simp_all)
  qed
qed (use assms in simp)

lemma json_esc_shape:
  assumes "byte c < 128"
  shows "json_esc c \<noteq> [] \<and> byte (hd (json_esc c)) < 128 \<and> hd (json_esc c) \<noteq> quote \<and>
    (\<forall>r r'. json_esc c @ r \<noteq> CHR 0x5C # ''u202'' @ r')"
  using assms by (auto simp: json_esc_def quote_def byte_def hex_byte_def)

lemma rune_json_shape:
  assumes "u \<noteq> []"
  shows "rune_json u \<noteq> [] \<and> hd (rune_json u) \<noteq> quote"
  using assms json_esc_shape [of "hd u"] by (auto simp: rune_json_def quote_def byte_def)

lemma line_sep_eq:
  assumes "line_sep u" "line_sep v" "byte (last u) = byte (last v)"
  shows "u = v"
proof -
  have "map byte u = map byte v" using assms by (auto simp: line_sep_def dest!: map_eq_Cons_D)
  moreover have "inj byte" by (simp add: inj_def byte_inj)
  ultimately show ?thesis by (simp add: inj_map_eq_map)
qed

lemma rune_json_decode:
  assumes "u \<noteq> []" "v \<noteq> []" "length u = rune_size (hd u)" "length v = rune_size (hd v)"
    and eq: "rune_json u @ r = rune_json v @ r'"
  shows "u = v \<and> r = r'"
proof -
  have single: "u = [hd u]" if "byte (hd u) < 128" "u \<noteq> []" "length u = rune_size (hd u)" for u
    using that by (cases u) (simp_all add: rune_size_def)
  have last: "byte (last u) = 168 \<or> byte (last u) = 169" if "line_sep u" for u
    using that by (auto simp: line_sep_def dest!: map_eq_Cons_D)
  have esc: "\<not> (json_esc c @ r = w @ r' \<and> byte c < 128 \<and> w \<noteq> [] \<and> \<not> byte (hd w) < 128)" for c w r r'
    using json_esc_shape [of c] by (metis hd_append2)
  have no_sep: "json_esc c @ r \<noteq> CHR 0x5C # CHR ''u'' # CHR ''2'' # CHR ''0'' # CHR ''2'' # r'" if "byte c < 128" for c r r'
    using json_esc_shape [OF that] by simp
  have sep: "CHR 0x5C # x \<noteq> w @ r'" if "w \<noteq> []" "\<not> byte (hd w) < 128" for x w r'
    using that by (cases w) (auto simp: byte_def)
  consider "byte (hd u) < 128" "byte (hd v) < 128" | "byte (hd u) < 128" "\<not> byte (hd v) < 128"
    | "\<not> byte (hd u) < 128" "byte (hd v) < 128" | "\<not> byte (hd u) < 128" "\<not> byte (hd v) < 128" by blast
  then show ?thesis
  proof cases
    case 1
    with eq have "json_esc (hd u) @ r = json_esc (hd v) @ r'" by (simp add: rune_json_def)
    from json_esc_decode [OF 1 this] single [OF 1(1) assms(1,3)] single [OF 1(2) assms(2,4)] show ?thesis by metis
  next
    case 2
    with eq assms(2) esc [of "hd u" r v r'] no_sep [OF 2(1), of r] show ?thesis
      by (auto simp: rune_json_def split: if_splits)
  next
    case 3
    with eq [symmetric] assms(1) esc [of "hd v" r' u r] no_sep [OF 3(2), of r'] show ?thesis
      by (auto simp: rune_json_def split: if_splits)
  next
    case 4
    show ?thesis
    proof (cases "line_sep u \<or> line_sep v")
      case True
      then have "line_sep u" "line_sep v" using eq 4 assms(1,2) sep [of v] sep [of u, THEN not_sym]
        by (auto simp: rune_json_def split: if_splits)
      with eq 4 last [of u] last [of v] line_sep_eq [of u v] show ?thesis by (auto simp: rune_json_def split: if_splits)
    next
      case False
      with eq 4 have same: "u @ r = v @ r'" by (simp add: rune_json_def)
      then have "hd u = hd v" using assms(1,2) by (metis hd_append2)
      with same assms(3,4) show ?thesis by simp
    qed
  qed
qed

lemma json_chars_read:
  "valid_utf8 s \<Longrightarrow> valid_utf8 t \<Longrightarrow> json_chars s @ quote # r = json_chars t @ quote # r' \<Longrightarrow> s = t \<and> r = r'"
proof (induction "length s" arbitrary: s t rule: less_induct)
  case less
  have start: "json_chars x @ quote # y \<noteq> quote # z" if "valid_utf8 x" "x \<noteq> []" for x y z
  proof -
    from that obtain u w where "u \<noteq> []" "json_chars x = rune_json u @ json_chars w" by (rule valid_utf8_rune)
    with rune_json_shape [of u] show ?thesis by (cases "rune_json u") auto
  qed
  show ?case
  proof (cases "s = [] \<or> t = []")
    case True
    with less.prems(3) start [OF less.prems(1), of r r'] start [OF less.prems(2), of r' r] show ?thesis
      by (metis append_Nil json_chars.simps(1) list.inject)
  next
    case False
    obtain u s' where u: "s = u @ s'" "u \<noteq> []" "length u = rune_size (hd u)" "valid_utf8 s'" "json_chars s = rune_json u @ json_chars s'"
      by (rule valid_utf8_rune [OF less.prems(1)]) (use False in auto)
    obtain v t' where v: "t = v @ t'" "v \<noteq> []" "length v = rune_size (hd v)" "valid_utf8 t'" "json_chars t = rune_json v @ json_chars t'"
      by (rule valid_utf8_rune [OF less.prems(2)]) (use False in auto)
    from less.prems(3) have "rune_json u @ (json_chars s' @ quote # r) = rune_json v @ (json_chars t' @ quote # r')"
      by (simp add: u(5) v(5))
    from rune_json_decode [OF u(2) v(2) u(3) v(3) this] have "u = v" "json_chars s' @ quote # r = json_chars t' @ quote # r'" by simp_all
    with less.hyps [OF _ u(4) v(4)] u(1,2) v(1) show ?thesis by simp
  qed
qed

interpretation json_str: prefix_code json_string valid_utf8
proof
  show "x = y \<and> r = r'" if "valid_utf8 x" "valid_utf8 y" "json_string x @ r = json_string y @ r'" for x y r r'
    using json_chars_read [OF that(1,2), of r r'] that(3) by (simp add: json_string_def)
qed (simp add: json_string_def)

interpretation json_kv: prefix_code json_pair "\<lambda>kv. valid_utf8 (fst kv) \<and> valid_utf8 (snd kv)"
proof
  fix x y r r'
  assume ok: "valid_utf8 (fst x) \<and> valid_utf8 (snd x)" "valid_utf8 (fst y) \<and> valid_utf8 (snd y)"
    and eq: "json_pair x @ r = json_pair y @ r'"
  have "json_string (fst x) @ (CHR '':'' # json_string (snd x) @ r) =
        json_string (fst y) @ (CHR '':'' # json_string (snd y) @ r')"
    using eq by (simp add: json_pair_def)
  from json_str.read [OF _ _ this] ok
  have "fst x = fst y" "json_string (snd x) @ r = json_string (snd y) @ r'" by simp_all
  with json_str.read [of "snd x" "snd y" r r'] ok show "x = y \<and> r = r'" by (simp add: prod_eq_iff)
qed (simp add: json_pair_def json_string_def)

lemma Itoa_read:
  assumes "Itoa m @ c # r = Itoa n @ d # r'" "\<not> is_digit c" "\<not> is_digit d"
  shows "m = n \<and> c # r = d # r'"
proof -
  have split: "takeWhile is_digit (nat_dec k @ x # t) = nat_dec k" if "\<not> is_digit x" for k x t
    using that nat_dec_digits [of _ k] by (simp add: takeWhile_append2)
  have minus: "\<not> is_digit (CHR ''-'')" by (simp add: is_digit_def byte_def)
  have start: "CHR ''-'' # s \<noteq> nat_dec k @ t" "nat_dec k @ t \<noteq> CHR ''-'' # s" for k s t
    using nat_dec_digits [of _ k] minus nat_dec_not_Nil [of k]
    by (metis append_is_Nil_conv hd_append2 hd_in_set list.sel(1))+
  have digits: "nat_dec j = nat_dec k \<and> x # t = y # t'"
    if "nat_dec j @ x # t = nat_dec k @ y # t'" "\<not> is_digit x" "\<not> is_digit y" for j k x y t t'
    using that split by (metis same_append_eq)
  show ?thesis
    using assms by (auto simp: Itoa_def start split: if_splits dest!: digits nat_dec_inj)
qed

lemma json_list_read:
  assumes "\<forall>x\<in>set xs. valid_utf8 x" "\<forall>x\<in>set ys. valid_utf8 x"
    and "json_list (Some xs) @ r = json_list (Some ys) @ r'"
  shows "xs = ys \<and> r = r'"
  using assms json_str.read_list [of "CHR '']''" xs ys r r']
  by (simp add: json_list_def quote_def ball_Un)

lemma sort_keys_unique:
  assumes "distinct (map fst m)" "distinct (map fst m')"
  shows "sort_keys m = sort_keys m' \<longleftrightarrow> map_of m = map_of m'"
proof
  assume "sort_keys m = sort_keys m'"
  then have "set (sort_keys m) = set (sort_keys m')" by simp
  then have "set m = set m'" by (simp add: sort_keys_def)
  then show "map_of m = map_of m'" using assms by (simp add: map_of_inject_set)
next
  assume "map_of m = map_of m'"
  then have "set m = set m'" using assms by (simp add: map_of_inject_set)
  moreover have "distinct m" "distinct m'" using assms by (simp_all add: distinct_map)
  ultimately have "mset m = mset m'" by (simp add: set_eq_iff_mset_eq_distinct)
  then show "sort_keys m = sort_keys m'"
    unfolding sort_keys_def using assms(1)
    by (intro sort_key_inj_key_eq) (simp_all add: distinct_map)
qed

lemma json_map_read:
  assumes "\<forall>(k, v)\<in>set m. valid_utf8 k \<and> valid_utf8 v" "\<forall>(k, v)\<in>set m'. valid_utf8 k \<and> valid_utf8 v"
    and "distinct (map fst m)" "distinct (map fst m')"
    and "json_map m @ r = json_map m' @ r'"
  shows "map_of m = map_of m' \<and> r = r'"
proof -
  have "sort_keys m = sort_keys m' \<and> r = r'"
    using assms json_kv.read_list [of "CHR ''}''" "sort_keys m" "sort_keys m'" r r']
    by (simp add: json_map_def quote_def sort_keys_def case_prod_beta)
  with assms show ?thesis by (simp add: sort_keys_unique)
qed

end
