(* ===== verification/Domain_BuildSpec.thy ===== *)
theory Domain_BuildSpec
  imports Go_Hash
begin

text \<open>
  \<open>internal/domain/buildspec.go\<close>: the build-relevant part of an app's spec, its content hash and
  the staleness test. A nil slice or map is \<^const>\<open>None\<close>, so that the normalisation the source performs
  before hashing is visible.
\<close>

record dPhaseSpec =
  dp_Image :: string
  dp_Command :: "string list option"
  dp_RunAsUser :: "int option"
  dp_Env :: "string gomap option"
  dp_Skip :: bool

record BuildSpec =
  bs_Repo :: string
  bs_Ref :: string
  bs_PackageManager :: string
  bs_NodeVersion :: int
  bs_Setup :: dPhaseSpec
  bs_Fetch :: dPhaseSpec
  bs_Build :: dPhaseSpec
  bs_OutputDir :: string
  bs_SecretRefs :: "string list option"

definition items :: "'a list option \<Rightarrow> 'a list" where
  \<comment> \<open>what \<open>len\<close> and \<open>range\<close> see of a possibly nil slice or map\<close>
  "items xs = (case xs of None \<Rightarrow> [] | Some ys \<Rightarrow> ys)"

definition phase_normalized :: "dPhaseSpec \<Rightarrow> dPhaseSpec" where
  "phase_normalized p =
     (let p = (if items (dp_Command p) = [] then p\<lparr>dp_Command := None\<rparr> else p)
      in if items (dp_Env p) = [] then p\<lparr>dp_Env := None\<rparr> else p)"

definition normalized :: "BuildSpec \<Rightarrow> BuildSpec" where
  "normalized b =
     (let b = (if items (bs_SecretRefs b) = [] then b\<lparr>bs_SecretRefs := None\<rparr> else b);
          b = b\<lparr>bs_Setup := phase_normalized (bs_Setup b)\<rparr>;
          b = b\<lparr>bs_Fetch := phase_normalized (bs_Fetch b)\<rparr>
      in b\<lparr>bs_Build := phase_normalized (bs_Build b)\<rparr>)"

section \<open>json.Marshal on the two structs\<close>

definition key :: "string \<Rightarrow> string" where
  "key n = quote # n @ [quote, CHR '':'']"

definition runAsUser_json :: "int option \<Rightarrow> string" where
  "runAsUser_json u = (case u of None \<Rightarrow> [] | Some n \<Rightarrow> '','' @ key ''runAsUser'' @ Itoa n)"

definition env_json :: "string gomap option \<Rightarrow> string" where
  "env_json e = (if items e = [] then [] else '','' @ key ''env'' @ json_map (items e))"

definition skip_json :: "bool \<Rightarrow> string" where
  "skip_json b = (if b then '','' @ key ''skip'' @ ''true'' else [])"

definition phase_json :: "dPhaseSpec \<Rightarrow> string" where
  "phase_json p =
     ''{'' @ key ''image'' @ json_string (dp_Image p) @
     '','' @ key ''command'' @ json_list (dp_Command p) @
     runAsUser_json (dp_RunAsUser p) @ env_json (dp_Env p) @ skip_json (dp_Skip p) @ ''}''"

definition nodeVersion_json :: "int \<Rightarrow> string" where
  "nodeVersion_json n = (if n = 0 then [] else key ''nodeVersion'' @ Itoa n @ '','')"

definition outputDir_json :: "string \<Rightarrow> string" where
  "outputDir_json s = (if s = [] then [] else key ''outputDir'' @ json_string s @ '','')"

definition spec_json :: "BuildSpec \<Rightarrow> string" where
  "spec_json b =
     ''{'' @ key ''repo'' @ json_string (bs_Repo b) @
     '','' @ key ''ref'' @ json_string (bs_Ref b) @
     '','' @ key ''packageManager'' @ json_string (bs_PackageManager b) @
     '','' @ nodeVersion_json (bs_NodeVersion b) @
     key ''setup'' @ phase_json (bs_Setup b) @
     '','' @ key ''fetch'' @ phase_json (bs_Fetch b) @
     '','' @ key ''build'' @ phase_json (bs_Build b) @
     '','' @ outputDir_json (bs_OutputDir b) @
     key ''secretRefs'' @ json_list (bs_SecretRefs b) @ ''}''"

definition Hash :: "BuildSpec \<Rightarrow> string" where
  "Hash b = EncodeToString (Sum256 (spec_json (normalized b)))"

definition IsStale :: "BuildSpec \<Rightarrow> string \<Rightarrow> bool" where
  "IsStale current lastBuiltHash \<longleftrightarrow> Hash current \<noteq> lastBuiltHash"

section \<open>What the hash sees\<close>

definition phase_same :: "dPhaseSpec \<Rightarrow> dPhaseSpec \<Rightarrow> bool" where
  \<comment> \<open>equal configuration: nil and empty are the same, the order of the env map does not matter\<close>
  "phase_same p q \<longleftrightarrow> dp_Image p = dp_Image q \<and> items (dp_Command p) = items (dp_Command q) \<and>
     dp_RunAsUser p = dp_RunAsUser q \<and> map_of (items (dp_Env p)) = map_of (items (dp_Env q)) \<and>
     dp_Skip p = dp_Skip q"

definition spec_same :: "BuildSpec \<Rightarrow> BuildSpec \<Rightarrow> bool" where
  "spec_same a b \<longleftrightarrow> bs_Repo a = bs_Repo b \<and> bs_Ref a = bs_Ref b \<and>
     bs_PackageManager a = bs_PackageManager b \<and> bs_NodeVersion a = bs_NodeVersion b \<and>
     phase_same (bs_Setup a) (bs_Setup b) \<and> phase_same (bs_Fetch a) (bs_Fetch b) \<and>
     phase_same (bs_Build a) (bs_Build b) \<and> bs_OutputDir a = bs_OutputDir b \<and>
     items (bs_SecretRefs a) = items (bs_SecretRefs b)"

definition phase_ok :: "dPhaseSpec \<Rightarrow> bool" where
  \<comment> \<open>valid UTF-8, and an env map with each key once\<close>
  "phase_ok p \<longleftrightarrow> valid_utf8 (dp_Image p) \<and> list_all valid_utf8 (items (dp_Command p)) \<and>
     list_all (\<lambda>(k, v). valid_utf8 k \<and> valid_utf8 v) (items (dp_Env p)) \<and> distinct (map fst (items (dp_Env p)))"

definition spec_ok :: "BuildSpec \<Rightarrow> bool" where
  "spec_ok b \<longleftrightarrow> valid_utf8 (bs_Repo b) \<and> valid_utf8 (bs_Ref b) \<and> valid_utf8 (bs_PackageManager b) \<and>
     phase_ok (bs_Setup b) \<and> phase_ok (bs_Fetch b) \<and> phase_ok (bs_Build b) \<and>
     valid_utf8 (bs_OutputDir b) \<and> list_all valid_utf8 (items (bs_SecretRefs b))"

definition norm_list :: "'a list option \<Rightarrow> 'a list option" where
  "norm_list xs = (if items xs = [] then None else xs)"

lemma phase_normalized_fields [simp]:
  "dp_Image (phase_normalized p) = dp_Image p"
  "dp_Command (phase_normalized p) = norm_list (dp_Command p)"
  "dp_RunAsUser (phase_normalized p) = dp_RunAsUser p"
  "items (dp_Env (phase_normalized p)) = items (dp_Env p)"
  "dp_Skip (phase_normalized p) = dp_Skip p"
  by (simp_all add: phase_normalized_def norm_list_def Let_def items_def)

lemma normalized_fields [simp]:
  "bs_Repo (normalized b) = bs_Repo b" "bs_Ref (normalized b) = bs_Ref b"
  "bs_PackageManager (normalized b) = bs_PackageManager b"
  "bs_NodeVersion (normalized b) = bs_NodeVersion b"
  "bs_Setup (normalized b) = phase_normalized (bs_Setup b)"
  "bs_Fetch (normalized b) = phase_normalized (bs_Fetch b)"
  "bs_Build (normalized b) = phase_normalized (bs_Build b)"
  "bs_OutputDir (normalized b) = bs_OutputDir b"
  "bs_SecretRefs (normalized b) = norm_list (bs_SecretRefs b)"
  by (simp_all add: normalized_def norm_list_def Let_def)

lemma norm_list_items: "norm_list xs = (if items xs = [] then None else Some (items xs))"
  by (cases xs) (simp_all add: norm_list_def items_def)

section \<open>The payload can be read in one way only\<close>

lemma norm_list_read:
  assumes "list_all valid_utf8 (items xs)" "list_all valid_utf8 (items ys)"
    and "json_list (norm_list xs) @ r = json_list (norm_list ys) @ r'"
  shows "items xs = items ys \<and> r = r'"
  using assms json_list_read [of "items xs" "items ys" r r']
  by (auto simp: norm_list_items list_all_iff json_list_def split: if_splits)

lemma skip_read: "skip_json s @ CHR ''}'' # r = skip_json t @ CHR ''}'' # r' \<Longrightarrow> s = t \<and> r = r'"
  by (auto simp: skip_json_def split: if_splits)

lemma env_read:
  assumes "list_all (\<lambda>(k, v). valid_utf8 k \<and> valid_utf8 v) (items e)" "distinct (map fst (items e))"
    and "list_all (\<lambda>(k, v). valid_utf8 k \<and> valid_utf8 v) (items e')" "distinct (map fst (items e'))"
    and eq: "env_json e @ skip_json s @ CHR ''}'' # r = env_json e' @ skip_json t @ CHR ''}'' # r'"
  shows "map_of (items e) = map_of (items e') \<and> s = t \<and> r = r'"
proof -
  have head: "skip_json b @ CHR ''}'' # w \<noteq> CHR '','' # key ''env'' @ w'" for b w w'
    by (auto simp: skip_json_def key_def)
  have "items e = [] \<longleftrightarrow> items e' = []"
    using eq head head [symmetric] by (auto simp: env_json_def split: if_splits)
  then show ?thesis
    using assms json_map_read [of "items e" "items e'" "skip_json s @ CHR ''}'' # r" "skip_json t @ CHR ''}'' # r'"]
      skip_read [of s r t r']
    by (auto simp: env_json_def list_all_iff)
qed

lemma runAsUser_read:
  assumes "runAsUser_json u @ env_json e @ skip_json s @ CHR ''}'' # r =
           runAsUser_json u' @ env_json e' @ skip_json t @ CHR ''}'' # r'"
  shows "u = u' \<and> env_json e @ skip_json s @ CHR ''}'' # r = env_json e' @ skip_json t @ CHR ''}'' # r'"
proof -
  have head: "env_json f @ skip_json b @ CHR ''}'' # w \<noteq> CHR '','' # key ''runAsUser'' @ w'" for f b w w'
    by (auto simp: skip_json_def env_json_def key_def)
  have next_: "\<exists>c w'. env_json f @ skip_json b @ CHR ''}'' # w = c # w' \<and> \<not> is_digit c" for f b w
    by (auto simp: skip_json_def env_json_def is_digit_def byte_def)
  obtain c w d w' where
    cw: "env_json e @ skip_json s @ CHR ''}'' # r = c # w" "\<not> is_digit c"
    and dw: "env_json e' @ skip_json t @ CHR ''}'' # r' = d # w'" "\<not> is_digit d"
    using next_ by metis
  show ?thesis
  proof (cases "u = None \<or> u' = None")
    case True
    then show ?thesis
      using assms head head [symmetric] by (auto simp: runAsUser_json_def split: option.splits)
  next
    case False
    then obtain m n where "u = Some m" "u' = Some n" by (cases u; cases u') auto
    with assms Itoa_read [of m c w n d w'] cw dw show ?thesis by (simp add: runAsUser_json_def)
  qed
qed

lemma phase_read:
  assumes "phase_ok p" "phase_ok q"
    and "phase_json (phase_normalized p) @ r = phase_json (phase_normalized q) @ r'"
  shows "phase_same p q \<and> r = r'"
proof -
  let ?rest = "\<lambda>p r. runAsUser_json (dp_RunAsUser p) @ env_json (dp_Env p) @ skip_json (dp_Skip p) @ CHR ''}'' # r"
  have env: "env_json (dp_Env (phase_normalized p)) = env_json (dp_Env p)" for p
    by (simp add: env_json_def)
  have valid_utf8: "valid_utf8 (dp_Image p)" "valid_utf8 (dp_Image q)"
      "list_all valid_utf8 (items (dp_Command p))" "list_all valid_utf8 (items (dp_Command q))"
    using assms by (simp_all add: phase_ok_def)
  from assms(3) have "json_string (dp_Image p) @ ('','' @ key ''command'' @ json_list (norm_list (dp_Command p)) @ ?rest p r) =
      json_string (dp_Image q) @ ('','' @ key ''command'' @ json_list (norm_list (dp_Command q)) @ ?rest q r')"
    by (simp add: phase_json_def key_def env)
  from json_str.read [OF valid_utf8(1,2) this]
  have img: "dp_Image p = dp_Image q" and
    "json_list (norm_list (dp_Command p)) @ ?rest p r = json_list (norm_list (dp_Command q)) @ ?rest q r'"
    by simp_all
  from norm_list_read [OF valid_utf8(3,4) this(2)]
  have cmd: "items (dp_Command p) = items (dp_Command q)" and rest: "?rest p r = ?rest q r'" by simp_all
  from runAsUser_read [OF rest] img cmd show ?thesis
    using env_read [of "dp_Env p" "dp_Env q" "dp_Skip p" r "dp_Skip q" r'] assms(1,2) by (simp add: phase_same_def phase_ok_def)
qed

lemma nodeVersion_read:
  "nodeVersion_json m @ key ''setup'' @ r = nodeVersion_json n @ key ''setup'' @ r' \<Longrightarrow> m = n \<and> r = r'"
  using Itoa_read [of m "CHR '',''" "key ''setup'' @ r" n "CHR '',''" "key ''setup'' @ r'"]
  by (auto simp: nodeVersion_json_def key_def is_digit_def byte_def split: if_splits)

lemma outputDir_read:
  "valid_utf8 s \<Longrightarrow> valid_utf8 t \<Longrightarrow> outputDir_json s @ key ''secretRefs'' @ r = outputDir_json t @ key ''secretRefs'' @ r' \<Longrightarrow>
     s = t \<and> r = r'"
  using json_str.read [of s t "'','' @ key ''secretRefs'' @ r" "'','' @ key ''secretRefs'' @ r'"]
  by (auto simp: outputDir_json_def key_def split: if_splits)

lemma phase_same_json:
  assumes "phase_ok p" "phase_ok q" "phase_same p q"
  shows "phase_json (phase_normalized p) = phase_json (phase_normalized q)"
proof -
  have "sort_keys (items (dp_Env p)) = sort_keys (items (dp_Env q))"
    using assms by (simp add: phase_ok_def phase_same_def sort_keys_unique)
  moreover have "map_of (items (dp_Env p)) = Map.empty \<longleftrightarrow> map_of (items (dp_Env q)) = Map.empty"
    using assms(3) by (simp add: phase_same_def)
  ultimately have "env_json (dp_Env (phase_normalized p)) = env_json (dp_Env (phase_normalized q))"
    by (simp only: env_json_def json_map_def map_of_eq_empty_iff phase_normalized_fields)
  with assms(3) show ?thesis
    by (simp add: phase_json_def phase_same_def norm_list_items)
qed

lemma spec_json_iff:
  assumes ok: "spec_ok a" "spec_ok b"
  shows "spec_json (normalized a) = spec_json (normalized b) \<longleftrightarrow> spec_same a b"
proof
  assume same: "spec_same a b"
  then have "phase_json (phase_normalized (bs_Setup a)) = phase_json (phase_normalized (bs_Setup b))"
    "phase_json (phase_normalized (bs_Fetch a)) = phase_json (phase_normalized (bs_Fetch b))"
    "phase_json (phase_normalized (bs_Build a)) = phase_json (phase_normalized (bs_Build b))"
    using ok by (simp_all add: phase_same_json spec_same_def spec_ok_def)
  with same show "spec_json (normalized a) = spec_json (normalized b)"
    by (simp add: spec_json_def spec_same_def norm_list_items)
next
  let ?refs = "\<lambda>x. json_list (norm_list (bs_SecretRefs x)) @ ''}''"
  let ?out = "\<lambda>x. outputDir_json (bs_OutputDir x) @ key ''secretRefs'' @ ?refs x"
  let ?build = "\<lambda>x. phase_json (phase_normalized (bs_Build x)) @ '','' @ ?out x"
  let ?fetch = "\<lambda>x. phase_json (phase_normalized (bs_Fetch x)) @ '','' @ key ''build'' @ ?build x"
  let ?stp = "\<lambda>x. phase_json (phase_normalized (bs_Setup x)) @ '','' @ key ''fetch'' @ ?fetch x"
  let ?node = "\<lambda>x. nodeVersion_json (bs_NodeVersion x) @ key ''setup'' @ ?stp x"
  let ?pm = "\<lambda>x. json_string (bs_PackageManager x) @ '','' @ ?node x"
  let ?ref = "\<lambda>x. json_string (bs_Ref x) @ '','' @ key ''packageManager'' @ ?pm x"
  note ok' = ok [unfolded spec_ok_def]
  assume "spec_json (normalized a) = spec_json (normalized b)"
  then have "json_string (bs_Repo a) @ '','' @ key ''ref'' @ ?ref a =
             json_string (bs_Repo b) @ '','' @ key ''ref'' @ ?ref b"
    by (simp add: spec_json_def)
  from json_str.read [OF _ _ this] ok' have repo: "bs_Repo a = bs_Repo b" and "?ref a = ?ref b" by simp_all
  from json_str.read [OF _ _ this(2)] ok' have ref: "bs_Ref a = bs_Ref b" and "?pm a = ?pm b" by simp_all
  from json_str.read [OF _ _ this(2)] ok' have pm: "bs_PackageManager a = bs_PackageManager b"
    and "?node a = ?node b" by simp_all
  from nodeVersion_read [OF this(2)] have node: "bs_NodeVersion a = bs_NodeVersion b" "?stp a = ?stp b"
    by simp_all
  from phase_read [OF _ _ this(2)] ok' have stp: "phase_same (bs_Setup a) (bs_Setup b)" "?fetch a = ?fetch b"
    by simp_all
  from phase_read [OF _ _ this(2)] ok' have fet: "phase_same (bs_Fetch a) (bs_Fetch b)" "?build a = ?build b"
    by simp_all
  from phase_read [OF _ _ this(2)] ok' have bld: "phase_same (bs_Build a) (bs_Build b)" "?out a = ?out b"
    by simp_all
  from outputDir_read [OF _ _ this(2)] ok' have out: "bs_OutputDir a = bs_OutputDir b" "?refs a = ?refs b"
    by simp_all
  from norm_list_read [OF _ _ this(2)] ok' have "items (bs_SecretRefs a) = items (bs_SecretRefs b)" by simp
  with repo ref pm node stp fet bld out show "spec_same a b" by (simp add: spec_same_def)
qed

section \<open>Properties\<close>

text \<open>C31. The staleness test compares exactly the build-relevant configuration. For the hash
  recorded from a built spec, the current spec is not stale if it is the same configuration (a nil
  and an empty list are the same, the order of env entries does not matter); and if it is a
  different configuration it is stale unless the two payloads are an explicit SHA-256 collision.
  The texts of both specs are any valid UTF-8, which is what the API server stores; bytes that are
  not would all be hashed as U+FFFD. The env of a phase is a map, so it has each name once.\<close>

theorem IsStale_iff_config_changed:
  assumes "spec_ok built" "spec_ok current"
  shows "\<not> IsStale current (Hash built) \<longleftrightarrow>
    spec_same current built \<or>
    (spec_json (normalized current) \<noteq> spec_json (normalized built) \<and>
     EncodeToString (Sum256 (spec_json (normalized current))) =
     EncodeToString (Sum256 (spec_json (normalized built))))"
  using spec_json_iff [OF assms(2,1)] by (auto simp: IsStale_def Hash_def)

theorem IsStale_iff_config_changed_witness:
  "\<not> IsStale
     \<lparr>bs_Repo = ''r'', bs_Ref = ''main'', bs_PackageManager = ''npm'', bs_NodeVersion = 20,
      bs_Setup = \<lparr>dp_Image = [], dp_Command = Some [], dp_RunAsUser = None, dp_Env = None, dp_Skip = False\<rparr>,
      bs_Fetch = \<lparr>dp_Image = [], dp_Command = None, dp_RunAsUser = None, dp_Env = Some [], dp_Skip = False\<rparr>,
      bs_Build = \<lparr>dp_Image = ''i'', dp_Command = Some [''b''], dp_RunAsUser = Some 1000,
        dp_Env = Some [(''B'', [CHR 0xC3, CHR 0xA9]), (''A'', ''1'')], dp_Skip = False\<rparr>,
      bs_OutputDir = ''dist'', bs_SecretRefs = Some []\<rparr>
     (Hash
     \<lparr>bs_Repo = ''r'', bs_Ref = ''main'', bs_PackageManager = ''npm'', bs_NodeVersion = 20,
      bs_Setup = \<lparr>dp_Image = [], dp_Command = None, dp_RunAsUser = None, dp_Env = None, dp_Skip = False\<rparr>,
      bs_Fetch = \<lparr>dp_Image = [], dp_Command = None, dp_RunAsUser = None, dp_Env = None, dp_Skip = False\<rparr>,
      bs_Build = \<lparr>dp_Image = ''i'', dp_Command = Some [''b''], dp_RunAsUser = Some 1000,
        dp_Env = Some [(''A'', ''1''), (''B'', [CHR 0xC3, CHR 0xA9])], dp_Skip = False\<rparr>,
      bs_OutputDir = ''dist'', bs_SecretRefs = None\<rparr>)"
  (is "\<not> IsStale ?cur (Hash ?built)")
proof -
  have "spec_ok ?cur" "spec_ok ?built" by code_simp+
  moreover have "spec_same ?cur ?built"
    by (auto simp: spec_same_def phase_same_def items_def)
  ultimately show ?thesis using IsStale_iff_config_changed by blast
qed

end
