(* ===== verification/Domain_Decisions.thy ===== *)
theory Domain_Decisions
  imports Go_Strings
begin

text \<open>
  \<open>internal/domain/trigger.go\<close> and \<open>internal/domain/cleanup.go\<close>: the two chokepoints that decide
  whether a build Job or a cleanup Job may be created now.

  Both are gates over a request token, the last processed token and a busy flag. The locale
  \<open>request_gate\<close> states that contract once; the lemmas proved in it (no request is lost, a token is
  not started twice in a row, nothing starts while busy) hold of both gates by interpretation.
\<close>

section \<open>The decisions\<close>

datatype BuildDecision = NoBuild | StartBuild | DeferBuild

definition DecideBuild :: "string \<Rightarrow> string \<Rightarrow> bool \<Rightarrow> BuildDecision" where
  "DecideBuild requestedToken lastProcessedToken buildActive =
     (if requestedToken = lastProcessedToken then NoBuild
      else if buildActive then DeferBuild
      else StartBuild)"

datatype CleanupDecision = NoCleanup | StartCleanup | WaitCleanup

definition DecideCleanup :: "string \<Rightarrow> string \<Rightarrow> bool \<Rightarrow> bool \<Rightarrow> CleanupDecision" where
  "DecideCleanup requestedToken processedToken buildActive cleanupActive =
     (if requestedToken = '''' \<or> requestedToken = processedToken then NoCleanup
      else if buildActive \<or> cleanupActive then WaitCleanup
      else StartCleanup)"

lemma DecideCleanup_StartCleanup_iff:
  "DecideCleanup req done b c = StartCleanup \<longleftrightarrow> req \<noteq> '''' \<and> req \<noteq> done \<and> \<not> b \<and> \<not> c"
  by (simp add: DecideCleanup_def)

lemma DecideBuild_StartBuild_iff:
  "DecideBuild req done b = StartBuild \<longleftrightarrow> req \<noteq> done \<and> \<not> b"
  by (simp add: DecideBuild_def)

section \<open>Runs of a gate\<close>

text \<open>
  The life of one action as the reconciler drives it: the annotation is overwritten by a request,
  a reconcile consults the gate and, on a start, records the token and has a Job running, and the
  Job finishes. \<open>started\<close> lists the started tokens, newest first.
\<close>

record gate =
  requested :: string
  processed :: string
  running :: bool
  started :: "string list"

datatype gate_event = Request string | Reconcile | Finish

fun gate_step :: "(string \<Rightarrow> string \<Rightarrow> bool \<Rightarrow> bool) \<Rightarrow> gate \<Rightarrow> gate_event \<Rightarrow> gate" where
  "gate_step go g (Request t) = g\<lparr>requested := t\<rparr>"
| "gate_step go g Reconcile =
     (if go (requested g) (processed g) (running g)
      then g\<lparr>processed := requested g, running := True, started := requested g # started g\<rparr>
      else g)"
| "gate_step go g Finish = g\<lparr>running := False\<rparr>"

fun gate_run :: "(string \<Rightarrow> string \<Rightarrow> bool \<Rightarrow> bool) \<Rightarrow> gate \<Rightarrow> gate_event list \<Rightarrow> gate" where
  "gate_run go g [] = g"
| "gate_run go g (e # es) = gate_run go (gate_step go g e) es"

definition gate_init :: gate where
  "gate_init = \<lparr>requested = '''', processed = '''', running = False, started = []\<rparr>"

definition gate_inv :: "gate \<Rightarrow> bool" where
  "gate_inv g \<longleftrightarrow> distinct_adj (started g) \<and>
     processed g = (case started g of [] \<Rightarrow> '''' | t # _ \<Rightarrow> t)"

definition is_request :: "gate_event \<Rightarrow> bool" where
  "is_request e \<longleftrightarrow> (\<exists>t. e = Request t)"

definition pending :: "gate \<Rightarrow> nat" where
  "pending g = (if requested g = processed g then 0 else 1)"

locale request_gate =
  fixes go :: "string \<Rightarrow> string \<Rightarrow> bool \<Rightarrow> bool"
  assumes go_idle: "go r p b \<Longrightarrow> \<not> b"
    and go_fresh: "go r p b \<Longrightarrow> r \<noteq> p"
    and go_live: "r \<noteq> '''' \<Longrightarrow> r \<noteq> p \<Longrightarrow> go r p False"
begin

lemma requested_run:
  "\<not> (\<exists>e\<in>set es. is_request e) \<Longrightarrow> requested (gate_run go g es) = requested g"
proof (induction es arbitrary: g)
  case (Cons e es)
  then have "requested (gate_step go g e) = requested g"
    by (cases e) (auto simp: is_request_def)
  with Cons show ?case by simp
qed simp

lemma run_append: "gate_run go g (es @ fs) = gate_run go (gate_run go g es) fs"
  by (induction es arbitrary: g) auto

lemma served_now:
  assumes "requested g \<noteq> ''''"
  shows "processed (gate_run go g [Finish, Reconcile]) = requested g"
  using go_live [OF assms, of "processed g"] by (cases "requested g = processed g") auto

lemma request_served:
  assumes "t \<noteq> ''''" and "\<not> (\<exists>e\<in>set es. is_request e)"
  shows "processed (gate_run go g (Request t # es @ [Finish, Reconcile])) = t"
proof -
  let ?g = "gate_run go (gate_step go g (Request t)) es"
  have "requested ?g = t" using requested_run [OF assms(2)] by simp
  with assms(1) served_now [of ?g] show ?thesis by (simp add: run_append)
qed

lemma start_only_when_idle:
  "started (gate_step go g e) \<noteq> started g \<Longrightarrow> \<not> running g"
  by (cases e) (auto dest: go_idle split: if_splits)

lemma inv_step: "gate_inv g \<Longrightarrow> gate_inv (gate_step go g e)"
  by (cases e; cases "started g")
     (auto simp: gate_inv_def distinct_adj_Cons dest: go_fresh split: if_splits)

lemma inv_run: "gate_inv g \<Longrightarrow> gate_inv (gate_run go g es)"
  by (induction es arbitrary: g) (auto intro: inv_step)

lemma budget_step:
  "length (started (gate_step go g e)) + pending (gate_step go g e)
     \<le> length (started g) + pending g + (if is_request e then 1 else 0)"
  by (cases e) (auto simp: pending_def is_request_def dest: go_fresh)

lemma budget_run:
  "length (started (gate_run go g es)) + pending (gate_run go g es)
     \<le> length (started g) + pending g + length (filter is_request es)"
proof (induction es arbitrary: g)
  case (Cons e es)
  from Cons.IH [of "gate_step go g e"] budget_step [of g e]
  show ?case by (simp split: if_splits)
qed simp

lemma run_from_init:
  "distinct_adj (started (gate_run go gate_init es))"
  "length (started (gate_run go gate_init es)) \<le> length (filter is_request es)"
proof -
  have "gate_inv gate_init" by (simp add: gate_inv_def gate_init_def)
  from inv_run [OF this] show "distinct_adj (started (gate_run go gate_init es))"
    by (simp add: gate_inv_def)
  from budget_run [of gate_init es]
  show "length (started (gate_run go gate_init es)) \<le> length (filter is_request es)"
    by (simp add: gate_init_def pending_def)
qed

end

text \<open>A gate that never fires on an empty token, as the cleanup gate promises.\<close>

locale token_gate = request_gate +
  assumes go_token: "go r p b \<Longrightarrow> r \<noteq> ''''"
begin

lemma started_tokens_step: "'''' \<notin> set (started g) \<Longrightarrow> '''' \<notin> set (started (gate_step go g e))"
  by (cases e) (auto dest: go_token split: if_splits)

lemma started_tokens: "'''' \<notin> set (started g) \<Longrightarrow> '''' \<notin> set (started (gate_run go g es))"
proof (induction es arbitrary: g)
  case (Cons e es)
  from started_tokens_step [OF Cons.prems] Cons.IH show ?case by simp
qed simp

end

definition build_go :: "string \<Rightarrow> string \<Rightarrow> bool \<Rightarrow> bool" where
  "build_go r p b \<longleftrightarrow> DecideBuild r p b = StartBuild"

definition cleanup_go :: "bool \<Rightarrow> string \<Rightarrow> string \<Rightarrow> bool \<Rightarrow> bool" where
  \<comment> \<open>the build flag first: a running build blocks every cleanup\<close>
  "cleanup_go buildActive r p b \<longleftrightarrow> DecideCleanup r p buildActive b = StartCleanup"

interpretation build_gate: request_gate build_go
  by unfold_locales (auto simp: build_go_def DecideBuild_def split: if_splits)

interpretation cleanup_gate: token_gate "cleanup_go False"
  by unfold_locales (auto simp: cleanup_go_def DecideCleanup_def split: if_splits)

section \<open>Properties\<close>

text \<open>C19. No rebuild request is lost: whatever was running when a non-empty token was
  requested, and however many reconciles only deferred it, the first reconcile after the running
  build finishes starts the build for that token and records it as processed.\<close>

theorem build_request_served:
  assumes "t \<noteq> ''''" and "\<not> (\<exists>e\<in>set es. is_request e)"
  shows "processed (gate_run build_go g (Request t # es @ [Finish, Reconcile])) = t"
  using assms by (rule build_gate.request_served)

theorem build_request_served_witness:
  "processed (gate_run build_go gate_init
     (Request ''1'' # [Reconcile, Reconcile] @ [Finish, Reconcile])) = ''1''"
  by (rule build_request_served) (auto simp: is_request_def)

text \<open>C20. Every run of the build gate starts at most one build per request, and never starts the
  token it started last a second time in a row, over all interleavings of requests, reconciles and
  Job completions.\<close>

theorem build_starts_bounded:
  "length (started (gate_run build_go gate_init es)) \<le> length (filter is_request es) \<and>
   distinct_adj (started (gate_run build_go gate_init es))"
  using build_gate.run_from_init by blast

text \<open>C21. The prune actions: every run of the cleanup gate (no build running) serves each
  non-empty request after the running prune finishes, starts at most one prune per request, and
  never starts one for the empty token of a cleared annotation.\<close>

theorem cleanup_gate_runs:
  assumes "t \<noteq> ''''" and "\<not> (\<exists>e\<in>set es. is_request e)"
  shows "processed (gate_run (cleanup_go False) g (Request t # es @ [Finish, Reconcile])) = t \<and>
    length (started (gate_run (cleanup_go False) gate_init fs)) \<le> length (filter is_request fs) \<and>
    '''' \<notin> set (started (gate_run (cleanup_go False) gate_init fs))"
proof (intro conjI)
  show "processed (gate_run (cleanup_go False) g (Request t # es @ [Finish, Reconcile])) = t"
    using assms by (rule cleanup_gate.request_served)
  show "length (started (gate_run (cleanup_go False) gate_init fs)) \<le> length (filter is_request fs)"
    by (rule cleanup_gate.run_from_init)
  show "'''' \<notin> set (started (gate_run (cleanup_go False) gate_init fs))"
    by (rule cleanup_gate.started_tokens) (simp add: gate_init_def)
qed

theorem cleanup_gate_runs_witness:
  "processed (gate_run (cleanup_go False) gate_init (Request ''9'' # [Reconcile] @ [Finish, Reconcile])) = ''9'' \<and>
    length (started (gate_run (cleanup_go False) gate_init [])) \<le> length (filter is_request []) \<and>
    '''' \<notin> set (started (gate_run (cleanup_go False) gate_init []))"
  by (rule cleanup_gate_runs) (auto simp: is_request_def)

text \<open>Unlike the cleanup gate, the build gate fires on a cleared annotation: once a token has
  been processed, removing the rebuild annotation (the empty token) starts another build.\<close>

theorem build_gate_fires_on_cleared_request:
  assumes "p \<noteq> ''''"
  shows "DecideBuild '''' p False = StartBuild \<and> DecideCleanup '''' p False False = NoCleanup"
  using assms by (auto simp: DecideBuild_def DecideCleanup_def)

theorem build_gate_fires_on_cleared_request_witness:
  "DecideBuild '''' ''17'' False = StartBuild \<and> DecideCleanup '''' ''17'' False False = NoCleanup"
  by (rule build_gate_fires_on_cleared_request) simp

end
