(* ===== verification/App_Decisions.thy ===== *)
theory App_Decisions
  imports Build_Steps Operator_Config Domain_Storage Domain_BuildSpec Domain_Decisions
begin

text \<open>
  The pure helpers of \<open>internal/controller/app_controller.go\<close>: views of the spec handed to the
  domain package, conditions and the derived phase, effective per-app settings, and the tests on
  Jobs and pods. A helper that calls \<open>r.now()\<close> takes the instant as an argument.
\<close>

section \<open>Spec views\<close>

definition phase_image :: "string \<Rightarrow> PhaseSpec \<Rightarrow> PhaseImage list" where
  "phase_image name p = (if ps_Image p \<noteq> '''' then [\<lparr>pi_Phase = name, pi_Image = ps_Image p\<rparr>] else [])"

definition phaseImages :: "App \<Rightarrow> PhaseImage list" where
  "phaseImages app =
     phase_image ''setup'' (sps_Phase (phs_Setup (phases app))) @
     phase_image ''fetch'' (fps_Phase (phs_Fetch (phases app))) @
     phase_image ''build'' (bps_Phase (phs_Build (phases app)))"

datatype node_error = UnknownNodeVersion int "string list"

definition validateNodeVersion :: "OperatorConfig \<Rightarrow> App \<Rightarrow> node_error option" where
  "validateNodeVersion cfg app =
     (let v = pl_NodeVersion (pipeline app)
      in if v = 0 then None
         else case LookupNodeImage (cfg_NodeImages cfg) v of
           Some _ \<Rightarrow> None
         | None \<Rightarrow> Some (UnknownNodeVersion v (sort (map fst (cfg_NodeImages cfg)))))"

definition storageConfigFrom :: "App \<Rightarrow> StorageConfig" where
  "storageConfigFrom app =
     (let s = spec_Storage (app_Spec app)
      in \<lparr>sc_Cache = \<lparr>CleanupBytes = ct_CleanupBytes (sts_Cache s), AlertBytes = ct_AlertBytes (sts_Cache s), CapBytes = 0\<rparr>,
          sc_DataCache = \<lparr>CleanupBytes = dct_CleanupBytes (sts_DataCache s), AlertBytes = dct_AlertBytes (sts_DataCache s), CapBytes = 0\<rparr>,
          sc_Output = \<lparr>CleanupBytes = 0, AlertBytes = ot_AlertBytes (sts_Output s), CapBytes = ot_CapBytes (sts_Output s)\<rparr>\<rparr>)"

definition alertThresholdsFrom :: "App \<Rightarrow> int gomap" where
  "alertThresholdsFrom app = map (\<lambda>(name, v). (name, AlertBytes v)) (Volumes (storageConfigFrom app))"

definition mergeEnv :: "EnvVar list \<Rightarrow> string gomap \<Rightarrow> string gomap option" where
  "mergeEnv env envMap =
     (if env = [] \<and> envMap = [] then None
      else Some (fold (\<lambda>(k, v). AList.update k v) envMap
                   (fold (\<lambda>e. AList.update (ev_Name e) (ev_Value e)) env [])))"

definition domain_phase :: "PhaseSpec \<Rightarrow> bool \<Rightarrow> dPhaseSpec" where
  "domain_phase p skip = \<lparr>dp_Image = ps_Image p, dp_Command = Some (ps_Command p), dp_RunAsUser = ps_RunAsUser p,
     dp_Env = mergeEnv (ps_Env p) (ps_EnvMap p), dp_Skip = skip\<rparr>"

definition secret_ref :: "EnvVarWithSecret \<Rightarrow> string" where
  "secret_ref s = (let r = evss_SecretKeyRef (evs_ValueFrom s) in sks_Name r @ ''/'' @ sks_Key r)"

definition buildSpecFrom :: "App \<Rightarrow> BuildSpec" where
  "buildSpecFrom app = \<lparr>
     bs_Repo = spec_Repo (app_Spec app),
     bs_Ref = spec_Ref (app_Spec app),
     bs_PackageManager = pl_PackageManager (pipeline app),
     bs_NodeVersion = pl_NodeVersion (pipeline app),
     bs_Setup = domain_phase (sps_Phase (phs_Setup (phases app))) (sps_Skip (phs_Setup (phases app))),
     bs_Fetch = domain_phase (fps_Phase (phs_Fetch (phases app))) False,
     bs_Build = domain_phase (bps_Phase (phs_Build (phases app))) False,
     bs_OutputDir = bps_OutputDir (phs_Build (phases app)),
     bs_SecretRefs = Some (map secret_ref (fps_Secrets (phs_Fetch (phases app))))\<rparr>"

definition effectiveSetup :: "App \<Rightarrow> OperatorConfig \<Rightarrow> PhaseSpec \<times> bool" where
  "effectiveSetup app cfg =
     (let setup = sps_Phase (phs_Setup (phases app))
      in if \<not> setupRuns app then
           (\<lparr>ps_Image = '''', ps_Command = [], ps_Env = [], ps_EnvMap = [], ps_RunAsUser = None, ps_MemoryLimit = ''''\<rparr>, False)
         else if phaseConfigured setup then (setup, True)
         else (setup\<lparr>ps_Command := DefaultSetupCommand cfg (pl_PackageManager (pipeline app))\<rparr>, True))"

text \<open>The injected default install command is what the pod runs and never reaches the hash.\<close>

lemma injected_setup_not_hashed:
  assumes "\<not> phaseConfigured (sps_Phase (phs_Setup (phases app)))" "setupRuns app"
  shows "ps_Command (fst (effectiveSetup app cfg)) = DefaultSetupCommand cfg (pl_PackageManager (pipeline app))"
    and "items (dp_Command (bs_Setup (normalized (buildSpecFrom app)))) = []"
  using assms
  by (simp_all add: effectiveSetup_def buildSpecFrom_def domain_phase_def phaseConfigured_def norm_list_def items_def Let_def)

section \<open>Effective settings\<close>

definition seconds_trunc :: "duration \<Rightarrow> int" where
  \<comment> \<open>\<open>int64(d.Seconds())\<close>: the seconds and the nanosecond fraction are added in \<open>float64\<close>\<close>
  "seconds_trunc d =
     (let a = nat \<bar>d\<bar>; s = a div 1000000000; n = a mod 1000000000
      in sgn d * int (if n = 0 then s
           else let f = fl_div n 1000000000;
                    z = fl_of_nat (s * 2 ^ nat (- snd f) + fst f)
                in fl_trunc (fst z, snd z + snd f)))"

definition buildDeadlineSeconds :: "OperatorConfig \<Rightarrow> App \<Rightarrow> int" where
  "buildDeadlineSeconds cfg app =
     (let deadline = (case pl_Timeout (pipeline app) of None \<Rightarrow> 0 | Some t \<Rightarrow> seconds_trunc t)
      in if deadline \<le> 0 then cfg_ActiveDeadlineSeconds cfg else deadline)"

definition effectiveScheduledThreshold :: "OperatorConfig \<Rightarrow> App \<Rightarrow> int" where
  "effectiveScheduledThreshold cfg app =
     (case spec_ScheduledBuilds (app_Spec app) of
        None \<Rightarrow> cfg_ScheduledAlertThreshold cfg
      | Some sb \<Rightarrow> if sb_AlertThreshold sb > 0 then sb_AlertThreshold sb else cfg_ScheduledAlertThreshold cfg)"

definition effectiveHistoryLimits :: "OperatorConfig \<Rightarrow> App \<Rightarrow> int \<times> int" where
  "effectiveHistoryLimits cfg app =
     (case spec_History (app_Spec app) of
        None \<Rightarrow> (cfg_HistoryKeepRecent cfg, cfg_HistoryKeepFailed cfg)
      | Some h \<Rightarrow> (if hs_KeepRecent h > 0 then hs_KeepRecent h else cfg_HistoryKeepRecent cfg,
                    if hs_KeepFailed h > 0 then hs_KeepFailed h else cfg_HistoryKeepFailed cfg))"

lemma buildDeadlineSeconds_pos: "0 < cfg_ActiveDeadlineSeconds cfg \<Longrightarrow> 0 < buildDeadlineSeconds cfg app"
  by (simp add: buildDeadlineSeconds_def Let_def)

section \<open>Conditions and the derived phase\<close>

definition findCondition :: "App \<Rightarrow> string \<Rightarrow> Condition option" where
  "findCondition app t = find (\<lambda>c. cond_Type c = t) (st_Conditions (app_Status app))"

fun replace_condition :: "Condition \<Rightarrow> Condition list \<Rightarrow> Condition list" where
  \<comment> \<open>\<open>*existing = cond\<close>: the first condition of the type is overwritten\<close>
  "replace_condition cond [] = []"
| "replace_condition cond (c # cs) =
     (if cond_Type c = cond_Type cond then cond # cs else c # replace_condition cond cs)"

definition setCondition :: "time \<Rightarrow> App \<Rightarrow> string \<Rightarrow> string \<Rightarrow> string \<Rightarrow> string \<Rightarrow> App" where
  "setCondition now app t status reason msg =
     (let cond = \<lparr>cond_Type = t, cond_Status = status, cond_Reason = reason, cond_Message = msg,
                  cond_LastTransitionTime = now, cond_ObservedGeneration = app_Generation app\<rparr>
      in case findCondition app t of
           Some existing \<Rightarrow>
             let cond1 = (if cond_Status existing = status \<and> cond_Reason existing = reason
                          then cond\<lparr>cond_LastTransitionTime := cond_LastTransitionTime existing\<rparr> else cond)
             in upd_status (\<lambda>st. st\<lparr>st_Conditions := replace_condition cond1 (st_Conditions st)\<rparr>) app
         | None \<Rightarrow> upd_status (\<lambda>st. st\<lparr>st_Conditions := st_Conditions st @ [cond]\<rparr>) app)"

definition hasSucceededOnce :: "App \<Rightarrow> bool" where
  "hasSucceededOnce app \<longleftrightarrow>
     st_LastSuccessfulBuildTime (app_Status app) \<noteq> None \<or> st_LastBuiltSpecHash (app_Status app) \<noteq> ''''"

definition phaseOf :: "App \<Rightarrow> string" where
  "phaseOf app =
     (let bp = build_Phase (st_Build (app_Status app))
      in if \<not> hasSucceededOnce app \<and> bp \<noteq> BuildPhaseComplete then
           (if bp = BuildPhaseRunning \<or> bp = BuildPhasePending then PhaseBuilding else PhaseAwaitingFirstBuild)
         else if (case findCondition app ConditionDegraded of None \<Rightarrow> False | Some c \<Rightarrow> cond_Status c = ConditionTrue)
         then PhaseDegraded
         else if bp = BuildPhaseRunning then PhaseBuilding
         else PhaseReady)"

definition refreshPhase :: "time \<Rightarrow> App \<Rightarrow> App" where
  "refreshPhase now app0 =
     (let phase = phaseOf app0;
          app = upd_status (\<lambda>st. st\<lparr>st_Phase := phase\<rparr>) app0
      in if phase = PhaseReady then setCondition now app ConditionReady ConditionTrue ReasonReady ''serving current release''
         else if phase = PhaseBuilding then setCondition now app ConditionReady ConditionFalse ReasonBuilding ''build in progress''
         else if phase = PhaseAwaitingFirstBuild then
           setCondition now app ConditionReady ConditionFalse ReasonAwaitingFirstBuild ''awaiting first build''
         else app)"

lemma find_replace_condition:
  "find (\<lambda>c. cond_Type c = t) (replace_condition cond cs) =
     (if t = cond_Type cond then (if find (\<lambda>c. cond_Type c = t) cs = None then None else Some cond)
      else find (\<lambda>c. cond_Type c = t) cs)"
  by (induction cs) auto

lemma setCondition_frame [simp]:
  "app_Name (setCondition now app t s r m) = app_Name app"
  "app_Namespace (setCondition now app t s r m) = app_Namespace app"
  "app_Annotations (setCondition now app t s r m) = app_Annotations app"
  "app_Generation (setCondition now app t s r m) = app_Generation app"
  "app_Spec (setCondition now app t s r m) = app_Spec app"
  "st_Build (app_Status (setCondition now app t s r m)) = st_Build (app_Status app)"
  "st_Storage (app_Status (setCondition now app t s r m)) = st_Storage (app_Status app)"
  "st_Cleanup (app_Status (setCondition now app t s r m)) = st_Cleanup (app_Status app)"
  "st_Phase (app_Status (setCondition now app t s r m)) = st_Phase (app_Status app)"
  "st_LastProcessedRebuild (app_Status (setCondition now app t s r m)) = st_LastProcessedRebuild (app_Status app)"
  "st_LastBuiltSpecHash (app_Status (setCondition now app t s r m)) = st_LastBuiltSpecHash (app_Status app)"
  "st_LastSuccessfulBuildTime (app_Status (setCondition now app t s r m)) = st_LastSuccessfulBuildTime (app_Status app)"
  "hasSucceededOnce (setCondition now app t s r m) = hasSucceededOnce app"
  by (simp_all add: setCondition_def Let_def hasSucceededOnce_def split: option.split)

lemma findCondition_setCondition:
  "findCondition (setCondition now app t s r m) t' =
     (if t' = t then Some \<lparr>cond_Type = t, cond_Status = s, cond_Reason = r, cond_Message = m,
        cond_LastTransitionTime = (case findCondition app t of
          Some c \<Rightarrow> if cond_Status c = s \<and> cond_Reason c = r then cond_LastTransitionTime c else now
        | None \<Rightarrow> now), cond_ObservedGeneration = app_Generation app\<rparr>
      else findCondition app t')"
proof -
  have append: "find P (xs @ ys) = (case find P xs of None \<Rightarrow> find P ys | Some x \<Rightarrow> Some x)" for P and xs ys :: "Condition list"
    by (induction xs) auto
  show ?thesis
    by (auto simp: setCondition_def Let_def findCondition_def find_replace_condition append split: option.split)
qed

lemma phaseOf_setCondition_other [simp]:
  "t \<noteq> ConditionDegraded \<Longrightarrow> phaseOf (setCondition now app t s r m) = phaseOf app"
  by (simp add: phaseOf_def findCondition_setCondition Let_def)

section \<open>Jobs and pods\<close>

definition jobFinished :: "Job \<Rightarrow> JobCondition option" where
  "jobFinished j = find (\<lambda>c. (jc_Type c = JobComplete \<or> jc_Type c = JobFailed) \<and> jc_Status c = ConditionTrue) (j_Conditions j)"

definition ownedByJob :: "Pod \<Rightarrow> Job \<Rightarrow> bool" where
  "ownedByJob p job \<longleftrightarrow>
     list_ex (\<lambda>ref. or_Controller ref = Some True \<and> or_UID ref = om_UID (j_Meta job)) (om_OwnerReferences (p_Meta p))"

definition containerImages :: "PodSpec \<Rightarrow> string gomap" where
  "containerImages pod = fold (\<lambda>c. AList.update (c_Name c) (c_Image c)) (pod_InitContainers pod @ pod_Containers pod) []"

definition isBuildPod :: "Pod \<Rightarrow> bool" where
  "isBuildPod p \<longleftrightarrow> map_get (om_Labels (p_Meta p)) roleLabel = ''build''"

definition mapBuildPodToApp :: "Pod \<Rightarrow> (string \<times> string) list" where
  \<comment> \<open>the requests are (namespace, name) pairs\<close>
  "mapBuildPodToApp p =
     (if map_get (om_Labels (p_Meta p)) roleLabel \<noteq> ''build'' then []
      else let name = map_get (om_Labels (p_Meta p)) instanceLabel
           in if name = '''' then [] else [(om_Namespace (p_Meta p), name)])"

definition ingressURL :: "App \<Rightarrow> string" where
  "ingressURL app =
     (if ing_TLS (spec_Ingress (app_Spec app)) \<noteq> None then ''https'' else ''http'') @ ''://'' @
     ing_Host (spec_Ingress (app_Spec app))"

lemma jobFinished_type: "jobFinished j = Some c \<Longrightarrow> jc_Type c = JobComplete \<or> jc_Type c = JobFailed"
  by (auto simp: jobFinished_def dest!: find_Some_in)

section \<open>Properties\<close>

text \<open>The phase shown and the Ready condition agree: after the refresh the phase is one of the
  four exported ones and it is the phase the conditions and build state derive; Ready is True
  exactly when that phase is Ready, unless the app is degraded, where Ready is left as it was.\<close>

theorem refreshPhase_consistent:
  "st_Phase (app_Status (refreshPhase now app)) = phaseOf (refreshPhase now app) \<and>
   st_Phase (app_Status (refreshPhase now app)) \<in> set AllPhases \<and>
   (if phaseOf app = PhaseDegraded
    then findCondition (refreshPhase now app) ConditionReady = findCondition app ConditionReady
    else \<exists>c. findCondition (refreshPhase now app) ConditionReady = Some c \<and>
           (cond_Status c = ConditionTrue \<longleftrightarrow> phaseOf app = PhaseReady) \<and> cond_Reason c = phaseOf app)"
proof -
  have same: "phaseOf (upd_status (\<lambda>st. st\<lparr>st_Phase := p\<rparr>) app) = phaseOf app"
    "findCondition (upd_status (\<lambda>st. st\<lparr>st_Phase := p\<rparr>) app) = findCondition app" for p
    by (auto simp: phaseOf_def findCondition_def hasSucceededOnce_def fun_eq_iff Let_def)
  have range: "phaseOf app \<in> {PhaseAwaitingFirstBuild, PhaseBuilding, PhaseReady, PhaseDegraded}"
    by (simp add: phaseOf_def Let_def)
  then consider "phaseOf app = PhaseAwaitingFirstBuild" | "phaseOf app = PhaseBuilding"
    | "phaseOf app = PhaseReady" | "phaseOf app = PhaseDegraded" by blast
  then show ?thesis
    by cases (simp_all add: refreshPhase_def Let_def same AllPhases_def findCondition_setCondition)
qed

end
