(* ===== verification/Domain_RepoHost.thy ===== *)
theory Domain_RepoHost
  imports Go_Url
begin

text \<open>
  \<open>internal/domain/repohost.go\<close>: the hostname of a git repository URL, and the allowlist test that
  guards the operator-global git credential.
\<close>

datatype repo_error = EmptyRepo | NotGitUrl string | NoHost string | NotParseable string

definition RepoHost :: "string \<Rightarrow> repo_error + string" where
  "RepoHost repo0 =
     (let repo = TrimSpace repo0
      in if repo = '''' then Inl EmptyRepo
         else if \<not> Contains repo ''://'' then
           (case IndexByte repo (CHR '':'') of
              None \<Rightarrow> Inl (NotGitUrl repo)
            | Some colon \<Rightarrow>
                if colon = 0 then Inl (NotGitUrl repo)
                else
                  let host0 = take colon repo;
                      host = (case LastIndexByte host0 (CHR ''@'') of
                                None \<Rightarrow> host0 | Some i \<Rightarrow> drop (i + 1) host0)
                  in if drop (colon + 1) repo = '''' then Inl (NotGitUrl repo)
                     else if host = '''' then Inl (NoHost repo)
                     else Inr (ToLower host))
         else
           (case url_hostname repo of
              None \<Rightarrow> Inl (NotParseable repo)
            | Some host \<Rightarrow> if host = '''' then Inl (NoHost repo) else Inr (ToLower host)))"

definition RepoHostAllowed :: "string \<Rightarrow> string list \<Rightarrow> bool" where
  "RepoHostAllowed repo hosts =
     (case RepoHost repo of
        Inl _ \<Rightarrow> False
      | Inr host \<Rightarrow> list_ex (\<lambda>h. EqualFold host (TrimSpace h)) hosts)"

definition allowed_hosts :: "string list \<Rightarrow> string set" where
  \<comment> \<open>the hosts an operator-configured allowlist names\<close>
  "allowed_hosts hosts = (\<lambda>h. ToLower (TrimSpace h)) ` set hosts"

section \<open>Splitting an authority\<close>

definition clean :: "string \<Rightarrow> bool" where
  \<comment> \<open>no byte that ends an authority or is rejected before parsing\<close>
  "clean s \<longleftrightarrow> list_all (\<lambda>c. 32 < byte c \<and> byte c \<noteq> 127 \<and> c \<noteq> CHR ''/'' \<and> c \<noteq> CHR ''#'' \<and> c \<noteq> CHR ''?'') s"

lemma clean_bytes:
  assumes "clean s"
  shows "CHR ''/'' \<notin> set s" "CHR ''#'' \<notin> set s" "CHR ''?'' \<notin> set s" "\<not> has_ctl s"
  using assms by (fastforce simp: clean_def list_all_iff has_ctl_def list_ex_iff)+

lemma clean_append [simp]: "clean (s @ t) \<longleftrightarrow> clean s \<and> clean t"
  by (simp add: clean_def)

lemma plain_clean: "plain h \<Longrightarrow> clean h"
  by (auto simp: plain_def clean_def list_all_iff is_letter_def is_digit_def byte_def)

lemma getScheme_letters:
  assumes "list_all is_letter s" "s \<noteq> []"
  shows "getScheme 0 (s @ CHR '':'' # r) (s @ CHR '':'' # r) = Some (s, r)"
proof -
  have *: "list_all is_letter w \<Longrightarrow> i = length v \<Longrightarrow> v @ w \<noteq> [] \<Longrightarrow>
      getScheme i (w @ CHR '':'' # r) (v @ w @ CHR '':'' # r) = Some (v @ w, r)" for v w i
  proof (induction w arbitrary: v i)
    case Nil
    then show ?case by (simp add: is_letter_def is_digit_def byte_def)
  next
    case (Cons c w)
    from Cons.IH [of "Suc i" "v @ [c]"] Cons.prems show ?case by simp
  qed
  from * [of s 0 "[]"] assms show ?thesis by simp
qed

lemma cut_at_absent [simp]: "b \<notin> set s \<Longrightarrow> cut_at s b = (s, [])"
  by (simp add: cut_at_def)

lemma Contains_middle: "Contains (u @ p @ v) p"
  by (auto simp: Contains_iff)

lemma plain_no_space: "plain s \<Longrightarrow> list_all (\<lambda>c. \<not> is_space c) s"
  by (auto simp: plain_def list_all_iff letter_or_digit_not)

lemma no_scheme_sep: "CHR ''/'' \<notin> set s \<Longrightarrow> \<not> Contains s ''://''"
  by (auto simp: Contains_iff)

lemma RepoHost_scp:
  assumes "plain h" "h \<noteq> ''''" "plain u" "plain p" "p \<noteq> ''''"
  shows "RepoHost (u @ ''@'' @ h @ '':'' @ p) = Inr (ToLower h)"
proof -
  let ?r = "(u @ CHR ''@'' # h) @ CHR '':'' # p"
  have trim: "TrimSpace ?r = ?r"
    using assms by (intro TrimSpace_id) (simp add: plain_no_space, simp add: is_space_def byte_def)
  have nosep: "\<not> Contains ?r ''://''"
    by (rule no_scheme_sep) (use assms plain_bytes(3) in auto)
  have colon: "IndexByte ?r (CHR '':'') = Some (length (u @ CHR ''@'' # h))"
    by (rule IndexByte_append) (use assms plain_bytes(2) in auto)
  have ats: "LastIndexByte (u @ CHR ''@'' # h) (CHR ''@'') = Some (length u)"
    by (rule LastIndexByte_append) (rule plain_bytes(1) [OF assms(1)])
  have "RepoHost ?r = Inr (ToLower h)"
    using assms(2,5) unfolding RepoHost_def trim Let_def colon by (simp add: nosep [simplified] ats)
  then show ?thesis by simp
qed

lemma RepoHost_https:
  assumes "plain h" "h \<noteq> ''''" "plain p"
  shows "RepoHost (''https://'' @ h @ ''/'' @ p) = Inr (ToLower h)"
proof -
  let ?rest = "''//'' @ h @ CHR ''/'' # p"
  let ?r = "''https'' @ CHR '':'' # ?rest"
  have trim: "TrimSpace ?r = ?r"
    using assms by (intro TrimSpace_id) (simp add: plain_no_space, simp add: is_space_def byte_def)
  have sep: "Contains ?r ''://''"
    using Contains_middle [of "''https''" "''://''" "h @ CHR ''/'' # p"] by simp
  have noq: "CHR ''?'' \<notin> set ?rest" "CHR ''#'' \<notin> set ?r"
    using assms plain_bytes(5,6) by auto
  have sch: "getScheme 0 ?r ?r = Some (''https'', ?rest)"
    by (rule getScheme_letters) (simp_all add: is_letter_def byte_def)
  have ix: "IndexByte (h @ CHR ''/'' # p) (CHR ''/'') = Some (length h)"
    by (rule IndexByte_append) (rule plain_bytes(3) [OF assms(1)])
  have path: "unescape EncPath (CHR ''/'' # p) = Some (CHR ''/'' # p)"
    by (simp add: unescape_plain [OF assms(3)])
  have "url_rest_host ''https'' ?rest = Some h"
    using ix path by (simp add: url_rest_host_def HasPrefix_def parseAuthority_plain [OF assms(1)])
  moreover have "\<not> has_ctl ?r"
    using clean_bytes(4) [OF plain_clean [OF assms(1)]] clean_bytes(4) [OF plain_clean [OF assms(3)]]
    by (simp add: has_ctl_def byte_def)
  ultimately have "url_host ?r = Some h"
    unfolding url_host_def cut_at_absent [OF noq(2)] Let_def prod.case sch option.case
      cut_at_absent [OF noq(1)] fst_conv by simp
  then have "url_hostname ?r = Some h"
    by (simp add: url_hostname_def Hostname_plain [OF assms(1)])
  with assms(2) have "RepoHost ?r = Inr (ToLower h)"
    unfolding RepoHost_def trim Let_def using sep by simp
  then show ?thesis by simp
qed

section \<open>The host of a git URL\<close>

definition after_last :: "char \<Rightarrow> string \<Rightarrow> string" where
  "after_last b s = rev (takeWhile (\<lambda>c. c \<noteq> b) (rev s))"

definition before_last :: "char \<Rightarrow> string \<Rightarrow> string" where
  "before_last b s = rev (tl (dropWhile (\<lambda>c. c \<noteq> b) (rev s)))"

definition bare_host :: "string \<Rightarrow> string" where
  \<comment> \<open>without brackets and without the port\<close>
  "bare_host s =
     (if take 1 s = ''['' then tl (before_last (CHR '']'') s)
      else if CHR '':'' \<in> set s then before_last (CHR '':'') s else s)"

definition git_host :: "string \<Rightarrow> string" where
  \<comment> \<open>of a URL: what follows the last at sign of the authority, which goes from the first two slashes to the next
    slash, question mark or hash; of \<open>user@host:path\<close>: what is between the last at sign and the first colon\<close>
  "git_host url =
     (if Contains url ''://''
      then bare_host (after_last (CHR ''@'')
             (takeWhile (\<lambda>c. c \<notin> {CHR ''/'', CHR ''?'', CHR ''#''}) (drop 2 (dropWhile (\<lambda>c. c \<noteq> CHR ''/'') url))))
      else after_last (CHR ''@'') (takeWhile (\<lambda>c. c \<noteq> CHR '':'') url))"

lemma IndexByte_take: "IndexByte s b = Some i \<Longrightarrow> take i s = takeWhile (\<lambda>c. c \<noteq> b) s"
  by (induction s arbitrary: i) (auto split: if_splits)

lemma LastIndexByte_split:
  assumes "LastIndexByte s b = Some i"
  shows "take i s = before_last b s" "drop (i + 1) s = after_last b s"
    "s = before_last b s @ b # after_last b s" "drop i s = b # after_last b s"
proof -
  from LastIndexByte_SomeD [OF assms] have i: "i < length s" "s ! i = b" "b \<notin> set (drop (Suc i) s)" by simp_all
  have s: "s = take i s @ b # drop (Suc i) s" using id_take_nth_drop [OF i(1)] i(2) by simp
  have "takeWhile (\<lambda>c. c \<noteq> b) (y @ b # x) = y" "dropWhile (\<lambda>c. c \<noteq> b) (y @ b # x) = b # x" if "b \<notin> set y" for x y
    using that by (induction y) auto
  from this [of "rev (drop (Suc i) s)" "rev (take i s)"] i(3)
  have "takeWhile (\<lambda>c. c \<noteq> b) (rev s) = rev (drop (Suc i) s)" "dropWhile (\<lambda>c. c \<noteq> b) (rev s) = b # rev (take i s)"
    by (subst s; simp)+
  then show *: "take i s = before_last b s" "drop (i + 1) s = after_last b s" by (simp_all add: before_last_def after_last_def)
  from s show "s = before_last b s @ b # after_last b s" unfolding * [symmetric] by simp
  from i(1,2) have "drop i s = b # drop (Suc i) s" using Cons_nth_drop_Suc [OF i(1)] by simp
  with * show "drop i s = b # after_last b s" by simp
qed

lemma takeWhile_absent: "b \<notin> set s \<Longrightarrow> takeWhile (\<lambda>c. c \<noteq> b) s = s"
  by (induction s) auto

lemma after_last_absent: "b \<notin> set s \<Longrightarrow> after_last b s = s"
  by (simp add: after_last_def takeWhile_absent)

lemma cut_at_fst_eq: "fst (cut_at s b) = takeWhile (\<lambda>c. c \<noteq> b) s"
  by (cases "IndexByte s b") (auto simp: cut_at_def IndexByte_take takeWhile_absent)

lemma unescape_no_percent: "CHR ''%'' \<notin> set s \<Longrightarrow> unescape m s = Some t \<Longrightarrow> t = s"
proof (induction s arbitrary: t)
  case (Cons c s)
  then have c: "c \<noteq> CHR ''%''" "CHR ''%'' \<notin> set s" by auto
  from Cons.prems(2) c(1) obtain t' where "unescape m s = Some t'" "t = c # t'"
    by (simp split: if_splits) blast
  with Cons.IH [OF c(2)] show ?case by simp
qed simp

lemma parseHost_Some:
  assumes "parseHost s = Some t" "CHR ''%'' \<notin> set (bare_host s)"
  shows "t = s \<and> Hostname s = bare_host s"
proof (cases "HasPrefix s ''[''")
  case True
  with assms(1) obtain i where i: "LastIndexByte s (CHR '']'') = Some i" and port: "validOptionalPort (drop (i + 1) s)"
    by (auto simp: parseHost_def split: option.splits if_splits)
  define b where "b = before_last (CHR '']'') s"
  define p where "p = after_last (CHR '']'') s"
  have s: "s = b @ CHR '']'' # p" and p: "validOptionalPort p"
    using LastIndexByte_split [OF i] port by (simp_all add: b_def p_def)
  have bs: "b = CHR ''['' # tl b"
    using True s by (cases b) (auto simp: HasPrefix_iff)
  have bare: "bare_host s = tl b" using True by (simp add: bare_host_def HasPrefix_def b_def)
  have digits: "c \<noteq> CHR ''%'' \<and> c \<noteq> CHR '']''" if "is_digit c" for c using that by (auto simp: is_digit_def byte_def)
  have "CHR ''%'' \<notin> set p" using p digits by (auto simp: validOptionalPort_def list_all_iff split: list.splits)
  moreover have "CHR ''%'' \<notin> set b" using assms(2) unfolding bare by (subst bs) simp
  ultimately have pc: "CHR ''%'' \<notin> set s" by (subst s) simp
  have "Index (take i s) ''%25'' = None"
  proof (rule ccontr)
    assume "Index (take i s) ''%25'' \<noteq> None"
    then have "CHR ''%'' \<in> set (take i s)" by (auto dest: Index_SomeD)
    with pc show False by (meson in_set_takeD)
  qed
  with assms(1) True i port have "unescape EncHost s = Some t" by (simp add: parseHost_def)
  from unescape_no_percent [OF pc this] have "t = s" .
  moreover have "Hostname s = tl b"
  proof -
    have "strip_port s = b @ '']''"
    proof (cases p)
      case Nil
      show ?thesis
      proof (cases "LastIndexByte s (CHR '':'')")
        case None
        with Nil s show ?thesis by (simp add: strip_port_def)
      next
        case (Some j)
        note split = LastIndexByte_split [OF Some]
        have "last (drop j s) = CHR '']''" using s Nil split(4) by (metis last_drop last_snoc drop_eq_Nil list.distinct(1) not_le)
        moreover have "after_last (CHR '':'') s \<noteq> []" using calculation split(4) by auto
        ultimately have "CHR '']'' \<in> set (after_last (CHR '':'') s)" using split(4) by (metis last.simps last_in_set)
        then have "\<not> validOptionalPort (drop j s)" unfolding split(4) by (auto simp: validOptionalPort_def list_all_iff dest: digits)
        with Some Nil s show ?thesis by (simp add: strip_port_def)
      qed
    next
      case (Cons x ds)
      with p have x: "x = CHR '':''" "list_all is_digit ds" by (simp_all add: validOptionalPort_def)
      have "CHR '':'' \<notin> set ds" using x(2) by (auto simp: list_all_iff is_digit_def byte_def)
      then have "LastIndexByte ((b @ '']'') @ CHR '':'' # ds) (CHR '':'') = Some (length (b @ '']''))" by (rule LastIndexByte_append)
      moreover have whole: "s = (b @ '']'') @ CHR '':'' # ds" using s Cons x(1) by simp
      ultimately have "LastIndexByte s (CHR '':'') = Some (length (b @ '']''))" by simp
      moreover have "drop (length (b @ '']'')) s = CHR '':'' # ds" "take (length (b @ '']'')) s = b @ '']''"
        by (subst whole; simp)+
      ultimately show ?thesis using x(2) by (simp add: strip_port_def validOptionalPort_def)
    qed
    moreover have "HasPrefix (b @ '']'') ''[''" "HasSuffix (b @ '']'') '']''"
      by (subst bs, simp add: HasPrefix_def) (simp add: HasSuffix_def)
    moreover have "butlast (tl (b @ '']'')) = tl b" by (subst bs) simp
    ultimately show ?thesis by (simp add: Hostname_def)
  qed
  ultimately show ?thesis using bare by simp
next
  case False
  then have plain: "take 1 s \<noteq> ''[''" by (simp add: HasPrefix_def)
  show ?thesis
  proof (cases "LastIndexByte s (CHR '':'')")
    case None
    then have bare: "bare_host s = s" using plain by (simp add: bare_host_def)
    have "t = s" using assms None False unescape_no_percent by (simp add: parseHost_def bare)
    with None False bare show ?thesis by (simp add: Hostname_def strip_port_def)
  next
    case (Some i)
    note split = LastIndexByte_split [OF Some]
    let ?h = "before_last (CHR '':'') s"
    have "CHR '':'' \<in> set s" using split(3) by (metis in_set_conv_decomp)
    then have bare: "bare_host s = ?h" using plain by (simp add: bare_host_def)
    have port: "validOptionalPort (drop i s)" and un: "unescape EncHost s = Some t"
      using assms(1) False Some by (auto simp: parseHost_def split: if_splits)
    have "CHR ''%'' \<notin> set (after_last (CHR '':'') s)"
      using port unfolding split(4) by (auto simp: validOptionalPort_def list_all_iff is_digit_def byte_def)
    moreover have "set s = set ?h \<union> set (CHR '':'' # after_last (CHR '':'') s)"
      using arg_cong [OF split(3), of set] by (simp only: set_append)
    ultimately have "CHR ''%'' \<notin> set s" using assms(2) unfolding bare by simp
    from unescape_no_percent [OF this un] have "t = s" .
    moreover have "\<not> HasPrefix ?h ''[''" using False split(3) by (metis HasPrefix_iff append_assoc)
    ultimately show ?thesis using Some port split(1) bare by (simp add: Hostname_def strip_port_def)
  qed
qed

lemma parseAuthority_host:
  "parseAuthority a = Some t \<Longrightarrow> parseHost (after_last (CHR ''@'') a) = Some t"
proof (cases "LastIndexByte a (CHR ''@'')")
  case None
  then show "parseAuthority a = Some t \<Longrightarrow> parseHost (after_last (CHR ''@'') a) = Some t"
    by (simp add: parseAuthority_def after_last_absent)
next
  case (Some i)
  then show "parseAuthority a = Some t \<Longrightarrow> parseHost (after_last (CHR ''@'') a) = Some t"
    using LastIndexByte_split(2) [OF Some]
    by (auto simp: parseAuthority_def Let_def split: option.splits if_splits)
qed

lemma getScheme_prefix:
  assumes "getScheme 0 u u = Some (scheme, rest)"
  shows "\<exists>pre. u = pre @ rest \<and> CHR ''/'' \<notin> set pre"
proof -
  have "getScheme i w (v @ w) = Some (scheme, rest) \<Longrightarrow> i = length v \<Longrightarrow> CHR ''/'' \<notin> set v \<Longrightarrow>
      \<exists>pre. v @ w = pre @ rest \<and> CHR ''/'' \<notin> set pre" for i v w
  proof (induction w arbitrary: i v)
    case (Cons c w)
    have c: "CHR ''/'' \<notin> set (v @ [c])" if "is_letter c \<or> is_digit c \<or> c = CHR ''+'' \<or> c = CHR ''-'' \<or> c = CHR ''.'' \<or> c = CHR '':''"
      using that Cons.prems(3) by (auto simp: is_letter_def is_digit_def byte_def)
    from Cons.prems show ?case
      using Cons.IH [of "Suc i" "v @ [c]"] c
      by (auto split: if_splits intro: exI [of _ "[]"] exI [of _ "v @ [c]"])
  qed (auto intro: exI [of _ "[]"])
  from this [of 0 u "[]"] assms show ?thesis by simp
qed

lemma url_rest_host_Some:
  assumes "url_rest_host scheme rest = Some h" "h \<noteq> []"
  shows "\<exists>x. rest = ''//'' @ x \<and> parseAuthority (takeWhile (\<lambda>c. c \<noteq> CHR ''/'') x) = Some h"
proof -
  from assms have "HasPrefix rest ''//''" by (auto simp: url_rest_host_def Let_def split: if_splits option.splits)
  then obtain x where x: "rest = ''//'' @ x" by (auto simp: HasPrefix_iff)
  have "(case IndexByte x (CHR ''/'') of None \<Rightarrow> (x, []) | Some i \<Rightarrow> (take i x, drop i x)) = (takeWhile (\<lambda>c. c \<noteq> CHR ''/'') x, path)"
    if "path = (case IndexByte x (CHR ''/'') of None \<Rightarrow> [] | Some i \<Rightarrow> drop i x)" for path
    using that by (cases "IndexByte x (CHR ''/'')") (auto simp: IndexByte_take takeWhile_absent)
  with assms x show ?thesis
    by (auto simp: url_rest_host_def HasPrefix_def Let_def split: if_splits option.splits)
qed

lemma url_hostname_git_host:
  assumes "url_hostname url = Some h" "h \<noteq> []" "Contains url ''://''" "CHR ''%'' \<notin> set (git_host url)"
  shows "h = git_host url"
proof -
  let ?u = "takeWhile (\<lambda>c. c \<noteq> CHR ''#'') url"
  from assms(1) obtain raw where raw: "url_host url = Some raw" "h = Hostname raw" by (auto simp: url_hostname_def)
  have ne: "raw \<noteq> []" using raw(2) assms(2) by (auto simp: Hostname_def strip_port_def HasPrefix_def)
  obtain frag where cut: "cut_at url (CHR ''#'') = (?u, frag)" using cut_at_fst_eq [of url] by (metis prod.collapse)
  from raw(1) ne obtain scheme rest where sch: "getScheme 0 ?u ?u = Some (scheme, rest)"
      and host: "url_rest_host scheme (takeWhile (\<lambda>c. c \<noteq> CHR ''?'') rest) = Some raw"
    unfolding url_host_def cut cut_at_fst_eq by (auto simp: Let_def split: if_splits option.splits)
  from url_rest_host_Some [OF host ne] obtain x where x: "takeWhile (\<lambda>c. c \<noteq> CHR ''?'') rest = ''//'' @ x"
    and auth: "parseAuthority (takeWhile (\<lambda>c. c \<noteq> CHR ''/'') x) = Some raw" by blast
  obtain y where y: "rest = ''//'' @ y" "x = takeWhile (\<lambda>c. c \<noteq> CHR ''?'') y"
    using x by (cases rest; cases "tl rest") (auto split: if_splits)
  from getScheme_prefix [OF sch] obtain pre where pre: "?u = pre @ ''//'' @ y" "CHR ''/'' \<notin> set pre" using y(1) by auto
  have "dropWhile (\<lambda>c. c \<noteq> CHR ''/'') url = ''//'' @ y @ dropWhile (\<lambda>c. c \<noteq> CHR ''#'') url"
  proof -
    have "url = pre @ ''//'' @ y @ dropWhile (\<lambda>c. c \<noteq> CHR ''#'') url"
      using takeWhile_dropWhile_id [of "\<lambda>c. c \<noteq> CHR ''#''" url] pre(1) by (metis append.assoc)
    moreover have "dropWhile (\<lambda>c. c \<noteq> CHR ''/'') (pre @ ''//'' @ z) = ''//'' @ z" for z
      using pre(2) by (induction pre) auto
    ultimately show ?thesis by metis
  qed
  moreover have "takeWhile (\<lambda>c. c \<noteq> CHR ''#'') (y @ dropWhile (\<lambda>c. c \<noteq> CHR ''#'') url) = y"
  proof -
    have "CHR ''#'' \<notin> set ?u" by (auto dest: set_takeWhileD)
    then have "CHR ''#'' \<notin> set y" unfolding pre(1) by simp
    moreover have "takeWhile (\<lambda>c. c \<noteq> CHR ''#'') (dropWhile (\<lambda>c. c \<noteq> CHR ''#'') url) = []"
      by (induction url) auto
    ultimately show ?thesis by (subst takeWhile_append2) auto
  qed
  moreover have "takeWhile (\<lambda>c. c \<notin> {CHR ''/'', CHR ''?'', CHR ''#''}) z =
      takeWhile (\<lambda>c. c \<noteq> CHR ''/'') (takeWhile (\<lambda>c. c \<noteq> CHR ''?'') (takeWhile (\<lambda>c. c \<noteq> CHR ''#'') z))" for z
    by (induction z) auto
  ultimately have "takeWhile (\<lambda>c. c \<notin> {CHR ''/'', CHR ''?'', CHR ''#''}) (drop 2 (dropWhile (\<lambda>c. c \<noteq> CHR ''/'') url)) =
      takeWhile (\<lambda>c. c \<noteq> CHR ''/'') x"
    by (simp only: y(2)) simp
  then have git: "git_host url = bare_host (after_last (CHR ''@'') (takeWhile (\<lambda>c. c \<noteq> CHR ''/'') x))"
    using assms(3) by (simp only: git_host_def if_True)
  from parseHost_Some [OF parseAuthority_host [OF auth]] assms(4) raw(2) show ?thesis unfolding git by simp
qed

lemma RepoHost_git_host:
  assumes "RepoHost repo = Inr h" "CHR ''%'' \<notin> set (git_host (TrimSpace repo))"
  shows "h = ToLower (git_host (TrimSpace repo))"
proof (cases "Contains (TrimSpace repo) ''://''")
  case True
  with assms(1) obtain host where "url_hostname (TrimSpace repo) = Some host" "host \<noteq> []" "h = ToLower host"
    by (auto simp: RepoHost_def Let_def split: if_splits option.splits)
  with url_hostname_git_host [OF _ _ True assms(2)] show ?thesis by simp
next
  case False
  let ?r = "TrimSpace repo"
  from False assms(1) obtain i where i: "IndexByte ?r (CHR '':'') = Some i"
      and h: "h = ToLower (case LastIndexByte (take i ?r) (CHR ''@'') of None \<Rightarrow> take i ?r | Some j \<Rightarrow> drop (j + 1) (take i ?r))"
    by (auto simp: RepoHost_def Let_def split: if_splits option.splits)
  have "(case LastIndexByte s (CHR ''@'') of None \<Rightarrow> s | Some j \<Rightarrow> drop (j + 1) s) = after_last (CHR ''@'') s" for s
    using LastIndexByte_split(2) [of s] by (auto simp: after_last_absent split: option.split)
  with h have "h = ToLower (after_last (CHR ''@'') (take i ?r))" by simp
  with False show ?thesis by (simp add: git_host_def IndexByte_take [OF i])
qed

section \<open>Properties\<close>



text \<open>The scp grammar and the URL grammar agree: \<open>user@host:path\<close> and \<open>scheme://host/path\<close>
  (with a path that needs no unescaping) both give the lowercase host.\<close>

lemma RepoHost_grammars_agree:
  assumes "plain h" "h \<noteq> ''''" "plain u" "plain p" "p \<noteq> ''''"
  shows "RepoHost (u @ ''@'' @ h @ '':'' @ p) = Inr (ToLower h) \<and>
    RepoHost (''https://'' @ h @ ''/'' @ p) = Inr (ToLower h)"
  using RepoHost_scp [OF assms] RepoHost_https [OF assms(1,2,4)] ..

end
