(* ===== verification/Build_Pod.thy ===== *)
theory Build_Pod
  imports App_Decisions Domain_RepoHost
begin

text \<open>
  \<open>internal/controller/buildpod.go\<close> and the pure part of \<open>gitcred.go\<close>: the build Job and the wiring
  of the git credential into a pod. The operator's \<open>ParseQuantity\<close> is the library parameter
  \<open>parseQ\<close>. The properties are the confinement claims the comments make: which container sees
  secrets, the output volume and the credential.
\<close>

abbreviation workMountPath where "workMountPath \<equiv> ''/work''"
abbreviation cacheMountPath where "cacheMountPath \<equiv> ''/cache''"
abbreviation dataMountPath where "dataMountPath \<equiv> ''/data''"
abbreviation outputMountPath where "outputMountPath \<equiv> ''/output''"
abbreviation volWork where "volWork \<equiv> ''work''"
abbreviation volCache where "volCache \<equiv> ''cache''"
abbreviation volData where "volData \<equiv> ''data''"
abbreviation volOutput where "volOutput \<equiv> ''output''"
abbreviation volTmp where "volTmp \<equiv> ''tmp''"
abbreviation volShim where "volShim \<equiv> ''shim''"
abbreviation shimMountPath where "shimMountPath \<equiv> ''/baker''"
abbreviation shimBinary where "shimBinary \<equiv> ''/baker/shim''"
abbreviation RuntimeDefault where "RuntimeDefault \<equiv> ''RuntimeDefault''"

section \<open>Security contexts\<close>

definition hardenedSecurityContext :: SecurityContext where
  "hardenedSecurityContext = \<lparr>sc_RunAsUser = None, sc_RunAsGroup = None, sc_RunAsNonRoot = Some True,
     sc_ReadOnlyRootFilesystem = Some True, sc_AllowPrivilegeEscalation = Some False,
     sc_CapDrop = [''ALL''], sc_CapAdd = [], sc_SeccompProfile = Some RuntimeDefault\<rparr>"

definition resolvedSecurityContext :: "ResolvedPhase \<Rightarrow> SecurityContext" where
  "resolvedSecurityContext rp =
     (case rp_RunAsUser rp of
        Some u \<Rightarrow> hardenedSecurityContext\<lparr>sc_RunAsUser := Some u\<rparr>
      | None \<Rightarrow> hardenedSecurityContext)"

definition withHome :: "ResolvedPhase \<Rightarrow> kEnvVar list \<Rightarrow> kEnvVar list" where
  "withHome rp env = (if rp_Home rp = '''' then env else env @ [env_lit ''HOME'' (rp_Home rp)])"

definition nginxUID :: int where "nginxUID = 101"

definition nginxSecurityContext :: SecurityContext where
  "nginxSecurityContext = hardenedSecurityContext\<lparr>sc_RunAsUser := Some nginxUID, sc_RunAsGroup := Some nginxUID\<rparr>"

definition clockUID :: int where "clockUID = 65532"

definition clockSecurityContext :: SecurityContext where
  "clockSecurityContext = hardenedSecurityContext\<lparr>sc_RunAsUser := Some clockUID\<rparr>"

section \<open>Commands and environment\<close>

definition commandOrNoop :: "string list \<Rightarrow> string list" where
  "commandOrNoop cmd = (if cmd = [] then [''true''] else cmd)"

definition shimWrap :: "string list \<Rightarrow> string list" where
  "shimWrap cmd = [shimBinary, ''--''] @ cmd"

definition toEnvVar :: "EnvVar \<Rightarrow> kEnvVar" where
  "toEnvVar e = \<lparr>ke_Name = ev_Name e, ke_Value = ev_Value e,
     ke_ValueFrom = (case ev_ValueFrom e of
        None \<Rightarrow> None
      | Some src \<Rightarrow> (case evs_ConfigMapKeyRef src of
          None \<Rightarrow> None
        | Some r \<Rightarrow> Some (ConfigMapKeyRef (cks_Name r) (cks_Key r))))\<rparr>"

definition toEnvVars :: "EnvVar list \<Rightarrow> kEnvVar list" where
  "toEnvVars xs = map toEnvVar xs"

definition envMapVars :: "string gomap \<Rightarrow> kEnvVar list" where
  "envMapVars m = map (\<lambda>k. env_lit k (map_get m k)) (sort (map fst m))"

definition toSecretEnvVars :: "EnvVarWithSecret list \<Rightarrow> kEnvVar list" where
  "toSecretEnvVars xs = map (\<lambda>e. \<lparr>ke_Name = evs_Name e, ke_Value = '''',
     ke_ValueFrom = Some (SecretKeyRef (sks_Name (evss_SecretKeyRef (evs_ValueFrom e)))
                                       (sks_Key (evss_SecretKeyRef (evs_ValueFrom e))))\<rparr>) xs"

definition resolvePhase :: "OperatorConfig \<Rightarrow> App \<Rightarrow> PhaseSpec \<Rightarrow> ResolvedPhase" where
  "resolvePhase cfg app phase =
     ResolvePhase (ps_Image phase) (ps_RunAsUser phase) (pl_NodeVersion (pipeline app))
       (cfg_NodeImages cfg) (img_Clone (cfg_Images cfg))"

definition mount :: "string \<Rightarrow> string \<Rightarrow> VolumeMount" where
  "mount n p = \<lparr>vm_Name = n, vm_MountPath = p, vm_ReadOnly = False\<rparr>"

definition mount_ro :: "string \<Rightarrow> string \<Rightarrow> VolumeMount" where
  "mount_ro n p = \<lparr>vm_Name = n, vm_MountPath = p, vm_ReadOnly = True\<rparr>"

definition volume :: "string \<Rightarrow> volume_source \<Rightarrow> Volume" where
  "volume n s = \<lparr>vol_Name = n, vol_Source = s\<rparr>"

definition buildVolumesAndMounts :: "App \<Rightarrow> Volume list \<times> VolumeMount" where
  "buildVolumesAndMounts app =
     ([volume volWork (EmptyDir None), volume volTmp (EmptyDir None),
       volume volCache (PersistentVolumeClaim (cacheePVCName app) False),
       volume volData (PersistentVolumeClaim (dataCachePVCName app) False)],
      mount volCache cacheMountPath)"

definition commonMounts :: "VolumeMount list" where
  "commonMounts = [mount volWork workMountPath, mount volTmp ''/tmp'']"

definition pkgManagerEnv :: "App \<Rightarrow> kEnvVar list" where
  "pkgManagerEnv app =
     (if pl_PackageManager (pipeline app) = PackageManagerPnpm
      then [env_lit ''npm_config_store_dir'' (cacheMountPath @ ''/pnpm-store'')]
      else [env_lit ''YARN_CACHE_FOLDER'' (cacheMountPath @ ''/yarn'')])"

definition phaseResourceRequirements ::
  "(string \<Rightarrow> quantity option) \<Rightarrow> OperatorConfig \<Rightarrow> string \<Rightarrow> string \<Rightarrow> ResourceRequirements" where
  "phaseResourceRequirements parseQ cfg phaseName userMemLimit =
     (let d = MemoryForPhase (cfg_PhaseResourceDefaults cfg) phaseName;
          memCeiling = (if userMemLimit \<noteq> '''' then
                          (case parseQ userMemLimit of Some q \<Rightarrow> q | None \<Rightarrow> d) else d)
      in \<lparr>rr_Requests = [(''memory'', memCeiling), (''cpu'', prd_CPURequest (cfg_PhaseResourceDefaults cfg))],
          rr_Limits = [(''memory'', memCeiling), (''cpu'', prd_CPULimit (cfg_PhaseResourceDefaults cfg))]\<rparr>)"

definition shortToken :: "string \<Rightarrow> string" where
  "shortToken token = take 10 (EncodeToString (Sum256 token))"

definition buildJobName :: "App \<Rightarrow> string \<Rightarrow> string" where
  "buildJobName app token = app_Name app @ ''-build-'' @ shortToken token"

section \<open>Git credential\<close>

abbreviation gitCredMountPath where "gitCredMountPath \<equiv> ''/run/git-credential''"
abbreviation volGitCred where "volGitCred \<equiv> ''git-credential''"
abbreviation gitCredHostEnv where "gitCredHostEnv \<equiv> ''GIT_CREDENTIAL_HOST''"
abbreviation gitCredHashAnnotation where "gitCredHashAnnotation \<equiv> ''baker.toggle-corp.com/git-credential-hash''"
abbreviation gitAuthUsernameKey where "gitAuthUsernameKey \<equiv> ''username''"
abbreviation gitAuthPasswordKey where "gitAuthPasswordKey \<equiv> ''password''"

record gitCredentialDecision =
  gcd_syncCopy :: bool
  gcd_secretName :: string

definition no_credential :: gitCredentialDecision where
  "no_credential = \<lparr>gcd_syncCopy = False, gcd_secretName = ''''\<rparr>"

definition mounts :: "gitCredentialDecision \<Rightarrow> bool" where
  "mounts d \<longleftrightarrow> gcd_secretName d \<noteq> ''''"

definition decideGitCredential :: "App \<Rightarrow> GitAuth \<Rightarrow> gitCredentialDecision" where
  "decideGitCredential app cfg =
     (case spec_RepoAuth (app_Spec app) of
        Some ra \<Rightarrow> \<lparr>gcd_syncCopy = False, gcd_secretName = rasr_Name (ra_SecretRef ra)\<rparr>
      | None \<Rightarrow>
          if GitAuth_Enabled cfg \<and> RepoHostAllowed (spec_Repo (app_Spec app)) (ga_Hosts cfg)
          then \<lparr>gcd_syncCopy = True, gcd_secretName = gitCredentialSecretName app\<rparr>
          else no_credential)"

datatype git_data_error = MissingKey string

definition checkGitCredentialData :: "string gomap \<Rightarrow> git_data_error option" where
  "checkGitCredentialData data =
     (case find (\<lambda>k. map_get data k = '''') [gitAuthUsernameKey, gitAuthPasswordKey] of
        Some k \<Rightarrow> Some (MissingKey k) | None \<Rightarrow> None)"

definition gitCredentialHash :: "string gomap \<Rightarrow> string" where
  "gitCredentialHash data =
     EncodeToString (Sum256 (map_get data gitAuthUsernameKey @ [CHR 0x00] @ map_get data gitAuthPasswordKey))"

definition gitCredentialVolume :: "string \<Rightarrow> Volume" where
  "gitCredentialVolume secretName =
     volume volGitCred (SecretVolume secretName
       [(gitAuthUsernameKey, gitAuthUsernameKey), (gitAuthPasswordKey, gitAuthPasswordKey)])"

definition with_credential :: "string \<Rightarrow> string \<Rightarrow> Container \<Rightarrow> Container" where
  \<comment> \<open>the loop body of \<open>addGitCredential\<close>\<close>
  "with_credential containerName host c =
     (if containerName \<noteq> '''' \<and> c_Name c \<noteq> containerName then c
      else c\<lparr>c_Env := c_Env c @ [env_lit ''GIT_CREDENTIAL_DIR'' gitCredMountPath, env_lit gitCredHostEnv host],
             c_VolumeMounts := c_VolumeMounts c @ [mount_ro volGitCred gitCredMountPath]\<rparr>)"

definition addGitCredential :: "PodSpec \<Rightarrow> string \<Rightarrow> string \<Rightarrow> string \<Rightarrow> PodSpec" where
  "addGitCredential pod containerName secretName host =
     (if host = '''' then pod
      else pod\<lparr>pod_Volumes := pod_Volumes pod @ [gitCredentialVolume secretName],
               pod_Containers := map (with_credential containerName host) (pod_Containers pod),
               pod_InitContainers := map (with_credential containerName host) (pod_InitContainers pod)\<rparr>)"

definition repo_host :: "App \<Rightarrow> string" where
  \<comment> \<open>\<open>host, _ := domain.RepoHost(app.Spec.Repo)\<close>\<close>
  "repo_host app = (case RepoHost (spec_Repo (app_Spec app)) of Inl _ \<Rightarrow> '''' | Inr h \<Rightarrow> h)"

definition syncedGitCredential :: "App \<Rightarrow> string gomap \<Rightarrow> Secret" where
  "syncedGitCredential app data = \<lparr>
     sec_Meta = (new_meta (gitCredentialSecretName app) (app_Namespace app) (labelsFor app))
       \<lparr>om_Annotations := [(gitCredHashAnnotation, gitCredentialHash data)]\<rparr>,
     sec_Type = ''kubernetes.io/basic-auth'',
     sec_Data = [(gitAuthUsernameKey, map_get data gitAuthUsernameKey), (gitAuthPasswordKey, map_get data gitAuthPasswordKey)]\<rparr>"

section \<open>The build Job\<close>

definition shimInstall :: "OperatorConfig \<Rightarrow> Container" where
  "shimInstall cfg = empty_container\<lparr>c_Name := ''shim-install'', c_Image := img_Shim (cfg_Images cfg),
     c_Command := [''/shim'', ''install'', shimBinary],
     c_VolumeMounts := [mount volShim shimMountPath], c_SecurityContext := Some hardenedSecurityContext\<rparr>"

definition clone_container :: "OperatorConfig \<Rightarrow> App \<Rightarrow> Container" where
  "clone_container cfg app = empty_container\<lparr>c_Name := ''clone'', c_Image := img_Clone (cfg_Images cfg),
     c_Env := [env_lit ''REPO'' (spec_Repo (app_Spec app)), env_lit ''REF'' (spec_Ref (app_Spec app)),
               env_lit ''SRC_DIR'' workMountPath,
               env_lit ''CLONE_RETRIES'' (Itoa (cfg_CloneRetries cfg)),
               env_lit ''CLONE_RETRY_BASE_DELAY'' (Itoa (cfg_CloneRetryBaseDelay cfg))] @
              (if pl_Submodules (pipeline app) then [env_lit ''SUBMODULES'' ''1''] else []),
     c_VolumeMounts := commonMounts,
     c_SecurityContext := Some (resolvedSecurityContext (resolvePhase cfg app (bps_Phase (phs_Build (phases app)))))\<rparr>"

definition phase_container ::
  "(string \<Rightarrow> quantity option) \<Rightarrow> OperatorConfig \<Rightarrow> string \<Rightarrow> ResolvedPhase \<Rightarrow> string list \<Rightarrow> kEnvVar list \<Rightarrow> VolumeMount list \<Rightarrow> string \<Rightarrow> Container" where
  \<comment> \<open>the fields the setup, fetch and build containers fill in the same way\<close>
  "phase_container parseQ cfg name rp cmd env ms memLimit = empty_container\<lparr>c_Name := name, c_Image := rp_Image rp,
     c_Command := shimWrap cmd, c_WorkingDir := workMountPath, c_Env := withHome rp env, c_VolumeMounts := ms,
     c_Resources := phaseResourceRequirements parseQ cfg name memLimit,
     c_SecurityContext := Some (resolvedSecurityContext rp)\<rparr>"

definition shimMount :: VolumeMount where "shimMount = mount_ro volShim shimMountPath"

definition setup_container :: "(string \<Rightarrow> quantity option) \<Rightarrow> OperatorConfig \<Rightarrow> App \<Rightarrow> Container" where
  "setup_container parseQ cfg app =
     (let setupSpec = fst (effectiveSetup app cfg)
      in phase_container parseQ cfg ''setup'' (resolvePhase cfg app setupSpec) (commandOrNoop (ps_Command setupSpec))
           (pkgManagerEnv app @ toEnvVars (ps_Env setupSpec) @ envMapVars (ps_EnvMap setupSpec))
           (commonMounts @ [mount volCache cacheMountPath, shimMount]) (ps_MemoryLimit setupSpec))"

definition fetch_container :: "(string \<Rightarrow> quantity option) \<Rightarrow> OperatorConfig \<Rightarrow> App \<Rightarrow> Container" where
  "fetch_container parseQ cfg app =
     (let fetch = phs_Fetch (phases app); p = fps_Phase fetch
      in phase_container parseQ cfg ''fetch'' (resolvePhase cfg app p) (commandOrNoop (ps_Command p))
           (toEnvVars (ps_Env p) @ envMapVars (ps_EnvMap p) @ toSecretEnvVars (fps_Secrets fetch))
           (commonMounts @ [mount volData dataMountPath, shimMount]) (ps_MemoryLimit p))"

definition build_container :: "(string \<Rightarrow> quantity option) \<Rightarrow> OperatorConfig \<Rightarrow> App \<Rightarrow> Container" where
  "build_container parseQ cfg app =
     (let p = bps_Phase (phs_Build (phases app))
      in phase_container parseQ cfg ''build'' (resolvePhase cfg app p) (ps_Command p)
           (pkgManagerEnv app @ toEnvVars (ps_Env p) @ envMapVars (ps_EnvMap p))
           (commonMounts @ [mount volCache cacheMountPath, mount volData dataMountPath, shimMount]) (ps_MemoryLimit p))"

definition copier_container :: "OperatorConfig \<Rightarrow> App \<Rightarrow> string \<Rightarrow> Container" where
  "copier_container cfg app token =
     (let od = bps_OutputDir (phs_Build (phases app))
      in empty_container\<lparr>c_Name := ''copier'', c_Image := img_Copier (cfg_Images cfg),
           c_Env := [env_lit ''BUILD_TOKEN'' token, env_lit ''WORKSPACE'' workMountPath,
                     env_lit ''OUTPUT_ROOT'' outputMountPath, env_lit ''OUTPUT_DIR'' (if od = '''' then ''dist'' else od),
                     env_lit ''KEEP_RELEASES'' (Itoa (spec_KeepReleases (app_Spec app)))],
           c_VolumeMounts := commonMounts @ [mount volOutput outputMountPath, mount_ro volData dataMountPath],
           c_TerminationMessagePolicy := ''FallbackToLogsOnError'',
           c_SecurityContext := Some hardenedSecurityContext\<rparr>)"

definition pull_secrets :: "OperatorConfig \<Rightarrow> string list" where
  "pull_secrets cfg = (if cfg_ImagePullSecret cfg \<noteq> '''' then [cfg_ImagePullSecret cfg] else [])"

definition build_pod_spec :: "(string \<Rightarrow> quantity option) \<Rightarrow> OperatorConfig \<Rightarrow> App \<Rightarrow> string \<Rightarrow> gitCredentialDecision \<Rightarrow> PodSpec" where
  "build_pod_spec parseQ cfg app token gitCred =
     (let podSpec = \<lparr>
            pod_RestartPolicy = ''Never'', pod_AutomountServiceAccountToken = Some False, pod_ServiceAccountName = '''',
            pod_RunAsNonRoot = Some True, pod_SeccompProfile = Some RuntimeDefault,
            pod_InitContainers = [shimInstall cfg, clone_container cfg app] @
              (if snd (effectiveSetup app cfg) then [setup_container parseQ cfg app] else []) @
              [fetch_container parseQ cfg app, build_container parseQ cfg app],
            pod_Containers = [copier_container cfg app token],
            pod_Volumes = fst (buildVolumesAndMounts app) @
              [volume volShim (EmptyDir (Some (16 * 1024 * 1024))),
               volume volOutput (PersistentVolumeClaim (outputPVCName app) False)],
            pod_ImagePullSecrets = pull_secrets cfg, pod_NodeName = ''''\<rparr>
      in if mounts gitCred then addGitCredential podSpec ''clone'' (gcd_secretName gitCred) (repo_host app) else podSpec)"

definition BuildJob :: "(string \<Rightarrow> quantity option) \<Rightarrow> OperatorConfig \<Rightarrow> App \<Rightarrow> string \<Rightarrow> gitCredentialDecision \<Rightarrow> Job" where
  "BuildJob parseQ cfg app token gitCred = \<lparr>
     j_Meta = (new_meta (buildJobName app token) (app_Namespace app) (buildLabelsFor app))
       \<lparr>om_Annotations := [(RebuildAnnotation, token), (SpecHashAnnotation, Hash (buildSpecFrom app))]\<rparr>,
     j_BackoffLimit = Some 0,
     j_ActiveDeadlineSeconds = Some (buildDeadlineSeconds cfg app),
     j_TTLSecondsAfterFinished = None,
     j_TemplateLabels = buildLabelsFor app,
     j_PodSpec = build_pod_spec parseQ cfg app token gitCred,
     j_Conditions = []\<rparr>"

definition sample_phase :: "string list \<Rightarrow> PhaseSpec" where
  "sample_phase cmd = \<lparr>ps_Image = '''', ps_Command = cmd, ps_Env = [], ps_EnvMap = [], ps_RunAsUser = None, ps_MemoryLimit = ''''\<rparr>"

definition sample_status :: AppStatus where
  "sample_status = \<lparr>st_ObservedGeneration = 0, st_Phase = '''', st_NodeName = '''', st_URL = '''', st_SpecStale = False,
     st_Conditions = [], st_Build = (sample_build '''' '''')\<lparr>build_Phase := ''''\<rparr>, st_ConsecutiveScheduledFailures = 0,
     st_BuildHistory = [], st_FailedBuildHistory = [], st_LastProcessedRebuild = '''', st_LastBuiltSpecHash = '''',
     st_LastBuildTime = None, st_LastSuccessfulBuildTime = None,
     st_Release = \<lparr>rel_Current = '''', rel_Previous = '''', rel_ServingSince = None\<rparr>,
     st_Storage = \<lparr>stor_MeasuredAt = None, stor_Sizes = [], stor_LastRunDeltas = [], stor_ThresholdState = '''',
       stor_ReleaseCount = 0, stor_Capacities = []\<rparr>,
     st_LastManualTrigger = \<lparr>mt_TriggeredBy = '''', mt_Time = None\<rparr>, st_Cleanup = None\<rparr>"

definition sample_app :: App where
  \<comment> \<open>an app for examples: one repository on github.com, a node version, a build command, a secret\<close>
  "sample_app = \<lparr>app_Name = ''site'', app_Namespace = ''ns'', app_UID = ''uid'', app_Generation = 1,
     app_Annotations = [(RebuildAnnotation, ''1'')], app_Finalizers = [FinalizerName], app_DeletionTimestamp = None,
     app_Spec = \<lparr>spec_Repo = ''https://github.com/r.git'', spec_Ref = ''main'', spec_Group = '''',
       spec_ScheduledBuilds = None, spec_WatchCommits = None,
       spec_Pipeline = \<lparr>pl_NodeVersion = 20, pl_PackageManager = ''pnpm'', pl_Submodules = False, pl_Timeout = None,
         pl_Phases = \<lparr>phs_Setup = \<lparr>sps_Phase = sample_phase [], sps_Skip = False\<rparr>,
           phs_Fetch = \<lparr>fps_Phase = sample_phase [''fetch''], fps_Secrets =
             [\<lparr>evs_Name = ''TOKEN'', evs_ValueFrom = \<lparr>evss_SecretKeyRef = \<lparr>sks_Name = ''s'', sks_Key = ''k''\<rparr>\<rparr>\<rparr>]\<rparr>,
           phs_Build = \<lparr>bps_Phase = sample_phase [''build''], bps_OutputDir = ''dist''\<rparr>\<rparr>\<rparr>,
       spec_KeepReleases = 0, spec_RepoAuth = None,
       spec_Ingress = \<lparr>ing_ClassName = None, ing_Host = ''h'', ing_TLS = None, ing_Annotations = []\<rparr>,
       spec_Auth = None,
       spec_Storage = \<lparr>sts_Cache = \<lparr>ct_CleanupBytes = 0, ct_AlertBytes = 0\<rparr>,
         sts_DataCache = \<lparr>dct_CleanupBytes = 0, dct_AlertBytes = 0, dct_RunDeltaBytes = 0\<rparr>,
         sts_Output = \<lparr>ot_AlertBytes = 0, ot_CapBytes = 0\<rparr>\<rparr>,
       spec_History = None\<rparr>,
     app_Status = sample_status\<rparr>"

section \<open>Confinement\<close>

definition all_containers :: "PodSpec \<Rightarrow> Container list" where
  "all_containers p = pod_InitContainers p @ pod_Containers p"

definition reads_secret :: "Container \<Rightarrow> bool" where
  "reads_secret c \<longleftrightarrow> list_ex (\<lambda>e. case ke_ValueFrom e of Some (SecretKeyRef _ _) \<Rightarrow> True | _ \<Rightarrow> False) (c_Env c)"

definition mounts_volume :: "string \<Rightarrow> Container \<Rightarrow> bool" where
  "mounts_volume v c \<longleftrightarrow> list_ex (\<lambda>m. vm_Name m = v) (c_VolumeMounts c)"

definition hardened :: "Container \<Rightarrow> bool" where
  "hardened c \<longleftrightarrow> (case c_SecurityContext c of None \<Rightarrow> False
     | Some s \<Rightarrow> sc_RunAsNonRoot s = Some True \<and> sc_ReadOnlyRootFilesystem s = Some True \<and>
         sc_AllowPrivilegeEscalation s = Some False \<and> sc_CapDrop s = [''ALL''] \<and> sc_CapAdd s = [])"

lemmas container_defs = shimInstall_def clone_container_def setup_container_def fetch_container_def
  build_container_def copier_container_def phase_container_def empty_container_def Let_def

lemma env_lit_no_secret: "ke_ValueFrom (env_lit n v) = None"
  by (simp add: env_lit_def)

lemma toEnvVars_no_secret:
  "e \<in> set (toEnvVars xs) \<Longrightarrow> (case ke_ValueFrom e of Some (SecretKeyRef _ _) \<Rightarrow> True | _ \<Rightarrow> False) = False"
  by (auto simp: toEnvVars_def toEnvVar_def split: option.splits)

lemma public_env_no_secret:
  "list_ex (\<lambda>e. case ke_ValueFrom e of Some (SecretKeyRef _ _) \<Rightarrow> True | _ \<Rightarrow> False)
     (withHome rp (pkgManagerEnv app @ toEnvVars xs @ envMapVars m)) = False"
  using toEnvVars_no_secret
  by (auto simp: list_ex_iff withHome_def pkgManagerEnv_def envMapVars_def env_lit_no_secret split: if_splits)

lemma hardened_contexts [simp]:
  "hardened (c\<lparr>c_SecurityContext := Some hardenedSecurityContext\<rparr>)"
  "hardened (c\<lparr>c_SecurityContext := Some (resolvedSecurityContext rp)\<rparr>)"
  by (auto simp: hardened_def hardenedSecurityContext_def resolvedSecurityContext_def split: option.split)

lemma with_credential_frame [simp]:
  "c_Name (with_credential n h c) = c_Name c"
  "hardened (with_credential n h c) = hardened c"
  "c_Resources (with_credential n h c) = c_Resources c"
  "v \<noteq> volGitCred \<Longrightarrow> mounts_volume v (with_credential n h c) = mounts_volume v c"
  "reads_secret (with_credential n h c) = reads_secret c"
  by (simp_all add: with_credential_def hardened_def mounts_volume_def reads_secret_def mount_ro_def env_lit_def)

lemma base_containers:
  "all_containers (build_pod_spec parseQ cfg app token no_credential) =
     [shimInstall cfg, clone_container cfg app] @
     (if snd (effectiveSetup app cfg) then [setup_container parseQ cfg app] else []) @
     [fetch_container parseQ cfg app, build_container parseQ cfg app, copier_container cfg app token]"
  by (simp add: all_containers_def build_pod_spec_def mounts_def no_credential_def)

lemma credential_containers:
  "all_containers (build_pod_spec parseQ cfg app token gitCred) =
     map (if mounts gitCred \<and> repo_host app \<noteq> '''' then with_credential ''clone'' (repo_host app) else id)
       (all_containers (build_pod_spec parseQ cfg app token no_credential))"
  unfolding base_containers
  by (simp add: all_containers_def build_pod_spec_def addGitCredential_def Let_def)

lemma base_container_cases:
  assumes "c \<in> set (all_containers (build_pod_spec parseQ cfg app token no_credential))"
  obtains "c = shimInstall cfg" | "c = clone_container cfg app" | "c = setup_container parseQ cfg app"
    | "c = fetch_container parseQ cfg app" | "c = build_container parseQ cfg app" | "c = copier_container cfg app token"
  using assms unfolding base_containers by (auto split: if_splits)

lemma base_names:
  "c_Name (shimInstall cfg) = ''shim-install''" "c_Name (clone_container cfg app) = ''clone''"
  "c_Name (setup_container parseQ cfg app) = ''setup''" "c_Name (fetch_container parseQ cfg app) = ''fetch''"
  "c_Name (build_container parseQ cfg app) = ''build''" "c_Name (copier_container cfg app token) = ''copier''"
  by (simp_all add: container_defs)

lemma base_mounts:
  "mounts_volume volGitCred (shimInstall cfg) = False" "mounts_volume volGitCred (clone_container cfg app) = False"
  "mounts_volume volGitCred (setup_container parseQ cfg app) = False" "mounts_volume volGitCred (fetch_container parseQ cfg app) = False"
  "mounts_volume volGitCred (build_container parseQ cfg app) = False" "mounts_volume volGitCred (copier_container cfg app token) = False"
  "mounts_volume volOutput (shimInstall cfg) = False" "mounts_volume volOutput (clone_container cfg app) = False"
  "mounts_volume volOutput (setup_container parseQ cfg app) = False" "mounts_volume volOutput (fetch_container parseQ cfg app) = False"
  "mounts_volume volOutput (build_container parseQ cfg app) = False" "mounts_volume volOutput (copier_container cfg app token)"
  by (simp_all add: container_defs mounts_volume_def commonMounts_def mount_def mount_ro_def shimMount_def)

lemma base_secrets:
  "reads_secret (shimInstall cfg) = False" "reads_secret (clone_container cfg app) = False"
  "reads_secret (setup_container parseQ cfg app) = False" "reads_secret (build_container parseQ cfg app) = False"
  "reads_secret (copier_container cfg app token) = False"
  using public_env_no_secret
  by (auto simp: container_defs reads_secret_def env_lit_no_secret)

lemma base_hardened:
  "hardened (shimInstall cfg)" "hardened (clone_container cfg app)" "hardened (setup_container parseQ cfg app)"
  "hardened (fetch_container parseQ cfg app)" "hardened (build_container parseQ cfg app)" "hardened (copier_container cfg app token)"
  by (auto simp: container_defs hardened_def hardenedSecurityContext_def resolvedSecurityContext_def split: option.split)

section \<open>Properties\<close>

text \<open>C22. Confinement of the build pod, for every app, token and credential decision: secret-backed
  env appears in the fetch container only, the output volume is mounted by the copier only, the
  git credential by the clone container only, and every container runs with the hardened context
  (non-root, read-only root, no escalation, all capabilities dropped, none added).\<close>

theorem build_pod_confinement:
  assumes "c \<in> set (all_containers (j_PodSpec (BuildJob parseQ cfg app token gitCred)))"
  shows "(reads_secret c \<longrightarrow> c_Name c = ''fetch'') \<and>
    (mounts_volume volOutput c \<longleftrightarrow> c_Name c = ''copier'') \<and>
    (mounts_volume volGitCred c \<longrightarrow> c_Name c = ''clone'') \<and> hardened c"
proof -
  from assms obtain b where b: "b \<in> set (all_containers (build_pod_spec parseQ cfg app token no_credential))"
    and c: "c = (if mounts gitCred \<and> repo_host app \<noteq> '''' then with_credential ''clone'' (repo_host app) else id) b"
    unfolding BuildJob_def using credential_containers [of parseQ cfg app token gitCred] by auto
  have cred: "mounts_volume volGitCred (with_credential ''clone'' h b) \<Longrightarrow>
      c_Name b = ''clone'' \<or> mounts_volume volGitCred b" for h
    by (auto simp: with_credential_def mounts_volume_def split: if_splits)
  from b show ?thesis
    by (cases rule: base_container_cases)
      (use c cred in \<open>auto simp: base_names base_mounts base_secrets base_hardened split: if_splits\<close>)
qed

lemma BuildJob_anonymous_containers:
  "all_containers (j_PodSpec (BuildJob parseQ cfg app token no_credential)) =
     all_containers (build_pod_spec parseQ cfg app token no_credential)"
  by (simp add: BuildJob_def)

theorem build_pod_confinement_witness:
  "hardened (fetch_container Some sample_config sample_app) \<and>
   \<not> mounts_volume volOutput (fetch_container Some sample_config sample_app) \<and>
   reads_secret (fetch_container Some sample_config sample_app)"
proof -
  have "fetch_container Some sample_config sample_app \<in>
      set (all_containers (j_PodSpec (BuildJob Some sample_config sample_app ''t'' no_credential)))"
    by (simp add: BuildJob_anonymous_containers base_containers)
  from build_pod_confinement [OF this] show ?thesis
    by (simp add: base_names) (simp add: container_defs reads_secret_def withHome_def sample_app_def toSecretEnvVars_def)
qed

definition scoped :: "GitAuth \<Rightarrow> App \<Rightarrow> PodSpec \<Rightarrow> bool" where
  \<comment> \<open>a container that mounts the git credential is told the host of the App's repository, and that host may have it\<close>
  "scoped ga app pod \<longleftrightarrow> (\<forall>c\<in>set (all_containers pod). mounts_volume volGitCred c \<longrightarrow>
     (\<exists>host. RepoHost (spec_Repo (app_Spec app)) = Inr host \<and> env_lit gitCredHostEnv host \<in> set (c_Env c) \<and>
        (spec_RepoAuth (app_Spec app) \<noteq> None \<or> ToLower host \<in> allowed_hosts (ga_Hosts ga))))"

lemma scoped_anonymous: "(\<And>c. c \<in> set (all_containers pod) \<Longrightarrow> \<not> mounts_volume volGitCred c) \<Longrightarrow> scoped ga app pod"
  by (simp add: scoped_def)

lemma decided_host:
  assumes "mounts d" "d \<in> {decideGitCredential app ga, no_credential}" "RepoHost (spec_Repo (app_Spec app)) = Inr host"
  shows "spec_RepoAuth (app_Spec app) \<noteq> None \<or> ToLower host \<in> allowed_hosts (ga_Hosts ga)"
  using assms
  by (auto simp: decideGitCredential_def mounts_def no_credential_def RepoHostAllowed_def allowed_hosts_def
      EqualFold_def list_ex_iff split: option.splits if_splits)

lemma scoped_addGitCredential:
  assumes anon: "\<And>c. c \<in> set (all_containers pod) \<Longrightarrow> \<not> mounts_volume volGitCred c"
    and d: "d \<in> {decideGitCredential app ga, no_credential}"
  shows "scoped ga app (if mounts d then addGitCredential pod n (gcd_secretName d) (repo_host app) else pod)"
proof (cases "mounts d \<and> repo_host app \<noteq> ''''")
  case True
  then obtain host where host: "RepoHost (spec_Repo (app_Spec app)) = Inr host" "repo_host app = host"
    by (auto simp: repo_host_def split: sum.splits)
  have "all_containers (addGitCredential pod n (gcd_secretName d) host) = map (with_credential n host) (all_containers pod)"
    using True host by (simp add: addGitCredential_def all_containers_def)
  moreover have "env_lit gitCredHostEnv host \<in> set (c_Env (with_credential n host b))"
    if "\<not> mounts_volume volGitCred b" "mounts_volume volGitCred (with_credential n host b)" for b
    using that by (auto simp: with_credential_def split: if_splits)
  ultimately show ?thesis
    using True host anon decided_host [OF _ d host(1)] by (auto simp: scoped_def)
next
  case False
  then have "(if mounts d then addGitCredential pod n (gcd_secretName d) (repo_host app) else pod) = pod"
    by (auto simp: addGitCredential_def)
  with anon show ?thesis by (simp add: scoped_anonymous)
qed

lemma BuildJob_scoped:
  assumes "d \<in> {decideGitCredential app ga, no_credential}"
  shows "scoped ga app (j_PodSpec (BuildJob parseQ cfg app token d))"
proof -
  have "build_pod_spec parseQ cfg app token d = (if mounts d then addGitCredential (build_pod_spec parseQ cfg app token no_credential)
      ''clone'' (gcd_secretName d) (repo_host app) else build_pod_spec parseQ cfg app token no_credential)"
    by (simp add: build_pod_spec_def mounts_def no_credential_def)
  moreover have "\<not> mounts_volume volGitCred c" if "c \<in> set (all_containers (build_pod_spec parseQ cfg app token no_credential))" for c
    using that by (cases rule: base_container_cases) (simp_all add: base_mounts)
  ultimately show ?thesis using scoped_addGitCredential [OF _ assms] by (simp add: BuildJob_def)
qed

text \<open>Credential forwarding is host-scoped and fail-closed: if any container of the build pod
  mounts the git credential, then the repository host is known, the container is told that host,
  and either the app brought its own Secret or the host is on the operator's allowlist.\<close>

theorem credential_only_to_allowed_host:
  assumes "gitCred = decideGitCredential app ga"
    and "c \<in> set (all_containers (j_PodSpec (BuildJob parseQ cfg app token gitCred)))"
    and "mounts_volume volGitCred c"
  shows "\<exists>host. RepoHost (spec_Repo (app_Spec app)) = Inr host \<and>
    env_lit gitCredHostEnv host \<in> set (c_Env c) \<and>
    (spec_RepoAuth (app_Spec app) \<noteq> None \<or> ToLower host \<in> allowed_hosts (ga_Hosts ga))"
  using BuildJob_scoped [of gitCred app ga parseQ cfg token] assms by (simp add: scoped_def)

theorem credential_only_to_allowed_host_witness:
  "ToLower ''github.com'' \<in> allowed_hosts [''github.com'']"
proof -
  let ?ga = "\<lparr>ga_SecretName = ''cred'', ga_Hosts = [''github.com'']\<rparr>"
  have "plain ''github.com''" "plain ''r.git''" by code_simp+
  moreover have "ToLower ''github.com'' = ''github.com''" "TrimSpace ''github.com'' = ''github.com''" by code_simp+
  ultimately have host: "RepoHost (spec_Repo (app_Spec sample_app)) = Inr ''github.com''"
    using RepoHost_https [of "''github.com''" "''r.git''"] by (simp add: sample_app_def)
  with \<open>TrimSpace _ = _\<close> have d: "mounts (decideGitCredential sample_app ?ga)" "repo_host sample_app = ''github.com''"
    by (simp_all add: decideGitCredential_def mounts_def RepoHostAllowed_def EqualFold_def GitAuth_Enabled_def
        gitCredentialSecretName_def repo_host_def sample_app_def)
  let ?c = "with_credential ''clone'' ''github.com'' (clone_container sample_config sample_app)"
  have "?c \<in> set (all_containers (j_PodSpec (BuildJob Some sample_config sample_app ''t'' (decideGitCredential sample_app ?ga))))"
    using credential_containers [of Some sample_config sample_app "''t''" "decideGitCredential sample_app ?ga"] d
    by (simp add: BuildJob_def base_containers)
  moreover have "mounts_volume volGitCred ?c"
    by (simp add: with_credential_def base_names mounts_volume_def mount_ro_def)
  ultimately obtain h where "RepoHost (spec_Repo (app_Spec sample_app)) = Inr h"
    "spec_RepoAuth (app_Spec sample_app) \<noteq> None \<or> ToLower h \<in> allowed_hosts (ga_Hosts ?ga)"
    using credential_only_to_allowed_host [OF refl] by blast
  with host show ?thesis by (simp add: sample_app_def)
qed

text \<open>No phase runs without a memory ceiling: whatever the app writes as memory limit, the
  setup, fetch and build containers carry a memory limit equal to their memory request, and it is
  the app's value only if that parses.\<close>

theorem phase_memory_ceiling:
  assumes "c \<in> set (all_containers (j_PodSpec (BuildJob parseQ cfg app token gitCred)))"
    and "c_Name c \<in> {''setup'', ''fetch'', ''build''}"
  shows "\<exists>q. map_of (rr_Limits (c_Resources c)) ''memory'' = Some q \<and>
    map_of (rr_Requests (c_Resources c)) ''memory'' = Some q \<and>
    (q = MemoryForPhase (cfg_PhaseResourceDefaults cfg) (c_Name c) \<or> (\<exists>user. parseQ user = Some q))"
proof -
  from assms(1) obtain b where b: "b \<in> set (all_containers (build_pod_spec parseQ cfg app token no_credential))"
    and c: "c = (if mounts gitCred \<and> repo_host app \<noteq> '''' then with_credential ''clone'' (repo_host app) else id) b"
    unfolding BuildJob_def using credential_containers [of parseQ cfg app token gitCred] by auto
  have same: "c_Resources c = c_Resources b" "c_Name c = c_Name b" using c by auto
  have req: "\<exists>q. map_of (rr_Limits (phaseResourceRequirements parseQ cfg n l)) ''memory'' = Some q \<and>
      map_of (rr_Requests (phaseResourceRequirements parseQ cfg n l)) ''memory'' = Some q \<and>
      (q = MemoryForPhase (cfg_PhaseResourceDefaults cfg) n \<or> (\<exists>user. parseQ user = Some q))" for n l
    by (auto simp: phaseResourceRequirements_def Let_def split: option.split)
  from b show ?thesis
    by (cases rule: base_container_cases)
      (use assms(2) same req in \<open>auto simp: base_names container_defs\<close>)
qed

theorem phase_memory_ceiling_witness:
  "\<exists>q. map_of (rr_Limits (c_Resources (build_container Some sample_config sample_app))) ''memory'' = Some q"
proof -
  have "build_container Some sample_config sample_app \<in>
      set (all_containers (j_PodSpec (BuildJob Some sample_config sample_app ''t'' no_credential)))"
    by (simp add: BuildJob_anonymous_containers base_containers)
  from phase_memory_ceiling [OF this] show ?thesis by (auto simp: base_names)
qed

end
