(* ===== verification/Metrics_Recorder.thy ===== *)
theory Metrics_Recorder
  imports Build_Pod
begin

text \<open>
  \<open>internal/controller/metrics.go\<close>: the per-app metric series and the bookkeeping that keeps them
  exact.

  The metric vectors belong to the Prometheus client library, so the recorder's effect is the list
  of operations it performs on them (\<open>metric_op\<close>), and what such operations do to the exported
  series is a parameter: the locale \<open>series_store\<close> names the documented behaviour the program
  relies on. A gauge value is the integer the code converts with \<open>float64\<close>. The mutex makes each
  method one atomic step.
\<close>

datatype metric = metricDegraded | metricPhase | metricBuildsTotal | metricBuildOOMTotal
  | metricBuildRunningSince | metricBuildDeadline | metricStorageUsed | metricStorageAlert
  | metricConsecutiveScheduledFailures | metricScheduledFailureThreshold

datatype metric_op =
    GaugeSet metric "string list" int
  | CounterAdd metric "string list" nat
  | DeleteLabelValues metric "string list"
  | DeletePartialMatch string string

record appMetricsState =
  ms_lastCountedJob :: string
  ms_lastDegradedReason :: string
  ms_frozenDeadline :: int

definition new_metrics_state :: appMetricsState where
  "new_metrics_state = \<lparr>ms_lastCountedJob = '''', ms_lastDegradedReason = '''', ms_frozenDeadline = 0\<rparr>"

type_synonym Recorder = "((string \<times> string) \<times> appMetricsState) list"

definition app_key :: "App \<Rightarrow> string \<times> string" where
  "app_key app = (app_Namespace app, app_Name app)"

definition seedCounters :: "string \<Rightarrow> string \<Rightarrow> metric_op list" where
  "seedCounters namespace name =
     concat (map (\<lambda>result. map (\<lambda>trigger. CounterAdd metricBuildsTotal [namespace, name, result, trigger] 0)
         [BuildTriggerScheduled, BuildTriggerManual, BuildTriggerCommit, BuildTriggerSpecChange])
       [BuildResultSucceeded, BuildResultFailed]) @
     map (\<lambda>step. CounterAdd metricBuildOOMTotal [namespace, name, step] 0)
       [StepClone, StepSetup, StepFetch, StepBuild, StepCopier]"

definition recorder_state :: "App \<Rightarrow> Recorder \<Rightarrow> appMetricsState \<times> metric_op list" where
  \<comment> \<open>\<open>m.state(app)\<close>: the entry, and the seeding when it is created\<close>
  "recorder_state app m =
     (case map_of m (app_key app) of
        Some s \<Rightarrow> (s, [])
      | None \<Rightarrow> (new_metrics_state, seedCounters (app_Namespace app) (app_Name app)))"

definition volumeOutputTotal :: string where "volumeOutputTotal = ''outputTotal''"

definition syncUsedSeries :: "App \<Rightarrow> string \<Rightarrow> int gomap \<Rightarrow> metric_op" where
  "syncUsedSeries app vname sizes =
     (case map_of sizes vname of
        Some sz \<Rightarrow> GaugeSet metricStorageUsed [app_Namespace app, app_Name app, vname] sz
      | None \<Rightarrow> DeleteLabelValues metricStorageUsed [app_Namespace app, app_Name app, vname])"

definition volume_ops :: "App \<Rightarrow> int gomap \<Rightarrow> string \<times> int \<Rightarrow> metric_op list" where
  "volume_ops app sizes vt =
     [syncUsedSeries app (fst vt) sizes,
      (if snd vt > 0 then GaugeSet metricStorageAlert [app_Namespace app, app_Name app, fst vt] (snd vt)
       else DeleteLabelValues metricStorageAlert [app_Namespace app, app_Name app, fst vt])]"

definition unix_seconds :: "time \<Rightarrow> int" where
  "unix_seconds t = t div Second"

definition degraded_view :: "App \<Rightarrow> string \<times> int" where
  "degraded_view app =
     (case findCondition app ConditionDegraded of
        Some c \<Rightarrow> if cond_Status c = ConditionTrue then (cond_Reason c, 1) else ('''', 0)
      | None \<Rightarrow> ('''', 0))"

definition build_running :: "App \<Rightarrow> bool" where
  "build_running app \<longleftrightarrow> build_Phase (st_Build (app_Status app)) = BuildPhasePending \<or>
     build_Phase (st_Build (app_Status app)) = BuildPhaseRunning"

definition exported_phase :: "App \<Rightarrow> string" where
  "exported_phase app = (if st_Phase (app_Status app) = '''' then PhaseAwaitingFirstBuild else st_Phase (app_Status app))"

definition RecordApp :: "App \<Rightarrow> int \<Rightarrow> int gomap \<Rightarrow> int \<Rightarrow> Recorder \<Rightarrow> Recorder \<times> metric_op list" where
  "RecordApp app deadlineSeconds alertThresholds scheduledThreshold m =
     (let ns = app_Namespace app; nm = app_Name app;
          (s, seed) = recorder_state app m;
          phase = exported_phase app;
          (reason, degraded) = degraded_view app;
          running = build_running app;
          since = (if running then (case build_StartTime (st_Build (app_Status app)) of Some t \<Rightarrow> unix_seconds t | None \<Rightarrow> 0) else 0);
          frozen = (if running then (if ms_frozenDeadline s = 0 then deadlineSeconds else ms_frozenDeadline s) else 0);
          deadline = (if running then frozen else deadlineSeconds);
          s' = s\<lparr>ms_lastDegradedReason := reason, ms_frozenDeadline := frozen\<rparr>;
          sizes = stor_Sizes (st_Storage (app_Status app))
      in (AList.update (app_key app) s' m,
          seed @
          [GaugeSet metricConsecutiveScheduledFailures [ns, nm] (st_ConsecutiveScheduledFailures (app_Status app)),
           GaugeSet metricScheduledFailureThreshold [ns, nm] scheduledThreshold] @
          map (\<lambda>p. GaugeSet metricPhase [ns, nm, p] (if phase = p then 1 else 0)) AllPhases @
          (if reason \<noteq> ms_lastDegradedReason s
           then [DeleteLabelValues metricDegraded [ns, nm, ms_lastDegradedReason s]] else []) @
          [GaugeSet metricDegraded [ns, nm, reason] degraded,
           GaugeSet metricBuildRunningSince [ns, nm] since,
           GaugeSet metricBuildDeadline [ns, nm] deadline] @
          concat (map (volume_ops app sizes) alertThresholds) @
          [syncUsedSeries app volumeOutputTotal sizes]))"

definition ForgetApp :: "string \<Rightarrow> string \<Rightarrow> Recorder \<Rightarrow> Recorder \<times> metric_op list" where
  "ForgetApp namespace name m =
     (AList.delete (namespace, name) m,
      (if map_of m (namespace, name) = None then [] else [DeletePartialMatch namespace name]))"

definition RecordTerminalBuild :: "App \<Rightarrow> Recorder \<Rightarrow> Recorder \<times> metric_op list" where
  "RecordTerminalBuild app m =
     (let b = st_Build (app_Status app); ns = app_Namespace app; nm = app_Name app
      in if build_Result b \<noteq> BuildResultSucceeded \<and> build_Result b \<noteq> BuildResultFailed then (m, [])
         else
           let (s, seed) = recorder_state app m
           in if build_JobName b = '''' \<or> build_JobName b = ms_lastCountedJob s
              then (AList.update (app_key app) s m, seed)
              else
                let trigger = (if build_Trigger b = '''' then BuildTriggerScheduled else build_Trigger b)
                in (AList.update (app_key app) (s\<lparr>ms_lastCountedJob := build_JobName b\<rparr>) m,
                    seed @ [CounterAdd metricBuildsTotal [ns, nm, build_Result b, trigger] 1] @
                    (case build_Termination b of
                       Some term \<Rightarrow> if term_Reason term = TerminationReasonOOMKilled
                         then [CounterAdd metricBuildOOMTotal [ns, nm, term_Container term] 1] else []
                     | None \<Rightarrow> [])))"

section \<open>The library's series\<close>

locale series_store =
  fixes run :: "'r \<Rightarrow> metric_op \<Rightarrow> 'r" and series :: "'r \<Rightarrow> metric \<Rightarrow> string list \<Rightarrow> int option"
  assumes gauge_set: "series (run r (GaugeSet mt ls v)) mt' ls' = (if mt' = mt \<and> ls' = ls then Some v else series r mt' ls')"
    and delete_labels: "series (run r (DeleteLabelValues mt ls)) mt' ls' = (if mt' = mt \<and> ls' = ls then None else series r mt' ls')"
    and counter_add: "series (run r (CounterAdd mt ls n)) mt' ls' =
      (if mt' = mt \<and> ls' = ls then Some ((case series r mt ls of None \<Rightarrow> 0 | Some k \<Rightarrow> k) + int n) else series r mt' ls')"
    and delete_partial: "series (run r (DeletePartialMatch ns nm)) mt' ls' =
      (if take 2 ls' = [ns, nm] then None else series r mt' ls')"
begin

definition runs :: "'r \<Rightarrow> metric_op list \<Rightarrow> 'r" where
  "runs r ops = fold (\<lambda>op r. run r op) ops r"

lemma runs_simps [simp]:
  "runs r [] = r" "runs r (op # ops) = runs (run r op) ops" "runs r (xs @ ys) = runs (runs r xs) ys"
  by (simp_all add: runs_def)

definition op_metric :: "metric_op \<Rightarrow> metric option" where
  "op_metric op = (case op of GaugeSet mt _ _ \<Rightarrow> Some mt | CounterAdd mt _ _ \<Rightarrow> Some mt
     | DeleteLabelValues mt _ \<Rightarrow> Some mt | DeletePartialMatch _ _ \<Rightarrow> None)"

lemma untouched:
  "\<forall>op\<in>set ops. op_metric op \<noteq> None \<and> op_metric op \<noteq> Some mt \<Longrightarrow> series (runs r ops) mt ls = series r mt ls"
proof (induction ops arbitrary: r)
  case (Cons op ops)
  have "series (run r op) mt ls = series r mt ls"
    using Cons.prems by (cases op) (auto simp: op_metric_def gauge_set delete_labels counter_add)
  with Cons show ?case by simp
qed simp

lemma seed_untouched:
  "mt \<notin> {metricBuildsTotal, metricBuildOOMTotal} \<Longrightarrow> series (runs r (snd (recorder_state app m))) mt ls = series r mt ls"
  by (rule untouched) (auto simp: recorder_state_def seedCounters_def op_metric_def split: option.split)

lemma volumes_untouched:
  "mt \<notin> {metricStorageUsed, metricStorageAlert} \<Longrightarrow>
     series (runs r (concat (map (volume_ops app sizes) ts) @ [syncUsedSeries app v sizes])) mt ls = series r mt ls"
  by (rule untouched) (auto simp: volume_ops_def syncUsedSeries_def op_metric_def split: option.split)

lemma RecordApp_phase:
  "series (runs r (snd (RecordApp app d ts th m))) metricPhase [app_Namespace app, app_Name app, p] =
     (if p \<in> set AllPhases then Some (if exported_phase app = p then 1 else 0)
      else series r metricPhase [app_Namespace app, app_Name app, p])"
  using seed_untouched [of metricPhase r app m] volumes_untouched [of metricPhase]
  by (auto simp: RecordApp_def Let_def case_prod_beta AllPhases_def gauge_set delete_labels)

definition degraded_exact :: "'r \<Rightarrow> Recorder \<Rightarrow> bool" where
  \<comment> \<open>an app's only degraded series is the one whose reason the bookkeeping remembers\<close>
  "degraded_exact r m \<longleftrightarrow> (\<forall>ns nm reason. series r metricDegraded [ns, nm, reason] \<noteq> None \<longrightarrow>
     (\<exists>s. map_of m (ns, nm) = Some s \<and> ms_lastDegradedReason s = reason))"

lemma RecordApp_degraded:
  "series (runs r (snd (RecordApp app d ts th m))) metricDegraded ls =
     (if ls = [app_Namespace app, app_Name app, fst (degraded_view app)] then Some (snd (degraded_view app))
      else if fst (degraded_view app) \<noteq> ms_lastDegradedReason (fst (recorder_state app m)) \<and>
              ls = [app_Namespace app, app_Name app, ms_lastDegradedReason (fst (recorder_state app m))] then None
      else series r metricDegraded ls)"
  using seed_untouched [of metricDegraded r app m] volumes_untouched [of metricDegraded]
  by (simp add: RecordApp_def Let_def case_prod_beta AllPhases_def gauge_set delete_labels)

lemma RecordApp_state:
  "map_of (fst (RecordApp app d ts th m)) =
     (map_of m)(app_key app \<mapsto> (fst (recorder_state app m))\<lparr>ms_lastDegradedReason := fst (degraded_view app),
        ms_frozenDeadline := (if build_running app
          then if ms_frozenDeadline (fst (recorder_state app m)) = 0 then d else ms_frozenDeadline (fst (recorder_state app m)) else 0)\<rparr>)"
  by (simp add: RecordApp_def Let_def case_prod_beta)

lemma degraded_exact_RecordApp:
  assumes "degraded_exact r m"
  shows "degraded_exact (runs r (snd (RecordApp app d ts th m))) (fst (RecordApp app d ts th m))"
  unfolding degraded_exact_def
proof (intro allI impI)
  fix ns nm reason
  assume ne: "series (runs r (snd (RecordApp app d ts th m))) metricDegraded [ns, nm, reason] \<noteq> None"
  show "\<exists>s. map_of (fst (RecordApp app d ts th m)) (ns, nm) = Some s \<and> ms_lastDegradedReason s = reason"
  proof (cases "(ns, nm) = app_key app")
    case True
    show ?thesis
    proof (cases "reason = fst (degraded_view app)")
      case False
      with ne True have old: "series r metricDegraded [ns, nm, reason] \<noteq> None"
        and diff: "\<not> (fst (degraded_view app) \<noteq> ms_lastDegradedReason (fst (recorder_state app m)) \<and>
          reason = ms_lastDegradedReason (fst (recorder_state app m)))"
        by (auto simp: RecordApp_degraded app_key_def split: if_splits)
      from old assms obtain s where "map_of m (ns, nm) = Some s" "ms_lastDegradedReason s = reason"
        unfolding degraded_exact_def by blast
      with True diff False show ?thesis by (simp add: recorder_state_def)
    qed (simp add: RecordApp_state True)
  next
    case False
    with ne have "series r metricDegraded [ns, nm, reason] \<noteq> None"
      by (auto simp: RecordApp_degraded app_key_def split: if_splits)
    with assms False show ?thesis by (auto simp: degraded_exact_def RecordApp_state)
  qed
qed

lemma degraded_exact_ForgetApp:
  assumes "degraded_exact r m"
  shows "degraded_exact (runs r (snd (ForgetApp ns nm m))) (fst (ForgetApp ns nm m))"
  using assms unfolding degraded_exact_def ForgetApp_def
  by (fastforce simp: delete_partial split: if_splits)

lemma degraded_exact_RecordTerminalBuild:
  assumes "degraded_exact r m"
  shows "degraded_exact (runs r (snd (RecordTerminalBuild app m))) (fst (RecordTerminalBuild app m))"
proof -
  have same: "series (runs r (snd (RecordTerminalBuild app m))) metricDegraded ls = series r metricDegraded ls" for ls
    using seed_untouched [of metricDegraded r app m]
    by (auto simp: RecordTerminalBuild_def Let_def case_prod_beta counter_add split: option.split)
  have keep: "\<exists>s'. map_of (fst (RecordTerminalBuild app m)) k = Some s' \<and> ms_lastDegradedReason s' = ms_lastDegradedReason s"
    if "map_of m k = Some s" for k s
    using that by (auto simp: RecordTerminalBuild_def Let_def case_prod_beta recorder_state_def)
  show ?thesis
    using assms keep unfolding degraded_exact_def same by metis
qed

lemma RecordApp_deadline:
  "series (runs r (snd (RecordApp app d ts th m))) metricBuildDeadline [app_Namespace app, app_Name app] =
     Some (if build_running app \<and> ms_frozenDeadline (fst (recorder_state app m)) \<noteq> 0
           then ms_frozenDeadline (fst (recorder_state app m)) else d)"
  using volumes_untouched [of metricBuildDeadline]
  by (simp add: RecordApp_def Let_def case_prod_beta AllPhases_def gauge_set delete_labels)

end

section \<open>Every history of recorder calls\<close>

datatype recorder_call = CallRecord App int "int gomap" int | CallForget string string | CallTerminal App

fun recorder_step :: "recorder_call \<Rightarrow> Recorder \<Rightarrow> Recorder \<times> metric_op list" where
  "recorder_step (CallRecord app d ts th) m = RecordApp app d ts th m"
| "recorder_step (CallForget ns nm) m = ForgetApp ns nm m"
| "recorder_step (CallTerminal app) m = RecordTerminalBuild app m"

fun recorder_run :: "recorder_call list \<Rightarrow> Recorder \<Rightarrow> Recorder \<times> metric_op list" where
  "recorder_run [] m = (m, [])"
| "recorder_run (c # cs) m =
     (let (m1, ops1) = recorder_step c m; (m2, ops2) = recorder_run cs m1 in (m2, ops1 @ ops2))"

lemma recorder_run_Cons [simp]:
  "fst (recorder_run (c # cs) m) = fst (recorder_run cs (fst (recorder_step c m)))"
  "snd (recorder_run (c # cs) m) = snd (recorder_step c m) @ snd (recorder_run cs (fst (recorder_step c m)))"
  by (simp_all add: Let_def split: prod.split)

declare recorder_run.simps(2) [simp del]

context series_store
begin

lemma degraded_exact_run:
  "degraded_exact r m \<Longrightarrow> degraded_exact (runs r (snd (recorder_run cs m))) (fst (recorder_run cs m))"
proof (induction cs arbitrary: r m)
  case (Cons c cs)
  have "degraded_exact (runs r (snd (recorder_step c m))) (fst (recorder_step c m))"
    using Cons.prems
    by (cases c) (simp_all add: degraded_exact_RecordApp degraded_exact_ForgetApp degraded_exact_RecordTerminalBuild)
  from Cons.IH [OF this] show ?case by simp
qed simp

end

definition map_run :: "(metric \<times> string list \<Rightarrow> int option) \<Rightarrow> metric_op \<Rightarrow> (metric \<times> string list \<Rightarrow> int option)" where
  \<comment> \<open>the series as a finite map\<close>
  "map_run r op = (case op of
      GaugeSet mt ls v \<Rightarrow> r((mt, ls) := Some v)
    | CounterAdd mt ls n \<Rightarrow> r((mt, ls) := Some ((case r (mt, ls) of None \<Rightarrow> 0 | Some k \<Rightarrow> k) + int n))
    | DeleteLabelValues mt ls \<Rightarrow> r((mt, ls) := None)
    | DeletePartialMatch ns nm \<Rightarrow> (\<lambda>(mt, ls). if take 2 ls = [ns, nm] then None else r (mt, ls)))"

interpretation map_series: series_store map_run "\<lambda>r mt ls. r (mt, ls)"
  by unfold_locales (auto simp: map_run_def)

section \<open>Properties\<close>

text \<open>Phase series: after a record, all four phases of the app are exported, and exactly the one
  of its status is 1 (an app that was never refreshed counts as awaiting its first build).\<close>

lemma exactly_one_phase:
  assumes "series_store run series" "st_Phase (app_Status app) \<in> insert '''' (set AllPhases)"
  shows "\<exists>!p. p \<in> set AllPhases \<and>
      series (fold (\<lambda>op r. run r op) (snd (RecordApp app d ts th m)) r) metricPhase [app_Namespace app, app_Name app, p] = Some 1"
    (is "\<exists>!p. ?P p")
proof (rule ex1I [where a = "exported_phase app"])
  note ph = series_store.RecordApp_phase [OF assms(1), unfolded series_store.runs_def [OF assms(1)]]
  show "?P (exported_phase app)"
    using assms(2) by (auto simp: ph exported_phase_def AllPhases_def)
  show "p = exported_phase app" if "?P p" for p
    using that by (simp add: ph split: if_splits)
qed

text \<open>Degraded series: along every history of recorder calls from an empty registry, an app has
  a degraded series for at most one reason, so a changed or cleared reason never leaves a stale
  alerting series behind.\<close>

theorem one_degraded_series:
  assumes "series_store run series" "\<And>mt ls. series r mt ls = None"
    and "series (fold (\<lambda>op r. run r op) (snd (recorder_run calls [])) r) metricDegraded [ns, nm, reason1] \<noteq> None"
    and "series (fold (\<lambda>op r. run r op) (snd (recorder_run calls [])) r) metricDegraded [ns, nm, reason2] \<noteq> None"
  shows "reason1 = reason2"
proof -
  note runs = series_store.runs_def [OF assms(1)] and ex = series_store.degraded_exact_def [OF assms(1)]
  have "series_store.degraded_exact series r []" using assms(2) by (simp add: ex)
  from series_store.degraded_exact_run [OF assms(1) this, of calls] assms(3,4)
  show ?thesis unfolding runs ex by (metis option.inject)
qed

definition failed_app :: App where
  "failed_app = setCondition 0 sample_app ConditionDegraded ConditionTrue ReasonBuildFailed ''''"

theorem one_degraded_series_witness:
  "fold (\<lambda>op r. map_run r op) (snd (recorder_run [CallRecord failed_app 60 [] 3, CallRecord sample_app 60 [] 3] []))
     (\<lambda>_. None) (metricDegraded, [''ns'', ''site'', ''BuildFailed'']) = None"
proof (rule ccontr)
  let ?r = "fold (\<lambda>op r. map_run r op) (snd (recorder_run [CallRecord failed_app 60 [] 3, CallRecord sample_app 60 [] 3] [])) (\<lambda>_. None)"
  assume a: "?r (metricDegraded, [''ns'', ''site'', ''BuildFailed'']) \<noteq> None"
  have view: "degraded_view sample_app = ('''', 0)" "app_Namespace sample_app = ''ns''" "app_Name sample_app = ''site''"
    by (simp_all add: degraded_view_def findCondition_def sample_app_def sample_status_def)
  have "?r = map_series.runs (map_series.runs (\<lambda>_. None) (snd (RecordApp failed_app 60 [] 3 [])))
      (snd (RecordApp sample_app 60 [] 3 (fst (RecordApp failed_app 60 [] 3 []))))"
    by (simp add: map_series.runs_def)
  then have "?r (metricDegraded, [''ns'', ''site'', '''']) \<noteq> None"
    using map_series.RecordApp_degraded [of "map_series.runs (\<lambda>_. None) (snd (RecordApp failed_app 60 [] 3 []))" sample_app]
    by (simp add: view)
  from one_degraded_series [where r = "\<lambda>_. None", OF map_series.series_store_axioms _ a this] show False by simp
qed

text \<open>A terminal build is counted once: recording the same build again, however often, performs no
  counter operation after the first time, also when the app's status has changed otherwise.\<close>

theorem terminal_build_counted_once:
  assumes "RecordTerminalBuild app m = (m1, ops1)" "app_key app' = app_key app"
    and "build_JobName (st_Build (app_Status app')) = build_JobName (st_Build (app_Status app))"
    and "build_Result (st_Build (app_Status app)) \<in> {BuildResultSucceeded, BuildResultFailed}"
  shows "snd (RecordTerminalBuild app' m1) = []"
  using assms by (auto simp: RecordTerminalBuild_def Let_def case_prod_beta recorder_state_def split: if_splits)

theorem terminal_build_counted_once_witness:
  "snd (RecordTerminalBuild (upd_build (\<lambda>_. sample_build ''j'' ''Failed'') sample_app)
     (fst (RecordTerminalBuild (upd_build (\<lambda>_. sample_build ''j'' ''Failed'') sample_app) []))) = []"
  by (rule terminal_build_counted_once [OF surjective_pairing]) (simp_all add: sample_build_def)

text \<open>The exported build deadline is frozen for the whole of an in-flight build: whatever deadlines
  later records are given, as long as the build runs the series keeps the first value.\<close>

theorem deadline_frozen_while_running:
  assumes "series_store run series" "build_running app" "d \<noteq> 0" "ms_frozenDeadline (fst (recorder_state app m)) = 0"
    and "list_all (\<lambda>(a, d'). build_running a \<and> app_key a = app_key app) later" "later \<noteq> []"
  shows "series (fold (\<lambda>op r. run r op) (snd (recorder_run
      (CallRecord app d ts th # map (\<lambda>(a, d'). CallRecord a d' ts th) later) m)) r)
    metricBuildDeadline [app_Namespace app, app_Name app] = Some d"
proof -
  note runs = series_store.runs_def [OF assms(1), symmetric] and rs = series_store.runs_simps [OF assms(1)]
  have later: "series (series_store.runs run r1 (snd (recorder_run (map (\<lambda>(a, d'). CallRecord a d' ts th) l) m1)))
      metricBuildDeadline [app_Namespace app, app_Name app] = Some d"
    if "\<exists>s. map_of m1 (app_key app) = Some s \<and> ms_frozenDeadline s = d"
      "series r1 metricBuildDeadline [app_Namespace app, app_Name app] = Some d"
      "list_all (\<lambda>(a, d'). build_running a \<and> app_key a = app_key app) l" for l m1 r1
    using that
  proof (induction l arbitrary: m1 r1)
    case Nil
    then show ?case by (simp add: rs)
  next
    case (Cons ad l)
    obtain a d' where ad: "ad = (a, d')" by (cases ad)
    with Cons.prems(3) have a: "build_running a" "app_key a = app_key app" by simp_all
    then have names: "app_Namespace a = app_Namespace app" "app_Name a = app_Name app" by (simp_all add: app_key_def)
    let ?m = "fst (RecordApp a d' ts th m1)" and ?r = "series_store.runs run r1 (snd (RecordApp a d' ts th m1))"
    have "\<exists>s. map_of ?m (app_key app) = Some s \<and> ms_frozenDeadline s = d"
      using Cons.prems(1) a assms(3) by (auto simp: series_store.RecordApp_state [OF assms(1)] recorder_state_def)
    moreover have "series ?r metricBuildDeadline [app_Namespace app, app_Name app] = Some d"
      using series_store.RecordApp_deadline [OF assms(1), of r1 a d' ts th m1] Cons.prems(1) a assms(3)
      by (auto simp: names recorder_state_def)
    ultimately have "series (series_store.runs run ?r (snd (recorder_run (map (\<lambda>(a, d'). CallRecord a d' ts th) l) ?m)))
        metricBuildDeadline [app_Namespace app, app_Name app] = Some d"
      using Cons.prems(3) by (intro Cons.IH) simp_all
    then show ?case by (simp add: ad rs)
  qed
  let ?m = "fst (RecordApp app d ts th m)" and ?r = "series_store.runs run r (snd (RecordApp app d ts th m))"
  have "\<exists>s. map_of ?m (app_key app) = Some s \<and> ms_frozenDeadline s = d"
    using assms(2,4) by (simp add: series_store.RecordApp_state [OF assms(1)])
  moreover have "series ?r metricBuildDeadline [app_Namespace app, app_Name app] = Some d"
    using series_store.RecordApp_deadline [OF assms(1), of r app d ts th m] assms(2,4) by simp
  ultimately have "series (series_store.runs run ?r (snd (recorder_run (map (\<lambda>(a, d'). CallRecord a d' ts th) later) ?m)))
      metricBuildDeadline [app_Namespace app, app_Name app] = Some d"
    using later assms(5) by blast
  then show ?thesis by (simp add: runs rs)
qed

theorem deadline_frozen_while_running_witness:
  "fold (\<lambda>op r. map_run r op) (snd (recorder_run
      [CallRecord (upd_build (\<lambda>b. b\<lparr>build_Phase := ''Running''\<rparr>) sample_app) 60 [] 3,
       CallRecord (upd_build (\<lambda>b. b\<lparr>build_Phase := ''Running''\<rparr>) sample_app) 90 [] 3] [])) (\<lambda>_. None)
    (metricBuildDeadline, [''ns'', ''site'']) = Some 60"
proof -
  let ?a = "upd_build (\<lambda>b. b\<lparr>build_Phase := ''Running''\<rparr>) sample_app"
  have a: "build_running ?a" "app_Namespace ?a = ''ns''" "app_Name ?a = ''site''"
    by (simp_all add: build_running_def sample_app_def)
  have f: "ms_frozenDeadline (fst (recorder_state ?a [])) = 0" by (simp add: recorder_state_def new_metrics_state_def)
  have l: "list_all (\<lambda>(a, d'). build_running a \<and> app_key a = app_key ?a) [(?a, 90)]" using a(1) by simp
  from deadline_frozen_while_running [OF map_series.series_store_axioms a(1) _ f l, of 60 "[]" 3 "\<lambda>_. None"] a(2,3)
  show ?thesis by (simp del: recorder_run_Cons)
qed

end
