(* ===== verification/Children.thy ===== *)
theory Children
  imports Build_Pod
begin

text \<open>
  \<open>internal/controller/children.go\<close>, and \<open>authMiddleware\<close> of \<open>util.go\<close>: the desired child objects of an app.
\<close>

abbreviation GroupVersionGroup where "GroupVersionGroup \<equiv> ''baker.toggle-corp.com''"
abbreviation middlewaresAnnotation where "middlewaresAnnotation \<equiv> ''traefik.ingress.kubernetes.io/router.middlewares''"

definition meta_for :: "App \<Rightarrow> string \<Rightarrow> ObjectMeta" where
  "meta_for app name = new_meta name (app_Namespace app) (labelsFor app)"

definition pvc :: "App \<Rightarrow> string \<Rightarrow> string \<Rightarrow> PVC" where
  "pvc app name storageClass = \<lparr>pvc_Meta = meta_for app name, pvc_AccessModes = [''ReadWriteOnce''],
     pvc_StorageClassName = storageClass, pvc_Request = ''1Gi'', pvc_Capacity = None\<rparr>"

definition clockServiceAccount :: "App \<Rightarrow> object" where
  "clockServiceAccount app = OServiceAccount (meta_for app (clockSAName app))"

definition clockRole :: "App \<Rightarrow> object" where
  "clockRole app = ORole (meta_for app (clockRoleName app))
     [\<lparr>pr_APIGroups = [GroupVersionGroup], pr_Resources = [AppResource], pr_Verbs = [''get'', ''patch''],
       pr_ResourceNames = [app_Name app]\<rparr>]"

definition clockRoleBinding :: "App \<Rightarrow> object" where
  "clockRoleBinding app = ORoleBinding (meta_for app (clockBindingName app))
     (''ServiceAccount'', clockSAName app, app_Namespace app) (clockRoleName app)"

definition triggerCronJob :: "OperatorConfig \<Rightarrow> App \<Rightarrow> string \<Rightarrow> string \<Rightarrow> kEnvVar list \<Rightarrow> CronJob" where
  "triggerCronJob cfg app name sched extraEnv =
     (let env = [env_lit ''APP'' (app_Name app),
                 env_lit ''RESOURCE'' (AppResource @ ''.'' @ GroupVersionGroup),
                 env_lit ''REQUESTED_AT_ANNOTATION'' RebuildAnnotation,
                 env_lit ''BY_ANNOTATION'' RebuildByAnnotation,
                 env_lit ''COMMIT_ANNOTATION'' RebuildCommitAnnotation,
                 env_lit ''HOME'' ''/tmp''] @ extraEnv
      in \<lparr>cj_Meta = meta_for app name, cj_Schedule = sched, cj_ConcurrencyPolicy = ''Forbid'',
          cj_SuccessfulJobsHistoryLimit = 1, cj_FailedJobsHistoryLimit = 1, cj_BackoffLimit = 2,
          cj_TemplateLabels = triggerLabelsFor app,
          cj_PodSpec = \<lparr>pod_RestartPolicy = ''Never'', pod_AutomountServiceAccountToken = None,
            pod_ServiceAccountName = clockSAName app, pod_RunAsNonRoot = Some True, pod_SeccompProfile = Some RuntimeDefault,
            pod_InitContainers = [],
            pod_Containers = [empty_container\<lparr>c_Name := ''clock'', c_Image := img_Clock (cfg_Images cfg), c_Env := env,
              c_VolumeMounts := [mount volTmp ''/tmp''], c_SecurityContext := Some clockSecurityContext\<rparr>],
            pod_Volumes = [volume volTmp (EmptyDir None)],
            pod_ImagePullSecrets = pull_secrets cfg, pod_NodeName = ''''\<rparr>\<rparr>)"

definition clockCronJob :: "OperatorConfig \<Rightarrow> App \<Rightarrow> CronJob option" where
  \<comment> \<open>\<^const>\<open>None\<close> is the nil dereference of an absent \<open>spec.scheduledBuilds\<close>\<close>
  "clockCronJob cfg app =
     (case spec_ScheduledBuilds (app_Spec app) of
        None \<Rightarrow> None
      | Some sb \<Rightarrow> Some (triggerCronJob cfg app (clockCronJobName app)
          (if sb_Schedule sb = '''' then cfg_DefaultSchedule cfg else sb_Schedule sb) []))"

definition watchCronJob :: "OperatorConfig \<Rightarrow> App \<Rightarrow> gitCredentialDecision \<Rightarrow> (watch_error + CronJob) option" where
  \<comment> \<open>\<^const>\<open>None\<close> is the nil dereference of an absent \<open>spec.watchCommits\<close>\<close>
  "watchCronJob cfg app gitCred =
     (case spec_WatchCommits (app_Spec app) of
        None \<Rightarrow> None
      | Some wc \<Rightarrow> Some
          (case WatchCron (if wc_Interval wc = '''' then cfg_DefaultWatchInterval cfg else wc_Interval wc) of
             Inl e \<Rightarrow> Inl e
           | Inr sched \<Rightarrow>
               let ref = (if spec_Ref (app_Spec app) = '''' then ''HEAD'' else spec_Ref (app_Spec app));
                   cj = triggerCronJob cfg app (watchCronJobName app) sched
                     [env_lit ''MODE'' ''watch'', env_lit ''REPO'' (spec_Repo (app_Spec app)), env_lit ''REF'' ref,
                      env_lit ''LAST_SEEN_ANNOTATION'' WatchLastSeenAnnotation]
               in Inr (if mounts gitCred
                       then cj\<lparr>cj_PodSpec := addGitCredential (cj_PodSpec cj) ''clock'' (gcd_secretName gitCred) (repo_host app)\<rparr>
                       else cj)))"

section \<open>Network policies\<close>

definition dns_rule :: np_rule where
  "dns_rule = \<lparr>np_Peers = [\<lparr>np_NamespaceSelector = Some [(''kubernetes.io/metadata.name'', ''kube-system'')],
                             np_PodSelector = Some [(''k8s-app'', ''kube-dns'')], np_IPBlock = None\<rparr>],
               np_Ports = [(''UDP'', 53), (''TCP'', 53)]\<rparr>"

definition internet_rule :: "OperatorConfig \<Rightarrow> np_rule" where
  "internet_rule cfg = \<lparr>np_Peers = [\<lparr>np_NamespaceSelector = None, np_PodSelector = None,
      np_IPBlock = Some (''0.0.0.0/0'', cfg_ClusterCIDRs cfg @ [MetadataIP])\<rparr>], np_Ports = []\<rparr>"

definition role_selector :: "App \<Rightarrow> string \<Rightarrow> string gomap" where
  "role_selector app role = [(roleLabel, role), (instanceLabel, app_Name app)]"

definition triggerNetworkPolicy :: "OperatorConfig \<Rightarrow> App \<Rightarrow> NetworkPolicy" where
  "triggerNetworkPolicy cfg app = \<lparr>np_Meta = meta_for app (triggerNetPolName app),
     np_Selector = role_selector app ''trigger'', np_PolicyTypes = [''Ingress'', ''Egress''],
     np_Ingress = [], np_Egress = [dns_rule, internet_rule cfg]\<rparr>"

definition buildNetworkPolicy :: "OperatorConfig \<Rightarrow> App \<Rightarrow> NetworkPolicy" where
  "buildNetworkPolicy cfg app = \<lparr>np_Meta = meta_for app (buildNetPolName app),
     np_Selector = role_selector app ''build'', np_PolicyTypes = [''Ingress'', ''Egress''],
     np_Ingress = [], np_Egress = [dns_rule, internet_rule cfg]\<rparr>"

definition nginxNetworkPolicy :: "App \<Rightarrow> string \<Rightarrow> NetworkPolicy" where
  "nginxNetworkPolicy app traefikNamespace = \<lparr>np_Meta = meta_for app (nginxNetPolName app),
     np_Selector = role_selector app ''nginx'', np_PolicyTypes = [''Ingress'', ''Egress''],
     np_Ingress = [\<lparr>np_Peers = [\<lparr>np_NamespaceSelector = Some [(''kubernetes.io/metadata.name'', traefikNamespace)],
                                 np_PodSelector = None, np_IPBlock = None\<rparr>], np_Ports = [(''TCP'', 8080)]\<rparr>],
     np_Egress = [\<lparr>np_Peers = [], np_Ports = [(''UDP'', 53), (''TCP'', 53)]\<rparr>]\<rparr>"

section \<open>Serving\<close>

definition nl :: string where "nl = [CHR 0x0A]"

definition nginxConfTemplate :: string where
  "nginxConfTemplate =
     ''server {'' @ nl @ ''    listen 8080;'' @ nl @ ''    root /output/current;'' @ nl @
     ''    disable_symlinks if_not_owner;'' @ nl @ ''    location / {'' @ nl @
     ''        try_files $uri $uri/ /index.html;'' @ nl @ ''    }'' @ nl @ ''}'' @ nl"

definition nginxConfigMap :: "App \<Rightarrow> object" where
  "nginxConfigMap app = OConfigMap (meta_for app (nginxConfigName app)) [(''default.conf'', nginxConfTemplate)]"

definition nginxDeployment :: "OperatorConfig \<Rightarrow> App \<Rightarrow> Deployment" where
  "nginxDeployment cfg app = \<lparr>dep_Meta = new_meta (nginxDeployName app) (app_Namespace app) (nginxLabelsFor app),
     dep_Replicas = 1, dep_Strategy = ''Recreate'', dep_Selector = nginxLabelsFor app, dep_TemplateLabels = nginxLabelsFor app,
     dep_PodSpec = \<lparr>pod_RestartPolicy = '''', pod_AutomountServiceAccountToken = Some False, pod_ServiceAccountName = '''',
       pod_RunAsNonRoot = Some True, pod_SeccompProfile = Some RuntimeDefault, pod_InitContainers = [],
       pod_Containers = [empty_container\<lparr>c_Name := ''nginx'', c_Image := img_Nginx (cfg_Images cfg), c_Ports := [8080],
         c_VolumeMounts := [mount_ro volOutput outputMountPath, mount ''nginx-conf'' ''/etc/nginx/conf.d'',
           mount volTmp ''/tmp'', mount ''nginx-cache'' ''/var/cache/nginx'', mount ''nginx-run'' ''/var/run''],
         c_SecurityContext := Some nginxSecurityContext\<rparr>],
       pod_Volumes = [volume volOutput (PersistentVolumeClaim (outputPVCName app) True),
         volume ''nginx-conf'' (ConfigMapVolume (nginxConfigName app)), volume volTmp (EmptyDir None),
         volume ''nginx-cache'' (EmptyDir None), volume ''nginx-run'' (EmptyDir None)],
       pod_ImagePullSecrets = pull_secrets cfg, pod_NodeName = ''''\<rparr>\<rparr>"

definition service :: "App \<Rightarrow> object" where
  "service app = OService (meta_for app (serviceName app)) (nginxLabelsFor app) 80 8080"

definition ingress_annotations :: "App \<Rightarrow> string gomap" where
  "ingress_annotations app =
     (let user = fold (\<lambda>(k, v). AList.update k v) (ing_Annotations (spec_Ingress (app_Spec app))) []
      in if spec_Auth (app_Spec app) \<noteq> None
         then AList.update middlewaresAnnotation (app_Namespace app @ ''-'' @ middlewareName app @ ''@kubernetescrd'') user
         else user)"

definition ingress :: "App \<Rightarrow> Ingress" where
  "ingress app = \<lparr>in_Meta = (meta_for app (ingressName app))\<lparr>om_Annotations := ingress_annotations app\<rparr>,
     in_ClassName = ing_ClassName (spec_Ingress (app_Spec app)),
     in_Host = ing_Host (spec_Ingress (app_Spec app)), in_Path = ''/'', in_PathType = ''Prefix'',
     in_Service = serviceName app, in_ServicePort = 80,
     in_TLS = (case ing_TLS (spec_Ingress (app_Spec app)) of
        None \<Rightarrow> [] | Some tls \<Rightarrow> [([ing_Host (spec_Ingress (app_Spec app))], tls_SecretName tls)])\<rparr>"

definition traefikMiddlewareGroup :: "OperatorConfig \<Rightarrow> string" where
  "traefikMiddlewareGroup cfg = (if cfg_TraefikGroup cfg = '''' then ''traefik.io'' else cfg_TraefikGroup cfg)"

definition authMiddleware :: "OperatorConfig \<Rightarrow> App \<Rightarrow> string \<Rightarrow> object" where
  "authMiddleware cfg app secretName =
     OMiddleware (meta_for app (middlewareName app)) (traefikMiddlewareGroup cfg) secretName"

section \<open>What a policy lets through\<close>

text \<open>
  Egress of a pod the policy selects, to a destination given by the CIDR texts it falls in and, for
  an in-cluster destination, its namespace and pod labels. Any rule may admit it; a rule admits by
  port and peer, an empty list of either admitting everything.
\<close>

record dest =
  d_cidrs :: "string list"
  d_ns_labels :: "string gomap"
  d_pod_labels :: "string gomap"
  d_port :: "string \<times> int"

definition has_labels :: "string gomap \<Rightarrow> string gomap \<Rightarrow> bool" where
  "has_labels want have \<longleftrightarrow> list_all (\<lambda>(k, v). map_of have k = Some v) want"

definition peer_admits :: "np_peer \<Rightarrow> dest \<Rightarrow> bool" where
  "peer_admits p d =
     (case np_IPBlock p of
        Some (cidr, except) \<Rightarrow> cidr \<in> set (d_cidrs d) \<and> list_all (\<lambda>e. e \<notin> set (d_cidrs d)) except
      | None \<Rightarrow>
          (case np_NamespaceSelector p of None \<Rightarrow> True | Some s \<Rightarrow> has_labels s (d_ns_labels d)) \<and>
          (case np_PodSelector p of None \<Rightarrow> True | Some s \<Rightarrow> has_labels s (d_pod_labels d)))"

definition rule_admits :: "np_rule \<Rightarrow> dest \<Rightarrow> bool" where
  "rule_admits r d \<longleftrightarrow> (np_Peers r = [] \<or> list_ex (\<lambda>p. peer_admits p d) (np_Peers r)) \<and>
     (np_Ports r = [] \<or> d_port d \<in> set (np_Ports r))"

definition egress_allowed :: "NetworkPolicy \<Rightarrow> dest \<Rightarrow> bool" where
  "egress_allowed p d \<longleftrightarrow> list_ex (\<lambda>r. rule_admits r d) (np_Egress p)"

lemma fenced_egress:
  assumes "np_Egress p = [dns_rule, internet_rule cfg]" "egress_allowed p d"
    and "\<exists>cidr\<in>set (MetadataIP # cfg_ClusterCIDRs cfg). cidr \<in> set (d_cidrs d)"
  shows "has_labels [(''kubernetes.io/metadata.name'', ''kube-system'')] (d_ns_labels d) \<and>
    has_labels [(''k8s-app'', ''kube-dns'')] (d_pod_labels d) \<and> snd (d_port d) = 53"
  using assms
  by (auto simp: egress_allowed_def rule_admits_def dns_rule_def internet_rule_def peer_admits_def list_all_iff)

section \<open>Properties\<close>

definition policies_of :: "OperatorConfig \<Rightarrow> string \<Rightarrow> App \<Rightarrow> NetworkPolicy list" where
  \<comment> \<open>the NetworkPolicies the operator keeps for an App\<close>
  "policies_of cfg traefikNamespace app =
     [triggerNetworkPolicy cfg app, buildNetworkPolicy cfg app, nginxNetworkPolicy app traefikNamespace]"

definition selecting :: "NetworkPolicy list \<Rightarrow> string \<Rightarrow> string \<Rightarrow> string gomap \<Rightarrow> NetworkPolicy list" where
  \<comment> \<open>the policies for a direction that select a pod, by its namespace and labels\<close>
  "selecting ps direction ns labels =
     filter (\<lambda>p. direction \<in> set (np_PolicyTypes p) \<and> om_Namespace (np_Meta p) = ns \<and> has_labels (np_Selector p) labels) ps"

definition pod_reaches :: "NetworkPolicy list \<Rightarrow> string \<Rightarrow> string gomap \<Rightarrow> dest \<Rightarrow> bool" where
  \<comment> \<open>a pod no policy selects is not isolated; otherwise the selecting policies are a union\<close>
  "pod_reaches ps ns labels d =
     (let sel = selecting ps ''Egress'' ns labels in sel = [] \<or> list_ex (\<lambda>p. egress_allowed p d) sel)"

definition pod_accepts :: "NetworkPolicy list \<Rightarrow> string \<Rightarrow> string gomap \<Rightarrow> bool" where
  \<comment> \<open>some connection to the pod may be admitted\<close>
  "pod_accepts ps ns labels =
     (let sel = selecting ps ''Ingress'' ns labels in sel = [] \<or> list_ex (\<lambda>p. np_Ingress p \<noteq> []) sel)"

definition untrusted_pod :: "OperatorConfig \<Rightarrow> App \<Rightarrow> string \<Rightarrow> string gomap \<Rightarrow> bool" where
  \<comment> \<open>namespace and labels of a pod of a build Job, of the clock or of the commit watch\<close>
  "untrusted_pod cfg app ns labels \<longleftrightarrow>
     (\<exists>pq token cred. ns = om_Namespace (j_Meta (BuildJob pq cfg app token cred)) \<and>
        labels = j_TemplateLabels (BuildJob pq cfg app token cred)) \<or>
     (\<exists>cj cred. (clockCronJob cfg app = Some cj \<or> watchCronJob cfg app cred = Some (Inr cj)) \<and>
        ns = om_Namespace (cj_Meta cj) \<and> labels = cj_TemplateLabels cj)"

lemma trigger_pod:
  "om_Namespace (cj_Meta (triggerCronJob cfg app nm sched env)) = app_Namespace app"
  "cj_TemplateLabels (triggerCronJob cfg app nm sched env) = triggerLabelsFor app"
  by (simp_all add: triggerCronJob_def meta_for_def new_meta_def Let_def)

lemma untrusted_labels:
  assumes "untrusted_pod cfg app ns labels"
  shows "ns = app_Namespace app \<and> labels \<in> {buildLabelsFor app, triggerLabelsFor app}"
  using assms
  unfolding untrusted_pod_def clockCronJob_def watchCronJob_def Let_def
  by (elim disjE exE conjE) (auto simp: trigger_pod BuildJob_def new_meta_def split: option.splits sum.splits if_splits)

lemma untrusted_selection:
  assumes "untrusted_pod cfg app ns labels" "app \<in> set apps" "direction \<in> {''Ingress'', ''Egress''}"
    and "sel = selecting (concat (map (policies_of cfg tns) apps)) direction ns labels"
  shows "sel \<noteq> []" "\<And>p. p \<in> set sel \<Longrightarrow> np_Egress p = [dns_rule, internet_rule cfg] \<and> np_Ingress p = []"
proof -
  note unfolded = selecting_def policies_of_def has_labels_def triggerNetworkPolicy_def buildNetworkPolicy_def nginxNetworkPolicy_def
    role_selector_def buildLabelsFor_def triggerLabelsFor_def labelsFor_def meta_for_def new_meta_def
  from untrusted_labels [OF assms(1)] consider "ns = app_Namespace app" "labels = buildLabelsFor app" | "ns = app_Namespace app" "labels = triggerLabelsFor app"
    by blast
  then have "buildNetworkPolicy cfg app \<in> set sel \<or> triggerNetworkPolicy cfg app \<in> set sel"
    using assms(2,3) unfolding assms(4) by cases (auto simp: unfolded)
  then show "sel \<noteq> []" by auto
  show "np_Egress p = [dns_rule, internet_rule cfg] \<and> np_Ingress p = []" if "p \<in> set sel" for p
    using untrusted_labels [OF assms(1)] that unfolding assms(4) by (auto simp: unfolded)
qed

text \<open>C23. Fencing of untrusted pods: take the NetworkPolicies the operator keeps for any Apps, and a pod that
  works on the user's repository, created from the build Job, the clock or the commit-watch CronJob of one of
  them. Under the union of the policies that select the pod's labels in its namespace, it reaches an address in a
  configured cluster range or the metadata address only on port 53 of the resolver pods of kube-system, and no
  connection to it is admitted at all.\<close>

theorem untrusted_pods_fenced:
  assumes "untrusted_pod cfg app ns labels" "app \<in> set apps" "ps = concat (map (policies_of cfg tns) apps)"
  shows "\<not> pod_accepts ps ns labels \<and>
    (pod_reaches ps ns labels d \<and> (\<exists>cidr\<in>set (''169.254.169.254/32'' # cfg_ClusterCIDRs cfg). cidr \<in> set (d_cidrs d)) \<longrightarrow>
      has_labels [(''kubernetes.io/metadata.name'', ''kube-system'')] (d_ns_labels d) \<and>
      has_labels [(''k8s-app'', ''kube-dns'')] (d_pod_labels d) \<and> snd (d_port d) = 53)"
proof -
  have sel: "selecting ps direction ns labels \<noteq> []"
    "p \<in> set (selecting ps direction ns labels) \<Longrightarrow> np_Egress p = [dns_rule, internet_rule cfg] \<and> np_Ingress p = []"
    if "direction \<in> {''Ingress'', ''Egress''}" for direction p
    unfolding assms(3) using untrusted_selection [OF assms(1,2) that refl] by blast+
  have "\<not> pod_accepts ps ns labels" using sel [of "''Ingress''"] by (auto simp: pod_accepts_def list_ex_iff Let_def)
  moreover have "\<exists>p. np_Egress p = [dns_rule, internet_rule cfg] \<and> egress_allowed p d" if "pod_reaches ps ns labels d"
    using that sel [of "''Egress''"] by (auto simp: pod_reaches_def list_ex_iff Let_def)
  ultimately show ?thesis using fenced_egress unfolding MetadataIP_def by blast
qed

theorem untrusted_pods_fenced_witness:
  "\<not> pod_reaches (policies_of sample_config ''traefik'' sample_app) ''ns''
     (j_TemplateLabels (BuildJob Some sample_config sample_app ''1'' no_credential))
     \<lparr>d_cidrs = [''0.0.0.0/0'', ''169.254.169.254/32''], d_ns_labels = [], d_pod_labels = [], d_port = (''TCP'', 80)\<rparr>"
proof -
  have "untrusted_pod sample_config sample_app ''ns'' (j_TemplateLabels (BuildJob Some sample_config sample_app ''1'' no_credential))"
    unfolding untrusted_pod_def
    by (intro disjI1 exI [of _ Some] exI [of _ "''1''"] exI [of _ no_credential] conjI refl)
      (simp add: BuildJob_def new_meta_def sample_app_def Let_def)
  from untrusted_pods_fenced [OF this _ refl, of "[sample_app]" "''traefik''"
      "\<lparr>d_cidrs = [''0.0.0.0/0'', ''169.254.169.254/32''], d_ns_labels = [], d_pod_labels = [], d_port = (''TCP'', 80)\<rparr>"]
  show ?thesis by (auto simp: has_labels_def)
qed

text \<open>Basic auth cannot be stripped by the app: when spec.auth is set, the generated Ingress names
  the operator's middleware under the router-middlewares annotation whatever annotations the
  app supplies, and every other annotation of the app with distinct keys is kept.\<close>

theorem basic_auth_annotation_wins:
  assumes "spec_Auth (app_Spec app) \<noteq> None"
  shows "map_of (om_Annotations (in_Meta (ingress app))) middlewaresAnnotation =
      Some (app_Namespace app @ ''-'' @ middlewareName app @ ''@kubernetescrd'') \<and>
    (distinct (map fst (ing_Annotations (spec_Ingress (app_Spec app)))) \<longrightarrow>
      (\<forall>k. k \<noteq> middlewaresAnnotation \<longrightarrow>
         map_of (om_Annotations (in_Meta (ingress app))) k = map_of (ing_Annotations (spec_Ingress (app_Spec app))) k))"
proof -
  have keep: "distinct (map fst m) \<Longrightarrow> map_of (fold (\<lambda>(k, v). AList.update k v) m base) k =
      (case map_of m k of Some v \<Rightarrow> Some v | None \<Rightarrow> map_of base k)" for m base and k :: string
    by (induction m arbitrary: base) (auto split: option.split simp: map_of_eq_None_iff [THEN iffD2])
  show ?thesis
    using assms keep [of "ing_Annotations (spec_Ingress (app_Spec app))" "[]"]
    by (auto simp: ingress_def ingress_annotations_def Let_def split: option.split)
qed

theorem basic_auth_annotation_wins_witness:
  "map_of (om_Annotations (in_Meta (ingress (sample_app\<lparr>app_Spec := (app_Spec sample_app)
       \<lparr>spec_Auth := Some \<lparr>auth_PasswordHash = Some ''x'', auth_SecretRef = None\<rparr>,
        spec_Ingress := (spec_Ingress (app_Spec sample_app))\<lparr>ing_Annotations := [(middlewaresAnnotation, ''evil'')]\<rparr>\<rparr>\<rparr>))))
     middlewaresAnnotation = Some ''ns-site-auth@kubernetescrd''"
  using basic_auth_annotation_wins [of "sample_app\<lparr>app_Spec := (app_Spec sample_app)
       \<lparr>spec_Auth := Some \<lparr>auth_PasswordHash = Some ''x'', auth_SecretRef = None\<rparr>,
        spec_Ingress := (spec_Ingress (app_Spec sample_app))\<lparr>ing_Annotations := [(middlewaresAnnotation, ''evil'')]\<rparr>\<rparr>\<rparr>"]
  by (simp add: sample_app_def middlewareName_def)

end
