(* ===== verification/Sentry_Limiter.thy ===== *)
theory Sentry_Limiter
  imports Go_Time
begin

text \<open>
  \<open>internal/observability\<close> (\<open>ratelimit.go\<close>, \<open>reporter.go\<close>, \<open>filters.go\<close>) and the console's copy of the
  limiter, \<open>console/internal/sentryhttp/ratelimit.go\<close>: one event per fingerprint per hour.

  The clock is injected in the sources, so a call takes the instant it reads. The specification is
  the limiter without pruning (\<open>spec_run\<close>); the locale \<open>muting_gate\<close> is what it asks of an
  implementation, and both copies are interpreted in it.
\<close>

definition limitWindow :: duration where "limitWindow = Hour"
definition pruneInterval :: duration where "pruneInterval = Minute"

record fingerprintLimiter =
  fl_lastSent :: "time gomap"
  fl_lastPrune :: time

definition newFingerprintLimiter :: fingerprintLimiter where
  "newFingerprintLimiter = \<lparr>fl_lastSent = [], fl_lastPrune = zero_time\<rparr>"

definition joinFingerprint :: "string list \<Rightarrow> string" where
  "joinFingerprint fingerprint = Join fingerprint [CHR 0x00]"

definition prune :: "time \<Rightarrow> time gomap \<Rightarrow> time gomap" where
  "prune now sent = filter (\<lambda>(k, t). \<not> time_Sub now t \<ge> limitWindow) sent"

definition allow :: "time \<Rightarrow> string list \<Rightarrow> fingerprintLimiter \<Rightarrow> bool \<times> fingerprintLimiter" where
  "allow now fingerprint l =
     (let key = joinFingerprint fingerprint;
          l1 = (if time_Sub now (fl_lastPrune l) \<ge> pruneInterval
                then l\<lparr>fl_lastSent := prune now (fl_lastSent l), fl_lastPrune := now\<rparr> else l)
      in case map_of (fl_lastSent l1) key of
           Some sent \<Rightarrow> if time_Sub now sent < limitWindow then (False, l1)
                        else (True, l1\<lparr>fl_lastSent := AList.update key now (fl_lastSent l1)\<rparr>)
         | None \<Rightarrow> (True, l1\<lparr>fl_lastSent := AList.update key now (fl_lastSent l1)\<rparr>))"

definition console_allow :: "time \<Rightarrow> string list \<Rightarrow> fingerprintLimiter \<Rightarrow> bool \<times> fingerprintLimiter" where
  \<comment> \<open>the console's \<open>allow\<close>: the prune time is recorded before the sweep\<close>
  "console_allow now fingerprint l =
     (let key = Join fingerprint [CHR 0x00];
          l1 = (if time_Sub now (fl_lastPrune l) \<ge> pruneInterval
                then (let l0 = l\<lparr>fl_lastPrune := now\<rparr> in l0\<lparr>fl_lastSent := prune now (fl_lastSent l0)\<rparr>) else l)
      in case map_of (fl_lastSent l1) key of
           Some sent \<Rightarrow> if time_Sub now sent < limitWindow then (False, l1)
                        else (True, l1\<lparr>fl_lastSent := AList.update key now (fl_lastSent l1)\<rparr>)
         | None \<Rightarrow> (True, l1\<lparr>fl_lastSent := AList.update key now (fl_lastSent l1)\<rparr>))"

section \<open>reporter.go and filters.go\<close>

record TerminalFailure =
  tf_App :: string
  tf_Namespace :: string
  tf_Step :: string
  tf_Reason :: string
  tf_Message :: string

record sentry_event =
  se_Message :: string
  se_Tags :: "string gomap"
  se_Fingerprint :: "string list"

definition CaptureTerminalFailure ::
  "time \<Rightarrow> TerminalFailure \<Rightarrow> fingerprintLimiter option \<Rightarrow> sentry_event list \<times> fingerprintLimiter option" where
  \<comment> \<open>a nil \<open>Reporter\<close> is \<^const>\<open>None\<close>; the result lists the events handed to the hub\<close>
  "CaptureTerminalFailure now f r =
     (case r of
        None \<Rightarrow> ([], None)
      | Some l \<Rightarrow>
          let fingerprint = [tf_Namespace f, tf_App f, tf_Reason f];
              (ok, l1) = allow now fingerprint l
          in (if ok then [\<lparr>se_Message = tf_Message f,
                 se_Tags = [(''app'', tf_App f), (''namespace'', tf_Namespace f), (''step'', tf_Step f), (''reason'', tf_Reason f)],
                 se_Fingerprint = fingerprint\<rparr>] else [],
              Some l1))"

datatype log_error = ConflictError | CanceledError | OtherError string

definition dropError :: "log_error option \<Rightarrow> bool" where
  "dropError err = (case err of None \<Rightarrow> False | Some e \<Rightarrow> e = ConflictError \<or> e = CanceledError)"

definition dropMessage :: "string \<Rightarrow> bool" where
  "dropMessage msg \<longleftrightarrow> Contains msg ''leader election''"

section \<open>The specification\<close>

fun spec_run :: "(string \<Rightarrow> time option) \<Rightarrow> (time \<times> string) list \<Rightarrow> bool list" where
  "spec_run L [] = []"
| "spec_run L ((now, key) # calls) =
     (if (case L key of Some sent \<Rightarrow> now - sent < limitWindow | None \<Rightarrow> False)
      then False # spec_run L calls
      else True # spec_run (L(key \<mapsto> now)) calls)"

fun limiter_run :: "(time \<Rightarrow> string list \<Rightarrow> 's \<Rightarrow> bool \<times> 's) \<Rightarrow> 's \<Rightarrow> (time \<times> string list) list \<Rightarrow> bool list" where
  "limiter_run f s [] = []"
| "limiter_run f s ((now, fp) # calls) = (let (b, s') = f now fp s in b # limiter_run f s' calls)"

locale muting_gate =
  fixes gate :: "time \<Rightarrow> string list \<Rightarrow> 's \<Rightarrow> bool \<times> 's"
    and sent :: "'s \<Rightarrow> string \<Rightarrow> time option" and key :: "string list \<Rightarrow> string" and inv :: "'s \<Rightarrow> bool"
  assumes answer: "inv s \<Longrightarrow> fst (gate now fp s) \<longleftrightarrow> \<not> (\<exists>t. sent s (key fp) = Some t \<and> now - t < limitWindow)"
    and invar: "inv s \<Longrightarrow> inv (snd (gate now fp s))"
    and allowed: "inv s \<Longrightarrow> fst (gate now fp s) \<Longrightarrow> sent (snd (gate now fp s)) (key fp) = Some now"
    and kept: "inv s \<Longrightarrow> k \<noteq> key fp \<or> \<not> fst (gate now fp s) \<Longrightarrow>
      sent (snd (gate now fp s)) k = sent s k \<or>
      (sent (snd (gate now fp s)) k = None \<and> (\<exists>t. sent s k = Some t \<and> now - t \<ge> limitWindow))"
begin

definition sim :: "time \<Rightarrow> 's \<Rightarrow> (string \<Rightarrow> time option) \<Rightarrow> bool" where
  \<comment> \<open>the implementation remembers what the specification does, up to entries too old to matter\<close>
  "sim now s L \<longleftrightarrow> inv s \<and> (\<forall>k. sent s k = L k \<or> (sent s k = None \<and> (\<exists>t. L k = Some t \<and> now - t \<ge> limitWindow)))"

lemma sim_mono: "sim now s L \<Longrightarrow> now \<le> now' \<Longrightarrow> sim now' s L"
  unfolding sim_def by (metis diff_right_mono order_trans)

lemma sim_step:
  assumes "sim now s L"
  shows "fst (gate now fp s) \<longleftrightarrow> \<not> (case L (key fp) of Some t \<Rightarrow> now - t < limitWindow | None \<Rightarrow> False)"
    and "fst (gate now fp s) \<Longrightarrow> sim now (snd (gate now fp s)) (L(key fp \<mapsto> now))"
    and "\<not> fst (gate now fp s) \<Longrightarrow> sim now (snd (gate now fp s)) L"
proof -
  have inv: "inv s" using assms by (simp add: sim_def)
  have s: "sent s (key fp) = L (key fp) \<or> (sent s (key fp) = None \<and> (\<exists>t. L (key fp) = Some t \<and> now - t \<ge> limitWindow))"
    using assms by (simp add: sim_def)
  show "fst (gate now fp s) \<longleftrightarrow> \<not> (case L (key fp) of Some t \<Rightarrow> now - t < limitWindow | None \<Rightarrow> False)"
    using s by (auto simp: answer [OF inv] split: option.splits)
  show "sim now (snd (gate now fp s)) (L(key fp \<mapsto> now))" if "fst (gate now fp s)"
    using assms allowed [OF inv that] invar [OF inv, of now fp] kept [OF inv, of _ fp now] unfolding sim_def
    by (metis fun_upd_other fun_upd_same)
  show "sim now (snd (gate now fp s)) L" if "\<not> fst (gate now fp s)"
    using assms kept [OF inv, of _ fp now] invar [OF inv, of now fp] that unfolding sim_def by metis
qed

lemma run_refines:
  assumes "sim t0 s L" "sorted (t0 # map fst calls)"
  shows "limiter_run gate s calls = spec_run L (map (\<lambda>(now, fp). (now, key fp)) calls)"
  using assms
proof (induction calls arbitrary: t0 s L)
  case (Cons c calls)
  obtain now fp where c: "c = (now, fp)" by (cases c)
  have sim: "sim now s L" by (rule sim_mono [OF Cons.prems(1)]) (use Cons.prems(2) c in simp)
  have srt: "sorted (now # map fst calls)" using Cons.prems(2) c by simp
  note IH = Cons.IH [OF _ srt]
  show ?case
    using sim_step [OF sim, of fp] IH
    by (cases "fst (gate now fp s)") (auto simp: c case_prod_beta Let_def simp del: fun_upd_apply)
qed simp

end

lemma time_Sub_window:
  "time_Sub now t < limitWindow \<longleftrightarrow> now - t < limitWindow"
  "time_Sub now t \<ge> limitWindow \<longleftrightarrow> now - t \<ge> limitWindow"
  by (auto simp: time_Sub_def limitWindow_def Hour_def)

lemma map_of_prune:
  assumes "distinct (map fst m)"
  shows "map_of (prune now m) k = (case map_of m k of Some t \<Rightarrow> if now - t \<ge> limitWindow then None else Some t | None \<Rightarrow> None)"
  using assms
  by (induction m) (auto simp: prune_def time_Sub_window map_of_eq_None_iff image_iff split: option.splits if_splits)

definition keys_once :: "fingerprintLimiter \<Rightarrow> bool" where
  "keys_once l \<longleftrightarrow> distinct (map fst (fl_lastSent l))"

lemma prune_distinct: "distinct (map fst m) \<Longrightarrow> distinct (map fst (prune now m))"
  by (induction m) (auto simp: prune_def)

lemma console_allow_eq: "console_allow = allow"
proof (intro ext)
  fix now fp and l :: fingerprintLimiter
  have "(let l0 = l\<lparr>fl_lastPrune := now\<rparr> in l0\<lparr>fl_lastSent := prune now (fl_lastSent l0)\<rparr>) =
      l\<lparr>fl_lastSent := prune now (fl_lastSent l), fl_lastPrune := now\<rparr>"
    by (cases l) simp
  then show "console_allow now fp l = allow now fp l"
    by (simp only: console_allow_def allow_def joinFingerprint_def)
qed

interpretation operator_limiter:
  muting_gate allow "\<lambda>l. map_of (fl_lastSent l)" joinFingerprint keys_once
proof
  fix s :: fingerprintLimiter and now fp k
  assume inv: "keys_once s"
  let ?l1 = "if time_Sub now (fl_lastPrune s) \<ge> pruneInterval
             then s\<lparr>fl_lastSent := prune now (fl_lastSent s), fl_lastPrune := now\<rparr> else s"
  have l1: "map_of (fl_lastSent ?l1) k' = map_of (fl_lastSent s) k' \<or>
      (map_of (fl_lastSent ?l1) k' = None \<and> (\<exists>t. map_of (fl_lastSent s) k' = Some t \<and> now - t \<ge> limitWindow))" for k'
    using map_of_prune [of "fl_lastSent s" now k'] inv by (auto simp: keys_once_def split: option.splits)
  have dist: "distinct (map fst (fl_lastSent ?l1))"
    using inv prune_distinct [of "fl_lastSent s" now] by (simp add: keys_once_def)
  have unfold_allow: "allow now fp s =
      (case map_of (fl_lastSent ?l1) (joinFingerprint fp) of
         Some sent \<Rightarrow> if now - sent < limitWindow then (False, ?l1)
           else (True, ?l1\<lparr>fl_lastSent := AList.update (joinFingerprint fp) now (fl_lastSent ?l1)\<rparr>)
       | None \<Rightarrow> (True, ?l1\<lparr>fl_lastSent := AList.update (joinFingerprint fp) now (fl_lastSent ?l1)\<rparr>))"
    by (simp only: allow_def Let_def time_Sub_window)
  show "fst (allow now fp s) \<longleftrightarrow>
      \<not> (\<exists>t. map_of (fl_lastSent s) (joinFingerprint fp) = Some t \<and> now - t < limitWindow)"
    unfolding unfold_allow using l1 [of "joinFingerprint fp"] by (auto split: option.splits)
  show "keys_once (snd (allow now fp s))"
    unfolding unfold_allow keys_once_def using dist distinct_update [OF dist] by (auto split: option.split)
  show "map_of (fl_lastSent (snd (allow now fp s))) (joinFingerprint fp) = Some now" if "fst (allow now fp s)"
    using that unfolding unfold_allow by (auto split: option.splits if_splits)
  show "map_of (fl_lastSent (snd (allow now fp s))) k = map_of (fl_lastSent s) k \<or>
      (map_of (fl_lastSent (snd (allow now fp s))) k = None \<and>
       (\<exists>t. map_of (fl_lastSent s) k = Some t \<and> now - t \<ge> limitWindow))"
    if "k \<noteq> joinFingerprint fp \<or> \<not> fst (allow now fp s)"
    using that l1 [of k] unfolding unfold_allow by (auto split: option.splits if_splits)
qed

interpretation console_limiter:
  muting_gate console_allow "\<lambda>l. map_of (fl_lastSent l)" joinFingerprint keys_once
  unfolding console_allow_eq by unfold_locales

section \<open>What the specification guarantees\<close>

lemma spec_run_length [simp]: "length (spec_run L calls) = length calls"
  by (induction L calls rule: spec_run.induct) (auto simp del: fun_upd_apply)

lemma spec_run_after_sent:
  assumes "L key = Some t" "sorted (t # map fst calls)" "j < length calls"
    and "spec_run L calls ! j" "snd (calls ! j) = key"
  shows "fst (calls ! j) - t \<ge> limitWindow"
  using assms
proof (induction L calls arbitrary: t j rule: spec_run.induct)
  case (2 L now k calls)
  show ?case
  proof (cases j)
    case 0
    with 2 show ?thesis by (auto split: if_splits)
  next
    case (Suc i)
    let ?deny = "case L k of Some sent \<Rightarrow> now - sent < limitWindow | None \<Rightarrow> False"
    have srt: "sorted (t # map fst calls)" "t \<le> now" "sorted (now # map fst calls)" using "2.prems"(2) by auto
    show ?thesis
    proof (cases ?deny)
      case True
      with Suc 2 srt show ?thesis by (auto simp del: fun_upd_apply)
    next
      case False
      have i: "i < length calls" "spec_run (L(k \<mapsto> now)) calls ! i" "snd (calls ! i) = key"
        using Suc "2.prems" False by auto
      show ?thesis
      proof (cases "k = key")
        case True
        have "fst (calls ! i) - now \<ge> limitWindow"
          using "2.IH"(2) [OF False, of now i] True srt i by (simp add: fun_upd_same del: fun_upd_apply)
        with srt Suc show ?thesis by simp
      next
        case neq: False
        then have "(L(k \<mapsto> now)) key = Some t" using "2.prems"(1) by simp
        from "2.IH"(2) [OF False this srt(1) i] Suc show ?thesis by simp
      qed
    qed
  qed
qed simp

lemma spec_run_spacing:
  assumes "sorted (map fst calls)" "i < j" "j < length calls"
    and "spec_run L calls ! i" "spec_run L calls ! j" "snd (calls ! i) = snd (calls ! j)"
  shows "fst (calls ! j) - fst (calls ! i) \<ge> limitWindow"
  using assms
proof (induction L calls arbitrary: i j rule: spec_run.induct)
  case (2 L now k calls)
  obtain j' where j: "j = Suc j'" using "2.prems"(2) by (cases j) auto
  show ?case
  proof (cases i)
    case 0
    then have "\<not> (case L k of Some sent \<Rightarrow> now - sent < limitWindow | None \<Rightarrow> False)"
      using "2.prems"(4) by (auto split: if_splits)
    moreover from this have "spec_run (L(k \<mapsto> now)) calls ! j'" using "2.prems"(5) j by simp
    ultimately show ?thesis
      using spec_run_after_sent [of "L(k \<mapsto> now)" k now calls j'] "2.prems" 0 j by simp
  next
    case (Suc i')
    with 2 j show ?thesis by (auto split: if_splits simp del: fun_upd_apply)
  qed
qed simp

lemma Join_split: "CHR 0x00 \<notin> set x \<Longrightarrow> Join (x # xs) [CHR 0x00] = Join (y # ys) [CHR 0x00] \<Longrightarrow> CHR 0x00 \<notin> set y \<Longrightarrow>
    x = y \<and> (xs = [] \<longleftrightarrow> ys = []) \<and> Join xs [CHR 0x00] = Join ys [CHR 0x00]"
proof -
  assume a: "CHR 0x00 \<notin> set x" "CHR 0x00 \<notin> set y" "Join (x # xs) [CHR 0x00] = Join (y # ys) [CHR 0x00]"
  have head: "takeWhile (\<lambda>c. c \<noteq> CHR 0x00) (z @ CHR 0x00 # t) = z" "takeWhile (\<lambda>c. c \<noteq> CHR 0x00) z = z"
    if "CHR 0x00 \<notin> set z" for z t
    using that by (auto simp: takeWhile_tail takeWhile_eq_all_conv)
  have Cons2: "Join (z # zs) [CHR 0x00] = z @ CHR 0x00 # Join zs [CHR 0x00]" if "zs \<noteq> []" for z zs
    using that by (cases zs) simp_all
  show ?thesis
  proof (cases "xs = []")
    case True
    with a show ?thesis using head [OF a(1)] by (cases "ys = []") (auto simp: Cons2)
  next
    case False
    with a have "ys \<noteq> []" by (auto simp: Cons2)
    with a False have eq: "x @ CHR 0x00 # Join xs [CHR 0x00] = y @ CHR 0x00 # Join ys [CHR 0x00]" by (simp add: Cons2)
    then have "x = y" using head(1) [OF a(1)] head(1) [OF a(2)] by metis
    with eq False \<open>ys \<noteq> []\<close> show ?thesis by simp
  qed
qed

lemma joinFingerprint_inj:
  assumes "\<forall>x\<in>set xs. CHR 0x00 \<notin> set x" "\<forall>y\<in>set ys. CHR 0x00 \<notin> set y" "xs \<noteq> []" "ys \<noteq> []"
    and "joinFingerprint xs = joinFingerprint ys"
  shows "xs = ys"
  using assms unfolding joinFingerprint_def
proof (induction xs arbitrary: ys)
  case (Cons x xs)
  obtain y ys' where ys: "ys = y # ys'" using Cons.prems(4) by (cases ys) auto
  from Join_split [of x xs y ys'] Cons.prems ys
  have s: "x = y" "xs = [] \<longleftrightarrow> ys' = []" "Join xs [CHR 0x00] = Join ys' [CHR 0x00]" by auto
  show ?case
  proof (cases "xs = []")
    case False
    with Cons.IH [of ys'] Cons.prems s ys show ?thesis by simp
  qed (use s ys in simp)
qed simp

lemma limiter_spec:
  assumes "sorted (map fst calls)"
  shows "limiter_run allow newFingerprintLimiter calls = spec_run (\<lambda>_. None) (map (\<lambda>(now, fp). (now, joinFingerprint fp)) calls)"
proof -
  have "operator_limiter.sim t newFingerprintLimiter (\<lambda>_. None)" for t
    by (simp add: operator_limiter.sim_def newFingerprintLimiter_def keys_once_def)
  moreover obtain t0 where "sorted (t0 # map fst calls)"
    using assms by (cases calls) (auto intro: that)
  ultimately show ?thesis by (rule operator_limiter.run_refines)
qed

section \<open>Properties\<close>

text \<open>C28. Pruning is invisible: for every sequence of calls with a clock that does not go back, the
  operator's limiter and the console's give the answers of the limiter that never prunes.\<close>

theorem limiters_refine_spec:
  assumes "sorted (map fst calls)"
  shows "limiter_run allow newFingerprintLimiter calls =
      spec_run (\<lambda>_. None) (map (\<lambda>(now, fp). (now, joinFingerprint fp)) calls) \<and>
    limiter_run console_allow newFingerprintLimiter calls =
      spec_run (\<lambda>_. None) (map (\<lambda>(now, fp). (now, joinFingerprint fp)) calls)"
  using limiter_spec [OF assms] by (simp add: console_allow_eq)

theorem limiters_refine_spec_witness:
  "limiter_run allow newFingerprintLimiter [(0, [''ns'', ''a'', ''r'']), (Minute, [''ns'', ''a'', ''r'']), (Hour, [''ns'', ''a'', ''r''])] =
     [True, False, True]"
  using limiters_refine_spec [of "[(0, [''ns'', ''a'', ''r'']), (Minute, [''ns'', ''a'', ''r'']), (Hour, [''ns'', ''a'', ''r''])]"]
  by (simp add: limitWindow_def Hour_def Minute_def)

text \<open>No storm: two events the operator sends for the same namespace, app and reason are at least
  an hour apart, however often the failure is reported in between, and events of different
  namespaces, apps or reasons never share a bucket.\<close>

theorem same_failure_hourly:
  assumes "sorted (map fst calls)" "i < j" "j < length calls"
    and "limiter_run allow newFingerprintLimiter calls ! i" "limiter_run allow newFingerprintLimiter calls ! j"
    and "\<forall>(now, fp)\<in>set calls. length fp = 3 \<and> (\<forall>x\<in>set fp. CHR 0x00 \<notin> set x)"
  shows "(snd (calls ! i) = snd (calls ! j) \<longrightarrow> fst (calls ! j) - fst (calls ! i) \<ge> limitWindow) \<and>
    (snd (calls ! i) \<noteq> snd (calls ! j) \<longrightarrow> joinFingerprint (snd (calls ! i)) \<noteq> joinFingerprint (snd (calls ! j)))"
proof -
  let ?c = "map (\<lambda>(now, fp). (now, joinFingerprint fp)) calls"
  have run: "limiter_run allow newFingerprintLimiter calls = spec_run (\<lambda>_. None) ?c" by (rule limiter_spec [OF assms(1)])
  have nth: "?c ! k = (fst (calls ! k), joinFingerprint (snd (calls ! k)))" if "k < length calls" for k
    using that by (simp add: case_prod_beta)
  have srt: "sorted (map fst ?c)" using assms(1) by (simp add: case_prod_beta comp_def)
  have mem: "calls ! i \<in> set calls" "calls ! j \<in> set calls" using assms(2,3) by auto
  have "fst (calls ! j) - fst (calls ! i) \<ge> limitWindow" if "snd (calls ! i) = snd (calls ! j)"
    using spec_run_spacing [OF srt assms(2), of "\<lambda>_. None"] assms(2-5) that run nth by simp
  moreover have fps: "length (snd c) = 3" "\<forall>x\<in>set (snd c). CHR 0x00 \<notin> set x" if "c \<in> set calls" for c
    using bspec [OF assms(6) that] by (simp_all add: case_prod_beta)
  have "snd (calls ! i) \<noteq> []" "snd (calls ! j) \<noteq> []"
    using fps(1) [OF mem(1)] fps(1) [OF mem(2)] by auto
  then have "joinFingerprint (snd (calls ! i)) \<noteq> joinFingerprint (snd (calls ! j))"
    if "snd (calls ! i) \<noteq> snd (calls ! j)"
    using that joinFingerprint_inj [OF fps(2) [OF mem(1)] fps(2) [OF mem(2)]] by blast
  ultimately show ?thesis by blast
qed

theorem same_failure_hourly_witness:
  "fst ([(0::int, [''ns'', ''a'', ''r'']), (Hour, [''ns'', ''a'', ''r''])] ! 1) -
   fst ([(0, [''ns'', ''a'', ''r'']), (Hour, [''ns'', ''a'', ''r''])] ! 0) \<ge> limitWindow"
proof -
  let ?c = "[(0::int, [''ns'', ''a'', ''r'']), (Hour, [''ns'', ''a'', ''r''])]"
  have "limiter_run allow newFingerprintLimiter ?c = [True, True]"
    by (simp add: allow_def newFingerprintLimiter_def joinFingerprint_def prune_def time_Sub_def limitWindow_def
        pruneInterval_def zero_time_def duration_defs)
  then show ?thesis
    using same_failure_hourly [of ?c 0 1] by (simp add: Hour_def)
qed

end
