(* ===== verification/Kube_Client.thy ===== *)
theory Kube_Client
  imports Metrics_Recorder Children Sentry_Limiter
begin

text \<open>
  The reconciler's surroundings and its state.

  The Kubernetes API server and the client libraries are not part of the sources. They are the
  parameter \<open>'w client\<close>: one function per client call, over an arbitrary world \<open>'w\<close>, that may fail in
  any way at any time and may change the world as it likes. Nothing is assumed of it, so what is
  proved of a handler holds against every server, cache state and interleaving with other writers.

  A handler is a state-and-error computation (\<open>'w kube\<close>). Its state holds the world, the in-memory
  App object the handler mutates, the metrics recorder, the Sentry limiter, the outage flag, and
  \<open>r_calls\<close>, the calls made so far, oldest first: every write with its outcome, the Job lists that
  were read, and the metric operations and Sentry events emitted.
\<close>

datatype api_error = NotFound | AlreadyExists | ConflictErr | OtherApi string

record 'w client =
  k_now :: "'w \<Rightarrow> time \<times> 'w"
  k_GetApp :: "string \<Rightarrow> string \<Rightarrow> 'w \<Rightarrow> (api_error + App) \<times> 'w"
  k_GetJob :: "string \<Rightarrow> string \<Rightarrow> 'w \<Rightarrow> (api_error + Job) \<times> 'w"
  k_GetPVC :: "string \<Rightarrow> string \<Rightarrow> 'w \<Rightarrow> (api_error + PVC) \<times> 'w"
  k_GetSecret :: "string \<Rightarrow> string \<Rightarrow> 'w \<Rightarrow> (api_error + Secret) \<times> 'w"
  k_GetSecretData :: "string \<Rightarrow> string \<Rightarrow> 'w \<Rightarrow> (api_error + Secret) \<times> 'w"
  k_GetSecretMeta :: "string \<Rightarrow> string \<Rightarrow> 'w \<Rightarrow> (api_error + ObjectMeta) \<times> 'w"
  k_GetStorageClass :: "string \<Rightarrow> 'w \<Rightarrow> (api_error + string option) \<times> 'w"
  k_GetObject :: "object_kind \<Rightarrow> string \<Rightarrow> string \<Rightarrow> 'w \<Rightarrow> (api_error + ObjectMeta) \<times> 'w"
  k_ListJobs :: "string \<Rightarrow> string gomap \<Rightarrow> 'w \<Rightarrow> (api_error + Job list) \<times> 'w"
  k_ListPods :: "string \<Rightarrow> string gomap \<Rightarrow> 'w \<Rightarrow> (api_error + Pod list) \<times> 'w"
  k_ListApps :: "string option \<Rightarrow> 'w \<Rightarrow> (api_error + App list) \<times> 'w"
  k_Create :: "object \<Rightarrow> 'w \<Rightarrow> api_error option \<times> 'w"
  k_Update :: "object_kind \<Rightarrow> ObjectMeta \<Rightarrow> 'w \<Rightarrow> api_error option \<times> 'w"
  k_Apply :: "object \<Rightarrow> 'w \<Rightarrow> api_error option \<times> 'w"
  k_Delete :: "object_kind \<Rightarrow> string \<Rightarrow> string \<Rightarrow> 'w \<Rightarrow> api_error option \<times> 'w"
  k_UpdateApp :: "App \<Rightarrow> 'w \<Rightarrow> (api_error + App) \<times> 'w"
  k_PatchApp :: "App \<Rightarrow> App \<Rightarrow> 'w \<Rightarrow> (api_error + App) \<times> 'w"
  k_PatchJob :: "Job \<Rightarrow> Job \<Rightarrow> 'w \<Rightarrow> api_error option \<times> 'w"
  k_StatusUpdate :: "App \<Rightarrow> 'w \<Rightarrow> (api_error + App) \<times> 'w"
  k_SetControllerReference :: "App \<Rightarrow> ObjectMeta \<Rightarrow> api_error + OwnerReference list"
  k_GVKForObject :: "object \<Rightarrow> api_error option"
  k_GetControllerOf :: "ObjectMeta \<Rightarrow> OwnerReference option"
  k_ContainsFinalizer :: "string list \<Rightarrow> string \<Rightarrow> bool"
  k_AddFinalizer :: "string list \<Rightarrow> string \<Rightarrow> string list"
  k_RemoveFinalizer :: "string list \<Rightarrow> string \<Rightarrow> string list"
  k_ParseQuantity :: "string \<Rightarrow> quantity option"
  k_QuantityValue :: "quantity \<Rightarrow> int"

datatype storage_class_error = NoStorageClassName | StorageClassApi api_error | NotWaitForFirstConsumer

datatype repo_auth_error = RepoAuthNotFound string | RepoAuthApi api_error | RepoAuthData string git_data_error

datatype rejection =
    RConfig config_error
  | RImage image_error
  | RNode node_error
  | RWatch watch_commits_error
  | RRepoAuth repo_auth_error
  | RStorage storage_error
  | RStorageClass storage_class_error

text \<open>
  The reconciler's configuration. \<open>e_Text\<close> renders a rejection (\<open>err.Error()\<close>): the wording of error
  messages, which quotes errors of the libraries, is a parameter. \<open>e_Recorder\<close> says whether an event
  recorder is set.
\<close>

record env =
  e_Config :: OperatorConfig
  e_StorageClassName :: string
  e_TraefikNamespace :: string
  e_OperatorNamespace :: string
  e_Recorder :: bool
  e_Text :: "rejection \<Rightarrow> string"

datatype call =
    CListJobs "string gomap" "Job list option"
  | CCreate object "api_error option"
  | CUpdate object_kind ObjectMeta "api_error option"
  | CApply object "api_error option"
  | CDelete object_kind string string "api_error option"
  | CUpdateApp App bool
  | CPatchApp App bool
  | CPatchJob Job "api_error option"
  | CStatusUpdate App bool
  | CMetric metric_op
  | CSentry sentry_event
  | CEvent string

record 'w rstate =
  r_world :: 'w
  r_app :: App
  r_metrics :: Recorder
  r_sentry :: "fingerprintLimiter option"
  r_gitSourceMissing :: bool
  r_calls :: "call list"

datatype rerr = Api api_error | WatchCommitsErr watch_error | Panic

type_synonym ('w, 'a) kube = "('w rstate, rerr, 'a) rmonad"

section \<open>Calls\<close>

definition log_calls :: "call list \<Rightarrow> ('w, unit) kube" where
  "log_calls cs = modify (\<lambda>s. s\<lparr>r_calls := r_calls s @ cs\<rparr>)"

definition world_op :: "('w \<Rightarrow> 'b \<times> 'w) \<Rightarrow> ('w, 'b) kube" where
  "world_op f = (\<lambda>s. case f (r_world s) of (x, w) \<Rightarrow> (Inr x, s\<lparr>r_world := w\<rparr>))"

definition now :: "'w client \<Rightarrow> ('w, time) kube" where
  \<comment> \<open>\<open>r.now()\<close>, the injected clock\<close>
  "now C = world_op (k_now C)"

definition ListJobs :: "'w client \<Rightarrow> string \<Rightarrow> string gomap \<Rightarrow> ('w, api_error + Job list) kube" where
  "ListJobs C ns labels =
     bindr (world_op (k_ListJobs C ns labels)) (\<lambda>r.
     seqr (log_calls [CListJobs labels (case r of Inl _ \<Rightarrow> None | Inr js \<Rightarrow> Some js)]) (ret r))"

definition Create :: "'w client \<Rightarrow> object \<Rightarrow> ('w, api_error option) kube" where
  "Create C obj = bindr (world_op (k_Create C obj)) (\<lambda>e. seqr (log_calls [CCreate obj e]) (ret e))"

definition Update :: "'w client \<Rightarrow> object_kind \<Rightarrow> ObjectMeta \<Rightarrow> ('w, api_error option) kube" where
  \<comment> \<open>an object read from the server sent back with changed metadata\<close>
  "Update C k m = bindr (world_op (k_Update C k m)) (\<lambda>e. seqr (log_calls [CUpdate k m e]) (ret e))"

definition Apply :: "'w client \<Rightarrow> object \<Rightarrow> ('w, api_error option) kube" where
  "Apply C obj = bindr (world_op (k_Apply C obj)) (\<lambda>e. seqr (log_calls [CApply obj e]) (ret e))"

definition Delete :: "'w client \<Rightarrow> object_kind \<Rightarrow> string \<Rightarrow> string \<Rightarrow> ('w, api_error option) kube" where
  "Delete C k ns nm = bindr (world_op (k_Delete C k ns nm)) (\<lambda>e. seqr (log_calls [CDelete k ns nm e]) (ret e))"

definition PatchJob :: "'w client \<Rightarrow> Job \<Rightarrow> Job \<Rightarrow> ('w, api_error option) kube" where
  "PatchJob C old job = bindr (world_op (k_PatchJob C old job)) (\<lambda>e. seqr (log_calls [CPatchJob job e]) (ret e))"

fun with_owners :: "OwnerReference list \<Rightarrow> object \<Rightarrow> object" where
  "with_owners rs (OJob j) = OJob (j\<lparr>j_Meta := (j_Meta j)\<lparr>om_OwnerReferences := rs\<rparr>\<rparr>)"
| "with_owners rs (OCronJob c) = OCronJob (c\<lparr>cj_Meta := (cj_Meta c)\<lparr>om_OwnerReferences := rs\<rparr>\<rparr>)"
| "with_owners rs (OPVC p) = OPVC (p\<lparr>pvc_Meta := (pvc_Meta p)\<lparr>om_OwnerReferences := rs\<rparr>\<rparr>)"
| "with_owners rs (OSecret s) = OSecret (s\<lparr>sec_Meta := (sec_Meta s)\<lparr>om_OwnerReferences := rs\<rparr>\<rparr>)"
| "with_owners rs (OConfigMap m d) = OConfigMap (m\<lparr>om_OwnerReferences := rs\<rparr>) d"
| "with_owners rs (OService m l p t) = OService (m\<lparr>om_OwnerReferences := rs\<rparr>) l p t"
| "with_owners rs (ODeployment d) = ODeployment (d\<lparr>dep_Meta := (dep_Meta d)\<lparr>om_OwnerReferences := rs\<rparr>\<rparr>)"
| "with_owners rs (OIngress i) = OIngress (i\<lparr>in_Meta := (in_Meta i)\<lparr>om_OwnerReferences := rs\<rparr>\<rparr>)"
| "with_owners rs (ONetworkPolicy n) = ONetworkPolicy (n\<lparr>np_Meta := (np_Meta n)\<lparr>om_OwnerReferences := rs\<rparr>\<rparr>)"
| "with_owners rs (OServiceAccount m) = OServiceAccount (m\<lparr>om_OwnerReferences := rs\<rparr>)"
| "with_owners rs (ORole m r) = ORole (m\<lparr>om_OwnerReferences := rs\<rparr>) r"
| "with_owners rs (ORoleBinding m s r) = ORoleBinding (m\<lparr>om_OwnerReferences := rs\<rparr>) s r"
| "with_owners rs (OMiddleware m g s) = OMiddleware (m\<lparr>om_OwnerReferences := rs\<rparr>) g s"

lemma with_owners_frame [simp]:
  "obj_kind (with_owners rs obj) = obj_kind obj"
  "om_Name (obj_meta (with_owners rs obj)) = om_Name (obj_meta obj)"
  "om_Labels (obj_meta (with_owners rs obj)) = om_Labels (obj_meta obj)"
  by (cases obj; simp)+

definition new_owners :: "'w client \<Rightarrow> ObjectMeta \<Rightarrow> ('w, OwnerReference list) kube" where
  \<comment> \<open>\<open>controllerutil.SetControllerReference\<close>: it fails, or changes the owner references only\<close>
  "new_owners C m =
     bindr (gets r_app) (\<lambda>app.
     case k_SetControllerReference C app m of Inl e \<Rightarrow> raise (Api e) | Inr refs \<Rightarrow> ret refs)"

definition SetControllerReference :: "'w client \<Rightarrow> object \<Rightarrow> (object \<Rightarrow> ('w, 'a) kube) \<Rightarrow> ('w, 'a) kube" where
  \<comment> \<open>continues with the object that has the new owner references\<close>
  "SetControllerReference C obj f = bindr (new_owners C (obj_meta obj)) (\<lambda>refs. f (with_owners refs obj))"

definition put_app :: "App \<Rightarrow> ('w, unit) kube" where
  "put_app a = modify (\<lambda>s. s\<lparr>r_app := a\<rparr>)"

definition get_app :: "('w, App) kube" where
  "get_app = gets r_app"

definition mod_app :: "(App \<Rightarrow> App) \<Rightarrow> ('w, unit) kube" where
  "mod_app f = modify (\<lambda>s. s\<lparr>r_app := f (r_app s)\<rparr>)"

definition app_write :: "(App \<Rightarrow> bool \<Rightarrow> call) \<Rightarrow> (App \<Rightarrow> 'w \<Rightarrow> (api_error + App) \<times> 'w) \<Rightarrow> ('w, unit) kube" where
  \<comment> \<open>a write of the App: on success the client overwrites the object with the server's answer\<close>
  "app_write lg f =
     bindr get_app (\<lambda>app.
     bindr (world_op (f app)) (\<lambda>r.
     case r of
       Inl e \<Rightarrow> seqr (log_calls [lg app False]) (raise (Api e))
     | Inr a \<Rightarrow> seqr (log_calls [lg app True]) (put_app a)))"

definition UpdateApp :: "'w client \<Rightarrow> ('w, unit) kube" where
  "UpdateApp C = app_write CUpdateApp (k_UpdateApp C)"

definition PatchApp :: "'w client \<Rightarrow> App \<Rightarrow> ('w, unit) kube" where
  "PatchApp C old = app_write CPatchApp (k_PatchApp C old)"

definition StatusUpdate :: "'w client \<Rightarrow> ('w, unit) kube" where
  "StatusUpdate C = app_write CStatusUpdate (k_StatusUpdate C)"

definition fail_on :: "api_error option \<Rightarrow> ('w, unit) kube" where
  \<comment> \<open>\<open>if err != nil { return err }\<close>\<close>
  "fail_on e = (case e of None \<Rightarrow> ret () | Some x \<Rightarrow> raise (Api x))"

definition or_fail :: "api_error + 'a \<Rightarrow> ('w, 'a) kube" where
  "or_fail r = (case r of Inl e \<Rightarrow> raise (Api e) | Inr x \<Rightarrow> ret x)"

definition ignoring :: "api_error \<Rightarrow> api_error option \<Rightarrow> api_error option" where
  \<comment> \<open>\<open>client.IgnoreNotFound\<close> and \<open>!apierrors.IsAlreadyExists\<close>\<close>
  "ignoring x e = (if e = Some x then None else e)"

definition record_app :: "'w client \<Rightarrow> env \<Rightarrow> ('w, unit) kube" where
  \<comment> \<open>\<open>r.Metrics.RecordApp(app, ...)\<close> as every caller calls it\<close>
  "record_app C E = (\<lambda>s.
     let app = r_app s; cfg = e_Config E;
         (m, ops) = RecordApp app (buildDeadlineSeconds cfg app) (alertThresholdsFrom app) (effectiveScheduledThreshold cfg app) (r_metrics s)
     in (Inr (), s\<lparr>r_metrics := m, r_calls := r_calls s @ map CMetric ops\<rparr>))"

definition record_terminal :: "('w, unit) kube" where
  "record_terminal = (\<lambda>s. let (m, ops) = RecordTerminalBuild (r_app s) (r_metrics s)
     in (Inr (), s\<lparr>r_metrics := m, r_calls := r_calls s @ map CMetric ops\<rparr>))"

definition forget_app :: "string \<Rightarrow> string \<Rightarrow> ('w, unit) kube" where
  "forget_app ns nm = (\<lambda>s. let (m, ops) = ForgetApp ns nm (r_metrics s)
     in (Inr (), s\<lparr>r_metrics := m, r_calls := r_calls s @ map CMetric ops\<rparr>))"

definition capture :: "'w client \<Rightarrow> TerminalFailure \<Rightarrow> ('w, unit) kube" where
  \<comment> \<open>\<open>r.Sentry.CaptureTerminalFailure\<close>; the limiter reads its clock only when there is a reporter\<close>
  "capture C f = (\<lambda>s. case r_sentry s of
      None \<Rightarrow> (Inr (), s)
    | Some l \<Rightarrow>
        (case k_now C (r_world s) of (t, w) \<Rightarrow>
           let (evs, l') = CaptureTerminalFailure t f (Some l)
           in (Inr (), s\<lparr>r_world := w, r_sentry := l', r_calls := r_calls s @ map CSentry evs\<rparr>)))"

fun for_each :: "'a list \<Rightarrow> ('a \<Rightarrow> ('w, unit) kube) \<Rightarrow> ('w, unit) kube" where
  "for_each [] f = ret ()"
| "for_each (x # xs) f = seqr (f x) (for_each xs f)"

fun harvest :: "'a list \<Rightarrow> ('a \<Rightarrow> ('w, bool) kube) \<Rightarrow> ('w, 'a list) kube" where
  \<comment> \<open>a loop that appends the items its body accepts to a result slice\<close>
  "harvest [] f = ret []"
| "harvest (x # xs) f =
     bindr (f x) (\<lambda>b. bindr (harvest xs f) (\<lambda>ys. ret (if b then x # ys else ys)))"

section \<open>Which calls a step may make\<close>

definition emits :: "(call \<Rightarrow> bool) \<Rightarrow> ('w, 'a) kube \<Rightarrow> bool" where
  "emits P m \<longleftrightarrow> (\<forall>s. \<exists>cs. r_calls (snd (m s)) = r_calls s @ cs \<and> list_all P cs)"

definition keeps :: "(App \<Rightarrow> 'b) \<Rightarrow> ('w, 'a) kube \<Rightarrow> bool" where
  \<comment> \<open>an aspect of the App a step does not change\<close>
  "keeps f m \<longleftrightarrow> (\<forall>s. f (r_app (snd (m s))) = f (r_app s))"

named_theorems emits_intros
named_theorems keeps_intros

lemma emitsE:
  assumes "emits P m" "m s = (r, s')"
  obtains cs where "r_calls s' = r_calls s @ cs" "list_all P cs"
proof -
  from assms(1) obtain cs where "r_calls (snd (m s)) = r_calls s @ cs" "list_all P cs"
    unfolding emits_def by blast
  with assms(2) that show thesis by simp
qed

lemma emits_weaken: "emits P m \<Longrightarrow> (\<And>c. P c \<Longrightarrow> Q c) \<Longrightarrow> emits Q m"
  unfolding emits_def by (metis list_all_iff)

lemma emits_ret [emits_intros]: "emits P (ret x)"
  by (simp add: emits_def ret_def)

lemma emits_raise [emits_intros]: "emits P (raise e)"
  by (simp add: emits_def raise_def)

lemma emits_gets [emits_intros]: "emits P (gets f)"
  by (simp add: emits_def gets_def)

lemma emits_bindr [emits_intros]:
  assumes "emits P m" "\<And>x. emits P (f x)"
  shows "emits P (bindr m f)"
  unfolding emits_def
proof
  fix s
  obtain r t where m: "m s = (r, t)" by (cases "m s")
  obtain cs where cs: "r_calls t = r_calls s @ cs" "list_all P cs" by (rule emitsE [OF assms(1) m])
  show "\<exists>cs. r_calls (snd (bindr m f s)) = r_calls s @ cs \<and> list_all P cs"
  proof (cases r)
    case (Inl e)
    with m cs show ?thesis by (simp add: bindr_def)
  next
    case (Inr x)
    obtain r' t' where f: "f x t = (r', t')" by (cases "f x t")
    obtain ds where "r_calls t' = r_calls t @ ds" "list_all P ds" by (rule emitsE [OF assms(2) f])
    with cs Inr m f show ?thesis by (auto simp: bindr_def intro!: exI [of _ "cs @ ds"])
  qed
qed

lemma emits_seqr [emits_intros]: "emits P m \<Longrightarrow> emits P n \<Longrightarrow> emits P (seqr m n)"
  by (simp add: seqr_def emits_bindr)

lemma emits_tryr [emits_intros]: "emits P m \<Longrightarrow> emits P (tryr m)"
  by (simp add: emits_def tryr_def case_prod_beta)

lemma emits_world_op [emits_intros]: "emits P (world_op f)"
  by (simp add: emits_def world_op_def case_prod_beta)

lemma emits_log [emits_intros]: "list_all P cs \<Longrightarrow> emits P (log_calls cs)"
  by (simp add: emits_def log_calls_def modify_def)

lemma emits_app_state [emits_intros]:
  "emits P (put_app a)" "emits P get_app" "emits P (mod_app f)" "emits P (now C)"
  by (simp_all add: emits_def put_app_def get_app_def mod_app_def modify_def gets_def now_def world_op_def case_prod_beta)

lemma emits_modify [emits_intros]: "(\<And>s. r_calls (f s) = r_calls s) \<Longrightarrow> emits P (modify f)"
  by (simp add: emits_def modify_def)

lemma emits_case_option [emits_intros]:
  "emits P a \<Longrightarrow> (\<And>x. emits P (f x)) \<Longrightarrow> emits P (case_option a f v)"
  by (cases v) simp_all

lemma emits_case_sum [emits_intros]:
  "(\<And>x. emits P (f x)) \<Longrightarrow> (\<And>x. emits P (g x)) \<Longrightarrow> emits P (case_sum f g v)"
  by (cases v) simp_all

lemma emits_case_prod [emits_intros]: "(\<And>x y. emits P (f x y)) \<Longrightarrow> emits P (case_prod f v)"
  by (cases v) simp

lemma emits_if [emits_intros]: "(b \<Longrightarrow> emits P m) \<Longrightarrow> (\<not> b \<Longrightarrow> emits P n) \<Longrightarrow> emits P (if b then m else n)"
  by simp

lemma emits_for_each [emits_intros]: "(\<And>x. emits P (f x)) \<Longrightarrow> emits P (for_each xs f)"
  by (induction xs) (simp_all add: emits_ret emits_seqr)

lemma emits_for_each_in: "(\<And>x. x \<in> set xs \<Longrightarrow> emits P (f x)) \<Longrightarrow> emits P (for_each xs f)"
  by (induction xs) (simp_all add: emits_ret emits_seqr)

lemma emits_harvest [emits_intros]: "(\<And>x. emits P (f x)) \<Longrightarrow> emits P (harvest xs f)"
  by (induction xs) (auto intro!: emits_intros)

lemma emits_new_owners [emits_intros]: "emits P (new_owners C m)"
  by (auto simp: new_owners_def intro!: emits_intros)

lemma emits_SetControllerReference [emits_intros]:
  "(\<And>rs. emits P (f (with_owners rs obj))) \<Longrightarrow> emits P (SetControllerReference C obj f)"
  by (auto simp: SetControllerReference_def intro!: emits_intros)

lemma emits_fail_on [emits_intros]: "emits P (fail_on e)" "emits P (or_fail r)"
  by (simp_all add: fail_on_def or_fail_def emits_ret emits_raise split: option.split sum.split)

lemma emits_writes:
  "(\<And>e. P (CCreate obj e)) \<Longrightarrow> emits P (Create C obj)"
  "(\<And>e. P (CUpdate k om e)) \<Longrightarrow> emits P (Update C k om)"
  "(\<And>e. P (CApply obj e)) \<Longrightarrow> emits P (Apply C obj)"
  "(\<And>e. P (CDelete k ns nm e)) \<Longrightarrow> emits P (Delete C k ns nm)"
  "(\<And>e. P (CPatchJob job e)) \<Longrightarrow> emits P (PatchJob C old job)"
  "(\<And>r. P (CListJobs ls r)) \<Longrightarrow> emits P (ListJobs C ns ls)"
  by (auto simp: Create_def Update_def Apply_def Delete_def PatchJob_def ListJobs_def intro!: emits_intros)

lemma emits_app_write: "(\<And>a b. P (lg a b)) \<Longrightarrow> emits P (app_write lg f)"
  by (auto simp: app_write_def intro!: emits_intros)

lemma emits_records:
  "(\<And>op. P (CMetric op)) \<Longrightarrow> emits P (record_app C E)"
  "(\<And>op. P (CMetric op)) \<Longrightarrow> emits P record_terminal"
  "(\<And>op. P (CMetric op)) \<Longrightarrow> emits P (forget_app ns nm)"
  "(\<And>ev. P (CSentry ev)) \<Longrightarrow> emits P (capture C f)"
  by (auto simp: emits_def record_app_def record_terminal_def forget_app_def capture_def Let_def case_prod_beta
      list_all_iff split: option.split)

lemma keeps_bindr [keeps_intros]: "keeps g m \<Longrightarrow> (\<And>x. keeps g (f x)) \<Longrightarrow> keeps g (bindr m f)"
  unfolding keeps_def bindr_def by (auto split: prod.split sum.split) (metis snd_conv)+

lemma keeps_seqr [keeps_intros]: "keeps g m \<Longrightarrow> keeps g n \<Longrightarrow> keeps g (seqr m n)"
  by (simp add: seqr_def keeps_bindr)

lemma keeps_basic [keeps_intros]:
  "keeps g (ret x)" "keeps g (raise e)" "keeps g (gets h)" "keeps g (world_op k)" "keeps g (log_calls cs)" "keeps g get_app" "keeps g (now C)"
  by (simp_all add: keeps_def ret_def raise_def gets_def world_op_def log_calls_def modify_def get_app_def now_def case_prod_beta)

lemma keeps_mod_app [keeps_intros]: "(\<And>a. g (f a) = g a) \<Longrightarrow> keeps g (mod_app f)"
  by (simp add: keeps_def mod_app_def modify_def)

lemma keeps_tryr [keeps_intros]: "keeps g m \<Longrightarrow> keeps g (tryr m)"
  by (simp add: keeps_def tryr_def case_prod_beta)

lemma keeps_case [keeps_intros]:
  "keeps g a \<Longrightarrow> (\<And>x. keeps g (f x)) \<Longrightarrow> keeps g (case_option a f v)"
  "(\<And>x. keeps g (f1 x)) \<Longrightarrow> (\<And>x. keeps g (f2 x)) \<Longrightarrow> keeps g (case_sum f1 f2 v')"
  "(\<And>x y. keeps g (f3 x y)) \<Longrightarrow> keeps g (case_prod f3 v'')"
  "(b \<Longrightarrow> keeps g m) \<Longrightarrow> (\<not> b \<Longrightarrow> keeps g n) \<Longrightarrow> keeps g (if b then m else n)"
  by (auto split: option.split sum.split prod.split)

lemma keeps_for_each [keeps_intros]: "(\<And>x. keeps g (f x)) \<Longrightarrow> keeps g (for_each xs f)"
  by (induction xs) (simp_all add: keeps_intros)

lemma keeps_harvest [keeps_intros]: "(\<And>x. keeps g (f x)) \<Longrightarrow> keeps g (harvest xs f)"
  by (induction xs) (auto intro!: keeps_intros)

lemma keeps_SetControllerReference [keeps_intros]:
  "keeps g (new_owners C m)"
  "(\<And>rs. keeps g (f (with_owners rs obj))) \<Longrightarrow> keeps g (SetControllerReference C obj f)"
  by (auto simp: new_owners_def SetControllerReference_def intro!: keeps_intros)

lemma keeps_writes [keeps_intros]:
  "keeps g (Create C obj)" "keeps g (Update C k om)" "keeps g (Apply C obj)" "keeps g (Delete C k ns nm)"
  "keeps g (PatchJob C old job)" "keeps g (ListJobs C ns ls)" "keeps g (fail_on e)" "keeps g (or_fail r)"
  "keeps g (record_app C E)" "keeps g record_terminal" "keeps g (forget_app ns nm)" "keeps g (capture C tf)"
  by (auto simp: Create_def Update_def Apply_def Delete_def PatchJob_def ListJobs_def fail_on_def or_fail_def
      intro!: keeps_intros)
    (auto simp: keeps_def record_app_def record_terminal_def forget_app_def capture_def Let_def case_prod_beta split: option.split)

section \<open>Classes of calls\<close>

datatype call_class =
    ReadJobs
  | JobStart string
  | ChildWrite object_kind
  | JobDelete
  | ChildDelete object_kind
  | JobPatch
  | AppWrite
  | StatusWrite bool
  | Telemetry

definition job_role :: "Job \<Rightarrow> string" where
  "job_role j = map_get (om_Labels (j_Meta j)) roleLabel"

fun written :: "object \<Rightarrow> call_class" where
  "written (OJob j) = JobStart (job_role j)"
| "written obj = ChildWrite (obj_kind obj)"

fun class_of :: "call \<Rightarrow> call_class" where
  "class_of (CListJobs _ _) = ReadJobs"
| "class_of (CCreate obj _) = written obj"
| "class_of (CUpdate k _ _) = ChildWrite k"
| "class_of (CApply obj _) = written obj"
| "class_of (CDelete k _ _ _) = (if k = KJob then JobDelete else ChildDelete k)"
| "class_of (CUpdateApp _ _) = AppWrite"
| "class_of (CPatchApp _ _) = AppWrite"
| "class_of (CPatchJob _ _) = JobPatch"
| "class_of (CStatusUpdate _ ok) = StatusWrite ok"
| "class_of (CMetric _) = Telemetry"
| "class_of (CSentry _) = Telemetry"
| "class_of (CEvent _) = Telemetry"

lemma written_with_owners [simp]: "written (with_owners rs obj) = written obj"
  by (cases obj) (simp_all add: job_role_def)

abbreviation confined :: "call_class set \<Rightarrow> ('w, 'a) kube \<Rightarrow> bool" where
  "confined S m \<equiv> emits (\<lambda>c. class_of c \<in> S) m"

lemma confined_mono: "confined S m \<Longrightarrow> S \<subseteq> T \<Longrightarrow> confined T m"
  by (erule emits_weaken) auto

lemma status_write_in: "StatusWrite True \<in> S \<Longrightarrow> StatusWrite False \<in> S \<Longrightarrow> StatusWrite b \<in> S"
  by (cases b) simp_all

lemma confined_writes [emits_intros]:
  "written obj \<in> S \<Longrightarrow> confined S (Create C obj)"
  "ChildWrite k \<in> S \<Longrightarrow> confined S (Update C k om)"
  "written obj \<in> S \<Longrightarrow> confined S (Apply C obj)"
  "(if k = KJob then JobDelete else ChildDelete k) \<in> S \<Longrightarrow> confined S (Delete C k ns nm)"
  "JobPatch \<in> S \<Longrightarrow> confined S (PatchJob C old job)"
  "ReadJobs \<in> S \<Longrightarrow> confined S (ListJobs C ns ls)"
  "AppWrite \<in> S \<Longrightarrow> confined S (UpdateApp C)"
  "AppWrite \<in> S \<Longrightarrow> confined S (PatchApp C before)"
  "StatusWrite True \<in> S \<Longrightarrow> StatusWrite False \<in> S \<Longrightarrow> confined S (StatusUpdate C)"
  "Telemetry \<in> S \<Longrightarrow> confined S (record_app C E)"
  "Telemetry \<in> S \<Longrightarrow> confined S record_terminal"
  "Telemetry \<in> S \<Longrightarrow> confined S (forget_app ns nm)"
  "Telemetry \<in> S \<Longrightarrow> confined S (capture C tf)"
  by (simp_all add: emits_writes emits_records UpdateApp_def PatchApp_def StatusUpdate_def emits_app_write status_write_in)

section \<open>Properties of the call sequence\<close>

text \<open>
  \<open>obeys G m\<close>: the calls of every run of \<open>m\<close>, whatever its outcome, form a sequence with \<open>G\<close>. A property
  of sequences that holds of the empty one and is kept by concatenation (the locale \<open>call_discipline\<close>)
  is inherited by a handler from its steps.
\<close>

definition obeys :: "(call list \<Rightarrow> bool) \<Rightarrow> ('w, 'a) kube \<Rightarrow> bool" where
  "obeys G m \<longleftrightarrow> (\<forall>s. \<exists>cs. r_calls (snd (m s)) = r_calls s @ cs \<and> G cs)"

named_theorems obeys_intros

lemma obeysE:
  assumes "obeys G m" "m s = (r, s')"
  obtains cs where "r_calls s' = r_calls s @ cs" "G cs"
proof -
  from assms(1) obtain cs where "r_calls (snd (m s)) = r_calls s @ cs" "G cs"
    unfolding obeys_def by blast
  with assms(2) that show thesis by simp
qed

lemma emits_obeys: "emits P m \<longleftrightarrow> obeys (list_all P) m"
  by (simp add: emits_def obeys_def)

lemma confined_obeys:
  assumes "confined S m" "\<And>cs. list_all (\<lambda>c. class_of c \<in> S) cs \<Longrightarrow> G cs"
  shows "obeys G m"
  using assms unfolding emits_def obeys_def by blast

lemma obeys_cases:
  "obeys G a \<Longrightarrow> (\<And>x. obeys G (f x)) \<Longrightarrow> obeys G (case_option a f v)"
  "(\<And>x. obeys G (f1 x)) \<Longrightarrow> (\<And>x. obeys G (f2 x)) \<Longrightarrow> obeys G (case_sum f1 f2 v')"
  "(\<And>x y. obeys G (f3 x y)) \<Longrightarrow> obeys G (case_prod f3 v'')"
  "(b \<Longrightarrow> obeys G m) \<Longrightarrow> (\<not> b \<Longrightarrow> obeys G n) \<Longrightarrow> obeys G (if b then m else n)"
  by (auto split: option.split sum.split prod.split)

locale call_discipline =
  fixes G :: "call list \<Rightarrow> bool"
  assumes nil: "G []"
    and append: "G xs \<Longrightarrow> G ys \<Longrightarrow> G (xs @ ys)"
begin

lemma obeys_silent:
  "obeys G (ret x)" "obeys G (raise e)" "obeys G (gets f)" "obeys G (world_op k)" "obeys G (put_app a)"
  "obeys G get_app" "obeys G (mod_app h)" "obeys G (now C)" "obeys G (fail_on er)" "obeys G (or_fail rs)"
  using nil
  by (auto intro!: confined_obeys [where S = "{}"] emits_intros simp: list_all_iff elim: list.set_cases)

lemma obeys_bindr:
  assumes "obeys G m" "\<And>x. obeys G (f x)"
  shows "obeys G (bindr m f)"
  unfolding obeys_def
proof
  fix s
  obtain r t where m: "m s = (r, t)" by (cases "m s")
  obtain cs where cs: "r_calls t = r_calls s @ cs" "G cs" by (rule obeysE [OF assms(1) m])
  show "\<exists>cs. r_calls (snd (bindr m f s)) = r_calls s @ cs \<and> G cs"
  proof (cases r)
    case (Inl e)
    with m cs show ?thesis by (simp add: bindr_def)
  next
    case (Inr x)
    obtain r' t' where f: "f x t = (r', t')" by (cases "f x t")
    obtain ds where "r_calls t' = r_calls t @ ds" "G ds" by (rule obeysE [OF assms(2) f])
    with cs Inr m f show ?thesis by (auto simp: bindr_def intro!: exI [of _ "cs @ ds"] append)
  qed
qed

lemma obeys_seqr: "obeys G m \<Longrightarrow> obeys G n \<Longrightarrow> obeys G (seqr m n)"
  by (simp add: seqr_def obeys_bindr)

lemmas steps = obeys_silent obeys_bindr obeys_seqr obeys_cases [where G = G]

end

interpretation confined_calls: call_discipline "list_all (\<lambda>c. class_of c \<in> S)" for S
  by unfold_locales simp_all

section \<open>An example server\<close>

definition sample_client :: "unit client" where
  \<comment> \<open>an empty cluster that accepts every write\<close>
  "sample_client = \<lparr>
     k_now = (\<lambda>w. (1700000000 * Second, w)),
     k_GetApp = (\<lambda>_ _ w. (Inr sample_app, w)),
     k_GetJob = (\<lambda>_ _ w. (Inl NotFound, w)),
     k_GetPVC = (\<lambda>_ _ w. (Inl NotFound, w)),
     k_GetSecret = (\<lambda>_ _ w. (Inl NotFound, w)),
     k_GetSecretData = (\<lambda>_ _ w. (Inl NotFound, w)),
     k_GetSecretMeta = (\<lambda>_ _ w. (Inl NotFound, w)),
     k_GetStorageClass = (\<lambda>_ w. (Inr (Some ''WaitForFirstConsumer''), w)),
     k_GetObject = (\<lambda>_ _ _ w. (Inl NotFound, w)),
     k_ListJobs = (\<lambda>_ _ w. (Inr [], w)),
     k_ListPods = (\<lambda>_ _ w. (Inr [], w)),
     k_ListApps = (\<lambda>_ w. (Inr [sample_app], w)),
     k_Create = (\<lambda>_ w. (None, w)),
     k_Update = (\<lambda>_ _ w. (None, w)),
     k_Apply = (\<lambda>_ w. (None, w)),
     k_Delete = (\<lambda>_ _ _ w. (None, w)),
     k_UpdateApp = (\<lambda>a w. (Inr a, w)),
     k_PatchApp = (\<lambda>_ a w. (Inr a, w)),
     k_PatchJob = (\<lambda>_ _ w. (None, w)),
     k_StatusUpdate = (\<lambda>a w. (Inr a, w)),
     k_SetControllerReference = (\<lambda>a _. Inr [\<lparr>or_UID = app_UID a, or_Controller = Some True\<rparr>]),
     k_GVKForObject = (\<lambda>_. None),
     k_GetControllerOf = (\<lambda>m. find (\<lambda>r. or_Controller r = Some True) (om_OwnerReferences m)),
     k_ContainsFinalizer = (\<lambda>fs f. f \<in> set fs),
     k_AddFinalizer = (\<lambda>fs f. fs @ [f]),
     k_RemoveFinalizer = (\<lambda>fs f. filter (\<lambda>x. x \<noteq> f) fs),
     k_ParseQuantity = Some,
     k_QuantityValue = (\<lambda>_. 1)\<rparr>"

definition sample_env :: env where
  "sample_env = \<lparr>e_Config = sample_config, e_StorageClassName = ''local'', e_TraefikNamespace = ''traefik'',
     e_OperatorNamespace = ''baker'', e_Recorder = True, e_Text = (\<lambda>_. ''rejected'')\<rparr>"

definition sample_state :: "App \<Rightarrow> unit rstate" where
  "sample_state app = \<lparr>r_world = (), r_app = app, r_metrics = [], r_sentry = None,
     r_gitSourceMissing = False, r_calls = []\<rparr>"

end
