(* ===== verification/Measure.thy ===== *)
theory Measure
  imports Kube_Client
begin

text \<open>
  \<open>internal/controller/measure.go\<close>, and the reads of Jobs and pods it shares with the build and
  cleanup handlers (\<open>buildActive\<close>, \<open>findBuildPod\<close> and the search for the latest terminated container
  of a Job): the du Jobs that measure the two cache volumes, the harvest of their results into
  \<open>status.storage\<close>, and the record of the provisioned capacities.
\<close>

section \<open>Reading Jobs and pods\<close>

definition buildActive :: "'w client \<Rightarrow> ('w, bool \<times> string) kube" where
  "buildActive C =
     bindr get_app (\<lambda>app.
     bindr (ListJobs C (app_Namespace app) (buildLabelsFor app)) (\<lambda>r.
     bindr (or_fail r) (\<lambda>jobs.
     ret (case find (\<lambda>j. jobFinished j = None) jobs of
            Some j \<Rightarrow> (True, om_Name (j_Meta j))
          | None \<Rightarrow> (False, '''')))))"

definition findBuildPod :: "'w client \<Rightarrow> Job \<Rightarrow> ('w, Pod option) kube" where
  "findBuildPod C job =
     bindr get_app (\<lambda>app.
     bindr (world_op (k_ListPods C (app_Namespace app) (buildLabelsFor app))) (\<lambda>r.
     case r of
       Inl _ \<Rightarrow> ret None
     | Inr pods \<Rightarrow> ret (find (\<lambda>p. ownedByJob p job) pods)))"

definition terminated_containers :: "string \<Rightarrow> Job \<Rightarrow> Pod list \<Rightarrow> (Pod \<times> ContainerStateTerminated) list" where
  "terminated_containers name job pods =
     concat (map (\<lambda>p. concat (map (\<lambda>cs.
         case cstat_Terminated cs of Some t \<Rightarrow> if cstat_Name cs = name then [(p, t)] else [] | None \<Rightarrow> [])
       (p_ContainerStatuses p))) (filter (\<lambda>p. ownedByJob p job) pods))"

definition later_terminated ::
  "Pod \<times> ContainerStateTerminated \<Rightarrow> (Pod \<times> ContainerStateTerminated) option \<Rightarrow> (Pod \<times> ContainerStateTerminated) option" where
  "later_terminated x chosen =
     (case chosen of
        None \<Rightarrow> Some x
      | Some y \<Rightarrow> if cst_FinishedAt (snd y) < cst_FinishedAt (snd x) then Some x else Some y)"

definition latest_terminated :: "string \<Rightarrow> Job \<Rightarrow> Pod list \<Rightarrow> (Pod \<times> ContainerStateTerminated) option" where
  \<comment> \<open>the selection loop of \<open>readMeasurement\<close>, \<open>readCleanupResult\<close> and \<open>applyCopierTermination\<close>\<close>
  "latest_terminated name job pods = fold later_terminated (terminated_containers name job pods) None"

section \<open>Measurement Jobs\<close>

abbreviation measureRole where "measureRole \<equiv> ''measure''"
abbreviation measureRoleLabel where "measureRoleLabel \<equiv> ''baker.toggle-corp.com/role''"
abbreviation measureVolumeLabel where "measureVolumeLabel \<equiv> ''baker.toggle-corp.com/measure-volume''"
abbreviation measureContainerName where "measureContainerName \<equiv> ''du''"
abbreviation measureTargetPath where "measureTargetPath \<equiv> ''/target''"

record measureTarget =
  mt_key :: string
  mt_suffix :: string
  mt_pvcName :: string
  mt_volName :: string

definition measureTargets :: "App \<Rightarrow> measureTarget list" where
  "measureTargets app =
     [\<lparr>mt_key = ''cache'', mt_suffix = ''cache'', mt_pvcName = cacheePVCName app, mt_volName = volCache\<rparr>,
      \<lparr>mt_key = ''dataCache'', mt_suffix = ''data'', mt_pvcName = dataCachePVCName app, mt_volName = volData\<rparr>]"

definition measureJobName :: "App \<Rightarrow> string \<Rightarrow> string" where
  "measureJobName app suffix = app_Name app @ ''-measure-'' @ suffix"

definition measureLabelsFor :: "App \<Rightarrow> string gomap" where
  "measureLabelsFor app = AList.update measureRoleLabel measureRole (labelsFor app)"

definition MeasureJob :: "OperatorConfig \<Rightarrow> App \<Rightarrow> measureTarget \<Rightarrow> Job" where
  "MeasureJob cfg app m =
     (let labels = AList.update measureVolumeLabel (mt_key m) (measureLabelsFor app)
      in \<lparr>j_Meta = new_meta (measureJobName app (mt_suffix m)) (app_Namespace app) labels,
          j_BackoffLimit = Some 0,
          j_ActiveDeadlineSeconds = Some 600,
          j_TTLSecondsAfterFinished = Some 300,
          j_TemplateLabels = labels,
          j_PodSpec = \<lparr>
            pod_RestartPolicy = ''Never'', pod_AutomountServiceAccountToken = Some False, pod_ServiceAccountName = '''',
            pod_RunAsNonRoot = Some True, pod_SeccompProfile = Some RuntimeDefault,
            pod_InitContainers = [],
            pod_Containers = [empty_container\<lparr>c_Name := measureContainerName, c_Image := img_Du (cfg_Images cfg),
              c_Env := [env_lit ''TARGET'' measureTargetPath],
              c_VolumeMounts := [mount_ro (mt_volName m) measureTargetPath],
              c_SecurityContext := Some hardenedSecurityContext\<rparr>],
            pod_Volumes = [volume (mt_volName m) (PersistentVolumeClaim (mt_pvcName m) True)],
            pod_ImagePullSecrets = pull_secrets cfg, pod_NodeName = ''''\<rparr>,
          j_Conditions = []\<rparr>)"

definition measureInterval :: "OperatorConfig \<Rightarrow> duration" where
  "measureInterval cfg = (if cfg_MeasureInterval cfg > 0 then cfg_MeasureInterval cfg else Hour)"

definition create_owned :: "'w client \<Rightarrow> Job \<Rightarrow> ('w, unit) kube" where
  \<comment> \<open>\<open>SetControllerReference\<close>, then \<open>Create\<close> with \<open>AlreadyExists\<close> accepted\<close>
  "create_owned C job =
     SetControllerReference C (OJob job) (\<lambda>obj.
     bindr (Create C obj) (\<lambda>e. fail_on (ignoring AlreadyExists e)))"

definition maybeStartMeasurement :: "'w client \<Rightarrow> env \<Rightarrow> time option \<Rightarrow> ('w, unit) kube" where
  "maybeStartMeasurement C E prevMeasuredAt =
     bindr (case prevMeasuredAt of
              None \<Rightarrow> ret True
            | Some t \<Rightarrow> bindr (now C) (\<lambda>n. ret (\<not> time_Sub n t < measureInterval (e_Config E)))) (\<lambda>due.
     if \<not> due then ret ()
     else
       bindr (buildActive C) (\<lambda>a.
       if fst a then ret ()
       else bindr get_app (\<lambda>app.
         for_each (measureTargets app) (\<lambda>m. create_owned C (MeasureJob (e_Config E) app m)))))"

section \<open>Harvest\<close>

definition recordSize :: "'w client \<Rightarrow> string \<Rightarrow> int \<Rightarrow> ('w, unit) kube" where
  "recordSize C ky bytes =
     bindr get_app (\<lambda>app.
     let prev = map_of (stor_Sizes (st_Storage (app_Status app))) ky
     in if prev = Some bytes then ret ()
        else
          seqr (case prev of
                  None \<Rightarrow> ret ()
                | Some p \<Rightarrow> mod_app (upd_storage (\<lambda>s. s\<lparr>stor_LastRunDeltas :=
                    AList.update ky (wrap64 (bytes - p)) (stor_LastRunDeltas s)\<rparr>)))
          (seqr (mod_app (upd_storage (\<lambda>s. s\<lparr>stor_Sizes := AList.update ky bytes (stor_Sizes s)\<rparr>)))
          (bindr (now C) (\<lambda>t.
           mod_app (upd_storage (\<lambda>s. s\<lparr>stor_MeasuredAt := Some t\<rparr>))))))"

definition readMeasurement :: "'w client \<Rightarrow> Job \<Rightarrow> ('w, int option) kube" where
  \<comment> \<open>\<^const>\<open>None\<close> is \<open>ok = false\<close>\<close>
  "readMeasurement C job =
     bindr get_app (\<lambda>app.
     bindr (world_op (k_ListPods C (app_Namespace app) (measureLabelsFor app))) (\<lambda>r.
     ret (case r of
            Inl _ \<Rightarrow> None
          | Inr pods \<Rightarrow>
              (case latest_terminated measureContainerName job pods of
                 None \<Rightarrow> None
               | Some (_, t) \<Rightarrow>
                   (case ParseInt (TrimSpace (cst_Message t)) of
                      None \<Rightarrow> None
                    | Some n \<Rightarrow> if n < 0 then None else Some n)))))"

definition observe_measure_job :: "'w client \<Rightarrow> Job \<Rightarrow> ('w, bool) kube" where
  \<comment> \<open>the loop body of \<open>observeMeasurement\<close>: whether the Job is harvested\<close>
  "observe_measure_job C job =
     (case jobFinished job of
        None \<Rightarrow> ret False
      | Some cond \<Rightarrow>
          if jc_Type cond \<noteq> JobComplete then ret False
          else let ky = map_get (om_Labels (j_Meta job)) measureVolumeLabel
               in if ky = '''' then ret False
                  else bindr (readMeasurement C job) (\<lambda>m.
                    case m of
                      None \<Rightarrow> ret False
                    | Some bytes \<Rightarrow> seqr (recordSize C ky bytes) (ret True)))"

definition observeMeasurement :: "'w client \<Rightarrow> ('w, Job list) kube" where
  "observeMeasurement C =
     bindr get_app (\<lambda>app.
     bindr (ListJobs C (app_Namespace app) (measureLabelsFor app)) (\<lambda>r.
     bindr (or_fail r) (\<lambda>jobs. harvest jobs (observe_measure_job C))))"

definition pvc_capacity :: "'w client \<Rightarrow> string \<times> string \<Rightarrow> int gomap \<Rightarrow> ('w, int gomap) kube" where
  \<comment> \<open>the loop body of \<open>recordPVCCapacities\<close>\<close>
  "pvc_capacity C target caps =
     bindr get_app (\<lambda>app.
     bindr (world_op (k_GetPVC C (app_Namespace app) (snd target))) (\<lambda>r.
     ret (case r of
            Inl _ \<Rightarrow> caps
          | Inr claim \<Rightarrow>
              (case pvc_Capacity claim of
                 None \<Rightarrow> caps
               | Some q \<Rightarrow> if k_QuantityValue C q > 0 then AList.update (fst target) (k_QuantityValue C q) caps else caps))))"

definition recordPVCCapacities :: "'w client \<Rightarrow> ('w, unit) kube" where
  \<comment> \<open>Go visits the three targets in an arbitrary order; each reads its own claim and writes its own key\<close>
  "recordPVCCapacities C =
     bindr get_app (\<lambda>app.
     bindr (pvc_capacity C (''cache'', cacheePVCName app) []) (\<lambda>c1.
     bindr (pvc_capacity C (''dataCache'', dataCachePVCName app) c1) (\<lambda>c2.
     bindr (pvc_capacity C (''output'', outputPVCName app) c2) (\<lambda>caps.
     if caps \<noteq> [] then mod_app (upd_storage (\<lambda>s. s\<lparr>stor_Capacities := caps\<rparr>)) else ret ()))))"

section \<open>Calls\<close>

lemma role_labels:
  "map_get (buildLabelsFor app) roleLabel = ''build''"
  "map_get (measureLabelsFor app) roleLabel = measureRole"
  by (simp_all add: buildLabelsFor_def measureLabelsFor_def)

lemma BuildJob_role [simp]: "job_role (BuildJob parseQ cfg app token gitCred) = ''build''"
  by (simp add: job_role_def BuildJob_def new_meta_def role_labels)

lemma MeasureJob_role [simp]: "job_role (MeasureJob cfg app m) = measureRole"
  by (simp add: job_role_def MeasureJob_def new_meta_def role_labels Let_def)

lemma confined_create_owned [emits_intros]: "JobStart (job_role job) \<in> S \<Longrightarrow> confined S (create_owned C job)"
  by (auto simp: create_owned_def job_role_def intro!: emits_intros)

lemma confined_reads [emits_intros]:
  "ReadJobs \<in> S \<Longrightarrow> confined S (buildActive C)"
  "confined S (findBuildPod C job)"
  "confined S (readMeasurement C job)"
  by (auto simp: buildActive_def findBuildPod_def readMeasurement_def intro!: emits_intros)

lemma confined_maybeStartMeasurement [emits_intros]:
  "ReadJobs \<in> S \<Longrightarrow> JobStart measureRole \<in> S \<Longrightarrow> confined S (maybeStartMeasurement C E t)"
  by (auto simp: maybeStartMeasurement_def intro!: emits_intros)

lemma confined_recordSize [emits_intros]: "confined S (recordSize C ky n)"
  by (auto simp: recordSize_def Let_def intro!: emits_intros)

lemma confined_observeMeasurement [emits_intros]: "ReadJobs \<in> S \<Longrightarrow> confined S (observeMeasurement C)"
  by (auto simp: observeMeasurement_def observe_measure_job_def Let_def intro!: emits_intros)

lemma confined_capacities [emits_intros]: "confined S (recordPVCCapacities C)"
  by (auto simp: recordPVCCapacities_def pvc_capacity_def intro!: emits_intros)

section \<open>Properties\<close>

lemma latest_terminated_Some:
  assumes "latest_terminated name job pods = Some x"
  shows "x \<in> set (terminated_containers name job pods)"
    and "\<forall>y\<in>set (terminated_containers name job pods). cst_FinishedAt (snd y) \<le> cst_FinishedAt (snd x)"
proof -
  have "fold later_terminated xs acc = Some x \<Longrightarrow>
      (x \<in> set xs \<or> acc = Some x) \<and> (\<forall>y\<in>set xs \<union> set_option acc. cst_FinishedAt (snd y) \<le> cst_FinishedAt (snd x))"
    for xs and acc :: "(Pod \<times> ContainerStateTerminated) option"
  proof (induction xs arbitrary: acc)
    case (Cons a xs)
    from Cons.IH [of "later_terminated a acc"] Cons.prems show ?case
      by (auto simp: later_terminated_def split: option.splits if_splits)
  qed auto
  from this [of _ None] assms
  show "x \<in> set (terminated_containers name job pods)"
    and "\<forall>y\<in>set (terminated_containers name job pods). cst_FinishedAt (snd y) \<le> cst_FinishedAt (snd x)"
    by (auto simp: latest_terminated_def)
qed

text \<open>Recording a measurement is idempotent and local: after it the size under its key is the
  measured one, every other size is as before, a changed size leaves the (wrapped) difference as the
  last delta, and reading the same result again changes nothing, not even the time of measurement.\<close>

theorem recordSize_idempotent:
  assumes "recordSize C k n s = (r, s')"
  shows "r = Inr () \<and> recordSize C k n s' = (Inr (), s') \<and>
    map_of (stor_Sizes (st_Storage (app_Status (r_app s')))) =
      (map_of (stor_Sizes (st_Storage (app_Status (r_app s)))))(k \<mapsto> n) \<and>
    (\<forall>p. map_of (stor_Sizes (st_Storage (app_Status (r_app s)))) k = Some p \<longrightarrow> p \<noteq> n \<longrightarrow>
       map_of (stor_LastRunDeltas (st_Storage (app_Status (r_app s')))) k = Some (wrap64 (n - p)))"
proof -
  have size: "map_of (stor_Sizes (st_Storage (app_Status (r_app s')))) =
      (map_of (stor_Sizes (st_Storage (app_Status (r_app s)))))(k \<mapsto> n)"
    using assms
    by (auto simp: recordSize_def get_app_def gets_def bindr_def seqr_def mod_app_def modify_def now_def world_op_def ret_def
        Let_def split: if_splits option.splits prod.splits)
  then have again: "recordSize C k n s' = (Inr (), s')"
    by (simp add: recordSize_def get_app_def gets_def bindr_def ret_def Let_def)
  have "r = Inr () \<and> (\<forall>p. map_of (stor_Sizes (st_Storage (app_Status (r_app s)))) k = Some p \<longrightarrow> p \<noteq> n \<longrightarrow>
       map_of (stor_LastRunDeltas (st_Storage (app_Status (r_app s')))) k = Some (wrap64 (n - p)))"
    using assms
    by (auto simp: recordSize_def get_app_def gets_def bindr_def seqr_def mod_app_def modify_def now_def world_op_def ret_def
        Let_def split: if_splits option.splits prod.splits)
  with size again show ?thesis by blast
qed

theorem recordSize_idempotent_witness:
  "let s = sample_state (upd_storage (\<lambda>st. st\<lparr>stor_Sizes := [(''cache'', 7), (''output'', 3)]\<rparr>) sample_app);
       s' = snd (recordSize sample_client ''cache'' 5 s)
   in recordSize sample_client ''cache'' 5 s' = (Inr (), s') \<and>
      map_of (stor_LastRunDeltas (st_Storage (app_Status (r_app s')))) ''cache'' = Some (- 2)"
proof -
  let ?s = "sample_state (upd_storage (\<lambda>st. st\<lparr>stor_Sizes := [(''cache'', 7), (''output'', 3)]\<rparr>) sample_app)"
  obtain r s' where run: "recordSize sample_client ''cache'' 5 ?s = (r, s')" by (cases "recordSize sample_client ''cache'' 5 ?s")
  from recordSize_idempotent [OF run] run show ?thesis
    by (simp add: sample_state_def int64_range_def)
qed

end
