(* ===== verification/Ensure.thy ===== *)
theory Ensure
  imports Kube_Client
begin

text \<open>
  \<open>internal/controller/ensure.go\<close> (except the copier message) and the effectful part of \<open>gitcred.go\<close>
  and \<open>gitauth_secret.go\<close>: converging the children of an App, reclaiming the ones no longer wanted,
  syncing the git credential, and the map from a Secret event to the Apps to reconcile.
\<close>

section \<open>Converging and reclaiming one object\<close>

definition upsert :: "'w client \<Rightarrow> object \<Rightarrow> ('w, unit) kube" where
  "upsert C obj =
     SetControllerReference C obj (\<lambda>o'.
     seqr (fail_on (k_GVKForObject C o'))
     (bindr (Apply C o') fail_on))"

definition owned_by_app :: "'w client \<Rightarrow> App \<Rightarrow> ObjectMeta \<Rightarrow> bool" where
  \<comment> \<open>\<open>ref := metav1.GetControllerOf(existing); ref != nil && ref.UID == app.UID\<close>\<close>
  "owned_by_app C app m =
     (case k_GetControllerOf C m of None \<Rightarrow> False | Some ref \<Rightarrow> or_UID ref = app_UID app)"

definition ensureExists :: "'w client \<Rightarrow> object \<Rightarrow> ('w, unit) kube" where
  "ensureExists C obj =
     bindr (world_op (k_GetObject C (obj_kind obj) (om_Namespace (obj_meta obj)) (om_Name (obj_meta obj)))) (\<lambda>r.
     case r of
       Inl e \<Rightarrow>
         if e \<noteq> NotFound then raise (Api e)
         else SetControllerReference C obj (\<lambda>o'. bindr (Create C o') fail_on)
     | Inr existing \<Rightarrow>
         bindr get_app (\<lambda>app.
         if owned_by_app C app existing then ret ()
         else bindr (new_owners C existing) (\<lambda>refs.
           bindr (Update C (obj_kind obj) (existing\<lparr>om_OwnerReferences := refs\<rparr>)) fail_on)))"

definition deleteOwnedChild :: "'w client \<Rightarrow> object_kind \<Rightarrow> string \<Rightarrow> string \<Rightarrow> ('w, unit) kube" where
  \<comment> \<open>the object is given by its kind and key, which is all the handler reads of it\<close>
  "deleteOwnedChild C k ns nm =
     bindr (world_op (k_GetObject C k ns nm)) (\<lambda>r.
     case r of
       Inl e \<Rightarrow> fail_on (ignoring NotFound (Some e))
     | Inr existing \<Rightarrow>
         bindr get_app (\<lambda>app.
         if \<not> owned_by_app C app existing then ret ()
         else bindr (Delete C k ns nm) (\<lambda>e. fail_on (ignoring NotFound e))))"

definition delete_child :: "'w client \<Rightarrow> object \<Rightarrow> ('w, unit) kube" where
  "delete_child C obj = deleteOwnedChild C (obj_kind obj) (om_Namespace (obj_meta obj)) (om_Name (obj_meta obj))"

section \<open>Infrastructure, triggers, serving\<close>

definition scheduled_on :: "App \<Rightarrow> bool" where
  "scheduled_on app = (case spec_ScheduledBuilds (app_Spec app) of None \<Rightarrow> False | Some sb \<Rightarrow> sb_Enabled sb)"

definition watch_on :: "App \<Rightarrow> bool" where
  "watch_on app = (case spec_WatchCommits (app_Spec app) of None \<Rightarrow> False | Some wc \<Rightarrow> wc_Enabled wc)"

definition trigger_shared :: "OperatorConfig \<Rightarrow> App \<Rightarrow> object list" where
  "trigger_shared cfg app =
     [clockServiceAccount app, clockRole app, clockRoleBinding app, ONetworkPolicy (triggerNetworkPolicy cfg app)]"

definition ensureTriggers :: "'w client \<Rightarrow> env \<Rightarrow> gitCredentialDecision \<Rightarrow> ('w, unit) kube" where
  "ensureTriggers C E gitCred =
     bindr get_app (\<lambda>app.
     seqr (for_each (trigger_shared (e_Config E) app)
             (\<lambda>obj. if scheduled_on app \<or> watch_on app then upsert C obj else delete_child C obj))
    (seqr (if \<not> scheduled_on app then deleteOwnedChild C KCronJob (app_Namespace app) (clockCronJobName app)
           else case clockCronJob (e_Config E) app of
                  None \<Rightarrow> raise Panic
                | Some cj \<Rightarrow> upsert C (OCronJob cj))
          (if \<not> watch_on app then deleteOwnedChild C KCronJob (app_Namespace app) (watchCronJobName app)
           else case watchCronJob (e_Config E) app gitCred of
                  None \<Rightarrow> raise Panic
                | Some (Inl e) \<Rightarrow> raise (WatchCommitsErr e)
                | Some (Inr cj) \<Rightarrow> upsert C (OCronJob cj))))"

definition ensureInfra :: "'w client \<Rightarrow> env \<Rightarrow> gitCredentialDecision \<Rightarrow> ('w, unit) kube" where
  "ensureInfra C E gitCred =
     bindr get_app (\<lambda>app.
     seqr (for_each [cacheePVCName app, dataCachePVCName app, outputPVCName app]
             (\<lambda>name. ensureExists C (OPVC (pvc app name (e_StorageClassName E)))))
    (seqr (ensureTriggers C E gitCred)
          (upsert C (ONetworkPolicy (buildNetworkPolicy (e_Config E) app)))))"

definition set_condition :: "'w client \<Rightarrow> string \<Rightarrow> string \<Rightarrow> string \<Rightarrow> string \<Rightarrow> ('w, unit) kube" where
  \<comment> \<open>\<open>r.setCondition(app, ...)\<close>, which stamps \<open>r.now()\<close>\<close>
  "set_condition C t status reason msg =
     bindr (now C) (\<lambda>n. mod_app (\<lambda>app. setCondition n app t status reason msg))"

definition validateIngress :: "'w client \<Rightarrow> ('w, unit) kube" where
  "validateIngress C =
     bindr get_app (\<lambda>app.
     let ok = set_condition C ConditionIngressReady ConditionTrue ReasonReady
                (if ing_TLS (spec_Ingress (app_Spec app)) = None \<and> spec_Auth (app_Spec app) = None
                 then ''WARNING: serving plaintext with no auth'' else ''ingress ready'')
     in case ing_TLS (spec_Ingress (app_Spec app)) of
          None \<Rightarrow> ok
        | Some tls \<Rightarrow>
            bindr (world_op (k_GetSecret C (app_Namespace app) (tls_SecretName tls))) (\<lambda>r.
            case r of
              Inl _ \<Rightarrow> set_condition C ConditionIngressReady ConditionFalse ReasonMissingTLSSecret
                         (''TLS secret '' @ tls_SecretName tls @ '' not found'')
            | Inr _ \<Rightarrow> ok))"

definition ensureServing :: "'w client \<Rightarrow> env \<Rightarrow> ('w, unit) kube" where
  "ensureServing C E =
     bindr get_app (\<lambda>app.
     seqr (upsert C (nginxConfigMap app))
    (seqr (upsert C (ODeployment (nginxDeployment (e_Config E) app)))
    (seqr (ensureExists C (service app))
    (seqr (case spec_Auth (app_Spec app) of
             None \<Rightarrow> ret ()
           | Some _ \<Rightarrow> upsert C (authMiddleware (e_Config E) app (middlewareName app @ ''-secret'')))
    (seqr (upsert C (OIngress (ingress app)))
    (seqr (upsert C (ONetworkPolicy (nginxNetworkPolicy app (e_TraefikNamespace E))))
    (seqr (validateIngress C)
          (mod_app (upd_status (\<lambda>st. st\<lparr>st_URL := ingressURL app\<rparr>))))))))))"

section \<open>Git credential\<close>

definition synced_meta :: "'w client \<Rightarrow> ('w, api_error + ObjectMeta) kube" where
  \<comment> \<open>the metadata-only read of the synced copy\<close>
  "synced_meta C = bindr get_app (\<lambda>app. world_op (k_GetSecretMeta C (app_Namespace app) (gitCredentialSecretName app)))"

definition deleteOwnedSyncedCopy :: "'w client \<Rightarrow> ('w, unit) kube" where
  "deleteOwnedSyncedCopy C =
     bindr (synced_meta C) (\<lambda>r.
     case r of
       Inl e \<Rightarrow> fail_on (ignoring NotFound (Some e))
     | Inr m \<Rightarrow>
         bindr get_app (\<lambda>app.
         if \<not> owned_by_app C app m then ret ()
         else bindr (Delete C KSecret (app_Namespace app) (gitCredentialSecretName app)) (\<lambda>e. fail_on (ignoring NotFound e))))"

definition existingSyncedCopy :: "'w client \<Rightarrow> ('w, bool) kube" where
  "existingSyncedCopy C = bindr (synced_meta C) (\<lambda>r. ret (case r of Inl _ \<Rightarrow> False | Inr _ \<Rightarrow> True))"

definition existingSyncedCopyHash :: "'w client \<Rightarrow> ('w, string option) kube" where
  "existingSyncedCopyHash C =
     bindr (synced_meta C) (\<lambda>r. ret (case r of Inl _ \<Rightarrow> None | Inr m \<Rightarrow> Some (map_get (om_Annotations m) gitCredHashAnnotation)))"

definition getSourceGitCredential :: "'w client \<Rightarrow> env \<Rightarrow> ('w, string gomap option) kube" where
  \<comment> \<open>\<^const>\<open>None\<close> is \<open>present = false\<close>\<close>
  "getSourceGitCredential C E =
     bindr (world_op (k_GetSecretData C (e_OperatorNamespace E) (ga_SecretName (cfg_GitAuth (e_Config E))))) (\<lambda>r.
     case r of
       Inl e \<Rightarrow> if e = NotFound then ret None else raise (Api e)
     | Inr src \<Rightarrow> if checkGitCredentialData (sec_Data src) \<noteq> None then ret None else ret (Some (sec_Data src)))"

definition source_missing :: "env \<Rightarrow> ('w, unit) kube" where
  \<comment> \<open>\<open>gitSourceMissing.CompareAndSwap(false, true)\<close> and the event of the transition\<close>
  "source_missing E =
     bindr (gets r_gitSourceMissing) (\<lambda>missing.
     if missing then ret ()
     else seqr (modify (\<lambda>s. s\<lparr>r_gitSourceMissing := True\<rparr>))
               (if e_Recorder E then log_calls [CEvent ''GitAuthSourceMissing''] else ret ()))"

definition reconcileGitCredential :: "'w client \<Rightarrow> env \<Rightarrow> ('w, gitCredentialDecision) kube" where
  "reconcileGitCredential C E =
     bindr get_app (\<lambda>app.
     let d = decideGitCredential app (cfg_GitAuth (e_Config E))
     in if \<not> gcd_syncCopy d then seqr (deleteOwnedSyncedCopy C) (ret d)
        else bindr (getSourceGitCredential C E) (\<lambda>src.
          case src of
            None \<Rightarrow>
              seqr (source_missing E)
             (bindr (existingSyncedCopy C) (\<lambda>ex. ret (if ex then d else no_credential)))
          | Some data \<Rightarrow>
              seqr (modify (\<lambda>s. s\<lparr>r_gitSourceMissing := False\<rparr>))
             (bindr (existingSyncedCopyHash C) (\<lambda>have.
              if have = Some (gitCredentialHash data) then ret d
              else seqr (upsert C (OSecret (syncedGitCredential app data))) (ret d)))))"

definition validateRepoAuthSecret :: "'w client \<Rightarrow> ('w, repo_auth_error option) kube" where
  "validateRepoAuthSecret C =
     bindr get_app (\<lambda>app.
     case spec_RepoAuth (app_Spec app) of
       None \<Rightarrow> ret None
     | Some ra \<Rightarrow>
         let name = rasr_Name (ra_SecretRef ra)
         in bindr (world_op (k_GetSecretData C (app_Namespace app) name)) (\<lambda>r.
            ret (case r of
                   Inl e \<Rightarrow> Some (if e = NotFound then RepoAuthNotFound name else RepoAuthApi e)
                 | Inr s \<Rightarrow> map_option (RepoAuthData name) (checkGitCredentialData (sec_Data s)))))"

definition mapSecretToApps :: "'w client \<Rightarrow> env \<Rightarrow> string \<Rightarrow> string \<Rightarrow> ('w, (string \<times> string) list) kube" where
  "mapSecretToApps C E ns nm =
     (let ga = cfg_GitAuth (e_Config E)
      in if GitAuth_Enabled ga \<and> ns = e_OperatorNamespace E \<and> nm = ga_SecretName ga
         then bindr (world_op (k_ListApps C None)) (\<lambda>r. ret (case r of
                Inl _ \<Rightarrow> []
              | Inr apps \<Rightarrow> map (\<lambda>a. (app_Namespace a, app_Name a)) apps))
         else bindr (world_op (k_ListApps C (Some ns))) (\<lambda>r. ret (case r of
                Inl _ \<Rightarrow> []
              | Inr apps \<Rightarrow> map (\<lambda>a. (app_Namespace a, app_Name a))
                  (filter (\<lambda>a. (case spec_RepoAuth (app_Spec a) of None \<Rightarrow> False | Some ra \<Rightarrow> rasr_Name (ra_SecretRef ra) = nm) \<or>
                               nm = gitCredentialSecretName a) apps))))"

datatype git_auth_startup_error = NoOperatorNamespace | GitAuthApi api_error | GitAuthData git_data_error

definition ValidateGitAuthSecret :: "(string \<Rightarrow> string \<Rightarrow> api_error + Secret) \<Rightarrow> string \<Rightarrow> GitAuth \<Rightarrow> git_auth_startup_error option" where
  \<comment> \<open>\<open>get\<close> is the reader's \<open>Get\<close> of a Secret\<close>
  "ValidateGitAuthSecret get ns ga =
     (if \<not> GitAuth_Enabled ga then None
      else if ns = '''' then Some NoOperatorNamespace
      else case get ns (ga_SecretName ga) of
        Inl e \<Rightarrow> Some (GitAuthApi e)
      | Inr s \<Rightarrow> map_option GitAuthData (checkGitCredentialData (sec_Data s)))"

section \<open>Calls\<close>

lemma confined_upsert [emits_intros]: "written obj \<in> S \<Longrightarrow> confined S (upsert C obj)"
  by (auto simp: upsert_def intro!: emits_intros)

lemma confined_set_condition [emits_intros]: "confined S (set_condition C t st re msg)"
  by (auto simp: set_condition_def intro!: emits_intros)

lemma confined_deleteOwnedChild [emits_intros]:
  "k \<noteq> KJob \<Longrightarrow> ChildDelete k \<in> S \<Longrightarrow> confined S (deleteOwnedChild C k ns nm)"
  by (auto simp: deleteOwnedChild_def intro!: emits_intros)

lemma confined_reconcileGitCredential [emits_intros]:
  "ChildWrite KSecret \<in> S \<Longrightarrow> ChildDelete KSecret \<in> S \<Longrightarrow> Telemetry \<in> S \<Longrightarrow>
   confined S (reconcileGitCredential C E)"
  unfolding reconcileGitCredential_def deleteOwnedSyncedCopy_def synced_meta_def getSourceGitCredential_def
    source_missing_def existingSyncedCopy_def existingSyncedCopyHash_def Let_def
  by (auto intro!: emits_intros)

lemma confined_validateRepoAuthSecret [emits_intros]: "confined S (validateRepoAuthSecret C)"
  by (auto simp: validateRepoAuthSecret_def Let_def intro!: emits_intros)

lemma confined_ensureExists [emits_intros]:
  "written obj = ChildWrite (obj_kind obj) \<Longrightarrow> ChildWrite (obj_kind obj) \<in> S \<Longrightarrow> confined S (ensureExists C obj)"
  by (auto simp: ensureExists_def intro!: emits_intros)

definition infra_kinds :: "object_kind set" where
  "infra_kinds = {KPVC, KServiceAccount, KRole, KRoleBinding, KNetworkPolicy, KCronJob}"

definition infra_classes :: "call_class set" where
  "infra_classes = ChildWrite ` infra_kinds \<union> ChildDelete ` infra_kinds"

definition serving_kinds :: "object_kind set" where
  "serving_kinds = {KConfigMap, KDeployment, KService, KMiddleware, KIngress}"

lemma infra_in [simp]:
  "infra_classes \<subseteq> S \<Longrightarrow> k \<in> infra_kinds \<Longrightarrow> ChildWrite k \<in> S"
  "infra_classes \<subseteq> S \<Longrightarrow> k \<in> infra_kinds \<Longrightarrow> ChildDelete k \<in> S"
  by (auto simp: infra_classes_def)

lemma trigger_shared_kinds:
  "obj \<in> set (trigger_shared cfg app) \<Longrightarrow>
     written obj = ChildWrite (obj_kind obj) \<and> obj_kind obj \<in> infra_kinds \<and> obj_kind obj \<noteq> KJob"
  by (auto simp: trigger_shared_def clockServiceAccount_def clockRole_def clockRoleBinding_def infra_kinds_def)

lemma confined_ensureTriggers [emits_intros]: "infra_classes \<subseteq> S \<Longrightarrow> confined S (ensureTriggers C E d)"
  unfolding ensureTriggers_def
  by (intro emits_intros emits_for_each_in)
    (auto simp: delete_child_def infra_kinds_def dest!: trigger_shared_kinds intro!: emits_intros)

lemma confined_ensureInfra [emits_intros]: "infra_classes \<subseteq> S \<Longrightarrow> confined S (ensureInfra C E d)"
  unfolding ensureInfra_def
  by (intro emits_intros) (auto simp: infra_kinds_def intro!: emits_intros)

lemma confined_ensureServing [emits_intros]:
  "ChildWrite ` serving_kinds \<subseteq> S \<Longrightarrow> ChildWrite KNetworkPolicy \<in> S \<Longrightarrow> confined S (ensureServing C E)"
  unfolding ensureServing_def validateIngress_def Let_def
  by (intro emits_intros)
    (auto simp: serving_kinds_def nginxConfigMap_def service_def authMiddleware_def)

end
