(* ===== verification/Go_Json.thy ===== *)
theory Go_Json
  imports Go_Hash Go_Url
begin

text \<open>
  \<open>encoding/json\<close>, the decoding half, as far as the sources use it: the syntax check, string
  unquoting with Go's replacement of ill-formed UTF-8, and the decoding of objects into structs
  (exact, then case-folded field names; \<open>null\<close> leaves a field alone; unknown fields are skipped;
  a repeated field is decoded into the same place), into \<open>map[string]int64\<close> and into integers.
  Decoding returns \<^const>\<open>None\<close> where \<open>json.Unmarshal\<close> returns an error.
\<close>

datatype json = JNull | JBool bool | JNum string | JStr string | JArr "json list" | JObj "(string \<times> json) list"

section \<open>Syntax\<close>

definition skip_ws :: "string \<Rightarrow> string" where
  "skip_ws = dropWhile (\<lambda>c. c \<in> {CHR 0x20, CHR 0x09, CHR 0x0D, CHR 0x0A})"

definition getu4 :: "string \<Rightarrow> nat option" where
  \<comment> \<open>four hexadecimal digits\<close>
  "getu4 s =
     (case map unhex (take 4 s) of
        [Some a, Some b, Some c, Some d] \<Rightarrow> Some (((a * 16 + b) * 16 + c) * 16 + d)
      | _ \<Rightarrow> None)"

definition utf8_enc :: "nat \<Rightarrow> string" where
  "utf8_enc r = map char_of
     (if r < 128 then [r]
      else if r < 2048 then [192 + r div 64, 128 + r mod 64]
      else if r < 65536 then [224 + r div 4096, 128 + r div 64 mod 64, 128 + r mod 64]
      else [240 + r div 262144, 128 + r div 4096 mod 64, 128 + r div 64 mod 64, 128 + r mod 64])"

definition escapes :: "(char \<times> char) list" where
  "escapes = [(quote, quote), (CHR 0x5C, CHR 0x5C), (CHR ''/'', CHR ''/''), (CHR ''b'', CHR 0x08),
     (CHR ''f'', CHR 0x0C), (CHR ''n'', CHR 0x0A), (CHR ''r'', CHR 0x0D), (CHR ''t'', CHR 0x09)]"

definition then_body :: "string \<Rightarrow> (string \<times> string) option \<Rightarrow> (string \<times> string) option" where
  "then_body p r = (case r of None \<Rightarrow> None | Some (b, t) \<Rightarrow> Some (p @ b, t))"

definition low_surrogate :: "string \<Rightarrow> nat option" where
  "low_surrogate s =
     (case s of a # b # r \<Rightarrow>
        if a = CHR 0x5C \<and> b = CHR ''u'' then
          (case getu4 r of Some w \<Rightarrow> if 0xDC00 \<le> w \<and> w < 0xE000 then Some w else None | None \<Rightarrow> None)
        else None
      | _ \<Rightarrow> None)"

function (sequential) json_body :: "string \<Rightarrow> (string \<times> string) option" where
  \<comment> \<open>the characters of a string after its opening quote, and what follows the closing one\<close>
  "json_body [] = None"
| "json_body (c # s) =
     (if c = quote then Some ([], s)
      else if c = CHR 0x5C then
        (case s of
           [] \<Rightarrow> None
         | e # r \<Rightarrow>
             if e = CHR ''u'' then
               (case getu4 r of
                  None \<Rightarrow> None
                | Some v \<Rightarrow>
                    if 0xD800 \<le> v \<and> v < 0xE000 then
                      (case (if v < 0xDC00 then low_surrogate (drop 4 r) else None) of
                         Some w \<Rightarrow> then_body (utf8_enc (0x10000 + (v - 0xD800) * 1024 + (w - 0xDC00))) (json_body (drop 10 r))
                       | None \<Rightarrow> then_body (utf8_enc 0xFFFD) (json_body (drop 4 r)))
                    else then_body (utf8_enc v) (json_body (drop 4 r)))
             else (case map_of escapes e of
                     None \<Rightarrow> None
                   | Some x \<Rightarrow> then_body [x] (json_body r)))
      else if byte c < 32 then None
      else if byte c < 128 then then_body [c] (json_body s)
      else let n = utf8_tail (c # s)
           in if n = 0 then then_body (utf8_enc 0xFFFD) (json_body s)
              else then_body (c # take n s) (json_body (drop n s)))"
  by pat_completeness auto
termination
  by (relation "measure length") (auto simp: less_Suc_eq_le)

definition digits_at :: "string \<Rightarrow> string \<times> string" where
  "digits_at s = (takeWhile is_digit s, dropWhile is_digit s)"

definition num_sign :: "char set \<Rightarrow> string \<Rightarrow> string \<times> string" where
  "num_sign signs s = (case s of c # r \<Rightarrow> if c \<in> signs then ([c], r) else ([], s) | [] \<Rightarrow> ([], []))"

definition num_int :: "string \<Rightarrow> string \<times> string" where
  "num_int s = (case s of c # r \<Rightarrow> if c = CHR ''0'' then ([c], r) else digits_at s | [] \<Rightarrow> ([], []))"

definition num_frac :: "string \<Rightarrow> (string \<times> string) option" where
  "num_frac s =
     (case s of
        c # r \<Rightarrow>
          if c = CHR ''.'' then
            (case digits_at r of (f, t) \<Rightarrow> if f = [] then None else Some (c # f, t))
          else Some ([], s)
      | [] \<Rightarrow> Some ([], []))"

definition num_exp :: "string \<Rightarrow> (string \<times> string) option" where
  "num_exp s =
     (case s of
        c # r \<Rightarrow>
          if c = CHR ''e'' \<or> c = CHR ''E'' then
            (case num_sign {CHR ''+'', CHR ''-''} r of (sg, u) \<Rightarrow>
               (case digits_at u of (e, t) \<Rightarrow> if e = [] then None else Some (c # sg @ e, t)))
          else Some ([], s)
      | [] \<Rightarrow> Some ([], []))"

definition json_number :: "string \<Rightarrow> (string \<times> string) option" where
  "json_number s =
     (case num_sign {CHR ''-''} s of (sg, a) \<Rightarrow>
      case num_int a of (d, b) \<Rightarrow>
        if d = [] then None
        else case num_frac b of
          None \<Rightarrow> None
        | Some (f, c) \<Rightarrow> (case num_exp c of None \<Rightarrow> None | Some (e, t) \<Rightarrow> Some (sg @ d @ f @ e, t)))"

definition json_literal :: "string \<Rightarrow> (json \<times> string) option" where
  "json_literal s =
     (if HasPrefix s ''true'' then Some (JBool True, drop 4 s)
      else if HasPrefix s ''false'' then Some (JBool False, drop 5 s)
      else if HasPrefix s ''null'' then Some (JNull, drop 4 s)
      else case json_number s of None \<Rightarrow> None | Some (n, t) \<Rightarrow> Some (JNum n, t))"

definition maxNestingDepth :: nat where
  "maxNestingDepth = 10000"

text \<open>
  The three parsers take fuel. Every call is on a proper suffix, so one unit more than the length
  of the input is always enough (\<open>json_value_fuel\<close> below).
\<close>

fun json_value :: "nat \<Rightarrow> nat \<Rightarrow> string \<Rightarrow> (json \<times> string) option"
  and json_elems :: "nat \<Rightarrow> nat \<Rightarrow> string \<Rightarrow> (json list \<times> string) option"
  and json_members :: "nat \<Rightarrow> nat \<Rightarrow> string \<Rightarrow> ((string \<times> json) list \<times> string) option" where
  "json_value 0 d s = None"
| "json_value (Suc n) d s =
     (case skip_ws s of
        [] \<Rightarrow> None
      | c # r \<Rightarrow>
          if c = quote then (case json_body r of None \<Rightarrow> None | Some (b, t) \<Rightarrow> Some (JStr b, t))
          else if c = CHR ''{'' then
            (if d \<ge> maxNestingDepth then None
             else case skip_ws r of
                [] \<Rightarrow> None
              | x # t \<Rightarrow> if x = CHR ''}'' then Some (JObj [], t)
                        else (case json_members n (Suc d) (x # t) of None \<Rightarrow> None | Some (ms, u) \<Rightarrow> Some (JObj ms, u)))
          else if c = CHR ''['' then
            (if d \<ge> maxNestingDepth then None
             else case skip_ws r of
                [] \<Rightarrow> None
              | x # t \<Rightarrow> if x = CHR '']'' then Some (JArr [], t)
                        else (case json_elems n (Suc d) (x # t) of None \<Rightarrow> None | Some (es, u) \<Rightarrow> Some (JArr es, u)))
          else json_literal (c # r))"
| "json_elems 0 d s = None"
| "json_elems (Suc n) d s =
     (case json_value n d s of
        None \<Rightarrow> None
      | Some (v, r) \<Rightarrow>
          (case skip_ws r of
             [] \<Rightarrow> None
           | c # t \<Rightarrow>
               if c = CHR '']'' then Some ([v], t)
               else if c = CHR '','' then (case json_elems n d t of None \<Rightarrow> None | Some (vs, u) \<Rightarrow> Some (v # vs, u))
               else None))"
| "json_members 0 d s = None"
| "json_members (Suc n) d s =
     (case skip_ws s of
        [] \<Rightarrow> None
      | q # k \<Rightarrow>
          if q \<noteq> quote then None
          else case json_body k of
             None \<Rightarrow> None
           | Some (name, a) \<Rightarrow>
               (case skip_ws a of
                  [] \<Rightarrow> None
                | x # b \<Rightarrow>
                    if x \<noteq> CHR '':'' then None
                    else case json_value n d b of
                       None \<Rightarrow> None
                     | Some (v, r) \<Rightarrow>
                         (case skip_ws r of
                            [] \<Rightarrow> None
                          | c # t \<Rightarrow>
                              if c = CHR ''}'' then Some ([(name, v)], t)
                              else if c = CHR '','' then
                                (case json_members n d t of None \<Rightarrow> None | Some (ms, u) \<Rightarrow> Some ((name, v) # ms, u))
                              else None)))"

lemma skip_ws_shorter: "length (skip_ws s) \<le> length s"
  by (simp add: skip_ws_def length_dropWhile_le)

lemma skip_ws_Cons: "skip_ws s = c # r \<Longrightarrow> length r < length s"
  using skip_ws_shorter [of s] by simp

lemma then_body_Some: "then_body p r = Some (b, t) \<longleftrightarrow> (\<exists>b'. r = Some (b', t) \<and> b = p @ b')"
  by (auto simp: then_body_def split: option.splits)

lemma json_body_shorter: "json_body s = Some (b, t) \<Longrightarrow> length t < length s"
proof (induction "length s" arbitrary: s b rule: less_induct)
  case less
  show ?case
  proof (cases s)
    case Nil
    with less.prems show ?thesis by simp
  next
    case (Cons c s')
    have IH: "length t < Suc (length s')" if "json_body u = Some (b', t)" "length u \<le> length s'" for u b'
      using less.hyps [of u b'] that Cons by simp
    show ?thesis
      using less.prems unfolding Cons
      by (auto simp: then_body_Some Let_def split: if_splits list.splits option.splits dest: IH)
  qed
qed

lemma digits_at_shorter:
  "digits_at s = (d, t) \<Longrightarrow> length t \<le> length s"
  "digits_at s = (d, t) \<Longrightarrow> d \<noteq> [] \<Longrightarrow> length t < length s"
  by (auto simp: digits_at_def length_dropWhile_le)
    (cases s; auto simp: le_imp_less_Suc length_dropWhile_le split: if_splits)

lemma num_shorter:
  "num_sign X s = (x, t) \<Longrightarrow> length t \<le> length s"
  "num_frac s = Some (x, t) \<Longrightarrow> length t \<le> length s"
  "num_int s = (x, t) \<Longrightarrow> x \<noteq> [] \<Longrightarrow> length t < length s"
  by (auto simp: num_sign_def num_frac_def num_int_def split: list.splits if_splits prod.splits
      dest: digits_at_shorter)

lemma num_exp_shorter: "num_exp s = Some (x, t) \<Longrightarrow> length t \<le> length s"
  by (auto simp: num_exp_def split: list.splits if_splits prod.splits
      dest!: digits_at_shorter(1) num_shorter(1))

lemma json_number_shorter: "json_number s = Some (x, t) \<Longrightarrow> length t < length s"
  by (auto simp: json_number_def split: if_splits prod.splits option.splits
      dest!: num_exp_shorter num_shorter)

lemma json_literal_shorter: "json_literal s = Some (v, t) \<Longrightarrow> length t < length s"
  by (cases s) (auto simp: json_literal_def HasPrefix_def split: if_splits option.splits dest!: json_number_shorter)

lemma parse_shorter:
  "json_value n d s = Some (v, t) \<Longrightarrow> length t < length s"
  "json_elems n d s = Some (vs, t) \<Longrightarrow> length t < length s"
  "json_members n d s = Some (ms, t) \<Longrightarrow> length t < length s"
proof (induction n arbitrary: d s v vs ms t)
  case (Suc n)
  note len = skip_ws_Cons json_body_shorter json_literal_shorter Suc.IH
  { case 1 then show ?case
      by (auto split: list.splits if_splits option.splits dest!: len)
  next case 2 then show ?case
      by (auto split: list.splits if_splits option.splits dest!: len)
  next case 3 then show ?case
      by (auto split: list.splits if_splits option.splits dest!: len) }
qed simp_all

lemma json_value_fuel:
  "2 * length s < n \<Longrightarrow> n \<le> m \<Longrightarrow> json_value m d s = json_value n d s"
  "2 * length s + 1 < n \<Longrightarrow> n \<le> m \<Longrightarrow> json_elems m d s = json_elems n d s"
  "2 * length s + 1 < n \<Longrightarrow> n \<le> m \<Longrightarrow> json_members m d s = json_members n d s"
proof (induction n arbitrary: m d s)
  case (Suc n)
  { case 1
    then obtain k where m: "m = Suc k" "n \<le> k" by (cases m) auto
    have "json_elems k d' t = json_elems n d' t" "json_members k d' t = json_members n d' t"
      if "length t < length s" for t d'
      using Suc.IH(2,3) [of t k d'] 1 m(2) that by auto
    moreover have "Suc (length u) < length s" if "skip_ws s = c # r" "skip_ws r = x # u" for c r x u
      using skip_ws_Cons [OF that(1)] skip_ws_Cons [OF that(2)] by simp
    ultimately show ?case by (auto simp: m(1) split: list.split)
  next case 2
    then obtain k where m: "m = Suc k" "n \<le> k" by (cases m) auto
    have v: "json_value k d s = json_value n d s" using Suc.IH(1) [of s k d] 2 m(2) by simp
    have "json_elems k d t = json_elems n d t" if "length t < length s" for t
      using Suc.IH(2) [of t k d] 2 m(2) that by simp
    moreover have "length u < length s" if "json_value n d s = Some (w, r)" "skip_ws r = c # u" for w r c u
      using parse_shorter(1) [OF that(1)] skip_ws_Cons [OF that(2)] by simp
    ultimately show ?case by (auto simp: m(1) v split: list.split option.split)
  next case 3
    then obtain k where m: "m = Suc k" "n \<le> k" by (cases m) auto
    have "json_value k d t = json_value n d t" "json_members k d t = json_members n d t"
      if "length t < length s" for t
      using Suc.IH(1,3) [of t k d] 3 m(2) that by auto
    moreover have "length b < length s" if "skip_ws s = q # c" "json_body c = Some (x, a)" "skip_ws a = y # b" for q c x a y b
      using skip_ws_Cons [OF that(1)] json_body_shorter [OF that(2)] skip_ws_Cons [OF that(3)] by simp
    moreover have "length t < length s"
      if "skip_ws s = q # c" "json_body c = Some (x, a)" "skip_ws a = y # b" "json_value n d b = Some (v, r)" "skip_ws r = z # t"
      for q c x a y b v r z t
      using skip_ws_Cons [OF that(1)] json_body_shorter [OF that(2)] skip_ws_Cons [OF that(3)]
        parse_shorter(1) [OF that(4)] skip_ws_Cons [OF that(5)] by simp
    ultimately show ?case by (auto simp: m(1) split: list.split option.split) }
qed simp_all

definition json_parse :: "string \<Rightarrow> json option" where
  "json_parse s =
     (case json_value (Suc (Suc (2 * length s))) 0 s of
        None \<Rightarrow> None
      | Some (v, r) \<Rightarrow> if skip_ws r = [] then Some v else None)"

section \<open>Decoding\<close>

function (sequential) fold_name :: "string \<Rightarrow> string" where
  \<comment> \<open>\<open>foldName\<close>: upper case; the Kelvin sign and the long s fold to ASCII, no other rune does\<close>
  "fold_name [] = []"
| "fold_name (c # s) =
     (if 97 \<le> byte c \<and> byte c \<le> 122 then char_of (byte c - 32) # fold_name s
      else if map byte (c # take 1 s) = [197, 191] then CHR ''S'' # fold_name (drop 1 s)
      else if map byte (c # take 2 s) = [226, 132, 170] then CHR ''K'' # fold_name (drop 2 s)
      else c # fold_name s)"
  by pat_completeness auto
termination
  by (relation "measure length") auto

definition field_for :: "string list \<Rightarrow> string \<Rightarrow> string option" where
  "field_for fields key =
     (if key \<in> set fields then Some key else find (\<lambda>f. fold_name f = fold_name key) fields)"

fun dec_fields :: "string list \<Rightarrow> (string \<Rightarrow> json \<Rightarrow> 'r \<Rightarrow> 'r option) \<Rightarrow> (string \<times> json) list \<Rightarrow> 'r \<Rightarrow> 'r option" where
  "dec_fields fields set_field [] r = Some r"
| "dec_fields fields set_field ((k, v) # ms) r =
     (case field_for fields k of
        None \<Rightarrow> dec_fields fields set_field ms r
      | Some f \<Rightarrow> (case set_field f v r of
          None \<Rightarrow> None
        | Some r' \<Rightarrow> dec_fields fields set_field ms r'))"

definition dec_struct :: "string list \<Rightarrow> (string \<Rightarrow> json \<Rightarrow> 'r \<Rightarrow> 'r option) \<Rightarrow> json \<Rightarrow> 'r \<Rightarrow> 'r option" where
  "dec_struct fields set_field j r =
     (case j of JNull \<Rightarrow> Some r | JObj ms \<Rightarrow> dec_fields fields set_field ms r | _ \<Rightarrow> None)"

definition dec_int :: "json \<Rightarrow> int \<Rightarrow> int option" where
  \<comment> \<open>into an \<open>int64\<close> or an \<open>int\<close>\<close>
  "dec_int j old = (case j of JNull \<Rightarrow> Some old | JNum s \<Rightarrow> ParseInt s | _ \<Rightarrow> None)"

definition dec_string :: "json \<Rightarrow> string \<Rightarrow> string option" where
  "dec_string j old = (case j of JNull \<Rightarrow> Some old | JStr s \<Rightarrow> Some s | _ \<Rightarrow> None)"

fun dec_map_entries :: "(string \<times> json) list \<Rightarrow> int gomap \<Rightarrow> int gomap option" where
  "dec_map_entries [] m = Some m"
| "dec_map_entries ((k, v) # ms) m =
     (case dec_int v 0 of None \<Rightarrow> None | Some x \<Rightarrow> dec_map_entries ms (AList.update k x m))"

definition dec_int_map :: "json \<Rightarrow> int gomap \<Rightarrow> int gomap option" where
  \<comment> \<open>into a \<open>map[string]int64\<close>; \<open>null\<close> makes it nil\<close>
  "dec_int_map j old = (case j of JNull \<Rightarrow> Some [] | JObj ms \<Rightarrow> dec_map_entries ms old | _ \<Rightarrow> None)"

end
