(* ===== verification/Build_Lifecycle.thy ===== *)
theory Build_Lifecycle
  imports Measure Ensure Go_Json
begin

text \<open>
  The build lifecycle of \<open>internal/controller/app_controller.go\<close> and the copier message of
  \<open>ensure.go\<close>: seeding the first build, starting a build, and observing it to a terminal result
  (status, conditions, step timeline, history rings, metrics, Sentry).
\<close>

section \<open>The copier message\<close>

record CopierMessage =
  cm_Current :: string
  cm_Sizes :: "int gomap"
  cm_ReleaseCount :: int

definition copier_field :: "string \<Rightarrow> json \<Rightarrow> CopierMessage \<Rightarrow> CopierMessage option" where
  \<comment> \<open>the \<open>json\<close> tags of \<open>CopierMessage\<close>\<close>
  "copier_field f j m =
     (if f = ''release'' then
        map_option (\<lambda>x. m\<lparr>cm_Current := x\<rparr>) (dec_struct [''current''] (\<lambda>_. dec_string) j (cm_Current m))
      else if f = ''sizes'' then map_option (\<lambda>x. m\<lparr>cm_Sizes := x\<rparr>) (dec_int_map j (cm_Sizes m))
      else map_option (\<lambda>x. m\<lparr>cm_ReleaseCount := x\<rparr>) (dec_int j (cm_ReleaseCount m)))"

definition parseCopierMessage :: "string \<Rightarrow> CopierMessage option" where
  "parseCopierMessage s =
     (if s = '''' then None
      else case json_parse s of
        None \<Rightarrow> None
      | Some j \<Rightarrow> dec_struct [''release'', ''sizes'', ''releaseCount''] copier_field j
                    \<lparr>cm_Current = '''', cm_Sizes = [], cm_ReleaseCount = 0\<rparr>)"

section \<open>Storage class and bootstrap\<close>

definition validateStorageClass :: "'w client \<Rightarrow> env \<Rightarrow> ('w, storage_class_error option) kube" where
  "validateStorageClass C E =
     (if e_StorageClassName E = '''' then ret (Some NoStorageClassName)
      else bindr (world_op (k_GetStorageClass C (e_StorageClassName E))) (\<lambda>r.
        ret (case r of
               Inl e \<Rightarrow> Some (StorageClassApi e)
             | Inr mode \<Rightarrow> if mode \<noteq> Some ''WaitForFirstConsumer'' then Some NotWaitForFirstConsumer else None)))"

definition seed_annotations :: "string \<Rightarrow> string gomap \<Rightarrow> string gomap" where
  "seed_annotations token ann =
     AList.delete RebuildCommitAnnotation (AList.delete RebuildByAnnotation (AList.update RebuildAnnotation token ann))"

definition seedRebuild :: "'w client \<Rightarrow> ('w, unit) kube" where
  "seedRebuild C =
     bindr (now C) (\<lambda>n.
     bindr get_app (\<lambda>old.
     seqr (mod_app (\<lambda>app. app\<lparr>app_Annotations := seed_annotations (Itoa (unix_seconds n)) (app_Annotations app)\<rparr>))
          (PatchApp C old)))"

section \<open>Starting a build\<close>

definition started_status :: "App \<Rightarrow> Job \<Rightarrow> time \<Rightarrow> BuildStatus" where
  "started_status app job n =
     (let trigger = classifyTrigger app
      in \<lparr>build_Phase = BuildPhasePending, build_Result = '''', build_JobName = om_Name (j_Meta job), build_PodName = '''',
          build_StartTime = Some n, build_CompletionTime = None,
          build_Attempts = wrap64 (build_Attempts (st_Build (app_Status app)) + 1),
          build_Trigger = trigger, build_TriggeredBy = map_get (app_Annotations app) RebuildByAnnotation,
          build_Commit = (if trigger = BuildTriggerCommit then map_get (app_Annotations app) RebuildCommitAnnotation else ''''),
          build_Steps = deriveBuildSteps (applicableSteps app) None False,
          build_ResolvedImages = containerImages (j_PodSpec job),
          build_FailedStep = '''', build_Message = '''', build_LogsRef = '''', build_Termination = None\<rparr>)"

definition record_start :: "'w client \<Rightarrow> string \<Rightarrow> Job \<Rightarrow> ('w, unit) kube" where
  \<comment> \<open>\<open>startBuild\<close> after the Job exists\<close>
  "record_start C token job =
     bindr get_app (\<lambda>app.
     seqr (mod_app (upd_status (\<lambda>st. st\<lparr>st_LastProcessedRebuild := token\<rparr>)))
    (bindr (now C) (\<lambda>n1.
     seqr (mod_app (\<lambda>a. upd_build (\<lambda>_. started_status a job n1) a))
    (seqr (if classifyTrigger app = BuildTriggerManual
           then bindr (now C) (\<lambda>n2. mod_app (upd_status (\<lambda>st. st\<lparr>st_LastManualTrigger :=
                  \<lparr>mt_TriggeredBy = map_get (app_Annotations app) RebuildByAnnotation, mt_Time = Some n2\<rparr>\<rparr>)))
           else ret ())
    (bindr (now C) (\<lambda>n3. mod_app (upd_status (\<lambda>st. st\<lparr>st_LastBuildTime := Some n3\<rparr>))))))))"

definition startBuild :: "'w client \<Rightarrow> env \<Rightarrow> string \<Rightarrow> gitCredentialDecision \<Rightarrow> ('w, unit) kube" where
  "startBuild C E token gitCred =
     bindr get_app (\<lambda>app.
     let job = BuildJob (k_ParseQuantity C) (e_Config E) app token gitCred
     in seqr (create_owned C job) (record_start C token job))"

section \<open>Observing a build\<close>

definition applyCopierTermination :: "'w client \<Rightarrow> Job \<Rightarrow> ('w, unit) kube" where
  "applyCopierTermination C job =
     bindr get_app (\<lambda>app.
     bindr (world_op (k_ListPods C (app_Namespace app) (buildLabelsFor app))) (\<lambda>r.
     case r of
       Inl _ \<Rightarrow> ret ()
     | Inr pods \<Rightarrow>
         (case latest_terminated ''copier'' job pods of
            None \<Rightarrow> ret ()
          | Some (chosen, t) \<Rightarrow>
              seqr (mod_app (upd_status (\<lambda>st. st\<lparr>st_NodeName := pod_NodeName (p_Spec chosen)\<rparr>)))
              (case parseCopierMessage (cst_Message t) of
                 None \<Rightarrow> ret ()
               | Some blob \<Rightarrow>
                   seqr (if cm_Current blob \<noteq> ''''
                         then bindr (now C) (\<lambda>n. mod_app (upd_status (\<lambda>st. st\<lparr>st_Release :=
                                \<lparr>rel_Current = cm_Current blob, rel_Previous = rel_Current (st_Release st), rel_ServingSince = Some n\<rparr>\<rparr>)))
                         else ret ())
                  (seqr (if cm_ReleaseCount blob > 0
                         then mod_app (upd_storage (\<lambda>s. s\<lparr>stor_ReleaseCount := cm_ReleaseCount blob\<rparr>)) else ret ())
                        (if cm_Sizes blob \<noteq> []
                         then seqr (mod_app (upd_storage (\<lambda>s. s\<lparr>stor_Sizes :=
                                AList.delete ''source'' (fold (\<lambda>(k, v). AList.update k v) (cm_Sizes blob) (stor_Sizes s))\<rparr>)))
                             (bindr (now C) (\<lambda>n. mod_app (upd_storage (\<lambda>s. s\<lparr>stor_MeasuredAt := Some n\<rparr>))))
                         else ret ()))))))"

definition observe_running :: "'w client \<Rightarrow> Job \<Rightarrow> ('w, unit) kube" where
  \<comment> \<open>the in-flight branch\<close>
  "observe_running C job =
     seqr (mod_app (upd_build (\<lambda>b. b\<lparr>build_Phase := BuildPhaseRunning\<rparr>)))
    (bindr (findBuildPod C job) (\<lambda>pod.
     case pod of
       None \<Rightarrow> ret ()
     | Some p \<Rightarrow> mod_app (\<lambda>app. upd_build (\<lambda>b. b\<lparr>build_PodName := om_Name (p_Meta p),
         build_Steps := deriveBuildSteps (applicableSteps app) (Some p) False\<rparr>) app)))"

definition built_hash :: "App \<Rightarrow> Job \<Rightarrow> string" where
  "built_hash app job =
     (let stamped = map_get (om_Annotations (j_Meta job)) SpecHashAnnotation
      in if stamped \<noteq> '''' then stamped else Hash (buildSpecFrom app))"

definition observe_success :: "'w client \<Rightarrow> env \<Rightarrow> Job \<Rightarrow> ('w, unit) kube" where
  \<comment> \<open>the \<open>JobComplete\<close> branch\<close>
  "observe_success C E job =
     seqr (mod_app (upd_build (\<lambda>b. b\<lparr>build_Result := BuildResultSucceeded\<rparr>)))
    (bindr (now C) (\<lambda>n.
     seqr (mod_app (upd_status (\<lambda>st. st\<lparr>st_LastSuccessfulBuildTime := Some n\<rparr>)))
    (seqr (mod_app (\<lambda>app. upd_status (\<lambda>st. st\<lparr>st_LastBuiltSpecHash := built_hash app job\<rparr>) app))
    (seqr (mod_app (\<lambda>app. upd_status (\<lambda>st. st\<lparr>st_SpecStale := IsStale (buildSpecFrom app) (st_LastBuiltSpecHash st)\<rparr>) app))
    (bindr get_app (\<lambda>app.
     seqr (applyCopierTermination C job)
    (seqr (tryr (maybeStartMeasurement C E (stor_MeasuredAt (st_Storage (app_Status app)))))
    (seqr (set_condition C ConditionBuildSucceeded ConditionTrue ReasonReady ''build succeeded'')
    (seqr (set_condition C ConditionDegraded ConditionFalse ReasonReady ''build succeeded'')
          (if j_TTLSecondsAfterFinished job = None
           then seqr (PatchJob C job (job\<lparr>j_TTLSecondsAfterFinished := Some 600\<rparr>)) (ret ())
           else ret ()))))))))))"

definition failure_report :: "App \<Rightarrow> JobCondition \<Rightarrow> BuildTermination option \<Rightarrow> string \<times> string" where
  \<comment> \<open>the reason and message of the failure conditions\<close>
  "failure_report app cond termn =
     (case termn of
        Some t \<Rightarrow> if term_Reason t = TerminationReasonOOMKilled then (ReasonOOMKilled, oomConditionMessage t)
                   else (ReasonBuildFailed, jc_Message cond)
      | None \<Rightarrow> (ReasonBuildFailed, jc_Message cond))"

definition stamp_termination :: "BuildTermination option \<Rightarrow> BuildStatus \<Rightarrow> BuildStatus" where
  "stamp_termination termn b =
     (case termn of
        None \<Rightarrow> b
      | Some t \<Rightarrow>
          let b1 = b\<lparr>build_Termination := Some t\<rparr>; msg = terminationStepMessage (Some t)
          in if msg \<noteq> '''' then b1\<lparr>build_Steps := stampStepMessage (build_Steps b1) (term_Container t) msg\<rparr> else b1)"

definition observe_failure :: "'w client \<Rightarrow> JobCondition \<Rightarrow> Pod option \<Rightarrow> ('w, unit) kube" where
  \<comment> \<open>the failure block after the timeline is final\<close>
  "observe_failure C cond pod =
     bindr get_app (\<lambda>app.
     let termn = detectTermination pod (build_FailedStep (st_Build (app_Status app)));
         (reason, message) = failure_report app cond termn
     in seqr (mod_app (upd_build (stamp_termination termn)))
       (seqr (set_condition C ConditionBuildSucceeded ConditionFalse reason message)
       (seqr (set_condition C ConditionDegraded ConditionTrue reason message)
             (if isPlatformFault reason (build_FailedStep (st_Build (app_Status app)))
              then capture C \<lparr>tf_App = app_Name app, tf_Namespace = app_Namespace app,
                     tf_Step = build_FailedStep (st_Build (app_Status app)), tf_Reason = reason, tf_Message = message\<rparr>
              else ret ()))))"

definition final_steps :: "App \<Rightarrow> Pod option \<Rightarrow> BuildStep list" where
  "final_steps app pod =
     (let ok = build_Result (st_Build (app_Status app)) = BuildResultSucceeded
      in if pod = None \<and> ok then allSucceeded (applicableSteps app)
         else deriveBuildSteps (applicableSteps app) pod ok)"

definition append_histories :: "OperatorConfig \<Rightarrow> App \<Rightarrow> App" where
  "append_histories cfg app =
     (let (keepRecent, keepFailed) = effectiveHistoryLimits cfg app; b = st_Build (app_Status app)
      in upd_status (\<lambda>st. st\<lparr>
           st_BuildHistory := appendBuildHistory (st_BuildHistory st) b keepRecent,
           st_FailedBuildHistory := appendFailedBuildHistory (st_FailedBuildHistory st) b keepFailed,
           st_ConsecutiveScheduledFailures := updateConsecutiveScheduledFailures (st_ConsecutiveScheduledFailures st)
             (build_Trigger b) (build_Result b)\<rparr>) app)"

definition observe_finished :: "'w client \<Rightarrow> env \<Rightarrow> Job \<Rightarrow> JobCondition \<Rightarrow> ('w, unit) kube" where
  \<comment> \<open>the terminal branch\<close>
  "observe_finished C E job cond =
     seqr (mod_app (upd_build (\<lambda>b. b\<lparr>build_Phase := BuildPhaseComplete\<rparr>)))
    (bindr (now C) (\<lambda>n.
     seqr (mod_app (upd_build (\<lambda>b. b\<lparr>build_CompletionTime := Some n\<rparr>)))
    (seqr (if jc_Type cond = JobComplete then observe_success C E job
           else mod_app (upd_build (\<lambda>b. b\<lparr>build_Result := BuildResultFailed, build_Message := jc_Message cond,
                  build_LogsRef := om_Name (j_Meta job)\<rparr>)))
    (bindr (findBuildPod C job) (\<lambda>pod.
     seqr (case pod of None \<Rightarrow> ret () | Some p \<Rightarrow> mod_app (upd_build (\<lambda>b. b\<lparr>build_PodName := om_Name (p_Meta p)\<rparr>)))
    (seqr (mod_app (\<lambda>app. upd_build (\<lambda>b. b\<lparr>build_Steps := final_steps app pod\<rparr>) app))
    (seqr (mod_app (upd_build (\<lambda>b. b\<lparr>build_FailedStep := failedStep (build_Steps b)\<rparr>)))
    (bindr get_app (\<lambda>app.
     seqr (if build_Result (st_Build (app_Status app)) = BuildResultFailed then observe_failure C cond pod else ret ())
    (seqr record_terminal
          (mod_app (append_histories (e_Config E)))))))))))))"

definition terminal_build :: "BuildStatus \<Rightarrow> bool" where
  "terminal_build b \<longleftrightarrow> build_Phase b = BuildPhaseComplete \<and>
     (build_Result b = BuildResultSucceeded \<or> build_Result b = BuildResultFailed)"

definition observeBuild :: "'w client \<Rightarrow> env \<Rightarrow> ('w, unit) kube" where
  "observeBuild C E =
     bindr get_app (\<lambda>app.
     let b = st_Build (app_Status app)
     in if build_JobName b = '''' then ret ()
        else bindr (world_op (k_GetJob C (app_Namespace app) (build_JobName b))) (\<lambda>r.
          case r of
            Inl e \<Rightarrow> fail_on (ignoring NotFound (Some e))
          | Inr job \<Rightarrow>
              if build_JobName b = om_Name (j_Meta job) \<and> terminal_build b then ret ()
              else case jobFinished job of
                None \<Rightarrow> observe_running C job
              | Some cond \<Rightarrow> observe_finished C E job cond))"

section \<open>Calls\<close>

lemma confined_applyCopierTermination [emits_intros]: "confined S (applyCopierTermination C job)"
  unfolding applyCopierTermination_def by (intro emits_intros)

lemma confined_record_start [emits_intros]: "confined S (record_start C token job)"
  unfolding record_start_def by (intro emits_intros)

lemma confined_startBuild [emits_intros]: "JobStart ''build'' \<in> S \<Longrightarrow> confined S (startBuild C E token d)"
  unfolding startBuild_def Let_def by (intro emits_intros) simp_all

lemma confined_observeBuild [emits_intros]:
  "ReadJobs \<in> S \<Longrightarrow> JobStart measureRole \<in> S \<Longrightarrow> JobPatch \<in> S \<Longrightarrow> Telemetry \<in> S \<Longrightarrow> confined S (observeBuild C E)"
  unfolding observeBuild_def observe_running_def observe_finished_def observe_success_def observe_failure_def Let_def
  by (intro emits_intros) simp_all

lemma confined_validateStorageClass [emits_intros]: "confined S (validateStorageClass C E)"
  unfolding validateStorageClass_def by (intro emits_intros)

lemma confined_seedRebuild [emits_intros]: "AppWrite \<in> S \<Longrightarrow> confined S (seedRebuild C)"
  unfolding seedRebuild_def by (intro emits_intros)

end
