(* ===== verification/Cleanup.thy ===== *)
theory Cleanup
  imports Measure Go_Json
begin

text \<open>
  \<open>internal/controller/cleanup.go\<close>: the on-demand prune Jobs of the cache and of old releases, their
  security context, the harvest of their results, and the serialized start of new ones.
\<close>

abbreviation cleanupRole where "cleanupRole \<equiv> ''cleanup''"
abbreviation cleanupRoleLabel where "cleanupRoleLabel \<equiv> ''baker.toggle-corp.com/role''"
abbreviation cleanupModeLabel where "cleanupModeLabel \<equiv> ''baker.toggle-corp.com/cleanup-mode''"
abbreviation cleanupContainerName where "cleanupContainerName \<equiv> ''cleanup''"
abbreviation cleanupModeCache where "cleanupModeCache \<equiv> ''cache''"
abbreviation cleanupModeReleases where "cleanupModeReleases \<equiv> ''releases''"

definition platformUID :: int where "platformUID = 65532"

section \<open>The Job\<close>

definition unprivilegedCleanupSC :: "int \<Rightarrow> SecurityContext" where
  "unprivilegedCleanupSC uid = \<lparr>sc_RunAsUser = Some uid, sc_RunAsGroup = None, sc_RunAsNonRoot = Some True,
     sc_ReadOnlyRootFilesystem = None, sc_AllowPrivilegeEscalation = Some False,
     sc_CapDrop = [''ALL''], sc_CapAdd = [], sc_SeccompProfile = Some RuntimeDefault\<rparr>"

definition rootCleanupSC :: SecurityContext where
  "rootCleanupSC = \<lparr>sc_RunAsUser = Some 0, sc_RunAsGroup = None, sc_RunAsNonRoot = Some False,
     sc_ReadOnlyRootFilesystem = None, sc_AllowPrivilegeEscalation = Some False,
     sc_CapDrop = [''ALL''], sc_CapAdd = [''DAC_OVERRIDE'', ''FOWNER''], sc_SeccompProfile = Some RuntimeDefault\<rparr>"

definition cacheWriterUID :: "App \<Rightarrow> int option" where
  \<comment> \<open>\<^const>\<open>None\<close> is \<open>ok = false\<close>\<close>
  "cacheWriterUID app =
     (case (ps_RunAsUser (sps_Phase (phs_Setup (phases app))), ps_RunAsUser (bps_Phase (phs_Build (phases app)))) of
        (Some su, Some bu) \<Rightarrow> if su \<noteq> bu \<or> su = 0 then None else Some su
      | _ \<Rightarrow> None)"

definition cleanupSecurityContext :: "App \<Rightarrow> string \<Rightarrow> SecurityContext" where
  "cleanupSecurityContext app mode =
     (if mode = cleanupModeReleases then unprivilegedCleanupSC platformUID
      else case cacheWriterUID app of
        Some uid \<Rightarrow> unprivilegedCleanupSC uid
      | None \<Rightarrow> rootCleanupSC)"

definition cleanupJobName :: "App \<Rightarrow> string \<Rightarrow> string" where
  "cleanupJobName app mode = app_Name app @ ''-cleanup-'' @ mode"

definition cleanupLabelsFor :: "App \<Rightarrow> string gomap" where
  "cleanupLabelsFor app = AList.update cleanupRoleLabel cleanupRole (labelsFor app)"

definition protectedReleases :: "App \<Rightarrow> string" where
  "protectedReleases app =
     (let rel = st_Release (app_Status app)
      in Join ((if rel_Current rel \<noteq> '''' then [rel_Current rel] else []) @
               (if rel_Previous rel \<noteq> '''' then [rel_Previous rel] else [])) '','')"

definition cleanup_parts :: "App \<Rightarrow> string \<Rightarrow> kEnvVar list \<times> VolumeMount list \<times> Volume list" where
  \<comment> \<open>the \<open>switch mode\<close> of \<open>CleanupJob\<close>\<close>
  "cleanup_parts app mode =
     (if mode = cleanupModeReleases then
        ([env_lit ''MODE'' cleanupModeReleases, env_lit ''RELEASES_DIR'' (outputMountPath @ ''/releases''),
          env_lit ''KEEP_RELEASES'' (Itoa (spec_KeepReleases (app_Spec app))),
          env_lit ''PROTECTED_RELEASES'' (protectedReleases app)],
         [mount volOutput outputMountPath],
         [volume volOutput (PersistentVolumeClaim (outputPVCName app) False)])
      else
        ([env_lit ''MODE'' cleanupModeCache, env_lit ''PACKAGE_MANAGER'' (pl_PackageManager (pipeline app)),
          env_lit ''CLEANUP_THRESHOLD_BYTES'' ''0''],
         [mount volCache cacheMountPath],
         [volume volCache (PersistentVolumeClaim (cacheePVCName app) False)]))"

definition CleanupJob :: "OperatorConfig \<Rightarrow> App \<Rightarrow> string \<Rightarrow> Job" where
  "CleanupJob cfg app mode =
     (let labels = AList.update cleanupModeLabel mode (cleanupLabelsFor app);
          (env, ms, vols) = cleanup_parts app mode
      in \<lparr>j_Meta = new_meta (cleanupJobName app mode) (app_Namespace app) labels,
          j_BackoffLimit = Some 0,
          j_ActiveDeadlineSeconds = Some 600,
          j_TTLSecondsAfterFinished = None,
          j_TemplateLabels = labels,
          j_PodSpec = \<lparr>
            pod_RestartPolicy = ''Never'', pod_AutomountServiceAccountToken = Some False, pod_ServiceAccountName = '''',
            pod_RunAsNonRoot = None, pod_SeccompProfile = Some RuntimeDefault,
            pod_InitContainers = [],
            pod_Containers = [empty_container\<lparr>c_Name := cleanupContainerName, c_Image := img_Cleanup (cfg_Images cfg),
              c_Env := env, c_VolumeMounts := ms,
              c_TerminationMessagePolicy := ''FallbackToLogsOnError'',
              c_SecurityContext := Some (cleanupSecurityContext app mode)\<rparr>],
            pod_Volumes = vols,
            pod_ImagePullSecrets = pull_secrets cfg, pod_NodeName = ''''\<rparr>,
          j_Conditions = []\<rparr>)"

section \<open>The result message\<close>

record CleanupResult =
  cr_Action :: string
  cr_Reason :: string
  cr_Before :: int
  cr_After :: int
  cr_Reclaimed :: int
  cr_Threshold :: int
  cr_Kept :: int
  cr_Deleted :: int

definition no_result :: CleanupResult where
  "no_result = \<lparr>cr_Action = '''', cr_Reason = '''', cr_Before = 0, cr_After = 0, cr_Reclaimed = 0,
     cr_Threshold = 0, cr_Kept = 0, cr_Deleted = 0\<rparr>"

definition cleanup_field :: "string \<Rightarrow> json \<Rightarrow> CleanupResult \<Rightarrow> CleanupResult option" where
  \<comment> \<open>the \<open>json\<close> tags of \<open>CleanupResult\<close>\<close>
  "cleanup_field f j r =
     (if f = ''action'' then map_option (\<lambda>x. r\<lparr>cr_Action := x\<rparr>) (dec_string j (cr_Action r))
      else if f = ''reason'' then map_option (\<lambda>x. r\<lparr>cr_Reason := x\<rparr>) (dec_string j (cr_Reason r))
      else if f = ''before'' then map_option (\<lambda>x. r\<lparr>cr_Before := x\<rparr>) (dec_int j (cr_Before r))
      else if f = ''after'' then map_option (\<lambda>x. r\<lparr>cr_After := x\<rparr>) (dec_int j (cr_After r))
      else if f = ''reclaimed'' then map_option (\<lambda>x. r\<lparr>cr_Reclaimed := x\<rparr>) (dec_int j (cr_Reclaimed r))
      else if f = ''threshold'' then map_option (\<lambda>x. r\<lparr>cr_Threshold := x\<rparr>) (dec_int j (cr_Threshold r))
      else if f = ''kept'' then map_option (\<lambda>x. r\<lparr>cr_Kept := x\<rparr>) (dec_int j (cr_Kept r))
      else map_option (\<lambda>x. r\<lparr>cr_Deleted := x\<rparr>) (dec_int j (cr_Deleted r)))"

definition cleanup_result :: "string \<Rightarrow> CleanupResult option" where
  "cleanup_result s =
     (case json_parse s of
        None \<Rightarrow> None
      | Some j \<Rightarrow> dec_struct [''action'', ''reason'', ''before'', ''after'', ''reclaimed'', ''threshold'', ''kept'', ''deleted'']
                    cleanup_field j no_result)"

fun human_loop :: "nat \<Rightarrow> nat \<Rightarrow> nat \<Rightarrow> nat \<times> nat" where
  "human_loop x dv ex = (if x \<ge> 1024 then human_loop (x div 1024) (dv * 1024) (ex + 1) else (dv, ex))"

declare human_loop.simps [simp del]

definition one_decimal :: "nat \<Rightarrow> nat \<Rightarrow> string" where
  \<comment> \<open>\<open>%.1f\<close> of \<open>a / b\<close> where the quotient is exact in \<open>float64\<close>: nearest tenth, ties to even\<close>
  "one_decimal a b = (let t = round_even (10 * a) b in nat_dec (t div 10) @ ''.'' @ nat_dec (t mod 10))"

definition humanBytes :: "int \<Rightarrow> string option" where
  \<comment> \<open>\<^const>\<open>None\<close> is the index panic of \<open>"KMGT"[exp]\<close>\<close>
  "humanBytes n =
     (if n < 1024 then Some (Itoa n @ ''B'')
      else let (d, ex) = human_loop (nat n div 1024) 1024 0
           in if ex < 4 then Some (one_decimal (nat n) d @ [''KMGT'' ! ex] @ ''iB'') else None)"

definition summarizeCleanup :: "CleanupResult \<Rightarrow> string option" where
  "summarizeCleanup res =
     (if cr_Action res = ''skip'' then Some (if cr_Reason res \<noteq> '''' then ''skip: '' @ cr_Reason res else ''skip'')
      else if cr_Action res = ''release-prune'' then
        map_option (\<lambda>b. ''release-prune: kept '' @ Itoa (cr_Kept res) @ '', deleted '' @ Itoa (cr_Deleted res) @ '', reclaimed '' @ b)
          (humanBytes (cr_Reclaimed res))
      else map_option (\<lambda>b. ''cache prune: reclaimed '' @ b) (humanBytes (cr_Reclaimed res)))"

definition readCleanupResult :: "'w client \<Rightarrow> Job \<Rightarrow> ('w, CleanupResult \<times> string) kube" where
  "readCleanupResult C job =
     bindr get_app (\<lambda>app.
     bindr (world_op (k_ListPods C (app_Namespace app) (cleanupLabelsFor app))) (\<lambda>r.
     case r of
       Inl _ \<Rightarrow> ret (no_result, '''')
     | Inr pods \<Rightarrow>
         (case latest_terminated cleanupContainerName job pods of
            None \<Rightarrow> ret (no_result, ''cleanup completed'')
          | Some (_, t) \<Rightarrow>
              (case cleanup_result (TrimSpace (cst_Message t)) of
                 None \<Rightarrow> ret (no_result, ''cleanup completed'')
               | Some res \<Rightarrow>
                   (case summarizeCleanup res of
                      None \<Rightarrow> raise Panic
                    | Some msg \<Rightarrow> ret (res, msg))))))"

section \<open>Per-action status\<close>

record cleanupAction =
  ca_mode :: string
  ca_requestedAt :: string
  ca_requestedBy :: string

definition cleanupActionsFor :: "App \<Rightarrow> cleanupAction list" where
  "cleanupActionsFor app =
     [\<lparr>ca_mode = cleanupModeCache,
       ca_requestedAt = map_get (app_Annotations app) CleanupCacheRequestedAtAnnotation,
       ca_requestedBy = map_get (app_Annotations app) CleanupCacheByAnnotation\<rparr>,
      \<lparr>ca_mode = cleanupModeReleases,
       ca_requestedAt = map_get (app_Annotations app) CleanupReleasesRequestedAtAnnotation,
       ca_requestedBy = map_get (app_Annotations app) CleanupReleasesByAnnotation\<rparr>]"

definition new_action :: CleanupActionStatus where
  "new_action = \<lparr>cas_RequestedAt = '''', cas_RequestedBy = '''', cas_Phase = '''', cas_StartedAt = None,
     cas_CompletedAt = None, cas_ReclaimedBytes = 0, cas_Message = ''''\<rparr>"

definition action_of :: "App \<Rightarrow> string \<Rightarrow> CleanupActionStatus" where
  \<comment> \<open>what the pointer of \<open>actionStatus\<close> points to\<close>
  "action_of app mode =
     (case st_Cleanup (app_Status app) of
        None \<Rightarrow> new_action
      | Some c \<Rightarrow>
          (case (if mode = cleanupModeReleases then cs_Releases c else cs_Cache c) of
             None \<Rightarrow> new_action | Some a \<Rightarrow> a))"

definition put_action :: "string \<Rightarrow> CleanupActionStatus \<Rightarrow> App \<Rightarrow> App" where
  "put_action mode a = upd_status (\<lambda>st.
     let c = (case st_Cleanup st of None \<Rightarrow> \<lparr>cs_Cache = None, cs_Releases = None\<rparr> | Some c \<Rightarrow> c)
     in st\<lparr>st_Cleanup := Some (if mode = cleanupModeReleases then c\<lparr>cs_Releases := Some a\<rparr> else c\<lparr>cs_Cache := Some a\<rparr>)\<rparr>)"

definition actionStatus :: "string \<Rightarrow> ('w, CleanupActionStatus) kube" where
  \<comment> \<open>creates the records on first use\<close>
  "actionStatus mode =
     bindr get_app (\<lambda>app. seqr (mod_app (put_action mode (action_of app mode))) (ret (action_of app mode)))"

definition upd_action :: "string \<Rightarrow> (CleanupActionStatus \<Rightarrow> CleanupActionStatus) \<Rightarrow> ('w, unit) kube" where
  \<comment> \<open>an assignment through the pointer of \<open>actionStatus\<close>\<close>
  "upd_action mode f = mod_app (\<lambda>app. put_action mode (f (action_of app mode)) app)"

definition sizeKeyForCleanupMode :: "string \<Rightarrow> string" where
  "sizeKeyForCleanupMode mode = (if mode = cleanupModeReleases then ''outputTotal'' else ''cache'')"

definition cleanupActive :: "'w client \<Rightarrow> ('w, bool) kube" where
  "cleanupActive C =
     bindr get_app (\<lambda>app.
     bindr (ListJobs C (app_Namespace app) (cleanupLabelsFor app)) (\<lambda>r.
     bindr (or_fail r) (\<lambda>jobs. ret (list_ex (\<lambda>j. jobFinished j = None) jobs))))"

section \<open>Observing finished Jobs\<close>

definition record_cleanup_result :: "'w client \<Rightarrow> string \<Rightarrow> CleanupResult \<times> string \<Rightarrow> ('w, unit) kube" where
  \<comment> \<open>the \<open>JobComplete\<close> branch of \<open>observeCleanup\<close>\<close>
  "record_cleanup_result C mode rm =
     (case rm of (res, msg) \<Rightarrow>
        seqr (upd_action mode (\<lambda>a. a\<lparr>cas_Phase := ''Succeeded'', cas_ReclaimedBytes := cr_Reclaimed res, cas_Message := msg\<rparr>))
       (seqr (if cr_Action res \<noteq> ''skip'' \<and> cr_Before res > 0
              then recordSize C (sizeKeyForCleanupMode mode) (cr_After res) else ret ())
             (if mode = cleanupModeReleases \<and> cr_Action res = ''release-prune'' \<and>
                 (cr_Kept res > 0 \<or> cr_Deleted res > 0 \<or> cr_Before res = 0)
              then mod_app (upd_storage (\<lambda>s. s\<lparr>stor_ReleaseCount := cr_Kept res\<rparr>)) else ret ())))"

definition observe_cleanup_job :: "'w client \<Rightarrow> Job \<Rightarrow> ('w, bool) kube" where
  \<comment> \<open>the loop body of \<open>observeCleanup\<close>: whether the Job is harvested\<close>
  "observe_cleanup_job C job =
     (case jobFinished job of
        None \<Rightarrow> ret False
      | Some cond \<Rightarrow>
          let mode = map_get (om_Labels (j_Meta job)) cleanupModeLabel
          in if mode = '''' then ret False
             else bindr (actionStatus mode) (\<lambda>st.
               if cas_Phase st = ''Succeeded'' \<or> cas_Phase st = ''Failed'' then ret True
               else bindr (now C) (\<lambda>t.
                 seqr (upd_action mode (\<lambda>a. a\<lparr>cas_CompletedAt := Some t\<rparr>))
                (seqr (if jc_Type cond = JobComplete
                       then bindr (readCleanupResult C job) (record_cleanup_result C mode)
                       else upd_action mode (\<lambda>a. a\<lparr>cas_Phase := ''Failed'', cas_ReclaimedBytes := 0,
                              cas_Message := ''cleanup failed: '' @ jc_Message cond\<rparr>))
                      (ret True)))))"

definition observeCleanup :: "'w client \<Rightarrow> ('w, Job list) kube" where
  "observeCleanup C =
     bindr get_app (\<lambda>app.
     bindr (ListJobs C (app_Namespace app) (cleanupLabelsFor app)) (\<lambda>r.
     bindr (or_fail r) (\<lambda>jobs. harvest jobs (observe_cleanup_job C))))"

section \<open>Starting\<close>

definition startCleanup :: "'w client \<Rightarrow> env \<Rightarrow> cleanupAction \<Rightarrow> ('w, unit) kube" where
  "startCleanup C E a =
     bindr get_app (\<lambda>app.
     seqr (create_owned C (CleanupJob (e_Config E) app (ca_mode a)))
     (bindr (now C) (\<lambda>t.
      upd_action (ca_mode a) (\<lambda>st. st\<lparr>cas_RequestedAt := ca_requestedAt a, cas_RequestedBy := ca_requestedBy a,
        cas_Phase := ''Running'', cas_StartedAt := Some t, cas_CompletedAt := None\<rparr>))))"

definition cleanup_action :: "'w client \<Rightarrow> env \<Rightarrow> bool \<Rightarrow> string list \<Rightarrow> bool \<Rightarrow> cleanupAction \<Rightarrow> ('w, bool) kube" where
  \<comment> \<open>the loop body of \<open>reconcileCleanup\<close>; the result is \<open>startedThisPass\<close>\<close>
  "cleanup_action C E building harvestedModes begun a =
     bindr (actionStatus (ca_mode a)) (\<lambda>st.
     bindr (cleanupActive C) (\<lambda>active.
     case DecideCleanup (ca_requestedAt a) (cas_RequestedAt st) building
            (active \<or> begun \<or> ca_mode a \<in> set harvestedModes) of
       StartCleanup \<Rightarrow> seqr (startCleanup C E a) (ret True)
     | WaitCleanup \<Rightarrow>
         seqr (upd_action (ca_mode a) (\<lambda>s. s\<lparr>cas_Phase := ''Pending''\<rparr>))
        (seqr (if ca_requestedBy a \<noteq> '''' then upd_action (ca_mode a) (\<lambda>s. s\<lparr>cas_RequestedBy := ca_requestedBy a\<rparr>) else ret ())
              (ret begun))
     | NoCleanup \<Rightarrow> ret begun))"

fun cleanup_actions :: "'w client \<Rightarrow> env \<Rightarrow> bool \<Rightarrow> string list \<Rightarrow> bool \<Rightarrow> cleanupAction list \<Rightarrow> ('w, bool) kube" where
  "cleanup_actions C E ba hm begun [] = ret begun"
| "cleanup_actions C E ba hm begun (a # as) =
     bindr (cleanup_action C E ba hm begun a) (\<lambda>s. cleanup_actions C E ba hm s as)"

definition reconcileCleanup :: "'w client \<Rightarrow> env \<Rightarrow> bool \<Rightarrow> ('w, Job list) kube" where
  "reconcileCleanup C E building =
     bindr (observeCleanup C) (\<lambda>harvested.
     bindr get_app (\<lambda>app.
     seqr (cleanup_actions C E building (map (\<lambda>j. map_get (om_Labels (j_Meta j)) cleanupModeLabel) harvested)
             False (cleanupActionsFor app))
          (ret harvested)))"

section \<open>Calls\<close>

lemma CleanupJob_role [simp]: "job_role (CleanupJob cfg app mode) = cleanupRole"
  by (simp add: job_role_def CleanupJob_def cleanup_parts_def new_meta_def cleanupLabelsFor_def Let_def)

lemma confined_cleanup_status [emits_intros]:
  "confined S (actionStatus mode)" "confined S (upd_action mode f)"
  by (auto simp: actionStatus_def upd_action_def intro!: emits_intros)

lemma confined_observeCleanup [emits_intros]: "ReadJobs \<in> S \<Longrightarrow> confined S (observeCleanup C)"
  unfolding observeCleanup_def observe_cleanup_job_def readCleanupResult_def record_cleanup_result_def Let_def
  by (auto intro!: emits_intros)

lemma confined_cleanupActive [emits_intros]: "ReadJobs \<in> S \<Longrightarrow> confined S (cleanupActive C)"
  by (auto simp: cleanupActive_def intro!: emits_intros)

lemma confined_startCleanup [emits_intros]: "JobStart cleanupRole \<in> S \<Longrightarrow> confined S (startCleanup C E a)"
  by (auto simp: startCleanup_def intro!: emits_intros)

section \<open>Human-readable sizes\<close>

lemma human_loop_exp: "snd (human_loop x d ex) < ex + k \<longleftrightarrow> x < 1024 ^ k" if "0 < k"
  using that
proof (induction x d ex arbitrary: k rule: human_loop.induct)
  case (1 x d ex)
  show ?case
  proof (cases "x \<ge> 1024")
    case True
    show ?thesis
    proof (cases "k = 1")
      case True
      have "ex + 1 \<le> snd (human_loop y d' (ex + 1))" for y d'
      proof -
        have "e \<le> snd (human_loop y d' e)" for e
          by (induction y d' e rule: human_loop.induct) (subst human_loop.simps, force)
        then show ?thesis .
      qed
      from this [of "x div 1024" "d * 1024"] True \<open>x \<ge> 1024\<close> show ?thesis
        by (subst human_loop.simps) simp
    next
      case False
      with "1.prems" obtain j where k: "k = Suc j" "0 < j" by (cases k) auto
      from "1.IH" [OF True k(2)] True k show ?thesis
        by (subst human_loop.simps) (simp add: div_less_iff_less_mult mult.commute)
    qed
  next
    case False
    then have "x < 1024 ^ k" using "1.prems" self_le_power [of "1024 :: nat" k] by simp
    with False "1.prems" show ?thesis by (subst human_loop.simps) simp
  qed
qed

lemma humanBytes_defined: "humanBytes n \<noteq> None \<longleftrightarrow> n < 2 ^ 50"
proof (cases "n < 1024")
  case True
  then show ?thesis by (simp add: humanBytes_def)
next
  case False
  have "snd (human_loop (nat n div 1024) 1024 0) < 4 \<longleftrightarrow> nat n div 1024 < 1024 ^ 4"
    using human_loop_exp [of 4 "nat n div 1024" 1024 0] by simp
  also have "\<dots> \<longleftrightarrow> n < 2 ^ 50"
    using False by (auto simp: div_less_iff_less_mult)
  finally show ?thesis using False by (auto simp: humanBytes_def case_prod_beta Let_def)
qed

section \<open>Properties\<close>

text \<open>C40. The summary of a prune is defined exactly for the sizes the unit table covers: for every
  result that is not a skip it is produced if and only if fewer than \<open>2^50\<close> bytes were reclaimed;
  from there on the index into the table is out of range and the reconciler panics.\<close>

theorem summarizeCleanup_defined_iff:
  "summarizeCleanup res \<noteq> None \<longleftrightarrow> cr_Action res = ''skip'' \<or> cr_Reclaimed res < 2 ^ 50"
  using humanBytes_defined [of "cr_Reclaimed res"] by (auto simp: summarizeCleanup_def)

lemma upd_status_id: "f (app_Status app) = app_Status app \<Longrightarrow> upd_status f app = app"
  by (cases app) (simp add: upd_status_def)

lemma cleanup_id:
  "st_Cleanup st = Some c \<Longrightarrow> st\<lparr>st_Cleanup := Some c\<rparr> = st"
  "cs_Releases c = Some a \<Longrightarrow> c\<lparr>cs_Releases := Some a\<rparr> = c"
  "cs_Cache c = Some a \<Longrightarrow> c\<lparr>cs_Cache := Some a\<rparr> = c"
  for st :: AppStatus and c :: CleanupStatus
  by (cases st, simp) (cases c, simp)+

lemma put_action_id:
  assumes "cas_Phase (action_of app mode) \<noteq> ''''"
  shows "put_action mode (action_of app mode) app = app"
proof -
  from assms obtain c a where "st_Cleanup (app_Status app) = Some c"
    "(if mode = cleanupModeReleases then cs_Releases c else cs_Cache c) = Some a" "action_of app mode = a"
    by (auto simp: action_of_def new_action_def split: option.splits)
  then show ?thesis
    unfolding put_action_def by (intro upd_status_id) (auto simp: cleanup_id split: if_splits)
qed

text \<open>C32. A prune result is recorded once: while the status of an action is terminal, a finished Job
  of that mode that is still present is handed on for deletion and nothing else happens: no status
  field changes, no size is written back, and the clock and the pods are not even read.\<close>

theorem terminal_cleanup_untouched:
  assumes "jobFinished job = Some cond" "map_get (om_Labels (j_Meta job)) cleanupModeLabel = mode" "mode \<noteq> ''''"
    and "cas_Phase (action_of (r_app s) mode) = ''Succeeded'' \<or> cas_Phase (action_of (r_app s) mode) = ''Failed''"
  shows "observe_cleanup_job C job s = (Inr True, s)"
proof -
  have "put_action mode (action_of (r_app s) mode) (r_app s) = r_app s"
    using assms(4) by (intro put_action_id) auto
  then show ?thesis
    using assms
    by (auto simp: observe_cleanup_job_def actionStatus_def get_app_def gets_def bindr_def seqr_def mod_app_def modify_def ret_def Let_def)
qed

theorem terminal_cleanup_untouched_witness:
  "let job = (CleanupJob sample_config sample_app ''cache'')\<lparr>j_Conditions := [\<lparr>jc_Type = JobComplete, jc_Status = ''True'', jc_Message = ''''\<rparr>]\<rparr>;
       s = sample_state (put_action ''cache'' (new_action\<lparr>cas_Phase := ''Failed''\<rparr>) sample_app)
   in observe_cleanup_job sample_client job s = (Inr True, s)"
proof -
  let ?job = "(CleanupJob sample_config sample_app ''cache'')\<lparr>j_Conditions := [\<lparr>jc_Type = JobComplete, jc_Status = ''True'', jc_Message = ''''\<rparr>]\<rparr>"
  let ?s = "sample_state (put_action ''cache'' (new_action\<lparr>cas_Phase := ''Failed''\<rparr>) sample_app)"
  have "observe_cleanup_job sample_client ?job ?s = (Inr True, ?s)"
    by (rule terminal_cleanup_untouched [where mode = "''cache''"])
      (auto simp: jobFinished_def CleanupJob_def cleanup_parts_def new_meta_def Let_def sample_state_def put_action_def action_of_def
        split: option.split)
  then show ?thesis by (simp add: Let_def)
qed


end
