(* ===== verification/Reconcile_Loop.thy ===== *)
theory Reconcile_Loop
  imports Build_Lifecycle Cleanup
begin

text \<open>
  \<open>AppReconciler.Reconcile\<close> (\<open>internal/controller/app_controller.go\<close>): one pass of the operator over
  one App, from the read of the object to the deletion of harvested Jobs, with every early return.
\<close>

record ctrl_Result =
  res_Requeue :: bool
  res_RequeueAfter :: duration

definition no_requeue :: ctrl_Result where
  "no_requeue = \<lparr>res_Requeue = False, res_RequeueAfter = 0\<rparr>"

definition requeue_after :: "duration \<Rightarrow> ctrl_Result" where
  "requeue_after d = \<lparr>res_Requeue = False, res_RequeueAfter = d\<rparr>"

section \<open>Rejection\<close>

definition fail_status :: "'w client \<Rightarrow> env \<Rightarrow> string \<Rightarrow> string \<Rightarrow> ('w, unit) kube" where
  \<comment> \<open>\<open>fail\<close> up to the status write\<close>
  "fail_status C E reason msg =
     seqr (set_condition C ConditionReady ConditionFalse reason msg)
    (seqr (set_condition C ConditionDegraded ConditionTrue reason msg)
    (seqr (mod_app (upd_status (\<lambda>st. st\<lparr>st_Phase := PhaseDegraded\<rparr>)))
    (seqr (record_app C E)
    (bindr get_app (\<lambda>app.
     if isPlatformFault reason ''''
     then capture C \<lparr>tf_App = app_Name app, tf_Namespace = app_Namespace app, tf_Step = '''',
            tf_Reason = reason, tf_Message = msg\<rparr>
     else ret ())))))"

definition fail :: "'w client \<Rightarrow> env \<Rightarrow> string \<Rightarrow> string \<Rightarrow> ('w, ctrl_Result) kube" where
  "fail C E reason msg = seqr (fail_status C E reason msg) (seqr (StatusUpdate C) (ret (requeue_after Minute)))"

definition check_spec :: "OperatorConfig \<Rightarrow> App \<Rightarrow> (string \<times> rejection) option option" where
  \<comment> \<open>steps 1 to 2c, which read nothing but the configuration and the App; outer \<^const>\<open>None\<close> is a panic\<close>
  "check_spec cfg app =
     (case Validate cfg of
        Some e \<Rightarrow> Some (Some (ReasonConfigError, RConfig e))
      | None \<Rightarrow>
          (case CheckImagesAllowed (cfg_RegistryAllowlist cfg) (phaseImages app) of
             None \<Rightarrow> None
           | Some (Some e) \<Rightarrow> Some (Some (ReasonImageNotAllowed, RImage e))
           | Some None \<Rightarrow>
               (case validateNodeVersion cfg app of
                  Some e \<Rightarrow> Some (Some (ReasonUnknownNodeVersion, RNode e))
                | None \<Rightarrow>
                    (case validateWatchCommits app of
                       Some e \<Rightarrow> Some (Some (ReasonInvalidSpec, RWatch e))
                     | None \<Rightarrow> Some None))))"

section \<open>Deletion\<close>

definition deleteJobs :: "'w client \<Rightarrow> Job list \<Rightarrow> ('w, unit) kube" where
  "deleteJobs C jobs =
     for_each jobs (\<lambda>j. seqr (Delete C KJob (om_Namespace (j_Meta j)) (om_Name (j_Meta j))) (ret ()))"

definition reconcileDelete :: "'w client \<Rightarrow> ('w, ctrl_Result) kube" where
  "reconcileDelete C =
     bindr get_app (\<lambda>app.
     if \<not> k_ContainsFinalizer C (app_Finalizers app) FinalizerName then ret no_requeue
     else
       bindr (ListJobs C (app_Namespace app) (buildLabelsFor app)) (\<lambda>r.
       seqr (case r of
               Inl _ \<Rightarrow> ret ()
             | Inr jobs \<Rightarrow> deleteJobs C (filter (\<lambda>j. jobFinished j = None) jobs))
      (seqr (mod_app (\<lambda>a. a\<lparr>app_Finalizers := k_RemoveFinalizer C (app_Finalizers a) FinalizerName\<rparr>))
      (seqr (UpdateApp C)
      (bindr get_app (\<lambda>a.
       seqr (forget_app (app_Namespace a) (app_Name a)) (ret no_requeue)))))))"

section \<open>The pass\<close>

definition reconcile_build :: "'w client \<Rightarrow> env \<Rightarrow> gitCredentialDecision \<Rightarrow> ('w, bool) kube" where
  \<comment> \<open>step 8; the result is \<open>active\<close> as the later steps see it\<close>
  "reconcile_build C E gitCred =
     bindr (buildActive C) (\<lambda>(active, activeJob).
     bindr get_app (\<lambda>app.
     let requested = map_get (app_Annotations app) RebuildAnnotation
     in case DecideBuild requested (st_LastProcessedRebuild (app_Status app)) active of
          StartBuild \<Rightarrow> seqr (startBuild C E requested gitCred) (ret True)
        | DeferBuild \<Rightarrow> ret active
        | NoBuild \<Rightarrow> ret active))"

definition reconcile_observe :: "'w client \<Rightarrow> env \<Rightarrow> bool \<Rightarrow> ('w, Job list) kube" where
  \<comment> \<open>steps 9 to 9c; the result is the list of Jobs to delete\<close>
  "reconcile_observe C E active =
     seqr (observeBuild C E)
    (bindr (observeMeasurement C) (\<lambda>measured.
     seqr (recordPVCCapacities C)
    (bindr (reconcileCleanup C E active) (\<lambda>cleaned.
     ret (measured @ cleaned)))))"

definition refresh_phase :: "'w client \<Rightarrow> ('w, unit) kube" where
  \<comment> \<open>\<open>r.refreshPhase(app)\<close>; the clock is read only where a condition is set\<close>
  "refresh_phase C =
     bindr get_app (\<lambda>app.
     if phaseOf app = PhaseDegraded then mod_app (refreshPhase zero_time)
     else bindr (now C) (\<lambda>n. mod_app (refreshPhase n)))"

definition reconcile_finish :: "'w client \<Rightarrow> env \<Rightarrow> Job list \<Rightarrow> ('w, ctrl_Result) kube" where
  \<comment> \<open>steps 10 to 12\<close>
  "reconcile_finish C E jobs =
     seqr (mod_app (\<lambda>app. upd_storage (\<lambda>s. s\<lparr>stor_ThresholdState :=
            EvaluateThresholdState (stor_Sizes s) (storageConfigFrom app)\<rparr>) app))
    (bindr get_app (\<lambda>app.
     seqr (if hasSucceededOnce app then ensureServing C E else ret ())
    (seqr (refresh_phase C)
    (seqr (record_app C E)
    (seqr (StatusUpdate C)
    (seqr (deleteJobs C jobs)
          (ret (requeue_after (10 * Minute)))))))))"

definition reconcile_steps :: "'w client \<Rightarrow> env \<Rightarrow> gitCredentialDecision \<Rightarrow> ('w, ctrl_Result) kube" where
  \<comment> \<open>steps 5 to 12\<close>
  "reconcile_steps C E gitCred =
     seqr (mod_app (\<lambda>app. upd_status (\<lambda>st. st\<lparr>st_SpecStale := IsStale (buildSpecFrom app) (st_LastBuiltSpecHash st)\<rparr>) app))
    (seqr (ensureInfra C E gitCred)
    (bindr get_app (\<lambda>app.
     if phaseOf app = PhaseAwaitingFirstBuild \<and> map_get (app_Annotations app) RebuildAnnotation = ''''
     then seqr (seedRebuild C) (ret \<lparr>res_Requeue = True, res_RequeueAfter = 0\<rparr>)
     else
       bindr (reconcile_build C E gitCred) (\<lambda>active.
       bindr (reconcile_observe C E active) (reconcile_finish C E)))))"

definition reconcile_admitted :: "'w client \<Rightarrow> env \<Rightarrow> ('w, ctrl_Result) kube" where
  \<comment> \<open>steps 2d to 12\<close>
  "reconcile_admitted C E =
     bindr (reconcileGitCredential C E) (\<lambda>gitCred.
     bindr (validateRepoAuthSecret C) (\<lambda>ra.
     case ra of
       Some e \<Rightarrow> fail C E ReasonInvalidRepoAuth (e_Text E (RRepoAuth e))
     | None \<Rightarrow>
         bindr get_app (\<lambda>app.
         case ValidateStorage (storageConfigFrom app) of
           Some e \<Rightarrow> fail C E ReasonInvalidStorage (e_Text E (RStorage e))
         | None \<Rightarrow>
             bindr (validateStorageClass C E) (\<lambda>sc.
             case sc of
               Some e \<Rightarrow> fail C E ReasonInvalidStorageClass (e_Text E (RStorageClass e))
             | None \<Rightarrow> reconcile_steps C E gitCred))))"

definition reconcile_live :: "'w client \<Rightarrow> env \<Rightarrow> ('w, ctrl_Result) kube" where
  \<comment> \<open>everything after the finalizer\<close>
  "reconcile_live C E =
     seqr (record_app C E)
    (seqr (mod_app (\<lambda>app. upd_status (\<lambda>st. st\<lparr>st_ObservedGeneration := app_Generation app\<rparr>) app))
    (bindr get_app (\<lambda>app.
     case check_spec (e_Config E) app of
       None \<Rightarrow> raise Panic
     | Some (Some (reason, rej)) \<Rightarrow> fail C E reason (e_Text E rej)
     | Some None \<Rightarrow> reconcile_admitted C E)))"

definition Reconcile :: "'w client \<Rightarrow> env \<Rightarrow> string \<Rightarrow> string \<Rightarrow> ('w, ctrl_Result) kube" where
  "Reconcile C E ns nm =
     bindr (world_op (k_GetApp C ns nm)) (\<lambda>r.
     case r of
       Inl e \<Rightarrow> if e = NotFound then seqr (forget_app ns nm) (ret no_requeue) else raise (Api e)
     | Inr app \<Rightarrow>
         seqr (put_app app)
         (if (case app_DeletionTimestamp app of None \<Rightarrow> False | Some t \<Rightarrow> \<not> IsZero t) then reconcileDelete C
          else
            seqr (if k_ContainsFinalizer C (app_Finalizers app) FinalizerName then ret ()
                  else seqr (mod_app (\<lambda>a. a\<lparr>app_Finalizers := k_AddFinalizer C (app_Finalizers a) FinalizerName\<rparr>))
                            (UpdateApp C))
                 (reconcile_live C E)))"

section \<open>Calls of a pass\<close>

definition yields :: "((rerr + 'a) \<Rightarrow> call list \<Rightarrow> bool) \<Rightarrow> ('w, 'a) kube \<Rightarrow> bool" where
  \<comment> \<open>like \<open>obeys\<close>, with the outcome of the step\<close>
  "yields R m \<longleftrightarrow> (\<forall>s. \<exists>cs. r_calls (snd (m s)) = r_calls s @ cs \<and> R (fst (m s)) cs)"

lemma yieldsE:
  assumes "yields R m" "m s = (r, s')"
  obtains cs where "r_calls s' = r_calls s @ cs" "R r cs"
proof -
  from assms(1) obtain cs where "r_calls (snd (m s)) = r_calls s @ cs" "R (fst (m s)) cs"
    unfolding yields_def by blast
  with assms(2) that show thesis by simp
qed

lemma yields_bindr:
  assumes "yields R m" "\<And>x. yields (R' x) (f x)"
    and "\<And>e cs. R (Inl e) cs \<Longrightarrow> Q (Inl e) cs"
    and "\<And>x cs r ds. R (Inr x) cs \<Longrightarrow> R' x r ds \<Longrightarrow> Q r (cs @ ds)"
  shows "yields Q (bindr m f)"
  unfolding yields_def
proof
  fix s
  obtain r t where m: "m s = (r, t)" by (cases "m s")
  obtain cs where cs: "r_calls t = r_calls s @ cs" "R r cs" by (rule yieldsE [OF assms(1) m])
  show "\<exists>cs. r_calls (snd (bindr m f s)) = r_calls s @ cs \<and> Q (fst (bindr m f s)) cs"
  proof (cases r)
    case (Inl e)
    with m cs assms(3) show ?thesis by (auto simp: bindr_def)
  next
    case (Inr x)
    obtain r' t' where f: "f x t = (r', t')" by (cases "f x t")
    obtain ds where "r_calls t' = r_calls t @ ds" "R' x r' ds" by (rule yieldsE [OF assms(2) f])
    with cs Inr m f assms(4) show ?thesis by (auto simp: bindr_def intro!: exI [of _ "cs @ ds"])
  qed
qed

lemma yields_weaken: "yields R m \<Longrightarrow> (\<And>r cs. R r cs \<Longrightarrow> Q r cs) \<Longrightarrow> yields Q m"
  unfolding yields_def by blast

lemma yields_confined: "confined S m \<Longrightarrow> yields (\<lambda>_. list_all (\<lambda>c. class_of c \<in> S)) m"
  by (simp add: yields_def emits_def)

lemma yields_obeys: "obeys G m \<longleftrightarrow> yields (\<lambda>_. G) m"
  by (simp add: yields_def obeys_def)

subsection \<open>At most one build or prune starts\<close>

definition starts :: "call list \<Rightarrow> nat" where
  \<comment> \<open>how many build and cleanup Jobs a call sequence creates\<close>
  "starts cs = length (filter (\<lambda>c. class_of c \<in> {JobStart ''build'', JobStart cleanupRole}) cs)"

lemma starts_append [simp]: "starts (xs @ ys) = starts xs + starts ys"
  by (simp add: starts_def)

definition quiet :: "call_class set \<Rightarrow> bool" where
  "quiet S \<longleftrightarrow> JobStart ''build'' \<notin> S \<and> JobStart cleanupRole \<notin> S"

lemma starts_quiet: "quiet S \<Longrightarrow> list_all (\<lambda>c. class_of c \<in> S) cs \<Longrightarrow> starts cs = 0"
  by (induction cs) (auto simp: starts_def quiet_def)

lemma no_starts: "confined S m \<Longrightarrow> quiet S \<Longrightarrow> yields (\<lambda>_ cs. starts cs = 0) m"
  by (drule yields_confined, erule yields_weaken) (rule starts_quiet)

lemma quiet_then:
  assumes "confined S m" "quiet S" "\<And>x. yields R (f x)"
    and "\<And>e cs. starts cs = 0 \<Longrightarrow> R (Inl e) cs"
    and "\<And>cs r ds. starts cs = 0 \<Longrightarrow> R r ds \<Longrightarrow> R r (cs @ ds)"
  shows "yields R (bindr m f)"
  by (rule yields_bindr [OF no_starts [OF assms(1,2)] assms(3)]) (use assms(4,5) in auto)

lemma then_quiet:
  assumes "yields (\<lambda>_ cs. starts cs \<le> n) m" "\<And>x. confined S (f x)" "quiet S"
  shows "yields (\<lambda>_ cs. starts cs \<le> n) (bindr m f)"
  by (rule yields_bindr [OF assms(1) no_starts [OF assms(2,3)]]) auto

lemma quiet_sets [simp]: "quiet {}" "quiet {ReadJobs}"
  by (simp_all add: quiet_def)

lemma create_owned_starts: "yields (\<lambda>_ cs. starts cs \<le> 1) (create_owned C job)"
proof -
  have one: "yields (\<lambda>_ cs. starts cs \<le> 1) (Create C obj)" for obj
    by (simp add: yields_def Create_def bindr_def seqr_def world_op_def log_calls_def modify_def ret_def case_prod_beta starts_def)
  show ?thesis
    unfolding create_owned_def SetControllerReference_def
    by (rule quiet_then [OF emits_new_owners quiet_sets(1)], rule then_quiet [OF one _ quiet_sets(1)], intro emits_intros)
      simp_all
qed

lemma start_then_status:
  "(\<And>x. confined {} m) \<Longrightarrow> yields (\<lambda>_ cs. starts cs \<le> 1) (seqr (create_owned C job) m)"
  unfolding seqr_def by (rule then_quiet [OF create_owned_starts _ quiet_sets(1)])

lemma startBuild_starts: "yields (\<lambda>_ cs. starts cs \<le> 1) (startBuild C E token d)"
  unfolding startBuild_def Let_def
  by (rule quiet_then [OF emits_app_state(2) quiet_sets(1)], rule start_then_status, intro emits_intros) simp_all

lemma startCleanup_starts: "yields (\<lambda>_ cs. starts cs \<le> 1) (startCleanup C E a)"
  unfolding startCleanup_def
  by (rule quiet_then [OF emits_app_state(2) quiet_sets(1)], rule start_then_status, intro emits_intros) simp_all

lemma yields_ret: "R (Inr x) [] \<Longrightarrow> yields R (ret x)"
  by (simp add: yields_def ret_def)

lemma reconcile_build_starts:
  "yields (\<lambda>r cs. starts cs \<le> 1 \<and> (r = Inr False \<longrightarrow> starts cs = 0)) (reconcile_build C E d)" (is "yields ?R _")
proof -
  have same: "yields ?R (ret b)" for b
    by (rule yields_ret) (simp add: starts_def)
  have start: "yields ?R (seqr (startBuild C E t d) (ret True))" for t
    unfolding seqr_def
    by (rule yields_bindr [OF startBuild_starts, where R' = "\<lambda>_ r cs. r = Inr True \<and> cs = []"])
      (auto intro: yields_ret)
  have decide: "yields ?R (case dec of StartBuild \<Rightarrow> seqr (startBuild C E t d) (ret True) | DeferBuild \<Rightarrow> ret a | NoBuild \<Rightarrow> ret a)"
    for dec t a
    by (cases dec) (simp_all only: BuildDecision.case same start)
  show ?thesis
    unfolding reconcile_build_def Let_def case_prod_beta
    by (rule quiet_then [OF confined_reads(1) quiet_sets(2)], simp,
        rule quiet_then [OF emits_app_state(2) quiet_sets(1)], rule decide) simp_all
qed

lemma cleanup_action_starts:
  "yields (\<lambda>r cs. starts cs \<le> (if ba \<or> begun then 0 else 1) \<and>
       (\<forall>b. r = Inr b \<longrightarrow> (begun \<longrightarrow> b) \<and> (\<not> b \<longrightarrow> starts cs = 0)))
     (cleanup_action C E ba hm begun a)" (is "yields ?R _")
proof -
  have idle: "yields ?R m" if "m = ret begun" for m
    unfolding that by (rule yields_ret) (simp add: starts_def)
  have wait: "yields ?R (seqr m (seqr n (ret begun)))" if "confined {} m" "confined {} n" for m n
    unfolding seqr_def
    by (rule quiet_then [OF that(1) quiet_sets(1)], rule quiet_then [OF that(2) quiet_sets(1)], rule idle) auto
  have start: "yields ?R (seqr (startCleanup C E a) (ret True))" if "\<not> ba" "\<not> begun"
    unfolding seqr_def
    by (rule yields_bindr [OF startCleanup_starts, where R' = "\<lambda>_ r cs. r = Inr True \<and> cs = []"])
      (use that in \<open>auto intro: yields_ret\<close>)
  have decide: "yields ?R (case DecideCleanup q p ba (x \<or> begun \<or> y) of
       StartCleanup \<Rightarrow> seqr (startCleanup C E a) (ret True)
     | WaitCleanup \<Rightarrow> seqr (upd_action (ca_mode a) f) (seqr (if b then upd_action (ca_mode a) g else ret ()) (ret begun))
     | NoCleanup \<Rightarrow> ret begun)" for q p x y f g b
  proof (cases "DecideCleanup q p ba (x \<or> begun \<or> y)")
    case StartCleanup
    then have "\<not> ba" "\<not> begun" by (auto simp: DecideCleanup_def split: if_splits)
    with start StartCleanup show ?thesis by simp
  next
    case WaitCleanup
    then show ?thesis by (simp only: CleanupDecision.case) (rule wait; intro emits_intros)
  qed (simp only: CleanupDecision.case idle)
  show ?thesis
    unfolding cleanup_action_def
    by (rule quiet_then [OF confined_cleanup_status(1) quiet_sets(1)],
        rule quiet_then [OF confined_cleanupActive quiet_sets(2)], simp, rule decide) auto
qed

lemma cleanup_actions_starts:
  "yields (\<lambda>_ cs. starts cs \<le> (if ba \<or> begun then 0 else 1)) (cleanup_actions C E ba hm begun as)"
proof (induction as arbitrary: begun)
  case Nil
  show ?case by (auto simp: starts_def intro: yields_ret)
next
  case (Cons a as)
  show ?case
    unfolding cleanup_actions.simps
    by (rule yields_bindr [OF cleanup_action_starts Cons.IH]) (auto split: if_splits)
qed

lemma reconcileCleanup_starts:
  "yields (\<lambda>_ cs. starts cs \<le> (if building then 0 else 1)) (reconcileCleanup C E building)"
  unfolding reconcileCleanup_def
proof (rule quiet_then [OF confined_observeCleanup quiet_sets(2)], simp,
    rule quiet_then [OF emits_app_state(2) quiet_sets(1)])
  fix jobs and app :: App
  show "yields (\<lambda>_ cs. starts cs \<le> (if building then 0 else 1))
     (seqr (cleanup_actions C E building (map (\<lambda>j. map_get (om_Labels (j_Meta j)) cleanupModeLabel) jobs) False
       (cleanupActionsFor app)) (ret jobs))"
    unfolding seqr_def
    by (rule then_quiet [OF cleanup_actions_starts [where ba = building and begun = False, unfolded HOL.simp_thms] _ quiet_sets(1)])
      (rule emits_ret)
qed auto

lemma quiet_observe: "quiet {ReadJobs, JobStart measureRole, JobPatch, Telemetry}"
  by (simp add: quiet_def)

lemma reconcile_observe_starts:
  "yields (\<lambda>_ cs. starts cs \<le> (if active then 0 else 1)) (reconcile_observe C E active)"
  unfolding reconcile_observe_def
  apply (subst seqr_def, rule quiet_then [OF confined_observeBuild quiet_observe]; (simp; fail)?)
  apply (rule quiet_then [OF confined_observeMeasurement quiet_sets(2)]; (simp; fail)?)
  apply (subst seqr_def, rule quiet_then [OF confined_capacities quiet_sets(1)]; (simp; fail)?)
  by (rule then_quiet [OF reconcileCleanup_starts _ quiet_sets(1)], rule emits_ret)

lemma confined_deleteJobs [emits_intros]: "JobDelete \<in> S \<Longrightarrow> confined S (deleteJobs C jobs)"
  unfolding deleteJobs_def by (intro emits_intros) simp_all

lemma confined_fail [emits_intros]:
  "Telemetry \<in> S \<Longrightarrow> StatusWrite True \<in> S \<Longrightarrow> StatusWrite False \<in> S \<Longrightarrow> confined S (fail C E reason msg)"
  unfolding fail_def fail_status_def by (intro emits_intros) simp_all

lemma confined_reconcileDelete [emits_intros]:
  "ReadJobs \<in> S \<Longrightarrow> JobDelete \<in> S \<Longrightarrow> AppWrite \<in> S \<Longrightarrow> Telemetry \<in> S \<Longrightarrow> confined S (reconcileDelete C)"
  unfolding reconcileDelete_def by (intro emits_intros)

lemma confined_reconcile_finish [emits_intros]:
  assumes "ChildWrite ` serving_kinds \<subseteq> S" "ChildWrite KNetworkPolicy \<in> S" "Telemetry \<in> S"
    "StatusWrite True \<in> S" "StatusWrite False \<in> S" "JobDelete \<in> S"
  shows "confined S (reconcile_finish C E jobs)"
  unfolding reconcile_finish_def refresh_phase_def by (intro emits_intros assms)

abbreviation no_start where "no_start \<equiv> - {JobStart ''build'', JobStart cleanupRole}"

lemma quiet_no_start: "quiet no_start"
  by (simp add: quiet_def)

lemma no_start_subsets: "infra_classes \<subseteq> no_start" "ChildWrite ` serving_kinds \<subseteq> no_start"
  by (auto simp: infra_classes_def)

lemma reconcile_steps_starts: "yields (\<lambda>_ cs. starts cs \<le> 1) (reconcile_steps C E d)"
proof -
  have finish: "confined no_start (reconcile_finish C E jobs)" for jobs
    by (intro emits_intros no_start_subsets) simp_all
  have observe: "yields (\<lambda>_ cs. starts cs \<le> (if active then 0 else 1))
      (bindr (reconcile_observe C E active) (reconcile_finish C E))" for active
    by (rule then_quiet [OF reconcile_observe_starts finish quiet_no_start])
  have main: "yields (\<lambda>_ cs. starts cs \<le> 1) (bindr (reconcile_build C E d) (\<lambda>active.
      bindr (reconcile_observe C E active) (reconcile_finish C E)))"
    by (rule yields_bindr [OF reconcile_build_starts observe]) (auto split: if_splits)
  have seed: "yields (\<lambda>_ cs. starts cs \<le> 1) (seqr (seedRebuild C) (ret res))" for res
    by (rule yields_weaken [OF no_starts [OF _ quiet_no_start]], intro emits_intros) simp_all
  show ?thesis
    unfolding reconcile_steps_def
    by (subst seqr_def, rule quiet_then [OF _ quiet_sets(1)], intro emits_intros, subst seqr_def,
        rule quiet_then [OF confined_ensureInfra quiet_no_start], rule no_start_subsets,
        rule quiet_then [OF emits_app_state(2) quiet_sets(1)])
      (auto simp del: One_nat_def intro: seed main)
qed

lemma start_later:
  assumes "confined no_start m" "\<And>x. yields (\<lambda>_ cs. starts cs \<le> n) (f x)"
  shows "yields (\<lambda>_ cs. starts cs \<le> n) (bindr m f)"
  by (rule quiet_then [OF assms(1) quiet_no_start assms(2)]) simp_all

lemma no_start_in:
  "confined no_start m \<Longrightarrow> yields (\<lambda>_ cs. starts cs \<le> n) m"
  by (rule yields_weaken [OF no_starts [OF _ quiet_no_start]]) simp_all

lemma no_start_parts:
  "confined no_start (fail C E reason msg)" "confined no_start (reconcileGitCredential C E)"
  "confined no_start (validateRepoAuthSecret C)" "confined no_start (validateStorageClass C E)"
  "confined no_start (reconcileDelete C)" "confined no_start (record_app C E)" "confined no_start (forget_app ns nm)"
  "confined no_start (UpdateApp C)"
  by (intro emits_intros; simp)+

lemma start_leaves:
  "yields (\<lambda>_ cs. starts cs \<le> n) (fail C E reason msg)" "yields (\<lambda>_ cs. starts cs \<le> n) (reconcileDelete C)"
  "yields (\<lambda>_ cs. starts cs \<le> n) (ret x)" "yields (\<lambda>_ cs. starts cs \<le> n) (raise e)"
  by (rule no_start_in, (rule no_start_parts emits_ret emits_raise))+

lemma yields_cases:
  "yields R a \<Longrightarrow> (\<And>x. yields R (f x)) \<Longrightarrow> yields R (case_option a f v)"
  "(\<And>x. yields R (f1 x)) \<Longrightarrow> (\<And>x. yields R (f2 x)) \<Longrightarrow> yields R (case_sum f1 f2 v')"
  "(\<And>x y. yields R (f3 x y)) \<Longrightarrow> yields R (case_prod f3 v'')"
  "(b \<Longrightarrow> yields R m) \<Longrightarrow> (\<not> b \<Longrightarrow> yields R k) \<Longrightarrow> yields R (if b then m else k)"
  by (auto split: option.split sum.split prod.split)

lemmas start_steps = start_later yields_cases start_leaves no_start_parts emits_app_state

lemma reconcile_live_starts: "yields (\<lambda>_ cs. starts cs \<le> 1) (reconcile_live C E)"
proof -
  have admitted: "yields (\<lambda>_ cs. starts cs \<le> 1) (reconcile_admitted C E)"
    unfolding reconcile_admitted_def by (intro start_steps reconcile_steps_starts)
  show ?thesis
    unfolding reconcile_live_def seqr_def by (intro start_steps admitted)
qed

lemma Reconcile_starts: "yields (\<lambda>_ cs. starts cs \<le> 1) (Reconcile C E ns nm)"
  unfolding Reconcile_def seqr_def
  by (intro start_steps reconcile_live_starts emits_world_op emits_bindr emits_if emits_ret)

subsection \<open>A build starts only on a list of finished builds\<close>

definition build_guarded :: "call list \<Rightarrow> bool" where
  \<comment> \<open>each creation of a build Job comes right after a list, by the labels of that Job, of finished Jobs\<close>
  "build_guarded cs \<longleftrightarrow> (\<forall>pre c post. cs = pre @ c # post \<longrightarrow> class_of c = JobStart ''build'' \<longrightarrow>
     (\<exists>pre' j e js. c = CCreate (OJob j) e \<and> pre = pre' @ [CListJobs (om_Labels (j_Meta j)) (Some js)] \<and>
        list_all (\<lambda>j. jobFinished j \<noteq> None) js))"

interpretation build_guard: call_discipline build_guarded
proof
  show "build_guarded []" by (simp add: build_guarded_def)
next
  fix xs ys assume xs: "build_guarded xs" and ys: "build_guarded ys"
  show "build_guarded (xs @ ys)"
    unfolding build_guarded_def
  proof (intro allI impI)
    fix pre c post assume eq: "xs @ ys = pre @ c # post" and c: "class_of c = JobStart ''build''"
    from eq consider us where "xs = pre @ c # us" | us where "ys = us @ c # post" "pre = xs @ us"
      by (auto simp: append_eq_append_conv2 append_eq_Cons_conv)
    then show "\<exists>pre' j e js. c = CCreate (OJob j) e \<and> pre = pre' @ [CListJobs (om_Labels (j_Meta j)) (Some js)] \<and>
        list_all (\<lambda>j. jobFinished j \<noteq> None) js"
    proof cases
      case 1
      then show ?thesis using xs c unfolding build_guarded_def by blast
    next
      case 2
      with ys c obtain pre' j e js where "c = CCreate (OJob j) e" "us = pre' @ [CListJobs (om_Labels (j_Meta j)) (Some js)]"
        "list_all (\<lambda>j. jobFinished j \<noteq> None) js"
        unfolding build_guarded_def by blast
      with 2 show ?thesis by (intro exI [of _ "xs @ pre'"]) auto
    qed
  qed
qed

lemma build_guarded_none: "list_all (\<lambda>c. class_of c \<in> S) cs \<Longrightarrow> JobStart ''build'' \<notin> S \<Longrightarrow> build_guarded cs"
  by (auto simp: build_guarded_def)

lemma create_owned_cases:
  assumes "create_owned C job s = (r, s')"
  obtains "r_calls s' = r_calls s" "\<exists>e. r = Inl e" "r_app s' = r_app s"
    | rs e where "r_calls s' = r_calls s @ [CCreate (with_owners rs (OJob job)) e]" "r_app s' = r_app s"
  using assms
  by (auto simp: create_owned_def SetControllerReference_def new_owners_def bindr_def seqr_def gets_def raise_def ret_def
      Create_def world_op_def log_calls_def modify_def fail_on_def split: sum.splits prod.splits option.splits)

lemma startBuild_calls:
  assumes "startBuild C E token d s = (r, s')"
  shows "r_calls s' = r_calls s \<or> (\<exists>rs e. r_calls s' = r_calls s @
    [CCreate (with_owners rs (OJob (BuildJob (k_ParseQuantity C) (e_Config E) (r_app s) token d))) e])"
proof -
  have silent: "r_calls u' = r_calls u" if "record_start C token job u = (r', u')" for job u r' u'
    using emitsE [OF confined_record_start [where S = "{}"] that] by (metis append_Nil2 empty_iff list.pred_inject(2) neq_Nil_conv)
  from assms show ?thesis
    unfolding startBuild_def seqr_def get_app_def rm_simps Let_def
    by (elim bindr_cases create_owned_cases) (auto dest!: silent simp del: with_owners.simps)
qed

lemma buildActive_calls:
  assumes "buildActive C s = (r, s')"
  obtains (failed) e where "r = Inl e" "r_app s' = r_app s"
      "r_calls s' = r_calls s @ [CListJobs (buildLabelsFor (r_app s)) None]"
    | (listed) js nm where "r = Inr (list_ex (\<lambda>j. jobFinished j = None) js, nm)" "r_app s' = r_app s"
      "r_calls s' = r_calls s @ [CListJobs (buildLabelsFor (r_app s)) (Some js)]"
proof -
  have active: "(case find P js of Some j \<Rightarrow> (True, n j) | None \<Rightarrow> (False, m)) = (list_ex P js, (case find P js of Some j \<Rightarrow> n j | None \<Rightarrow> m))"
    for P and js :: "Job list" and n and m :: string
    by (auto simp: find_None_all list_ex_iff split: option.split dest: find_Some_in)
  from assms that show thesis
    by (auto simp: buildActive_def get_app_def gets_def bindr_def ListJobs_def seqr_def world_op_def log_calls_def modify_def
        ret_def or_fail_def raise_def active split: sum.splits prod.splits)
qed

lemma record_start_app:
  assumes "record_start C token job s = (r, s')"
  shows "r = Inr () \<and> app_Annotations (r_app s') = app_Annotations (r_app s) \<and>
    st_LastProcessedRebuild (app_Status (r_app s')) = token \<and>
    build_JobName (st_Build (app_Status (r_app s'))) = om_Name (j_Meta job) \<and>
    build_Phase (st_Build (app_Status (r_app s'))) = BuildPhasePending"
  using assms
  by (auto simp: record_start_def bindr_def seqr_def get_app_def mod_app_def now_def gets_def modify_def world_op_def ret_def
      started_status_def Let_def upd_build_def split: prod.splits if_splits)

lemma reconcile_build_cases:
  assumes "reconcile_build C E d s = (r, s')"
  obtains (failed) e where "r = Inl e" "r_calls s' = r_calls s @ [CListJobs (buildLabelsFor (r_app s)) None]"
    | (idle) js where "r_calls s' = r_calls s @ [CListJobs (buildLabelsFor (r_app s)) (Some js)]"
        "r = Inr (list_ex (\<lambda>j. jobFinished j = None) js)" "r_app s' = r_app s"
        "\<not> build_go (map_get (app_Annotations (r_app s)) RebuildAnnotation) (st_LastProcessedRebuild (app_Status (r_app s)))
           (list_ex (\<lambda>j. jobFinished j = None) js)"
    | (start) t1 js t where "t = map_get (app_Annotations (r_app s)) RebuildAnnotation"
        "r_calls t1 = r_calls s @ [CListJobs (buildLabelsFor (r_app s)) (Some js)]" "r_app t1 = r_app s"
        "build_go t (st_LastProcessedRebuild (app_Status (r_app s))) (list_ex (\<lambda>j. jobFinished j = None) js)"
        "seqr (startBuild C E t d) (ret True) t1 = (r, s')"
proof -
  obtain r1 t1 where a: "buildActive C s = (r1, t1)" by (cases "buildActive C s")
  show thesis
    using a
  proof (cases rule: buildActive_calls)
    case (failed e)
    with assms a that(1) show thesis by (auto simp: reconcile_build_def bindr_def)
  next
    case (listed js nm)
    let ?q = "map_get (app_Annotations (r_app s)) RebuildAnnotation"
    let ?p = "st_LastProcessedRebuild (app_Status (r_app s))"
    have run: "(case DecideBuild ?q ?p (list_ex (\<lambda>j. jobFinished j = None) js) of
        StartBuild \<Rightarrow> seqr (startBuild C E ?q d) (ret True)
      | DeferBuild \<Rightarrow> ret (list_ex (\<lambda>j. jobFinished j = None) js)
      | NoBuild \<Rightarrow> ret (list_ex (\<lambda>j. jobFinished j = None) js)) t1 = (r, s')"
      using assms a listed by (simp add: reconcile_build_def bindr_def get_app_def gets_def Let_def cong: BuildDecision.case_cong)
    show thesis
    proof (cases "DecideBuild ?q ?p (list_ex (\<lambda>j. jobFinished j = None) js)")
      case StartBuild
      with run listed that(3) [of ?q t1 js] show thesis by (simp add: build_go_def)
    qed (use run listed that(2) [of js] in \<open>simp_all add: build_go_def ret_def\<close>)
  qed
qed

lemma obeys_reconcile_build: "obeys build_guarded (reconcile_build C E d)"
  unfolding obeys_def
proof
  fix s
  obtain r s' where m: "reconcile_build C E d s = (r, s')" by (cases "reconcile_build C E d s")
  have plain: "build_guarded [CListJobs ls js]" for ls js
    by (rule build_guarded_none [where S = "{ReadJobs}"]) simp_all
  show "\<exists>cs. r_calls (snd (reconcile_build C E d s)) = r_calls s @ cs \<and> build_guarded cs"
    using m
  proof (cases rule: reconcile_build_cases)
    case (start t1 js t)
    let ?job = "BuildJob (k_ParseQuantity C) (e_Config E) (r_app s) t d"
    have idle: "list_all (\<lambda>j. jobFinished j \<noteq> None) js"
      using start(4) by (auto simp: build_go_def DecideBuild_def list_ex_iff list_all_iff split: if_splits)
    have "r_calls s' = r_calls t1 \<or> (\<exists>rs e. r_calls s' = r_calls t1 @ [CCreate (with_owners rs (OJob ?job)) e])"
      using start(5) startBuild_calls unfolding seqr_def
      by (elim bindr_cases) (auto simp: start(3) ret_def simp del: with_owners.simps dest!: startBuild_calls)
    moreover have "build_guarded [CListJobs (buildLabelsFor (r_app s)) (Some js), CCreate (with_owners rs (OJob ?job)) e]" for rs e
      using idle
      by (auto simp: build_guarded_def Cons_eq_append_conv BuildJob_def new_meta_def)
    ultimately show ?thesis using m start(2) plain by (auto simp del: with_owners.simps)
  qed (use m plain in auto)
qed

abbreviation no_build_start where "no_build_start \<equiv> - {JobStart ''build''}"

lemma guarded_leaf: "confined no_build_start m \<Longrightarrow> obeys build_guarded m"
  by (erule confined_obeys) (erule build_guarded_none, simp)

lemma no_build_start_subsets: "infra_classes \<subseteq> no_build_start" "ChildWrite ` serving_kinds \<subseteq> no_build_start"
  by (auto simp: infra_classes_def)

lemma confined_reconcileCleanup [emits_intros]:
  assumes "ReadJobs \<in> S" "JobStart cleanupRole \<in> S"
  shows "confined S (reconcileCleanup C E b)"
proof -
  have act: "confined S (cleanup_action C E ba hm begun a)" for ba hm begun a
    unfolding cleanup_action_def
    by (intro emits_intros assms) (auto split: CleanupDecision.split intro!: emits_intros assms)
  have "confined S (cleanup_actions C E ba hm begun as)" for ba hm begun as
    by (induction as arbitrary: begun) (auto intro!: emits_intros act)
  then show ?thesis unfolding reconcileCleanup_def by (intro emits_intros assms)
qed

lemma guarded_parts:
  "obeys build_guarded (fail C E reason msg)" "obeys build_guarded (reconcileGitCredential C E)"
  "obeys build_guarded (validateRepoAuthSecret C)" "obeys build_guarded (validateStorageClass C E)"
  "obeys build_guarded (reconcileDelete C)" "obeys build_guarded (record_app C E)" "obeys build_guarded (forget_app ns nm)"
  "obeys build_guarded (UpdateApp C)" "obeys build_guarded (ensureInfra C E d)" "obeys build_guarded (seedRebuild C)"
  "obeys build_guarded (reconcile_observe C E b)" "obeys build_guarded (reconcile_finish C E jobs)"
  unfolding reconcile_observe_def
  by (rule guarded_leaf, intro emits_intros no_build_start_subsets; simp)+

lemmas guarded_steps = build_guard.steps guarded_parts obeys_reconcile_build

lemma Reconcile_guarded: "obeys build_guarded (Reconcile C E ns nm)"
  unfolding Reconcile_def reconcile_live_def reconcile_admitted_def reconcile_steps_def
  by (intro guarded_steps)

subsection \<open>Jobs are deleted after the status is stored\<close>

definition deletes_after_status :: "call list \<Rightarrow> bool" where
  "deletes_after_status cs \<longleftrightarrow> (\<forall>pre c post. cs = pre @ c # post \<longrightarrow> class_of c = JobDelete \<longrightarrow>
     (\<exists>c'\<in>set pre. class_of c' = StatusWrite True))"

interpretation delete_order: call_discipline deletes_after_status
proof
  show "deletes_after_status []" by (simp add: deletes_after_status_def)
next
  fix xs ys assume xs: "deletes_after_status xs" and ys: "deletes_after_status ys"
  show "deletes_after_status (xs @ ys)"
    unfolding deletes_after_status_def
  proof (intro allI impI)
    fix pre c post assume eq: "xs @ ys = pre @ c # post" and c: "class_of c = JobDelete"
    from eq consider us where "xs = pre @ c # us" | us where "ys = us @ c # post" "pre = xs @ us"
      by (auto simp: append_eq_append_conv2 append_eq_Cons_conv)
    then show "\<exists>c'\<in>set pre. class_of c' = StatusWrite True"
    proof cases
      case 1
      with xs c show ?thesis unfolding deletes_after_status_def by blast
    next
      case 2
      from ys 2(1) c have "\<exists>c'\<in>set us. class_of c' = StatusWrite True"
        unfolding deletes_after_status_def by blast
      with 2(2) show ?thesis by auto
    qed
  qed
qed

lemma StatusUpdate_cases:
  assumes "StatusUpdate C s = (r, s')"
  obtains e where "r = Inl e" "r_calls s' = r_calls s @ [CStatusUpdate (r_app s) False]"
    | "r = Inr ()" "r_calls s' = r_calls s @ [CStatusUpdate (r_app s) True]"
  using assms
  by (auto simp: StatusUpdate_def app_write_def get_app_def gets_def bindr_def seqr_def world_op_def log_calls_def
      modify_def raise_def put_app_def split: sum.splits prod.splits)

lemma obeys_status_then_delete:
  assumes "confined {JobDelete} m"
  shows "obeys deletes_after_status (seqr (StatusUpdate C) m)"
  unfolding obeys_def
proof
  fix s
  obtain r s' where run: "seqr (StatusUpdate C) m s = (r, s')" by (cases "seqr (StatusUpdate C) m s")
  have single: "deletes_after_status [CStatusUpdate a b]" for a b
    by (auto simp: deletes_after_status_def Cons_eq_append_conv)
  have order: "deletes_after_status (CStatusUpdate a True # ds)" for a ds
    by (auto simp: deletes_after_status_def Cons_eq_append_conv)
  from run have "\<exists>cs. r_calls s' = r_calls s @ cs \<and> deletes_after_status cs"
    unfolding seqr_def
  proof (cases rule: bindr_cases)
    case (err e)
    then show ?thesis by (cases rule: StatusUpdate_cases [OF err(1)]) (auto simp: single)
  next
    case (ok x t)
    then obtain ds where "r_calls s' = r_calls t @ ds" by (auto elim: emitsE [OF assms])
    with ok show ?thesis by (cases rule: StatusUpdate_cases [OF ok(1)]) (auto simp: order)
  qed
  with run show "\<exists>cs. r_calls (snd (seqr (StatusUpdate C) m s)) = r_calls s @ cs \<and> deletes_after_status cs" by simp
qed

abbreviation no_delete where "no_delete \<equiv> - {JobDelete}"

lemma delete_leaf: "confined no_delete m \<Longrightarrow> obeys deletes_after_status m"
  by (erule confined_obeys) (auto simp: deletes_after_status_def)

lemma no_delete_subsets: "infra_classes \<subseteq> no_delete" "ChildWrite ` serving_kinds \<subseteq> no_delete"
  by (auto simp: infra_classes_def)

lemma delete_parts:
  "obeys deletes_after_status (fail C E reason msg)" "obeys deletes_after_status (reconcileGitCredential C E)"
  "obeys deletes_after_status (validateRepoAuthSecret C)" "obeys deletes_after_status (validateStorageClass C E)"
  "obeys deletes_after_status (record_app C E)" "obeys deletes_after_status (ensureInfra C E d)"
  "obeys deletes_after_status (seedRebuild C)" "obeys deletes_after_status (reconcile_observe C E b)"
  "obeys deletes_after_status (ensureServing C E)" "obeys deletes_after_status (refresh_phase C)"
  unfolding reconcile_observe_def refresh_phase_def
  by (rule delete_leaf, intro emits_intros no_delete_subsets; simp)+

lemma emits_case_BuildDecision:
  "emits P a \<Longrightarrow> emits P b \<Longrightarrow> emits P c \<Longrightarrow> emits P (case dec of NoBuild \<Rightarrow> a | StartBuild \<Rightarrow> b | DeferBuild \<Rightarrow> c)"
  by (cases dec) simp_all

lemma delete_build: "obeys deletes_after_status (reconcile_build C E d)"
  unfolding reconcile_build_def Let_def
  by (rule delete_leaf, intro emits_intros emits_case_BuildDecision) simp_all

lemma reconcile_live_deletes: "obeys deletes_after_status (reconcile_live C E)"
  unfolding reconcile_live_def reconcile_admitted_def reconcile_steps_def reconcile_finish_def
  by (intro obeys_status_then_delete delete_order.steps delete_parts delete_build; intro emits_intros; simp)

subsection \<open>Rejections\<close>

lemma check_spec_status [simp]: "check_spec cfg (upd_status f app) = check_spec cfg app"
proof -
  have same: "phaseImages (upd_status f app) = phaseImages app" "validateNodeVersion cfg (upd_status f app) = validateNodeVersion cfg app"
    "validateWatchCommits (upd_status f app) = validateWatchCommits app"
    unfolding phaseImages_def validateNodeVersion_def validateWatchCommits_def upd_status_frame by (rule refl)+
  show ?thesis unfolding check_spec_def same by (rule refl)
qed

definition degraded_with :: "string \<Rightarrow> string \<Rightarrow> App \<Rightarrow> bool" where
  "degraded_with reason msg app \<longleftrightarrow>
     st_Phase (app_Status app) = PhaseDegraded \<and>
     (\<exists>c. findCondition app ConditionReady = Some c \<and> cond_Status c = ConditionFalse \<and> cond_Reason c = reason \<and> cond_Message c = msg) \<and>
     (\<exists>c. findCondition app ConditionDegraded = Some c \<and> cond_Status c = ConditionTrue \<and> cond_Reason c = reason \<and> cond_Message c = msg)"

lemma findCondition_phase:
  "findCondition (upd_status (\<lambda>st. st\<lparr>st_Phase := p\<rparr>) app) t = findCondition app t"
  by (simp add: findCondition_def)

lemma set_condition_run:
  "\<exists>n w. set_condition C t st re msg s = (Inr (), s\<lparr>r_world := w, r_app := setCondition n (r_app s) t st re msg\<rparr>)"
  by (auto simp: set_condition_def now_def bindr_def world_op_def mod_app_def modify_def split: prod.split)

lemma fail_status_run:
  assumes "fail_status C E reason msg s = (r, s')"
  obtains cs where "r = Inr ()" "degraded_with reason msg (r_app s')"
    "r_calls s' = r_calls s @ cs" "list_all (\<lambda>c. class_of c \<in> {Telemetry}) cs"
proof -
  obtain n1 w1 where s1: "set_condition C ConditionReady ConditionFalse reason msg s =
      (Inr (), s\<lparr>r_world := w1, r_app := setCondition n1 (r_app s) ConditionReady ConditionFalse reason msg\<rparr>)"
    using set_condition_run [of C ConditionReady ConditionFalse reason msg s] by auto
  obtain n2 w2 where s2: "set_condition C ConditionDegraded ConditionTrue reason msg
        (s\<lparr>r_world := w1, r_app := setCondition n1 (r_app s) ConditionReady ConditionFalse reason msg\<rparr>) =
      (Inr (), s\<lparr>r_world := w2, r_app := setCondition n2 (setCondition n1 (r_app s) ConditionReady ConditionFalse reason msg)
        ConditionDegraded ConditionTrue reason msg\<rparr>)"
    using set_condition_run [of C ConditionDegraded ConditionTrue reason msg
      "s\<lparr>r_world := w1, r_app := setCondition n1 (r_app s) ConditionReady ConditionFalse reason msg\<rparr>"] by auto
  have done_and_same: "r = Inr () \<and> r_app s' = upd_status (\<lambda>st. st\<lparr>st_Phase := PhaseDegraded\<rparr>)
      (setCondition n2 (setCondition n1 (r_app s) ConditionReady ConditionFalse reason msg) ConditionDegraded ConditionTrue reason msg)"
    using assms
    by (auto simp: fail_status_def seqr_def bindr_def s1 s2 mod_app_def modify_def record_app_def get_app_def gets_def capture_def
        ret_def Let_def split: prod.splits if_splits option.splits)
  then have "degraded_with reason msg (r_app s')"
    by (auto simp: degraded_with_def findCondition_phase findCondition_setCondition)
  moreover have "confined {Telemetry} (fail_status C E reason msg)"
    unfolding fail_status_def by (intro emits_intros) simp_all
  then obtain cs where "r_calls s' = r_calls s @ cs" "list_all (\<lambda>c. class_of c \<in> {Telemetry}) cs"
    using assms by (rule emitsE)
  ultimately show thesis using that done_and_same by blast
qed

lemma fail_run:
  assumes "fail C E reason msg s = (r, s')"
  obtains cs a ok where "r_calls s' = r_calls s @ cs @ [CStatusUpdate a ok]" "list_all (\<lambda>c. class_of c \<in> {Telemetry}) cs"
    "degraded_with reason msg a" "if ok then r = Inr (requeue_after Minute) else (\<exists>e. r = Inl e)"
proof -
  obtain r1 t where f: "fail_status C E reason msg s = (r1, t)" by (cases "fail_status C E reason msg s")
  obtain cs where t: "r1 = Inr ()" "degraded_with reason msg (r_app t)" "r_calls t = r_calls s @ cs"
      "list_all (\<lambda>c. class_of c \<in> {Telemetry}) cs"
    by (rule fail_status_run [OF f])
  obtain r2 u where u: "StatusUpdate C t = (r2, u)" by (cases "StatusUpdate C t")
  from u show thesis
    by (cases rule: StatusUpdate_cases)
      (use assms f t u in \<open>auto simp: fail_def seqr_def bindr_def ret_def intro!: that [of cs "r_app t"]\<close>)
qed

subsection \<open>The serving stack\<close>

abbreviation serving_or_status where "serving_or_status \<equiv> ChildWrite ` serving_kinds \<union> {StatusWrite True, StatusWrite False}"

definition stores_only :: "(App \<Rightarrow> bool) \<Rightarrow> call list \<Rightarrow> bool" where
  "stores_only h cs \<longleftrightarrow> (\<forall>a ok. CStatusUpdate a ok \<in> set cs \<longrightarrow> h a)"

definition serves_when :: "(App \<Rightarrow> bool) \<Rightarrow> call list \<Rightarrow> bool" where
  "serves_when h cs \<longleftrightarrow> (\<exists>c\<in>set cs. class_of c \<in> ChildWrite ` serving_kinds) \<longrightarrow> stores_only h cs"

definition stores :: "(App \<Rightarrow> bool) \<Rightarrow> ('w, 'a) kube \<Rightarrow> bool" where
  "stores h m \<longleftrightarrow> (\<forall>s. h (r_app s) \<longrightarrow> (\<exists>cs. r_calls (snd (m s)) = r_calls s @ cs \<and> stores_only h cs))"

lemma no_status_stores: "list_all (\<lambda>c. class_of c \<in> - {StatusWrite True, StatusWrite False}) cs \<Longrightarrow> stores_only h cs"
  by (auto simp: stores_only_def list_all_iff)

lemma stores_silent:
  assumes "confined (- {StatusWrite True, StatusWrite False}) m"
  shows "stores h m"
  using assms no_status_stores unfolding stores_def emits_def by blast

lemma stores_seqr:
  fixes m :: "('w, 'a) kube"
  assumes m: "confined (- {StatusWrite True, StatusWrite False}) m" "keeps h m" and n: "stores h n"
  shows "stores h (seqr m n)"
  unfolding stores_def
proof (intro allI impI)
  fix s :: "'w rstate" assume h: "h (r_app s)"
  obtain r t where run: "m s = (r, t)" by (cases "m s")
  obtain cs where cs: "r_calls t = r_calls s @ cs" "stores_only h cs"
    using emitsE [OF m(1) run] no_status_stores by metis
  have "h (r_app t)" using m(2) h run unfolding keeps_def by (metis snd_conv)
  then obtain ds where "r_calls (snd (n t)) = r_calls t @ ds" "stores_only h ds" using n unfolding stores_def by blast
  with cs run show "\<exists>cs. r_calls (snd (seqr m n s)) = r_calls s @ cs \<and> stores_only h cs"
    by (cases r) (auto simp: seqr_def bindr_def stores_only_def intro!: exI [of _ "cs @ ds"])
qed

lemma stores_StatusUpdate:
  fixes n :: "('w, 'a) kube"
  assumes "confined (- {StatusWrite True, StatusWrite False}) n"
  shows "stores h (seqr (StatusUpdate C) n)"
  unfolding stores_def
proof (intro allI impI)
  fix s :: "'w rstate" assume h: "h (r_app s)"
  obtain r t where run: "StatusUpdate C s = (r, t)" by (cases "StatusUpdate C s")
  obtain ds where ds: "r_calls (snd (n t)) = r_calls t @ ds" "stores_only h ds"
    using assms no_status_stores unfolding emits_def by blast
  have app: "stores_only h (CStatusUpdate (r_app s) ok # ds)" "stores_only h [CStatusUpdate (r_app s) ok]" for ok
    using h ds(2) by (auto simp: stores_only_def)
  from run show "\<exists>cs. r_calls (snd (seqr (StatusUpdate C) n s)) = r_calls s @ cs \<and> stores_only h cs"
    by (cases rule: StatusUpdate_cases) (use run ds app in \<open>auto simp: seqr_def bindr_def\<close>)
qed

lemma hasSucceededOnce_frame [simp]:
  "hasSucceededOnce (upd_status (\<lambda>st. st\<lparr>st_URL := u\<rparr>) app) = hasSucceededOnce app"
  "hasSucceededOnce (upd_status (\<lambda>st. st\<lparr>st_Phase := p\<rparr>) app) = hasSucceededOnce app"
  "hasSucceededOnce (refreshPhase n app) = hasSucceededOnce app"
  by (simp_all add: hasSucceededOnce_def refreshPhase_def Let_def)

lemma keeps_succeeded:
  "keeps hasSucceededOnce (ensureServing C E)" "keeps hasSucceededOnce (refresh_phase C)"
  unfolding ensureServing_def upsert_def ensureExists_def validateIngress_def set_condition_def Let_def refresh_phase_def
  by (intro keeps_intros; simp)+

lemma no_status_subsets: "ChildWrite ` serving_kinds \<subseteq> - {StatusWrite True, StatusWrite False}"
  by auto

lemma stores_finish: 
  "stores hasSucceededOnce (seqr (ensureServing C E) (seqr (refresh_phase C) (seqr (record_app C E)
     (seqr (StatusUpdate C) (seqr (deleteJobs C jobs) (ret res))))))"
  by (intro stores_seqr stores_StatusUpdate keeps_succeeded keeps_writes;
      (unfold refresh_phase_def)?; intro emits_intros no_status_subsets; simp)

lemma serves_leaf: "confined (- ChildWrite ` serving_kinds) m \<Longrightarrow> obeys (serves_when h) m"
  by (erule confined_obeys) (auto simp: serves_when_def list_all_iff)

lemma serves_later:
  assumes m: "confined (- serving_or_status) m" and f: "\<And>x. obeys (serves_when h) (f x)"
  shows "obeys (serves_when h) (bindr m f)"
proof -
  have keep: "serves_when h (cs @ ds)" if "list_all (\<lambda>c. class_of c \<in> - serving_or_status) cs" "serves_when h ds" for cs ds
    using that no_status_stores [of cs h]
    by (fastforce simp: serves_when_def stores_only_def list_all_iff)
  have "serves_when h cs" if "list_all (\<lambda>c. class_of c \<in> - serving_or_status) cs" for cs
    using keep [OF that, of "[]"] by (simp add: serves_when_def)
  with keep show ?thesis
    unfolding yields_obeys
    by (intro yields_bindr [OF yields_confined [OF m] f [unfolded yields_obeys]]) auto
qed

lemma serves_finish: "obeys (serves_when hasSucceededOnce) (reconcile_finish C E jobs)"
  unfolding reconcile_finish_def
proof (subst seqr_def, rule serves_later)
  fix x :: unit
  let ?rest = "seqr (refresh_phase C) (seqr (record_app C E) (seqr (StatusUpdate C)
     (seqr (deleteJobs C jobs) (ret (requeue_after (10 * Minute))))))"
  show "obeys (serves_when hasSucceededOnce)
     (bindr get_app (\<lambda>app. seqr (if hasSucceededOnce app then ensureServing C E else ret ()) ?rest))"
    unfolding obeys_def
  proof
    fix s :: "'a rstate"
    have quiet: "confined (- ChildWrite ` serving_kinds) (seqr (ret ()) ?rest)"
      unfolding refresh_phase_def by (intro emits_intros) auto
    show "\<exists>cs. r_calls (snd (bindr get_app (\<lambda>app. seqr (if hasSucceededOnce app then ensureServing C E else ret ()) ?rest) s)) =
        r_calls s @ cs \<and> serves_when hasSucceededOnce cs"
    proof (cases "hasSucceededOnce (r_app s)")
      case True
      then show ?thesis
        using stores_finish [of C E jobs "requeue_after (10 * Minute)"]
        unfolding stores_def by (auto simp: get_app_def rm_simps serves_when_def)
    next
      case False
      then show ?thesis
        using serves_leaf [OF quiet, of hasSucceededOnce] unfolding obeys_def by (simp add: get_app_def rm_simps)
    qed
  qed
qed (intro emits_intros)

lemma serves_parts:
  "confined (- serving_or_status) (reconcileGitCredential C E)" "confined (- serving_or_status) (validateRepoAuthSecret C)"
  "confined (- serving_or_status) (validateStorageClass C E)" "confined (- serving_or_status) (record_app C E)"
  "confined (- serving_or_status) (ensureInfra C E d)" "confined (- serving_or_status) (reconcile_observe C E b)"
  "confined (- serving_or_status) (reconcile_build C E d)" "confined (- serving_or_status) (seedRebuild C)"
  unfolding reconcile_observe_def reconcile_build_def Let_def
  by (intro emits_intros emits_case_BuildDecision; auto simp: infra_classes_def infra_kinds_def serving_kinds_def)+

lemma serves_leaves:
  "obeys (serves_when h) (fail C E reason msg)" "obeys (serves_when h) (raise e)"
  "obeys (serves_when h) (ret res)"
  by (rule serves_leaf, intro emits_intros; auto)+

lemma reconcile_live_serves: "obeys (serves_when hasSucceededOnce) (reconcile_live C E)"
  unfolding reconcile_live_def reconcile_admitted_def reconcile_steps_def
  by (subst seqr_def | intro serves_later serves_parts serves_leaves serves_finish obeys_cases emits_app_state)+

end
