(* ===== verification/Build_Outcome.thy ===== *)
theory Build_Outcome
  imports Reconcile_Loop
begin

text \<open>
  What the observation of a build leaves in the status. \<open>succeeds P m Q\<close> is total correctness of a
  step on the in-memory App: from an App with \<open>P\<close> the step returns no error, whatever the API server
  answers, and leaves an App with \<open>Q\<close>.
\<close>

section \<open>Steps that cannot fail\<close>

definition succeeds :: "(App \<Rightarrow> bool) \<Rightarrow> ('w, 'a) kube \<Rightarrow> (App \<Rightarrow> bool) \<Rightarrow> bool" where
  "succeeds P m Q \<longleftrightarrow> (\<forall>s. P (r_app s) \<longrightarrow> (\<exists>x s'. m s = (Inr x, s') \<and> Q (r_app s')))"

abbreviation sure where "sure m \<equiv> succeeds (\<lambda>_. True) m (\<lambda>_. True)"

named_theorems sure_intros

lemma succeedsD:
  fixes s :: "'w rstate"
  assumes "succeeds P m Q" "P (r_app s)"
  obtains x and s' :: "'w rstate" where "m s = (Inr x, s')" "Q (r_app s')"
  using assms unfolding succeeds_def by blast

lemma succeeds_weaken:
  "succeeds P m Q \<Longrightarrow> (\<And>a. P' a \<Longrightarrow> P a) \<Longrightarrow> (\<And>a. Q a \<Longrightarrow> Q' a) \<Longrightarrow> succeeds P' m Q'"
  unfolding succeeds_def by metis

lemma succeeds_bindr:
  assumes "succeeds P m R" "\<And>x. succeeds R (f x) Q"
  shows "succeeds P (bindr m f) Q"
  unfolding succeeds_def
proof (intro allI impI)
  fix s :: "'a rstate" assume "P (r_app s)"
  from assms(1) this obtain x t where m: "m s = (Inr x, t)" and R: "R (r_app t)" by (rule succeedsD)
  from assms(2) R obtain y s' where "f x t = (Inr y, s')" "Q (r_app s')" by (rule succeedsD)
  with m show "\<exists>y s'. bindr m f s = (Inr y, s') \<and> Q (r_app s')" by (simp add: bindr_def)
qed

lemma succeeds_seqr: "succeeds P m R \<Longrightarrow> succeeds R n Q \<Longrightarrow> succeeds P (seqr m n) Q"
  by (simp add: seqr_def succeeds_bindr)

lemma succeeds_stay: "succeeds P m P \<Longrightarrow> succeeds P n Q \<Longrightarrow> succeeds P (seqr m n) Q"
  by (rule succeeds_seqr)

lemma succeeds_get_app:
  assumes "\<And>a. P a \<Longrightarrow> succeeds (\<lambda>b. b = a) (f a) Q"
  shows "succeeds P (bindr get_app f) Q"
  using assms by (simp add: succeeds_def get_app_def bindr_def gets_def)

lemma succeeds_read: "(\<And>a. P a \<Longrightarrow> succeeds P (f a) Q) \<Longrightarrow> succeeds P (bindr get_app f) Q"
  by (simp add: succeeds_def get_app_def bindr_def gets_def)

lemma succeeds_mod_app: "(\<And>a. P a \<Longrightarrow> Q (f a)) \<Longrightarrow> succeeds P (mod_app f) Q"
  by (simp add: succeeds_def mod_app_def modify_def)

lemma succeeds_keeps: "sure m \<Longrightarrow> keeps g m \<Longrightarrow> (\<And>a b. g a = g b \<Longrightarrow> P a = P b) \<Longrightarrow> succeeds P m P"
  unfolding succeeds_def keeps_def by (metis snd_conv)

lemma succeeds_ret: "succeeds P (ret x) P"
  by (simp add: succeeds_def ret_def)

lemma succeeds_now: "(\<And>n. succeeds P (f n) Q) \<Longrightarrow> succeeds P (bindr (now C) f) Q"
  by (rule succeeds_bindr [where R = P]) (auto simp: succeeds_def now_def world_op_def split: prod.split)

lemma sure_bindr [sure_intros]: "sure m \<Longrightarrow> (\<And>x. sure (f x)) \<Longrightarrow> sure (bindr m f)"
  by (rule succeeds_bindr)

lemma sure_seqr [sure_intros]: "sure m \<Longrightarrow> sure n \<Longrightarrow> sure (seqr m n)"
  by (rule succeeds_seqr)

lemma sure_stay: "sure m \<Longrightarrow> succeeds (\<lambda>_. True) n Q \<Longrightarrow> succeeds (\<lambda>_. True) (seqr m n) Q"
  by (rule succeeds_seqr)

lemma sure_basic [sure_intros]:
  "sure (ret x)" "sure (gets h)" "sure (world_op k)" "sure (log_calls cs)" "sure get_app" "sure (now C)" "sure (mod_app f)" "sure (tryr m)"
  by (simp_all add: succeeds_def ret_def gets_def world_op_def log_calls_def modify_def get_app_def mod_app_def tryr_def now_def
      split: prod.split)

lemma sure_case [sure_intros]:
  "sure a \<Longrightarrow> (\<And>x. sure (f x)) \<Longrightarrow> sure (case_option a f v)"
  "(\<And>x. sure (f1 x)) \<Longrightarrow> (\<And>x. sure (f2 x)) \<Longrightarrow> sure (case_sum f1 f2 v')"
  "(\<And>x y. sure (f3 x y)) \<Longrightarrow> sure (case_prod f3 v'')"
  "(b \<Longrightarrow> sure m) \<Longrightarrow> (\<not> b \<Longrightarrow> sure n) \<Longrightarrow> sure (if b then m else n)"
  by (auto split: option.split sum.split prod.split)

lemma sure_calls [sure_intros]:
  "sure (PatchJob C old job)" "sure record_terminal" "sure (capture C tf)" "sure (set_condition C t st re msg)"
  by (auto simp: PatchJob_def set_condition_def intro!: sure_intros)
    (auto simp: succeeds_def record_terminal_def capture_def Let_def case_prod_beta split: option.split)

lemma sure_findBuildPod [sure_intros]: "sure (findBuildPod C job)"
  unfolding findBuildPod_def by (intro sure_intros)

lemma sure_applyCopierTermination [sure_intros]: "sure (applyCopierTermination C job)"
  unfolding applyCopierTermination_def by (intro sure_intros)

lemma sure_observe_success [sure_intros]: "sure (observe_success C E job)"
  unfolding observe_success_def by (intro sure_intros)

lemma sure_observe_failure [sure_intros]: "sure (observe_failure C cond pod)"
  unfolding observe_failure_def Let_def by (intro sure_intros)

lemma succeeds_set_condition:
  "(\<And>a n. P a \<Longrightarrow> Q (setCondition n a t st re msg)) \<Longrightarrow> succeeds P (set_condition C t st re msg) Q"
  unfolding set_condition_def
  by (rule succeeds_bindr [where R = P]) (auto simp: succeeds_def now_def world_op_def mod_app_def modify_def split: prod.split)

section \<open>A failed build\<close>

text \<open>What is served and what it was built from: no failure may touch it.\<close>

definition served :: "App \<Rightarrow> ReleaseStatus \<times> string \<times> time option \<times> StorageStatus" where
  "served app = (st_Release (app_Status app), st_LastBuiltSpecHash (app_Status app),
     st_LastSuccessfulBuildTime (app_Status app), st_Storage (app_Status app))"

definition degraded :: "App \<Rightarrow> string \<Rightarrow> bool" where
  "degraded app status \<longleftrightarrow> (\<exists>c. findCondition app ConditionDegraded = Some c \<and> cond_Status c = status)"

abbreviation result_of where "result_of app \<equiv> build_Result (st_Build (app_Status app))"

lemma setCondition_release [simp]:
  "st_Release (app_Status (setCondition n app t s r m)) = st_Release (app_Status app)"
  "st_SpecStale (app_Status (setCondition n app t s r m)) = st_SpecStale (app_Status app)"
  "st_BuildHistory (app_Status (setCondition n app t s r m)) = st_BuildHistory (app_Status app)"
  by (simp_all add: setCondition_def Let_def split: option.split)

lemma append_histories_frame [simp]:
  "served (append_histories cfg app) = served app"
  "st_Build (app_Status (append_histories cfg app)) = st_Build (app_Status app)"
  "findCondition (append_histories cfg app) t = findCondition app t"
  "st_SpecStale (app_Status (append_histories cfg app)) = st_SpecStale (app_Status app)"
  "app_Spec (append_histories cfg app) = app_Spec app"
  by (simp_all add: append_histories_def served_def findCondition_def case_prod_beta Let_def)

lemma degraded_frame [simp]:
  "degraded (append_histories cfg app) st = degraded app st"
  "degraded (upd_build f app) st = degraded app st"
  "degraded (setCondition n app ConditionDegraded st re msg) st"
  by (simp_all add: degraded_def findCondition_setCondition) (simp add: findCondition_def)

lemma keeps_set_condition [keeps_intros]:
  "(\<And>n a. g (setCondition n a t st re msg) = g a) \<Longrightarrow> keeps g (set_condition C t st re msg)"
  unfolding set_condition_def by (intro keeps_intros) simp

lemma keeps_findBuildPod [keeps_intros]: "keeps g (findBuildPod C job)"
  unfolding findBuildPod_def by (intro keeps_intros)

lemma stamp_termination_result [simp]: "build_Result (stamp_termination tm b) = build_Result b"
  by (simp add: stamp_termination_def Let_def split: option.split)

lemma served_frame [simp]:
  "served (upd_build f app) = served app"
  "served (setCondition n app t st re msg) = served app"
  by (simp_all add: served_def upd_build_def)

lemma failed_build_keeps_served:
  "jc_Type cond \<noteq> JobComplete \<Longrightarrow> keeps served (observe_finished C E job cond)"
  unfolding observe_finished_def observe_failure_def Let_def by (intro keeps_intros) simp_all

lemma observe_failure_degrades:
  "succeeds (\<lambda>a. result_of a = BuildResultFailed) (observe_failure C cond pod)
     (\<lambda>a. result_of a = BuildResultFailed \<and> degraded a ConditionTrue)"
proof -
  have tell: "succeeds (\<lambda>a. result_of a = BuildResultFailed \<and> degraded a ConditionTrue) (if b then capture C tf else ret ())
      (\<lambda>a. result_of a = BuildResultFailed \<and> degraded a ConditionTrue)" for b tf
    by (rule succeeds_keeps [where g = "\<lambda>a. a"]) (auto intro!: sure_intros keeps_intros)
  show ?thesis
    unfolding observe_failure_def Let_def case_prod_beta
    by (rule succeeds_read succeeds_stay succeeds_seqr [OF _ tell] succeeds_mod_app succeeds_set_condition | simp)+
qed

lemma succeeds_late_steps:
  \<comment> \<open>the end of \<open>observe_finished\<close>, for a property of the App that the bookkeeping does not touch\<close>
  assumes frame: "\<And>f a. (\<And>b. build_Result (f b) = build_Result b) \<Longrightarrow> P a \<Longrightarrow> P (upd_build f a)" "\<And>a. P a \<Longrightarrow> Q a \<Longrightarrow> R (append_histories (e_Config E) a)"
    and fail: "\<And>pod. succeeds P (if b then observe_failure C cond pod else ret ()) (\<lambda>a. P a \<and> Q a)"
    and res: "\<And>a. P a \<Longrightarrow> (result_of a = BuildResultFailed) = b"
  shows "succeeds P (bindr (findBuildPod C job) (\<lambda>pod.
     seqr (case pod of None \<Rightarrow> ret () | Some p \<Rightarrow> mod_app (upd_build (\<lambda>b. b\<lparr>build_PodName := om_Name (p_Meta p)\<rparr>)))
    (seqr (mod_app (\<lambda>app. upd_build (\<lambda>b. b\<lparr>build_Steps := final_steps app pod\<rparr>) app))
    (seqr (mod_app (upd_build (\<lambda>b. b\<lparr>build_FailedStep := failedStep (build_Steps b)\<rparr>)))
    (bindr get_app (\<lambda>app.
     seqr (if result_of app = BuildResultFailed then observe_failure C cond pod else ret ())
    (seqr record_terminal (mod_app (append_histories (e_Config E)))))))))) R"
proof (rule succeeds_bindr)
  show "succeeds P (findBuildPod C job) P"
    by (rule succeeds_keeps [where g = "\<lambda>a. a"]) (auto intro!: sure_intros keeps_intros)
next
  fix pod :: "Pod option"
  have tell: "succeeds (\<lambda>a. P a \<and> Q a) record_terminal (\<lambda>a. P a \<and> Q a)"
    by (rule succeeds_keeps [where g = "\<lambda>a. a"]) (auto intro!: sure_intros keeps_intros)
  have pod_name: "succeeds P (case pod of None \<Rightarrow> ret () | Some p \<Rightarrow> mod_app (upd_build (\<lambda>b. b\<lparr>build_PodName := om_Name (p_Meta p)\<rparr>))) P"
    by (cases pod) (simp_all add: succeeds_ret succeeds_mod_app frame)
  have last: "succeeds P (seqr (if b then observe_failure C cond pod else ret ())
      (seqr record_terminal (mod_app (append_histories (e_Config E))))) R"
    by (intro succeeds_seqr [OF fail] succeeds_seqr [OF tell] succeeds_mod_app frame) auto
  show "succeeds P (seqr (case pod of None \<Rightarrow> ret () | Some p \<Rightarrow> mod_app (upd_build (\<lambda>b. b\<lparr>build_PodName := om_Name (p_Meta p)\<rparr>)))
    (seqr (mod_app (\<lambda>app. upd_build (\<lambda>b. b\<lparr>build_Steps := final_steps app pod\<rparr>) app))
    (seqr (mod_app (upd_build (\<lambda>b. b\<lparr>build_FailedStep := failedStep (build_Steps b)\<rparr>)))
    (bindr get_app (\<lambda>app.
     seqr (if result_of app = BuildResultFailed then observe_failure C cond pod else ret ())
    (seqr record_terminal (mod_app (append_histories (e_Config E))))))))) R"
    by (intro succeeds_stay [OF pod_name] succeeds_stay [OF succeeds_mod_app] succeeds_read frame) (simp_all add: res last)
qed

lemma failed_build_outcome:
  assumes "jc_Type cond \<noteq> JobComplete"
  shows "succeeds (\<lambda>_. True) (observe_finished C E job cond) (\<lambda>a. result_of a = BuildResultFailed \<and> degraded a ConditionTrue)"
proof -
  let ?failed = "\<lambda>a. result_of a = BuildResultFailed"
  have mark: "succeeds (\<lambda>_. True) (mod_app (upd_build (\<lambda>b. b\<lparr>build_Result := BuildResultFailed, build_Message := jc_Message cond,
      build_LogsRef := om_Name (j_Meta job)\<rparr>))) ?failed"
    by (rule succeeds_mod_app) simp
  have late: "succeeds ?failed (if True then observe_failure C cond pod else ret ()) (\<lambda>a. ?failed a \<and> degraded a ConditionTrue)" for pod
    by (simp add: observe_failure_degrades)
  show ?thesis
    unfolding observe_finished_def if_not_P [OF assms]
    by (intro sure_stay [OF sure_basic(7)] succeeds_now succeeds_seqr [OF mark] succeeds_late_steps [OF _ _ late]) simp_all
qed

section \<open>A successful build\<close>

abbreviation stamped_hash where "stamped_hash job \<equiv> map_get (om_Annotations (j_Meta job)) SpecHashAnnotation"

definition recorded :: "string \<Rightarrow> App \<Rightarrow> bool" where
  "recorded h app \<longleftrightarrow> result_of app = BuildResultSucceeded \<and> st_LastBuiltSpecHash (app_Status app) = h \<and>
     st_SpecStale (app_Status app) = IsStale (buildSpecFrom app) h \<and> st_LastSuccessfulBuildTime (app_Status app) \<noteq> None"

definition record_view :: "App \<Rightarrow> AppSpec \<times> string \<times> string \<times> bool \<times> time option" where
  \<comment> \<open>what \<open>recorded\<close> reads\<close>
  "record_view app = (app_Spec app, result_of app, st_LastBuiltSpecHash (app_Status app), st_SpecStale (app_Status app),
     st_LastSuccessfulBuildTime (app_Status app))"

lemma recorded_view: "record_view a = record_view b \<Longrightarrow> recorded h a = recorded h b"
  by (simp add: record_view_def recorded_def buildSpecFrom_def)

lemma record_view_frame [simp]:
  "record_view (setCondition n app t st re msg) = record_view app"
  "record_view (upd_storage f app) = record_view app"
  "record_view (append_histories cfg app) = record_view app"
  "(\<And>b. build_Result (g b) = build_Result b) \<Longrightarrow> record_view (upd_build g app) = record_view app"
  by (simp_all add: record_view_def append_histories_def upd_storage_def upd_build_def case_prod_beta Let_def)

lemma recorded_step: "recorded h a \<Longrightarrow> record_view b = record_view a \<Longrightarrow> recorded h b"
  using recorded_view by blast

lemma keeps_create_owned [keeps_intros]: "keeps g (create_owned C job)"
  unfolding create_owned_def by (intro keeps_intros)

lemma keeps_maybeStartMeasurement [keeps_intros]: "keeps g (maybeStartMeasurement C E prev)"
  unfolding maybeStartMeasurement_def buildActive_def Let_def by (intro keeps_intros)

lemma keeps_copier: "keeps record_view (applyCopierTermination C job)"
  unfolding applyCopierTermination_def
  by (intro keeps_intros) (simp_all add: record_view_def upd_storage_def)

lemma observe_success_records:
  assumes "stamped_hash job \<noteq> ''''"
  shows "succeeds (\<lambda>_. True) (observe_success C E job) (\<lambda>a. recorded (stamped_hash job) a \<and> degraded a ConditionFalse)"
proof -
  let ?h = "stamped_hash job"
  let ?good = "\<lambda>a. recorded ?h a \<and> degraded a ConditionFalse"
  have copier: "succeeds (recorded ?h) (applyCopierTermination C job) (recorded ?h)"
    by (rule succeeds_keeps [OF _ keeps_copier recorded_view]) (intro sure_intros)
  have measure: "succeeds (recorded ?h) (tryr (maybeStartMeasurement C E p)) (recorded ?h)" for p
    by (rule succeeds_keeps [where g = "\<lambda>a. a"]) (auto intro!: sure_intros keeps_intros)
  have patch: "succeeds ?good (if b then seqr (PatchJob C job job') (ret ()) else ret ()) ?good" for b job'
    by (rule succeeds_keeps [where g = "\<lambda>a. a"]) (auto intro!: sure_intros keeps_intros)
  let ?dated = "\<lambda>a. result_of a = BuildResultSucceeded \<and> st_LastSuccessfulBuildTime (app_Status a) \<noteq> None"
  have "succeeds (\<lambda>_. True) (mod_app (upd_build (\<lambda>b. b\<lparr>build_Result := BuildResultSucceeded\<rparr>))) (\<lambda>a. result_of a = BuildResultSucceeded)"
    and "succeeds (\<lambda>a. result_of a = BuildResultSucceeded) (mod_app (upd_status (\<lambda>st. st\<lparr>st_LastSuccessfulBuildTime := Some n\<rparr>))) ?dated"
    and "succeeds ?dated (mod_app (\<lambda>app. upd_status (\<lambda>st. st\<lparr>st_LastBuiltSpecHash := built_hash app job\<rparr>) app))
      (\<lambda>a. ?dated a \<and> st_LastBuiltSpecHash (app_Status a) = ?h)"
    and "succeeds (\<lambda>a. ?dated a \<and> st_LastBuiltSpecHash (app_Status a) = ?h) (mod_app (\<lambda>app. upd_status (\<lambda>st. st\<lparr>st_SpecStale :=
      IsStale (buildSpecFrom app) (st_LastBuiltSpecHash st)\<rparr>) app)) (recorded ?h)" for n
    using assms by (auto intro!: succeeds_mod_app simp: built_hash_def recorded_def buildSpecFrom_def Let_def)
  note head = this
  have "succeeds (recorded ?h) (set_condition C ConditionBuildSucceeded ConditionTrue ReasonReady ''build succeeded'') (recorded ?h)"
    and "succeeds (recorded ?h) (set_condition C ConditionDegraded ConditionFalse ReasonReady ''build succeeded'') ?good"
    by (auto intro!: succeeds_set_condition elim: recorded_step)
  note conditions = this
  show ?thesis
    unfolding observe_success_def
    by (rule head [THEN succeeds_seqr] succeeds_now succeeds_read copier [THEN succeeds_seqr] measure [THEN succeeds_seqr]
        conditions [THEN succeeds_seqr] patch)+
qed

lemma successful_build_outcome:
  assumes "jc_Type cond = JobComplete" "stamped_hash job \<noteq> ''''"
  shows "succeeds (\<lambda>_. True) (observe_finished C E job cond) (\<lambda>a. recorded (stamped_hash job) a \<and> degraded a ConditionFalse)"
proof -
  let ?good = "\<lambda>a. recorded (stamped_hash job) a \<and> degraded a ConditionFalse"
  have late: "succeeds ?good (if False then observe_failure C cond pod else ret ()) (\<lambda>a. ?good a \<and> True)" for pod
    by (simp add: succeeds_ret)
  have res: "result_of a \<noteq> BuildResultFailed" if "recorded h a" for a h
    using that by (simp add: recorded_def)
  show ?thesis
    unfolding observe_finished_def if_P [OF assms(1)]
    by (intro sure_stay [OF sure_basic(7)] succeeds_now succeeds_seqr [OF observe_success_records [OF assms(2)]]
        succeeds_late_steps [OF _ _ late])
      (auto elim: recorded_step simp: res)
qed

section \<open>One observation\<close>

lemma observeBuild_finished:
  assumes "k_GetJob C (app_Namespace (r_app s)) (build_JobName (st_Build (app_Status (r_app s)))) (r_world s) = (Inr job, w)"
    and "build_JobName (st_Build (app_Status (r_app s))) \<noteq> ''''" "\<not> terminal_build (st_Build (app_Status (r_app s)))"
    and "jobFinished job = Some cond"
  shows "observeBuild C E s = observe_finished C E job cond (s\<lparr>r_world := w\<rparr>)"
  using assms by (simp add: observeBuild_def bindr_def get_app_def gets_def world_op_def Let_def)

lemma observeBuild_terminal:
  assumes "k_GetJob C (app_Namespace (r_app s)) (build_JobName (st_Build (app_Status (r_app s)))) (r_world s) = (Inr job, w)"
    and "om_Name (j_Meta job) = build_JobName (st_Build (app_Status (r_app s)))"
    and "build_JobName (st_Build (app_Status (r_app s))) \<noteq> ''''" "terminal_build (st_Build (app_Status (r_app s)))"
  shows "observeBuild C E s = (Inr (), s\<lparr>r_world := w\<rparr>)"
  using assms by (simp add: observeBuild_def bindr_def get_app_def gets_def world_op_def Let_def ret_def)

lemma keeps_spec_observe_finished: "keeps app_Spec (observe_finished C E job cond)"
  unfolding observe_finished_def observe_success_def observe_failure_def applyCopierTermination_def Let_def
  by (intro keeps_intros) (simp_all add: upd_build_def upd_storage_def)

lemma Hash_not_empty: "Hash b \<noteq> []"
  using length_Sum256 by (simp add: Hash_def flip: length_0_conv)

lemma BuildJob_stamp: "stamped_hash (BuildJob pq cfg app token d) = Hash (buildSpecFrom app)"
  by (simp add: BuildJob_def map_get_def)

section \<open>The build step as a gate\<close>

definition build_token :: "call \<Rightarrow> string list" where
  \<comment> \<open>the token of the build Job a call creates\<close>
  "build_token c = (case c of
      CCreate (OJob j) _ \<Rightarrow> if job_role j = ''build'' then [map_get (om_Annotations (j_Meta j)) RebuildAnnotation] else []
    | _ \<Rightarrow> [])"

definition gate_of :: "bool \<Rightarrow> 'w rstate \<Rightarrow> gate" where
  \<comment> \<open>the gate of \<open>Domain_Decisions\<close> as the reconciler keeps it: the request in the annotation, the processed
     token in the status, the running build in the cluster, the started tokens in the calls\<close>
  "gate_of active s = \<lparr>requested = map_get (app_Annotations (r_app s)) RebuildAnnotation,
     processed = st_LastProcessedRebuild (app_Status (r_app s)), running = active,
     started = rev (concat (map build_token (r_calls s)))\<rparr>"

lemma startBuild_done:
  assumes "startBuild C E t d s = (Inr x, s')"
  obtains rs e where "r_calls s' = r_calls s @ [CCreate (with_owners rs (OJob (BuildJob (k_ParseQuantity C) (e_Config E) (r_app s) t d))) e]"
    "app_Annotations (r_app s') = app_Annotations (r_app s)" "st_LastProcessedRebuild (app_Status (r_app s')) = t"
proof -
  let ?job = "BuildJob (k_ParseQuantity C) (e_Config E) (r_app s) t d"
  obtain r1 u where c: "create_owned C ?job s = (r1, u)" by (cases "create_owned C ?job s")
  obtain y where r1: "r1 = Inr y" and rec: "record_start C t ?job u = (Inr x, s')"
    using assms c by (auto simp: startBuild_def seqr_def get_app_def rm_simps bindr_def Let_def split: sum.splits)
  from emitsE [OF confined_record_start [where S = "{}"] rec] have "r_calls s' = r_calls u"
    by (metis append_Nil2 empty_iff list.pred_inject(2) neq_Nil_conv)
  with c show thesis
    by (cases rule: create_owned_cases) (use r1 record_start_app [OF rec] that in \<open>simp_all del: with_owners.simps\<close>)
qed

lemma build_token_created:
  "build_token (CCreate (with_owners rs (OJob (BuildJob pq cfg app t d))) e) = [t]"
  by (simp add: build_token_def job_role_def BuildJob_def new_meta_def buildLabelsFor_def map_get_def)

lemma build_step_simulates:
  assumes "reconcile_build C E d s = (Inr active, s')"
  shows "\<exists>js cs. r_calls s' = r_calls s @ CListJobs (buildLabelsFor (r_app s)) (Some js) # cs \<and>
    gate_of active s' = gate_step build_go (gate_of (list_ex (\<lambda>j. jobFinished j = None) js) s) Domain_Decisions.Reconcile"
  using assms
proof (cases rule: reconcile_build_cases)
  case (failed e)
  then show ?thesis by simp
next
  case (idle js)
  then show ?thesis by (intro exI [of _ js] exI [of _ "[]"]) (simp add: gate_of_def build_token_def)
next
  case (start t1 js t)
  then obtain x where b: "startBuild C E t d t1 = (Inr x, s')" and a: "active"
    by (auto simp: seqr_def bindr_def ret_def split: sum.splits prod.splits)
  obtain rs e where "r_calls s' = r_calls t1 @ [CCreate (with_owners rs (OJob (BuildJob (k_ParseQuantity C) (e_Config E) (r_app t1) t d))) e]"
    "app_Annotations (r_app s') = app_Annotations (r_app t1)" "st_LastProcessedRebuild (app_Status (r_app s')) = t"
    by (rule startBuild_done [OF b])
  with start a show ?thesis
    by (intro exI [of _ js] exI) (auto simp: gate_of_def build_token_created build_token_def [of "CListJobs _ _"] simp del: with_owners.simps)
qed

section \<open>An API server that answers\<close>

definition available :: "'w client \<Rightarrow> bool" where
  \<comment> \<open>lists are answered, owner references can be set, and a create succeeds or finds the object\<close>
  "available C \<longleftrightarrow> (\<forall>ns ls w. \<exists>js. fst (k_ListJobs C ns ls w) = Inr js) \<and> (\<forall>a m. \<exists>rs. k_SetControllerReference C a m = Inr rs) \<and>
     (\<forall>obj w. fst (k_Create C obj w) = None \<or> fst (k_Create C obj w) = Some AlreadyExists)"

lemma sure_record_start [sure_intros]: "sure (record_start C t job)"
  unfolding record_start_def by (intro sure_intros)

lemma sure_create_owned:
  assumes "available C"
  shows "sure (create_owned C job)"
proof -
  have "sure (case k_SetControllerReference C app m of Inl e \<Rightarrow> raise (Api e) | Inr refs \<Rightarrow> ret refs)" for app m
  proof -
    obtain rs where "k_SetControllerReference C app m = Inr rs" using assms unfolding available_def by metis
    then show ?thesis by (simp add: sure_basic)
  qed
  then have owners: "sure (new_owners C m)" for m unfolding new_owners_def by (intro sure_bindr sure_basic(2))
  have "sure (bindr (Create C obj) (\<lambda>e. fail_on (ignoring AlreadyExists e)))" for obj
    unfolding succeeds_def
  proof (intro allI impI)
    fix s :: "'a rstate"
    obtain e w where c: "k_Create C obj (r_world s) = (e, w)" by (cases "k_Create C obj (r_world s)")
    with assms have "e = None \<or> e = Some AlreadyExists" unfolding available_def by (metis fst_conv)
    with c show "\<exists>x s'. bindr (Create C obj) (\<lambda>e. fail_on (ignoring AlreadyExists e)) s = (Inr x, s') \<and> True"
      by (auto simp: Create_def bindr_def seqr_def world_op_def log_calls_def modify_def ret_def fail_on_def ignoring_def)
  qed
  then show ?thesis unfolding create_owned_def SetControllerReference_def by (intro sure_bindr [OF owners])
qed

lemma sure_buildActive:
  assumes "available C"
  shows "sure (buildActive C)"
proof -
  have "sure (bindr (ListJobs C ns ls) (\<lambda>r. bindr (or_fail r) (\<lambda>jobs. ret (f jobs))))" for ns ls and f :: "Job list \<Rightarrow> bool \<times> string"
    unfolding succeeds_def
  proof (intro allI impI)
    fix s :: "'a rstate"
    obtain r w where l: "k_ListJobs C ns ls (r_world s) = (r, w)" by (cases "k_ListJobs C ns ls (r_world s)")
    with assms obtain js where "r = Inr js" unfolding available_def by (metis fst_conv)
    with l show "\<exists>x s'. bindr (ListJobs C ns ls) (\<lambda>r. bindr (or_fail r) (\<lambda>jobs. ret (f jobs))) s = (Inr x, s') \<and> True"
      by (simp add: ListJobs_def bindr_def seqr_def world_op_def log_calls_def modify_def ret_def or_fail_def)
  qed
  then show ?thesis unfolding buildActive_def by (intro sure_bindr [OF sure_basic(5)])
qed

lemma sure_reconcile_build: "available C \<Longrightarrow> sure (reconcile_build C E d)"
  unfolding reconcile_build_def startBuild_def Let_def
  by (intro sure_intros sure_buildActive) (auto intro!: sure_intros sure_create_owned split: BuildDecision.split)

lemma buildActive_idle:
  assumes "k_ListJobs C (app_Namespace (r_app s)) (buildLabelsFor (r_app s)) (r_world s) = (Inr js, w)"
    and "list_all (\<lambda>j. jobFinished j \<noteq> None) js"
  shows "\<exists>t. buildActive C s = (Inr (False, []), t) \<and> r_app t = r_app s"
proof -
  have "find (\<lambda>j. jobFinished j = None) js = None" using assms(2) by (simp add: find_None_all list_all_iff)
  with assms(1) show ?thesis
    by (simp add: buildActive_def get_app_def gets_def bindr_def ListJobs_def seqr_def world_op_def log_calls_def modify_def
        ret_def or_fail_def)
qed

lemma pending_starts:
  assumes ok: "available C" and t: "map_get (app_Annotations (r_app s)) RebuildAnnotation = t"
      "t \<noteq> st_LastProcessedRebuild (app_Status (r_app s))"
    and js: "fst (k_ListJobs C (app_Namespace (r_app s)) (buildLabelsFor (r_app s)) (r_world s)) = Inr js"
      "list_all (\<lambda>j. jobFinished j \<noteq> None) js"
  shows "\<exists>s'. reconcile_build C E d s = (Inr True, s') \<and> st_LastProcessedRebuild (app_Status (r_app s')) = t \<and>
    build_token (last (r_calls s')) = [t]"
proof -
  from js(1) obtain w where "k_ListJobs C (app_Namespace (r_app s)) (buildLabelsFor (r_app s)) (r_world s) = (Inr js, w)"
    by (metis prod.collapse)
  from buildActive_idle [OF this js(2)] obtain u where u: "buildActive C s = (Inr (False, []), u)" "r_app u = r_app s" by blast
  have "sure (startBuild C E t d)"
    unfolding startBuild_def Let_def by (intro sure_intros sure_create_owned ok)
  then obtain x s' where b: "startBuild C E t d u = (Inr x, s')" by (rule succeedsD) auto
  have "reconcile_build C E d s = (Inr True, s')"
    using u t b by (simp add: reconcile_build_def bindr_def get_app_def gets_def DecideBuild_def seqr_def ret_def Let_def)
  moreover obtain rs e where "r_calls s' = r_calls u @ [CCreate (with_owners rs (OJob (BuildJob (k_ParseQuantity C) (e_Config E) (r_app u) t d))) e]"
      "st_LastProcessedRebuild (app_Status (r_app s')) = t"
    by (rule startBuild_done [OF b])
  ultimately show ?thesis by (simp add: build_token_created del: with_owners.simps)
qed

lemma sample_available: "available sample_client"
  by (simp add: available_def sample_client_def)

section \<open>A rejected App\<close>

lemma record_app_run:
  obtains cs s1 where "record_app C E s = (Inr (), s1)" "r_app s1 = r_app s" "r_calls s1 = r_calls s @ cs"
    "list_all (\<lambda>c. class_of c \<in> {Telemetry}) cs"
  by (auto simp: record_app_def Let_def case_prod_beta list_all_iff)

lemma rejected_run:
  assumes "check_spec (e_Config E) (r_app s) = Some (Some (reason, rej))" "reconcile_live C E s = (r, s')"
  shows "\<exists>cs a ok. r_calls s' = r_calls s @ cs @ [CStatusUpdate a ok] \<and> list_all (\<lambda>c. class_of c = Telemetry) cs \<and>
    degraded_with reason (e_Text E rej) a \<and> (if ok then r = Inr (requeue_after Minute) else (\<exists>e. r = Inl e))"
proof -
  obtain cs s1 where s1: "record_app C E s = (Inr (), s1)" "r_app s1 = r_app s" "r_calls s1 = r_calls s @ cs"
      "list_all (\<lambda>c. class_of c \<in> {Telemetry}) cs"
    by (rule record_app_run)
  define s2 where "s2 = s1\<lparr>r_app := upd_status (\<lambda>st. st\<lparr>st_ObservedGeneration := app_Generation (r_app s1)\<rparr>) (r_app s1)\<rparr>"
  have "fail C E reason (e_Text E rej) s2 = (r, s')"
    using assms s1 by (simp add: reconcile_live_def seqr_def bindr_def mod_app_def modify_def get_app_def gets_def s2_def)
  from fail_run [OF this] obtain ds a ok where "r_calls s' = r_calls s2 @ ds @ [CStatusUpdate a ok]"
      "list_all (\<lambda>c. class_of c \<in> {Telemetry}) ds" "degraded_with reason (e_Text E rej) a"
      "if ok then r = Inr (requeue_after Minute) else (\<exists>e. r = Inl e)" by metis
  with s1 show ?thesis by (intro exI [of _ "cs @ ds"] exI [of _ a] exI [of _ ok]) (simp add: s2_def)
qed

section \<open>Example\<close>

definition sample_job :: "string \<Rightarrow> Job" where
  \<comment> \<open>the Job of the example App's build, finished with the given condition\<close>
  "sample_job t = (BuildJob Some sample_config sample_app ''1'' no_credential)
     \<lparr>j_Conditions := [\<lparr>jc_Type = t, jc_Status = ''True'', jc_Message = ''done''\<rparr>]\<rparr>"

definition job_client :: "Job \<Rightarrow> unit client" where
  "job_client job = sample_client\<lparr>k_GetJob := \<lambda>_ _ w. (Inr job, w)\<rparr>"

definition observing :: "string \<Rightarrow> string \<Rightarrow> unit rstate" where
  \<comment> \<open>the example App with a recorded build of the given name and result\<close>
  "observing nm res = sample_state (upd_build (\<lambda>b. b\<lparr>build_JobName := nm, build_Result := res,
     build_Phase := (if res = '''' then BuildPhaseRunning else BuildPhaseComplete)\<rparr>) sample_app)"

lemma sample_job_finished: "t = JobComplete \<or> t = JobFailed \<Longrightarrow>
    jobFinished (sample_job t) = Some \<lparr>jc_Type = t, jc_Status = ''True'', jc_Message = ''done''\<rparr>"
  by (auto simp: sample_job_def jobFinished_def)

end
