(* ===== verification/Credential_Scope.thy ===== *)
theory Credential_Scope
  imports Build_Outcome
begin

text \<open>
  The git credential along a whole pass. The decision which credential to mount is taken once, from
  the App as loaded, and threaded into the build Job and the watch CronJob. \<open>given v P m\<close> says that
  from an App with identity \<open>v\<close> (name, namespace, spec) the step \<open>m\<close> makes only calls with \<open>P\<close>.
\<close>

section \<open>Steps from a fixed App\<close>

definition identity :: "App \<Rightarrow> string \<times> string \<times> AppSpec" where
  "identity app = (app_Name app, app_Namespace app, app_Spec app)"

lemma identity_status [simp]: "identity (upd_status f app) = identity app"
  by (simp add: identity_def)

definition given :: "string \<times> string \<times> AppSpec \<Rightarrow> (call \<Rightarrow> bool) \<Rightarrow> ('w, 'a) kube \<Rightarrow> bool" where
  "given v P m \<longleftrightarrow> (\<forall>s. identity (r_app s) = v \<longrightarrow> (\<exists>cs. r_calls (snd (m s)) = r_calls s @ cs \<and> list_all P cs))"

lemma given_emits: "emits P m \<Longrightarrow> given v P m"
  by (simp add: emits_def given_def)

lemma given_chain:
  assumes m: "given v P m"
    and f: "\<And>s x t. identity (r_app s) = v \<Longrightarrow> m s = (Inr x, t) \<Longrightarrow> \<exists>ds. r_calls (snd (f x t)) = r_calls t @ ds \<and> list_all P ds"
  shows "given v P (bindr m f)"
  unfolding given_def
proof (intro allI impI)
  fix s :: "'a rstate" assume v: "identity (r_app s) = v"
  obtain r t where run: "m s = (r, t)" by (cases "m s")
  with m v obtain cs where cs: "r_calls t = r_calls s @ cs" "list_all P cs" unfolding given_def by (metis snd_conv)
  show "\<exists>cs. r_calls (snd (bindr m f s)) = r_calls s @ cs \<and> list_all P cs"
  proof (cases r)
    case (Inr x)
    with f [OF v] run obtain ds where "r_calls (snd (f x t)) = r_calls t @ ds" "list_all P ds" by blast
    with Inr run cs show ?thesis by (auto simp: bindr_def intro!: exI [of _ "cs @ ds"])
  qed (use run cs in \<open>simp add: bindr_def\<close>)
qed

lemma given_bindr_result:
  assumes "emits P m \<or> given v P m" "keeps identity m"
    and res: "\<And>s x s'. identity (r_app s) = v \<Longrightarrow> m s = (Inr x, s') \<Longrightarrow> D x"
    and f: "\<And>x. D x \<Longrightarrow> given v P (f x)"
  shows "given v P (bindr m f)"
proof (rule given_chain)
  show "given v P m" using assms(1) given_emits by blast
next
  fix s x t assume v: "identity (r_app s) = v" and run: "m s = (Inr x, t)"
  then have "identity (r_app t) = v" using assms(2) unfolding keeps_def by (metis snd_conv)
  with f [OF res [OF v run]] show "\<exists>ds. r_calls (snd (f x t)) = r_calls t @ ds \<and> list_all P ds"
    unfolding given_def by blast
qed

lemma given_then_emits: "given v P m \<Longrightarrow> (\<And>x. emits P (f x)) \<Longrightarrow> given v P (bindr m f)"
  by (rule given_chain) (simp_all add: emits_def)

lemma given_bindr:
  "emits P m \<or> given v P m \<Longrightarrow> keeps identity m \<Longrightarrow> (\<And>x. given v P (f x)) \<Longrightarrow> given v P (bindr m f)"
  by (rule given_bindr_result [where D = "\<lambda>_. True"]) simp_all

lemma given_seqr: "emits P m \<or> given v P m \<Longrightarrow> keeps identity m \<Longrightarrow> given v P n \<Longrightarrow> given v P (seqr m n)"
  unfolding seqr_def by (rule given_bindr)

lemma given_if: "(b \<Longrightarrow> given v P m) \<Longrightarrow> (\<not> b \<Longrightarrow> given v P n) \<Longrightarrow> given v P (if b then m else n)"
  by simp

lemma given_option: "given v P m \<Longrightarrow> (\<And>x. given v P (f x)) \<Longrightarrow> given v P (case_option m f y)"
  by (cases y) simp_all

lemma given_prod: "(\<And>x y. given v P (f x y)) \<Longrightarrow> given v P (case_prod f z)"
  by (cases z) simp

lemma given_read: "(\<And>a. identity a = v \<Longrightarrow> given v P (f a)) \<Longrightarrow> given v P (bindr get_app f)"
  by (simp add: given_def get_app_def bindr_def gets_def)

section \<open>Which calls carry a credential\<close>

fun credential_object :: "GitAuth \<Rightarrow> App \<Rightarrow> object \<Rightarrow> bool" where
  "credential_object ga app (OJob j) \<longleftrightarrow> (job_role j = ''build'' \<longrightarrow> scoped ga app (j_PodSpec j))"
| "credential_object ga app (OCronJob cj) \<longleftrightarrow> scoped ga app (cj_PodSpec cj)"
| "credential_object ga app _ \<longleftrightarrow> True"

definition credential_call :: "GitAuth \<Rightarrow> App \<Rightarrow> call \<Rightarrow> bool" where
  \<comment> \<open>a build Job or CronJob written by the call has its credential scoped to the App's repository\<close>
  "credential_call ga app c = (case c of CCreate obj _ \<Rightarrow> credential_object ga app obj | CApply obj _ \<Rightarrow> credential_object ga app obj | _ \<Rightarrow> True)"

lemma credential_other_class:
  "class_of c \<in> - {JobStart ''build'', ChildWrite KCronJob} \<Longrightarrow> credential_call ga app c"
proof (cases c)
  case (CCreate obj e)
  then show "class_of c \<in> - {JobStart ''build'', ChildWrite KCronJob} \<Longrightarrow> ?thesis" by (cases obj) (auto simp: credential_call_def)
next
  case (CApply obj e)
  then show "class_of c \<in> - {JobStart ''build'', ChildWrite KCronJob} \<Longrightarrow> ?thesis" by (cases obj) (auto simp: credential_call_def)
qed (simp_all add: credential_call_def)

lemma credential_silent:
  "confined (- {JobStart ''build'', ChildWrite KCronJob}) m \<Longrightarrow> emits (credential_call ga app) m"
  by (erule emits_weaken) (rule credential_other_class)

lemma with_owners_credential [simp]: "credential_object ga app (with_owners rs obj) = credential_object ga app obj"
  by (cases obj) (simp_all add: job_role_def)

lemma scoped_identity: "identity a = identity b \<Longrightarrow> scoped ga a = scoped ga b"
  by (simp add: identity_def scoped_def [abs_def])

lemma decide_identity: "identity a = identity b \<Longrightarrow> decideGitCredential a ga = decideGitCredential b ga"
  by (auto simp: identity_def decideGitCredential_def gitCredentialSecretName_def split: option.split)

section \<open>The pass\<close>

definition decided :: "GitAuth \<Rightarrow> App \<Rightarrow> gitCredentialDecision \<Rightarrow> bool" where
  "decided ga app d \<longleftrightarrow> d \<in> {decideGitCredential app ga, no_credential}"

lemma keeps_upsert [keeps_intros]: "keeps g (upsert C obj)"
  unfolding upsert_def by (intro keeps_intros)

lemma keeps_deleteOwnedChild [keeps_intros]: "keeps g (deleteOwnedChild C k ns nm)" "keeps g (delete_child C obj)"
  unfolding deleteOwnedChild_def delete_child_def by (intro keeps_intros)+

lemma keeps_ensureExists [keeps_intros]: "keeps g (ensureExists C obj)"
  unfolding ensureExists_def by (intro keeps_intros)

lemma keeps_ensureTriggers [keeps_intros]: "keeps g (ensureTriggers C E d)"
  unfolding ensureTriggers_def by (intro keeps_intros)

lemma keeps_ensureInfra [keeps_intros]: "keeps g (ensureInfra C E d)"
  unfolding ensureInfra_def by (intro keeps_intros)

lemma keeps_modify [keeps_intros]: "(\<And>s. r_app (f s) = r_app s) \<Longrightarrow> keeps g (modify f)"
  by (simp add: keeps_def modify_def)

lemma keeps_credential [keeps_intros]:
  "keeps g (reconcileGitCredential C E)" "keeps g (validateRepoAuthSecret C)" "keeps g (validateStorageClass C E)"
  unfolding reconcileGitCredential_def deleteOwnedSyncedCopy_def existingSyncedCopy_def existingSyncedCopyHash_def synced_meta_def
    getSourceGitCredential_def source_missing_def validateRepoAuthSecret_def validateStorageClass_def Let_def
  by (intro keeps_intros; simp)+

lemma reconcileGitCredential_decided:
  assumes "reconcileGitCredential C E s = (Inr d, s')"
  shows "decided (cfg_GitAuth (e_Config E)) (r_app s) d"
  using assms unfolding reconcileGitCredential_def get_app_def rm_simps Let_def seqr_def
  by (auto simp: decided_def rm_simps split: if_splits option.splits elim!: bindr_cases)

lemma given_upsert: "credential_object ga app obj \<Longrightarrow> emits (credential_call ga app) (upsert C obj)"
  unfolding upsert_def by (intro emits_intros emits_writes) (simp add: credential_call_def)

lemma triggerCronJob_anonymous: "c \<in> set (all_containers (cj_PodSpec (triggerCronJob cfg app n sched env))) \<Longrightarrow> \<not> mounts_volume volGitCred c"
  by (simp add: all_containers_def triggerCronJob_def mounts_volume_def mount_def empty_container_def Let_def)

lemma clockCronJob_scoped: "clockCronJob cfg app = Some cj \<Longrightarrow> scoped ga app (cj_PodSpec cj)"
  using triggerCronJob_anonymous by (auto simp: clockCronJob_def split: option.splits intro!: scoped_anonymous)

lemma watchCronJob_scoped:
  assumes "watchCronJob cfg app d = Some (Inr cj)" "decided ga app d"
  shows "scoped ga app (cj_PodSpec cj)"
proof -
  obtain sched env where "cj = (if mounts d
      then (triggerCronJob cfg app (watchCronJobName app) sched env)\<lparr>cj_PodSpec :=
        addGitCredential (cj_PodSpec (triggerCronJob cfg app (watchCronJobName app) sched env)) ''clock'' (gcd_secretName d) (repo_host app)\<rparr>
      else triggerCronJob cfg app (watchCronJobName app) sched env)"
    using assms(1) by (auto simp only: watchCronJob_def Let_def option.inject sum.inject sum.distinct option.distinct split: option.splits sum.splits)
  then have "cj_PodSpec cj = (if mounts d then addGitCredential (cj_PodSpec (triggerCronJob cfg app (watchCronJobName app) sched env))
      ''clock'' (gcd_secretName d) (repo_host app) else cj_PodSpec (triggerCronJob cfg app (watchCronJobName app) sched env))"
    by simp
  with scoped_addGitCredential [OF triggerCronJob_anonymous] assms(2) show ?thesis by (simp add: decided_def)
qed

lemma given_ensureTriggers:
  assumes "identity app = v" "decided ga app d" "ga = cfg_GitAuth (e_Config E)"
  shows "given v (credential_call ga app) (ensureTriggers C E d)"
  unfolding ensureTriggers_def
proof (rule given_read)
  fix a assume a: "identity a = v"
  have same: "scoped ga a = scoped ga app" using a assms(1) by (intro scoped_identity) simp
  have d: "decided ga a d" using assms(2) decide_identity [of a app ga] a assms(1) by (simp add: decided_def)
  have shared: "credential_object ga app obj" if "obj \<in> set (trigger_shared (e_Config E) a)" for obj
    using that by (auto simp: trigger_shared_def clockServiceAccount_def clockRole_def clockRoleBinding_def)
  have gone: "emits (credential_call ga app) (deleteOwnedChild C k ns nm)" if "k \<noteq> KJob" for k ns nm
    by (rule credential_silent) (use that in \<open>intro emits_intros; simp\<close>)
  show "given v (credential_call ga app)
    (seqr (for_each (trigger_shared (e_Config E) a)
             (\<lambda>obj. if scheduled_on a \<or> watch_on a then upsert C obj else delete_child C obj))
    (seqr (if \<not> scheduled_on a then deleteOwnedChild C KCronJob (app_Namespace a) (clockCronJobName a)
           else case clockCronJob (e_Config E) a of
                  None \<Rightarrow> raise Panic
                | Some cj \<Rightarrow> upsert C (OCronJob cj))
          (if \<not> watch_on a then deleteOwnedChild C KCronJob (app_Namespace a) (watchCronJobName a)
           else case watchCronJob (e_Config E) a d of
                  None \<Rightarrow> raise Panic
                | Some (Inl e) \<Rightarrow> raise (WatchCommitsErr e)
                | Some (Inr cj) \<Rightarrow> upsert C (OCronJob cj))))"
    using shared gone clockCronJob_scoped [of "e_Config E" a _ ga] watchCronJob_scoped [OF _ d]
    by (intro given_emits emits_seqr emits_for_each_in)
      (auto simp: same delete_child_def trigger_shared_def clockServiceAccount_def clockRole_def clockRoleBinding_def
        intro!: emits_intros given_upsert split: option.split sum.split)
qed

lemma given_ensureInfra:
  assumes "identity app = v" "decided ga app d" "ga = cfg_GitAuth (e_Config E)"
  shows "given v (credential_call ga app) (ensureInfra C E d)"
proof -
  have pvcs: "emits (credential_call ga app) (for_each xs (\<lambda>name. ensureExists C (OPVC (pvc a name sc))))" for xs a sc
    by (rule credential_silent) (intro emits_intros; simp)
  have fence: "given v (credential_call ga app) (upsert C (ONetworkPolicy np))" for np
    by (intro given_emits given_upsert) simp
  show ?thesis
    unfolding ensureInfra_def
    by (intro given_read given_seqr disjI1 [OF pvcs] disjI2 [OF given_ensureTriggers] assms fence) (intro keeps_intros)+
qed

lemma given_reconcile_build:
  assumes "identity app = v" "decided ga app d" "ga = cfg_GitAuth (e_Config E)"
  shows "given v (credential_call ga app) (reconcile_build C E d)"
  unfolding given_def
proof (intro allI impI)
  fix s :: "'a rstate" assume v: "identity (r_app s) = v"
  obtain r s' where m: "reconcile_build C E d s = (r, s')" by (cases "reconcile_build C E d s")
  have same: "scoped ga (r_app s) = scoped ga app" using v assms(1) by (intro scoped_identity) simp
  have d: "d \<in> {decideGitCredential (r_app s) ga, no_credential}"
    using assms(2) decide_identity [of "r_app s" app ga] v assms(1) by (simp add: decided_def)
  have build: "credential_call ga app (CCreate (with_owners rs (OJob (BuildJob pq cfg (r_app s) t d))) e)" for rs pq cfg t e
    using BuildJob_scoped [OF d, of pq cfg t] by (simp add: credential_call_def same del: with_owners.simps)
  have list: "credential_call ga app (CListJobs ls js)" for ls js by (simp add: credential_call_def)
  from m show "\<exists>cs. r_calls (snd (reconcile_build C E d s)) = r_calls s @ cs \<and> list_all (credential_call ga app) cs"
  proof (cases rule: reconcile_build_cases)
    case (start t1 js t)
    obtain r' u where b: "startBuild C E t d t1 = (r', u)" by (cases "startBuild C E t d t1")
    with start(5) have "s' = u" by (auto simp: seqr_def bindr_def ret_def split: sum.splits)
    with startBuild_calls [OF b] start m show ?thesis by (auto simp: list build simp del: with_owners.simps)
  qed (use m list in auto)
qed

abbreviation no_credential_pod where "no_credential_pod \<equiv> - {JobStart ''build'', ChildWrite KCronJob}"

lemma credential_leaves:
  "emits (credential_call ga app) (fail C E reason msg)" "emits (credential_call ga app) (seedRebuild C)"
  "emits (credential_call ga app) (reconcileGitCredential C E)" "emits (credential_call ga app) (validateRepoAuthSecret C)"
  "emits (credential_call ga app) (validateStorageClass C E)" "emits (credential_call ga app) (record_app C E)"
  by (rule credential_silent, intro emits_intros; simp)+

lemma credential_tail: "emits (credential_call ga app) (bindr (reconcile_observe C E active) (reconcile_finish C E))"
proof -
  have serving: "ChildWrite ` serving_kinds \<subseteq> no_credential_pod" by (auto simp: serving_kinds_def)
  show ?thesis
    unfolding reconcile_observe_def by (rule credential_silent, intro emits_intros serving) simp_all
qed

lemma given_reconcile_steps:
  assumes "identity app = v" "decided ga app d" "ga = cfg_GitAuth (e_Config E)"
  shows "given v (credential_call ga app) (reconcile_steps C E d)"
proof -
  have stale: "emits (credential_call ga app) (mod_app (\<lambda>app. upd_status (f app) app))" for f by (intro emits_intros)
  have main: "given v (credential_call ga app) (bindr (reconcile_build C E d) (\<lambda>active. bindr (reconcile_observe C E active) (reconcile_finish C E)))"
    by (intro given_then_emits given_reconcile_build assms credential_tail)
  have seed: "given v (credential_call ga app) (seqr (seedRebuild C) (ret r))" for r
    by (intro given_emits emits_seqr credential_leaves emits_ret)
  show ?thesis
    unfolding reconcile_steps_def
    by (intro given_seqr disjI1 [OF stale] disjI2 [OF given_ensureInfra] assms given_read given_if main seed) (auto intro!: keeps_intros)
qed

lemma given_reconcile_admitted:
  assumes "identity app = v" "ga = cfg_GitAuth (e_Config E)"
  shows "given v (credential_call ga app) (reconcile_admitted C E)"
  unfolding reconcile_admitted_def
proof (rule given_bindr_result [where D = "decided ga app"])
  fix s x s' assume "identity (r_app s) = v" "reconcileGitCredential C E s = (Inr x, s')"
  then show "decided ga app x"
    using reconcileGitCredential_decided [of C E s x s'] decide_identity [of "r_app s" app ga] assms by (simp add: decided_def)
next
  fix d assume "decided ga app d"
  then have steps: "given v (credential_call ga app) (reconcile_steps C E d)" using assms by (intro given_reconcile_steps)
  have no: "given v (credential_call ga app) (fail C E reason msg)" for reason msg by (intro given_emits credential_leaves)
  show "given v (credential_call ga app) (bindr (validateRepoAuthSecret C) (\<lambda>ra.
     case ra of
       Some e \<Rightarrow> fail C E ReasonInvalidRepoAuth (e_Text E (RRepoAuth e))
     | None \<Rightarrow>
         bindr get_app (\<lambda>app.
         case ValidateStorage (storageConfigFrom app) of
           Some e \<Rightarrow> fail C E ReasonInvalidStorage (e_Text E (RStorage e))
         | None \<Rightarrow>
             bindr (validateStorageClass C E) (\<lambda>sc.
             case sc of
               Some e \<Rightarrow> fail C E ReasonInvalidStorageClass (e_Text E (RStorageClass e))
             | None \<Rightarrow> reconcile_steps C E d))))"
    by (intro given_bindr disjI1 [OF credential_leaves(4)] disjI1 [OF credential_leaves(5)] given_option given_read no steps keeps_intros)
qed (intro disjI1 credential_leaves keeps_intros)+

lemma reconcile_live_credentials:
  "given (identity app) (credential_call (cfg_GitAuth (e_Config E)) app) (reconcile_live C E)"
proof -
  have gen: "emits (credential_call ga app) (mod_app f)" for ga f by (intro emits_intros)
  have panic: "emits (credential_call ga app) (raise e)" for ga e by (intro emits_intros)
  show ?thesis
    unfolding reconcile_live_def
    by (intro given_seqr disjI1 [OF credential_leaves(6)] disjI1 [OF gen] given_read given_option given_emits [OF panic]
        given_emits [OF credential_leaves(1)] given_prod given_reconcile_admitted keeps_intros) simp_all
qed

end
