(* ===== verification/Status_Types.thy ===== *)
theory Status_Types
  imports Credential_Scope
begin

text \<open>
  The type of \<open>AppStatus\<close>: the constants that \<open>api/v1alpha1/app_types.go\<close> declares for its string types, and the
  bounds its markers put on the status (\<open>MaxItems\<close>, \<open>MaxProperties\<close>, \<open>listMapKey\<close>). The API server refuses a status that
  breaks one of these bounds, and with it everything a pass has observed. \<open>typed X m\<close> says that from a well-typed
  App the step \<open>m\<close> leads to one and sends no status but well-typed ones; it is inherited from the steps of a
  handler. The schema has no enumeration for the string types of the status, so the predicates have a parameter,
  the set of the undeclared texts that Apps stored earlier, or by others, may have in these fields. The answers of the
  API server keep the bounds by \<open>serves_schema\<close>, because it validates what it stores.
\<close>

section \<open>The declared types\<close>

definition step_names :: "string set" where
  "step_names = {StepClone, StepSetup, StepFetch, StepBuild, StepCopier, StepRelease}"

definition step_states :: "string set" where
  "step_states = {StepStatusPending, StepStatusRunning, StepStatusSucceeded, StepStatusFailed, StepStatusAborted}"

definition step_typed :: "string set \<Rightarrow> BuildStep \<Rightarrow> bool" where
  "step_typed X s \<longleftrightarrow> step_Name s \<in> step_names \<union> X \<and> step_Status s \<in> step_states \<union> X"

definition build_typed :: "string set \<Rightarrow> BuildStatus \<Rightarrow> bool" where
  "build_typed X b \<longleftrightarrow> build_Phase b \<in> {'''', BuildPhasePending, BuildPhaseRunning, BuildPhaseComplete} \<union> X \<and>
     build_Result b \<in> {'''', BuildResultSucceeded, BuildResultFailed, BuildResultAborted} \<union> X \<and>
     build_Trigger b \<in> {'''', BuildTriggerScheduled, BuildTriggerManual, BuildTriggerSpecChange, BuildTriggerCommit} \<union> X \<and>
     list_all (step_typed X) (build_Steps b) \<and> length (build_ResolvedImages b) \<le> 8"

definition conditions_typed :: "Condition list \<Rightarrow> bool" where
  "conditions_typed cs \<longleftrightarrow> distinct (map cond_Type cs) \<and> list_all (\<lambda>c. cond_Status c \<in> {ConditionTrue, ConditionFalse, ''Unknown''}) cs"

definition history_typed :: "string set \<Rightarrow> BuildStatus list \<Rightarrow> bool" where
  "history_typed X hs \<longleftrightarrow> list_all (build_typed X) hs \<and> length hs \<le> 50"

definition storage_typed :: "string set \<Rightarrow> StorageStatus \<Rightarrow> bool" where
  "storage_typed X s \<longleftrightarrow> stor_ThresholdState s \<in> {'''', ThresholdStateOK, ThresholdStateAlert, ThresholdStateCritical} \<union> X \<and>
     length (stor_Capacities s) \<le> 8"

definition action_typed :: "string set \<Rightarrow> CleanupActionStatus \<Rightarrow> bool" where
  "action_typed X a \<longleftrightarrow> cas_Phase a \<in> {'''', ''Pending'', ''Running'', ''Succeeded'', ''Failed''} \<union> X"

definition cleanup_typed :: "string set \<Rightarrow> CleanupStatus option \<Rightarrow> bool" where
  "cleanup_typed X c = (case c of None \<Rightarrow> True | Some c \<Rightarrow> pred_option (action_typed X) (cs_Cache c) \<and> pred_option (action_typed X) (cs_Releases c))"

definition status_typed :: "string set \<Rightarrow> AppStatus \<Rightarrow> bool" where
  "status_typed X st \<longleftrightarrow> st_Phase st \<in> {'''', PhaseAwaitingFirstBuild, PhaseBuilding, PhaseReady, PhaseDegraded} \<union> X \<and>
     conditions_typed (st_Conditions st) \<and> build_typed X (st_Build st) \<and> history_typed X (st_BuildHistory st) \<and>
     history_typed X (st_FailedBuildHistory st) \<and> storage_typed X (st_Storage st) \<and> cleanup_typed X (st_Cleanup st)"

definition limits_typed :: "HistorySpec option \<Rightarrow> bool" where
  \<comment> \<open>the markers \<open>Maximum=50\<close> of \<open>HistorySpec\<close>\<close>
  "limits_typed h = (case h of None \<Rightarrow> True | Some h \<Rightarrow> hs_KeepRecent h \<le> 50 \<and> hs_KeepFailed h \<le> 50)"

definition app_typed :: "string set \<Rightarrow> App \<Rightarrow> bool" where
  "app_typed X app \<longleftrightarrow> status_typed X (app_Status app) \<and> limits_typed (spec_History (app_Spec app))"

definition serves_schema :: "string set \<Rightarrow> 'w client \<Rightarrow> bool" where
  \<comment> \<open>the API server returns Apps within the bounds of the schema; \<open>X\<close> are the undeclared texts in their string fields\<close>
  "serves_schema X C \<longleftrightarrow>
     (\<forall>ns nm w a w'. k_GetApp C ns nm w = (Inr a, w') \<longrightarrow> app_typed X a) \<and>
     (\<forall>x w a w'. k_UpdateApp C x w = (Inr a, w') \<longrightarrow> app_typed X a) \<and>
     (\<forall>old x w a w'. k_PatchApp C old x w = (Inr a, w') \<longrightarrow> app_typed X a) \<and>
     (\<forall>x w a w'. k_StatusUpdate C x w = (Inr a, w') \<longrightarrow> app_typed X a)"

section \<open>Well-typed steps\<close>

fun status_sent :: "string set \<Rightarrow> call \<Rightarrow> bool" where
  "status_sent X (CStatusUpdate a ok) = status_typed X (app_Status a)"
| "status_sent X _ = True"

definition typed :: "string set \<Rightarrow> ('w, 'a) kube \<Rightarrow> bool" where
  "typed X m \<longleftrightarrow> (\<forall>s. app_typed X (r_app s) \<longrightarrow>
     app_typed X (r_app (snd (m s))) \<and> (\<exists>cs. r_calls (snd (m s)) = r_calls s @ cs \<and> list_all (status_sent X) cs))"

named_theorems typed_intros

lemma typed_bindr [typed_intros]:
  assumes "typed X m" "\<And>x. typed X (f x)"
  shows "typed X (bindr m f)"
  unfolding typed_def
proof (intro allI impI)
  fix s :: "'a rstate" assume ok: "app_typed X (r_app s)"
  obtain r t where run: "m s = (r, t)" by (cases "m s")
  from assms(1) ok obtain cs where t: "app_typed X (r_app t)" "r_calls t = r_calls s @ cs" "list_all (status_sent X) cs"
    unfolding typed_def by (metis run snd_conv)
  show "app_typed X (r_app (snd (bindr m f s))) \<and> (\<exists>cs. r_calls (snd (bindr m f s)) = r_calls s @ cs \<and> list_all (status_sent X) cs)"
  proof (cases r)
    case (Inr x)
    from assms(2) [of x] t(1) obtain ds where "app_typed X (r_app (snd (f x t)))" "r_calls (snd (f x t)) = r_calls t @ ds" "list_all (status_sent X) ds"
      unfolding typed_def by blast
    with Inr run t show ?thesis by (auto simp: bindr_def intro!: exI [of _ "cs @ ds"])
  qed (use run t in \<open>simp add: bindr_def\<close>)
qed

lemma typed_seqr [typed_intros]: "typed X m \<Longrightarrow> typed X n \<Longrightarrow> typed X (seqr m n)"
  by (simp add: seqr_def typed_bindr)

lemma typed_tryr [typed_intros]: "typed X m \<Longrightarrow> typed X (tryr m)"
  by (simp add: typed_def tryr_def case_prod_beta)

lemma typed_cases [typed_intros]:
  "typed X a \<Longrightarrow> (\<And>x. typed X (f x)) \<Longrightarrow> typed X (case_option a f v)"
  "(\<And>x. typed X (f1 x)) \<Longrightarrow> (\<And>x. typed X (f2 x)) \<Longrightarrow> typed X (case_sum f1 f2 v')"
  "(\<And>x y. typed X (f3 x y)) \<Longrightarrow> typed X (case_prod f3 v'')"
  "(b \<Longrightarrow> typed X m) \<Longrightarrow> (\<not> b \<Longrightarrow> typed X n) \<Longrightarrow> typed X (if b then m else n)"
  by (auto split: option.split sum.split prod.split)

lemma typed_mod_app [typed_intros]: "(\<And>a. app_typed X a \<Longrightarrow> app_typed X (f a)) \<Longrightarrow> typed X (mod_app f)"
  by (simp add: typed_def mod_app_def modify_def)

lemma status_sent_other: "class_of c \<in> - {StatusWrite True, StatusWrite False} \<Longrightarrow> status_sent X c"
proof (cases c)
  case (CStatusUpdate a ok)
  then show "class_of c \<in> - {StatusWrite True, StatusWrite False} \<Longrightarrow> ?thesis" by (cases ok) simp_all
qed simp_all

lemma typed_silent:
  assumes "confined (- {StatusWrite True, StatusWrite False}) m" "keeps id m"
  shows "typed X m"
proof -
  have "emits (status_sent X) m"
    using assms(1) by (rule emits_weaken) (rule status_sent_other)
  then show ?thesis using assms(2) by (simp add: typed_def keeps_def emits_def)
qed

lemma typed_basic [typed_intros]:
  "typed X (ret x)" "typed X (raise e)" "typed X (gets h)" "typed X (world_op k)" "typed X get_app" "typed X (now C)"
  "typed X (fail_on er)" "typed X (or_fail r)" "typed X (record_app C E)" "typed X record_terminal" "typed X (forget_app ns nm)"
  "typed X (capture C tf)" "typed X (ListJobs C ns ls)" "typed X (Delete C kd ns nm)" "typed X (PatchJob C old job)"
  by (rule typed_silent; intro emits_intros keeps_intros; simp)+

lemma typed_read:
  \<comment> \<open>what follows a read of the App may use that it is well typed\<close>
  "(\<And>a. app_typed X a \<Longrightarrow> typed X (f a)) \<Longrightarrow> typed X (bindr get_app f)"
  by (simp add: typed_def get_app_def bindr_def gets_def)

lemma typed_for_each [typed_intros]: "(\<And>x. typed X (f x)) \<Longrightarrow> typed X (for_each xs f)"
  by (induction xs) (simp_all add: typed_intros)

lemma typed_harvest [typed_intros]: "(\<And>x. typed X (f x)) \<Longrightarrow> typed X (harvest xs f)"
  by (induction xs) (auto intro!: typed_intros)

lemma typed_app_write:
  assumes "\<And>x w a w'. f x w = (Inr a, w') \<Longrightarrow> app_typed X a" "\<And>a b. app_typed X a \<Longrightarrow> status_sent X (lg a b)"
  shows "typed X (app_write lg f)"
  unfolding typed_def
proof (intro allI impI)
  fix s :: "'a rstate" assume "app_typed X (r_app s)"
  then show "app_typed X (r_app (snd (app_write lg f s))) \<and> (\<exists>cs. r_calls (snd (app_write lg f s)) = r_calls s @ cs \<and> list_all (status_sent X) cs)"
    using assms
    by (auto simp: app_write_def get_app_def gets_def bindr_def seqr_def world_op_def log_calls_def modify_def raise_def put_app_def
        split: prod.splits sum.splits)
qed

lemma typed_writes [typed_intros]:
  assumes "serves_schema X C"
  shows "typed X (UpdateApp C)" "typed X (PatchApp C old)" "typed X (StatusUpdate C)"
  using assms unfolding UpdateApp_def PatchApp_def StatusUpdate_def serves_schema_def
  by (intro typed_app_write; (simp add: app_typed_def; fail | blast))+

section \<open>Well-typed updates\<close>

lemma app_typed_status: "app_typed X a \<Longrightarrow> status_typed X (f (app_Status a)) \<Longrightarrow> app_typed X (upd_status f a)"
  by (simp add: app_typed_def)

lemma app_typed_build:
  assumes "app_typed X a" "build_typed X (st_Build (app_Status a)) \<Longrightarrow> build_typed X (f (st_Build (app_Status a)))"
  shows "app_typed X (upd_build f a)"
  using assms by (simp add: app_typed_def upd_build_def status_typed_def)

lemma app_typed_storage:
  assumes "app_typed X a" "storage_typed X (st_Storage (app_Status a)) \<Longrightarrow> storage_typed X (f (st_Storage (app_Status a)))"
  shows "app_typed X (upd_storage f a)"
  using assms by (simp add: app_typed_def upd_storage_def status_typed_def)

lemma conditions_typed_set:
  assumes "conditions_typed cs" "cond_Status c \<in> {ConditionTrue, ConditionFalse, ''Unknown''}"
  shows "conditions_typed (replace_condition c cs)" "cond_Type c \<notin> cond_Type ` set cs \<Longrightarrow> conditions_typed (cs @ [c])"
proof -
  have "map cond_Type (replace_condition c cs) = map cond_Type cs" by (induction cs) auto
  moreover have "list_all P cs \<Longrightarrow> P c \<Longrightarrow> list_all P (replace_condition c cs)" for P by (induction cs) auto
  ultimately show "conditions_typed (replace_condition c cs)" using assms by (simp add: conditions_typed_def)
  show "cond_Type c \<notin> cond_Type ` set cs \<Longrightarrow> conditions_typed (cs @ [c])" using assms by (simp add: conditions_typed_def)
qed

lemma app_typed_setCondition:
  assumes "app_typed X a" "st \<in> {ConditionTrue, ConditionFalse}"
  shows "app_typed X (setCondition n a t st re msg)"
proof -
  have cs: "conditions_typed (st_Conditions (app_Status a))" using assms(1) by (simp add: app_typed_def status_typed_def)
  have with_conditions: "app_typed X (upd_status (\<lambda>s. s\<lparr>st_Conditions := cs'\<rparr>) a)" if "conditions_typed cs'" for cs'
    using assms(1) that by (simp add: app_typed_def status_typed_def)
  show ?thesis
  proof (cases "findCondition a t")
    case None
    then have "t \<notin> cond_Type ` set (st_Conditions (app_Status a))"
      by (auto simp: findCondition_def find_None_iff)
    with None assms(2) show ?thesis
      by (auto simp: setCondition_def Let_def upd_status_def intro!: with_conditions [unfolded upd_status_def] conditions_typed_set(2) [OF cs])
  next
    case (Some c)
    with assms(2) show ?thesis
      by (auto simp: setCondition_def Let_def upd_status_def intro!: with_conditions [unfolded upd_status_def] conditions_typed_set(1) [OF cs])
  qed
qed

lemma typed_set_condition [typed_intros]: "st \<in> {ConditionTrue, ConditionFalse} \<Longrightarrow> typed X (set_condition C t st re msg)"
  unfolding set_condition_def by (intro typed_intros app_typed_setCondition)

lemma typed_refresh_phase [typed_intros]: "typed X (refresh_phase C)"
proof -
  have "phaseOf a \<in> {PhaseAwaitingFirstBuild, PhaseBuilding, PhaseReady, PhaseDegraded}" for a
    by (simp add: phaseOf_def Let_def)
  then have "phaseOf a \<in> {'''', PhaseAwaitingFirstBuild, PhaseBuilding, PhaseReady, PhaseDegraded} \<union> X" for a by blast
  then have "app_typed X a \<Longrightarrow> app_typed X (upd_status (\<lambda>st. st\<lparr>st_Phase := phaseOf a\<rparr>) a)" for a
    unfolding app_typed_def status_typed_def upd_status_def by simp
  then have "app_typed X a \<Longrightarrow> app_typed X (refreshPhase n a)" for n a
    unfolding refreshPhase_def Let_def by (simp only: split: if_split) (blast intro: app_typed_setCondition)
  then show ?thesis unfolding refresh_phase_def by (intro typed_intros)
qed

section \<open>Builds\<close>

lemma steps_typed:
  "list_all (step_typed X) (deriveBuildSteps (applicableSteps a) pod rd)" "list_all (step_typed X) (allSucceeded (applicableSteps a))"
proof -
  have names: "set (applicableSteps a) \<subseteq> step_names" by (auto simp: applicableSteps_def step_names_def)
  have states: "StepStatusPending \<in> step_states" "StepStatusRunning \<in> step_states" "StepStatusSucceeded \<in> step_states"
    "StepStatusFailed \<in> step_states" by (simp_all add: step_states_def)
  then have "containerStepStatus cs \<in> step_states" for cs
    unfolding containerStepStatus_def by (simp only: split: option.split if_split) blast
  with states have status: "step_Status (derive_step pod rd n) \<in> step_states" for n
    unfolding derive_step_status by (simp only: split: option.split if_split) blast
  show "list_all (step_typed X) (deriveBuildSteps (applicableSteps a) pod rd)"
    using names by (auto simp: deriveBuildSteps_def list_all_iff step_typed_def status)
  show "list_all (step_typed X) (allSucceeded (applicableSteps a))"
    using names states(3) by (auto simp: allSucceeded_def list_all_iff step_typed_def)
qed

lemma update_all_length: "length (fold (\<lambda>c. AList.update (f c) (g c)) xs m) \<le> length xs + length m"
proof (induction xs arbitrary: m)
  case (Cons x xs)
  have "length (AList.update (f x) (g x) m) \<le> Suc (length m)" by (induction m) (auto)
  with Cons [of "AList.update (f x) (g x) m"] show ?case by simp
qed simp

lemma started_typed: "build_typed X (started_status a (BuildJob pq cfg app token d) n)"
proof -
  have "length (pod_InitContainers (build_pod_spec pq cfg app token d) @ pod_Containers (build_pod_spec pq cfg app token d)) \<le> 6"
    by (simp add: build_pod_spec_def addGitCredential_def Let_def)
  then have "length (containerImages (build_pod_spec pq cfg app token d)) \<le> 8"
    using update_all_length [of c_Name c_Image "pod_InitContainers (build_pod_spec pq cfg app token d) @ pod_Containers (build_pod_spec pq cfg app token d)" "[]"]
    by (simp add: containerImages_def)
  then show ?thesis
    using steps_typed(1) by (simp add: build_typed_def started_status_def BuildJob_def classifyTrigger_def Let_def)
qed

lemma stamp_typed: "build_typed X b \<Longrightarrow> build_typed X (stamp_termination termn b)"
proof -
  have "list_all (step_typed X) steps \<Longrightarrow> list_all (step_typed X) (stampStepMessage steps n msg)" for steps n msg
    by (induction steps) (auto simp: step_typed_def)
  then show "build_typed X b \<Longrightarrow> build_typed X (stamp_termination termn b)"
    by (auto simp: stamp_termination_def build_typed_def Let_def split: option.split)
qed

lemma history_typed_append:
  assumes "history_typed X hs" "build_typed X b" "1 \<le> cap" "cap \<le> 50"
  shows "history_typed X (appendBuildHistory hs b cap)"
proof (cases "replace_job hs b")
  case None
  have "list_all (build_typed X) (b # hs)" using assms(1,2) by (simp add: history_typed_def)
  then have "list_all (build_typed X) (take n (b # hs))" for n using in_set_takeD by (fastforce simp: list_all_iff)
  with None assms show ?thesis by (auto simp: appendBuildHistory_def history_typed_def Let_def)
next
  case (Some out)
  from replace_job_Some [OF this] have "length out = length hs" "set out \<subseteq> insert b (set hs)"
    by (auto dest: arg_cong [of _ _ length])
  with Some assms show ?thesis by (auto simp: appendBuildHistory_def history_typed_def list_all_iff)
qed

lemma trim_typed: "build_typed X b \<Longrightarrow> build_typed X (trimToFailedStep b)"
proof -
  have "find P steps = Some x \<Longrightarrow> list_all (step_typed X) steps \<Longrightarrow> step_typed X x" for P steps x
    by (induction steps) (auto split: if_splits)
  then show "build_typed X b \<Longrightarrow> build_typed X (trimToFailedStep b)"
    by (auto simp: trimToFailedStep_def build_typed_def Let_def split: option.split)
qed

definition limits_ok :: "OperatorConfig \<Rightarrow> bool" where
  "limits_ok cfg \<longleftrightarrow> 1 \<le> cfg_HistoryKeepRecent cfg \<and> cfg_HistoryKeepRecent cfg \<le> 50 \<and>
     1 \<le> cfg_HistoryKeepFailed cfg \<and> cfg_HistoryKeepFailed cfg \<le> 50"

lemma append_histories_typed:
  assumes "app_typed X a" "limits_ok cfg"
  shows "app_typed X (append_histories cfg a)"
proof -
  obtain kr kf where lim: "effectiveHistoryLimits cfg a = (kr, kf)" by (meson surj_pair)
  then have "1 \<le> kr \<and> kr \<le> 50 \<and> 1 \<le> kf \<and> kf \<le> 50"
    using assms by (auto simp: effectiveHistoryLimits_def limits_ok_def app_typed_def limits_typed_def split: option.splits if_splits)
  moreover have "history_typed X (st_BuildHistory (app_Status a))" "history_typed X (st_FailedBuildHistory (app_Status a))"
    "build_typed X (st_Build (app_Status a))" using assms(1) by (simp_all add: app_typed_def status_typed_def)
  ultimately have "history_typed X (appendBuildHistory (st_BuildHistory (app_Status a)) (st_Build (app_Status a)) kr)"
    "history_typed X (appendFailedBuildHistory (st_FailedBuildHistory (app_Status a)) (st_Build (app_Status a)) kf)"
    by (simp_all add: history_typed_append appendFailedBuildHistory_def trim_typed)
  then show ?thesis using assms(1) by (simp add: append_histories_def lim app_typed_def status_typed_def Let_def)
qed

lemma status_field_typed:
  \<comment> \<open>fields of the status that are free text, times and numbers\<close>
  "status_typed X st \<Longrightarrow> status_typed X (st\<lparr>st_LastProcessedRebuild := x\<rparr>)" "status_typed X st \<Longrightarrow> status_typed X (st\<lparr>st_LastManualTrigger := mt\<rparr>)"
  "status_typed X st \<Longrightarrow> status_typed X (st\<lparr>st_LastBuildTime := t\<rparr>)" "status_typed X st \<Longrightarrow> status_typed X (st\<lparr>st_NodeName := x\<rparr>)"
  "status_typed X st \<Longrightarrow> status_typed X (st\<lparr>st_Release := rl\<rparr>)" "status_typed X st \<Longrightarrow> status_typed X (st\<lparr>st_LastSuccessfulBuildTime := t\<rparr>)"
  "status_typed X st \<Longrightarrow> status_typed X (st\<lparr>st_LastBuiltSpecHash := x\<rparr>)" "status_typed X st \<Longrightarrow> status_typed X (st\<lparr>st_SpecStale := b\<rparr>)"
  "status_typed X st \<Longrightarrow> status_typed X (st\<lparr>st_ObservedGeneration := i\<rparr>)" "status_typed X st \<Longrightarrow> status_typed X (st\<lparr>st_URL := x\<rparr>)"
  by (simp_all add: status_typed_def)

lemma app_typedD: "app_typed X a \<Longrightarrow> status_typed X (app_Status a)"
  by (simp add: app_typed_def)

lemmas typed_updates = app_typed_status app_typed_build app_typed_storage status_field_typed app_typedD

lemma typed_reads [typed_intros]: "typed X (findBuildPod C job)" "typed X (buildActive C)" "typed X (readMeasurement C job)" "typed X (readCleanupResult C job)"
  unfolding findBuildPod_def buildActive_def readMeasurement_def readCleanupResult_def by (intro typed_intros)+

lemma typed_create_owned [typed_intros]: "typed X (create_owned C job)"
  by (rule typed_silent; intro emits_intros keeps_intros) simp

lemma typed_maybeStartMeasurement [typed_intros]: "typed X (maybeStartMeasurement C E prev)"
  unfolding maybeStartMeasurement_def by (intro typed_intros)

lemma typed_startBuild [typed_intros]: "typed X (startBuild C E token d)"
  unfolding startBuild_def record_start_def Let_def by (intro typed_intros typed_updates started_typed)

lemma typed_applyCopierTermination [typed_intros]: "typed X (applyCopierTermination C job)"
  unfolding applyCopierTermination_def
  by (intro typed_intros typed_updates) (simp_all add: storage_typed_def)

lemma typed_observe_running [typed_intros]: "typed X (observe_running C job)"
  unfolding observe_running_def
  by (intro typed_intros typed_updates) (simp_all add: build_typed_def steps_typed)

lemma typed_observe_success [typed_intros]: "typed X (observe_success C E job)"
  unfolding observe_success_def
  by (intro typed_intros typed_updates) (simp_all add: build_typed_def)

lemma typed_observe_failure [typed_intros]: "typed X (observe_failure C cond pod)"
  unfolding observe_failure_def Let_def
  by (intro typed_intros typed_updates stamp_typed) simp_all

lemma typed_observe_finished [typed_intros]:
  assumes "limits_ok (e_Config E)"
  shows "typed X (observe_finished C E job cond)"
proof -
  have "list_all (step_typed X) (final_steps a pod)" for a pod by (simp add: final_steps_def steps_typed Let_def)
  then show ?thesis
    unfolding observe_finished_def
    by (intro typed_intros typed_updates append_histories_typed assms) (simp_all add: build_typed_def)
qed

lemma typed_observeBuild [typed_intros]: "limits_ok (e_Config E) \<Longrightarrow> typed X (observeBuild C E)"
  unfolding observeBuild_def Let_def by (intro typed_intros)

section \<open>Measurement and cleanup\<close>

lemma typed_recordSize [typed_intros]: "typed X (recordSize C ky n)"
  unfolding recordSize_def Let_def
  by (intro typed_intros typed_updates) (simp_all add: storage_typed_def)

lemma typed_observeMeasurement [typed_intros]: "typed X (observeMeasurement C)"
  unfolding observeMeasurement_def observe_measure_job_def Let_def by (intro typed_intros)

lemma capacity_grows:
  assumes "pvc_capacity C target caps s = (Inr caps', s')"
  shows "length caps' \<le> Suc (length caps) \<and> r_app s' = r_app s \<and> r_calls s' = r_calls s"
proof -
  have "length (AList.update k v m) \<le> Suc (length m)" for k v and m :: "int gomap" by (induction m) auto
  then show ?thesis
    using assms
    by (auto simp: pvc_capacity_def get_app_def gets_def bindr_def world_op_def ret_def split: prod.splits sum.splits option.splits if_splits)
qed

lemma typed_recordPVCCapacities [typed_intros]: "typed X (recordPVCCapacities C)"
  unfolding typed_def
proof (intro allI impI)
  fix s :: "'a rstate" assume ok: "app_typed X (r_app s)"
  have sure: "\<exists>caps' s'. pvc_capacity C target caps s = (Inr caps', s')" for target caps and s :: "'a rstate"
    by (simp add: pvc_capacity_def get_app_def gets_def bindr_def world_op_def ret_def split: prod.split)
  obtain c1 s1 c2 s2 c3 s3 where run: "pvc_capacity C (''cache'', cacheePVCName (r_app s)) [] s = (Inr c1, s1)"
      "pvc_capacity C (''dataCache'', dataCachePVCName (r_app s)) c1 s1 = (Inr c2, s2)"
      "pvc_capacity C (''output'', outputPVCName (r_app s)) c2 s2 = (Inr c3, s3)"
    using sure by metis
  have c3: "length c3 \<le> 8" and same: "r_app s3 = r_app s" "r_calls s3 = r_calls s"
    using run [THEN capacity_grows] by simp_all
  have "recordPVCCapacities C s = (if c3 \<noteq> [] then mod_app (upd_storage (\<lambda>s. s\<lparr>stor_Capacities := c3\<rparr>)) else ret ()) s3"
    by (simp add: recordPVCCapacities_def get_app_def gets_def bindr_def run)
  moreover have "app_typed X (upd_storage (\<lambda>s. s\<lparr>stor_Capacities := c3\<rparr>) (r_app s))"
    using c3 by (intro typed_updates ok) (simp add: storage_typed_def)
  ultimately show "app_typed X (r_app (snd (recordPVCCapacities C s))) \<and>
      (\<exists>cs. r_calls (snd (recordPVCCapacities C s)) = r_calls s @ cs \<and> list_all (status_sent X) cs)"
    using ok same by (simp add: mod_app_def modify_def ret_def)
qed

lemma action_of_typed: "app_typed X a \<Longrightarrow> action_typed X (action_of a mode)"
  by (auto simp: app_typed_def status_typed_def cleanup_typed_def action_of_def action_typed_def new_action_def split: option.splits)

lemma put_action_typed: "app_typed X a \<Longrightarrow> action_typed X x \<Longrightarrow> app_typed X (put_action mode x a)"
  by (auto simp: put_action_def app_typed_def status_typed_def cleanup_typed_def Let_def split: option.splits)

lemma typed_action [typed_intros]: "typed X (actionStatus mode)"
  unfolding actionStatus_def by (intro typed_read typed_intros put_action_typed action_of_typed)

lemma typed_upd_action [typed_intros]: "(\<And>x. action_typed X x \<Longrightarrow> action_typed X (f x)) \<Longrightarrow> typed X (upd_action mode f)"
  unfolding upd_action_def by (intro typed_intros put_action_typed) (simp_all add: action_of_typed)

lemma typed_observeCleanup [typed_intros]: "typed X (observeCleanup C)"
  unfolding observeCleanup_def observe_cleanup_job_def record_cleanup_result_def Let_def
  by (intro typed_intros typed_updates) (simp_all add: action_typed_def storage_typed_def)

lemma typed_cleanup_actions [typed_intros]: "typed X (cleanup_actions C E ba hm begun as)"
proof -
  have start: "typed X (startCleanup C E a)" for a
    unfolding startCleanup_def by (intro typed_intros) (simp add: action_typed_def)
  have active: "typed X (cleanupActive C)" unfolding cleanupActive_def by (intro typed_intros)
  have decide: "typed X (case d of StartCleanup \<Rightarrow> m | WaitCleanup \<Rightarrow> n | NoCleanup \<Rightarrow> p)" if "typed X m" "typed X n" "typed X p" for d m n p
    using that by (cases d) simp_all
  have "typed X (cleanup_action C E ba hm b a)" for b a
    unfolding cleanup_action_def by (intro typed_intros decide start active) (simp_all add: action_typed_def)
  then show ?thesis by (induction as arbitrary: begun) (auto intro!: typed_intros)
qed

section \<open>The pass\<close>

lemma typed_children [typed_intros]: "typed X (upsert C obj)" "typed X (ensureExists C (service app))"
  "typed X (ensureInfra C E d)" "typed X (validateStorageClass C E)" "typed X (validateRepoAuthSecret C)" "typed X (reconcileGitCredential C E)"
proof -
  show "typed X (upsert C obj)" by (rule typed_silent; intro emits_intros keeps_intros) (cases obj; simp)
  show "typed X (ensureExists C (service app))" by (rule typed_silent; intro emits_intros keeps_intros) (simp_all add: service_def)
  have infra: "infra_classes \<subseteq> - {StatusWrite True, StatusWrite False}" by (auto simp: infra_classes_def)
  show "typed X (ensureInfra C E d)" by (rule typed_silent; intro emits_intros keeps_intros infra)
qed (rule typed_silent; intro emits_intros keeps_intros; simp)+

lemma typed_ensureServing [typed_intros]: "typed X (ensureServing C E)"
  unfolding ensureServing_def validateIngress_def Let_def by (intro typed_intros typed_updates) simp_all

lemma typed_reconcile_build [typed_intros]: "typed X (reconcile_build C E d)"
proof -
  have decide: "typed X (case d of StartBuild \<Rightarrow> m | DeferBuild \<Rightarrow> n | NoBuild \<Rightarrow> p)" if "typed X m" "typed X n" "typed X p" for d m n p
    using that by (cases d) simp_all
  show ?thesis unfolding reconcile_build_def Let_def by (intro typed_intros decide)
qed

lemma typed_reconcile_observe [typed_intros]: "limits_ok (e_Config E) \<Longrightarrow> typed X (reconcile_observe C E active)"
  unfolding reconcile_observe_def reconcileCleanup_def by (intro typed_intros)

lemma typed_reconcile_finish [typed_intros]: "serves_schema X C \<Longrightarrow> typed X (reconcile_finish C E jobs)"
  unfolding reconcile_finish_def deleteJobs_def
  by (intro typed_intros typed_updates) (simp_all add: storage_typed_def EvaluateThresholdState_eq)

lemma typed_fail [typed_intros]: "serves_schema X C \<Longrightarrow> typed X (fail C E reason msg)"
  unfolding fail_def fail_status_def
  by (intro typed_intros typed_updates) (simp_all add: app_typed_def status_typed_def)

lemma typed_reconcile_live:
  assumes "serves_schema X C" "limits_ok (e_Config E)"
  shows "typed X (reconcile_live C E)"
proof -
  have seed: "typed X (seedRebuild C)"
    unfolding seedRebuild_def by (intro typed_intros assms) (simp_all add: app_typed_def)
  show ?thesis
    unfolding reconcile_live_def reconcile_admitted_def reconcile_steps_def
    by (intro typed_intros typed_updates seed assms)
qed

lemma typed_calls:
  "typed X m \<Longrightarrow> app_typed X (r_app s) \<Longrightarrow> \<exists>cs. r_calls (snd (m s)) = r_calls s @ cs \<and> list_all (status_sent X) cs"
  by (simp add: typed_def)

lemma Reconcile_typed:
  assumes "serves_schema X C" "limits_ok (e_Config E)"
  shows "\<exists>cs. r_calls (snd (Reconcile C E ns nm s)) = r_calls s @ cs \<and> list_all (status_sent X) cs"
proof -
  have finalize: "typed X (seqr (if b then ret () else seqr (mod_app (\<lambda>a. a\<lparr>app_Finalizers := f a\<rparr>)) (UpdateApp C)) (reconcile_live C E))" for b f
    by (intro typed_intros typed_reconcile_live assms) (simp add: app_typed_def)
  have delete: "typed X (reconcileDelete C)"
    unfolding reconcileDelete_def deleteJobs_def by (intro typed_intros assms) (simp add: app_typed_def)
  have frame: "r_calls (s\<lparr>r_world := w\<rparr>) = r_calls s" "r_calls (s\<lparr>r_world := w, r_app := a\<rparr>) = r_calls s"
    "r_app (s\<lparr>r_world := w, r_app := a\<rparr>) = a" for w a by simp_all
  obtain r w where get: "k_GetApp C ns nm (r_world s) = (r, w)" by (meson surj_pair)
  show ?thesis
  proof (cases r)
    case (Inl e)
    let ?m = "if e = NotFound then seqr (forget_app ns nm) (ret no_requeue) else raise (Api e)"
    have "emits (status_sent X) ?m"
      by (rule emits_weaken [where P = "\<lambda>c. class_of c \<in> {Telemetry}"]) (intro emits_intros, auto intro: status_sent_other)
    from this [unfolded emits_def, rule_format, of "s\<lparr>r_world := w\<rparr>"]
    have "\<exists>cs. r_calls (snd (?m (s\<lparr>r_world := w\<rparr>))) = r_calls s @ cs \<and> list_all (status_sent X) cs" by (simp only: frame)
    moreover have "Reconcile C E ns nm s = ?m (s\<lparr>r_world := w\<rparr>)"
      using Inl get by (simp add: Reconcile_def bindr_def world_op_def)
    ultimately show ?thesis by (simp only:)
  next
    case (Inr app)
    let ?m = "if (case app_DeletionTimestamp app of None \<Rightarrow> False | Some t \<Rightarrow> \<not> IsZero t) then reconcileDelete C
      else seqr (if k_ContainsFinalizer C (app_Finalizers app) FinalizerName then ret ()
        else seqr (mod_app (\<lambda>a. a\<lparr>app_Finalizers := k_AddFinalizer C (app_Finalizers a) FinalizerName\<rparr>)) (UpdateApp C)) (reconcile_live C E)"
    have "app_typed X app" using assms(1) get Inr unfolding serves_schema_def by blast
    moreover have "typed X ?m" by (simp only: finalize delete split: if_split) simp
    ultimately have "\<exists>cs. r_calls (snd (?m (s\<lparr>r_world := w, r_app := app\<rparr>))) = r_calls s @ cs \<and> list_all (status_sent X) cs"
      using typed_calls [of X ?m "s\<lparr>r_world := w, r_app := app\<rparr>"] by (simp only: frame)
    moreover have "Reconcile C E ns nm s = ?m (s\<lparr>r_world := w, r_app := app\<rparr>)"
      using Inr get by (simp add: Reconcile_def bindr_def seqr_def world_op_def put_app_def modify_def)
    ultimately show ?thesis by (simp only:)
  qed
qed

text \<open>C18. A pass writes no undeclared value and breaks no bound: against every API server whose Apps keep the bounds
  of the schema, with a configuration that \<open>LoadConfig\<close> accepted, whatever errors occur, each status sent has at
  most one condition of each type, at most 50 builds in either history, at most 8 resolved images per build and 8
  capacities, so none of these bounds of the custom resource ever makes the server refuse what the operator has
  observed. The schema puts no enumeration on the phases, results, triggers, step names, step states and the
  threshold state, so the server may return any other text there: whatever the set of such texts is, each
  status sent has only the declared values and texts of that set. The operator itself thus introduces only declared
  values. (The schema also bounds the length of a condition's message, which the code does not.)\<close>

theorem pass_status_well_typed:
  assumes "serves_schema X C" "LoadConfig lib path = Inr (e_Config E, mgr)"
  shows "\<exists>cs. r_calls (snd (Reconcile C E ns nm s)) = r_calls s @ cs \<and>
    (\<forall>a ok. CStatusUpdate a ok \<in> set cs \<longrightarrow> status_typed X (app_Status a))"
proof -
  have "limits_ok (e_Config E)" using LoadConfig_loaded(1) [OF assms(2)] by (simp add: config_ok_def limits_ok_def)
  from Reconcile_typed [OF assms(1) this, of ns nm s] obtain cs
    where "r_calls (snd (Reconcile C E ns nm s)) = r_calls s @ cs" "list_all (status_sent X) cs" by blast
  then show ?thesis by (intro exI [of _ cs]) (fastforce simp: list_all_iff)
qed

definition schema_client :: "unit client" where
  \<comment> \<open>the example server, with the bounds of the schema and a value of an older version in its objects\<close>
  "schema_client = sample_client\<lparr>
     k_UpdateApp := (\<lambda>a w. (if app_typed {''Legacy''} a then Inr a else Inl (OtherApi ''invalid''), w)),
     k_PatchApp := (\<lambda>_ a w. (if app_typed {''Legacy''} a then Inr a else Inl (OtherApi ''invalid''), w)),
     k_StatusUpdate := (\<lambda>a w. (if app_typed {''Legacy''} a then Inr a else Inl (OtherApi ''invalid''), w))\<rparr>"

theorem pass_status_well_typed_witness:
  "\<exists>cs. r_calls (snd (Reconcile schema_client sample_env ''ns'' ''site'' (sample_state sample_app))) = cs \<and>
     (\<forall>a ok. CStatusUpdate a ok \<in> set cs \<longrightarrow> status_typed {''Legacy''} (app_Status a))"
proof -
  have "app_typed {''Legacy''} sample_app"
    by (simp add: app_typed_def sample_app_def sample_status_def sample_build_def status_typed_def conditions_typed_def build_typed_def history_typed_def
        storage_typed_def cleanup_typed_def limits_typed_def)
  then have "serves_schema {''Legacy''} schema_client"
    by (auto simp: serves_schema_def schema_client_def sample_client_def split: if_splits)
  moreover have "LoadConfig sample_libs ''/etc/baker/config.yaml'' = Inr (e_Config sample_env, manager_options sample_file)"
    using sample_loaded [of "''/etc/baker/config.yaml''"] by (simp add: sample_env_def)
  ultimately show ?thesis
    using pass_status_well_typed [of "{''Legacy''}" schema_client sample_libs "''/etc/baker/config.yaml''" sample_env "manager_options sample_file" "''ns''" "''site''" "sample_state sample_app"]
    by (simp add: sample_state_def)
qed

end
