(* ===== verification/Go_Format.thy ===== *)
theory Go_Format
  imports Go_Time Go_Json
begin

text \<open>
  What the console uses of \<open>time\<close>, \<open>strconv\<close>, \<open>fmt\<close>, \<open>html/template\<close> and \<open>net/url\<close>: RFC 3339 instants
  (parsing with the generic layout parser, which also takes a one-digit hour, a comma before the
  fraction and offsets up to 24:60; formatting in UTC), \<open>Duration.Round\<close> and \<open>Duration.String\<close>,
  \<open>ParseBool\<close>, \<open>ParseInt\<close> with the value it returns beside a range error, the conversions of
  \<open>float64\<close>, its shortest decimal form and \<open>%.1f\<close>, \<open>%q\<close>, \<open>HTMLEscapeString\<close> and \<open>Values.Encode\<close>.
\<close>

section \<open>Calendar\<close>

definition leap :: "int \<Rightarrow> bool" where
  "leap y \<longleftrightarrow> y mod 4 = 0 \<and> (y mod 100 \<noteq> 0 \<or> y mod 400 = 0)"

definition daysIn :: "int \<Rightarrow> int \<Rightarrow> int" where
  "daysIn m y = (if m = 2 then (if leap y then 29 else 28) else if m \<in> {4, 6, 9, 11} then 30 else 31)"

definition year_start :: "int \<Rightarrow> int" where
  \<comment> \<open>days from January 1 of year 1 to January 1 of year \<open>y\<close>\<close>
  "year_start y = 365 * (y - 1) + (y - 1) div 4 - (y - 1) div 100 + (y - 1) div 400"

definition month_start :: "int \<Rightarrow> int \<Rightarrow> int" where
  "month_start m y = sum_list (map (\<lambda>i. daysIn i y) [1..m - 1])"

definition epoch_day :: int where "epoch_day = 719162"

definition unix_day :: "int \<Rightarrow> int \<Rightarrow> int \<Rightarrow> int" where
  "unix_day y m d = year_start y + month_start m y + (d - 1) - epoch_day"

section \<open>time.Parse with the layout RFC3339\<close>

definition getnum :: "bool \<Rightarrow> string \<Rightarrow> (int \<times> string) option" where
  \<comment> \<open>one or two digits; two when \<open>fixed\<close>\<close>
  "getnum fixed s =
     (case s of
        a # r \<Rightarrow>
          if \<not> is_digit a then None
          else (case r of
                  b # r' \<Rightarrow> if is_digit b then Some (int (digit_val a * 10 + digit_val b), r')
                            else if fixed then None else Some (int (digit_val a), r)
                | [] \<Rightarrow> if fixed then None else Some (int (digit_val a), []))
      | [] \<Rightarrow> None)"

definition skip_char :: "char \<Rightarrow> string \<Rightarrow> string option" where
  "skip_char c s = (case s of a # r \<Rightarrow> if a = c then Some r else None | [] \<Rightarrow> None)"

definition parse_fraction :: "string \<Rightarrow> int \<times> string" where
  \<comment> \<open>an optional fraction of a second in nanoseconds; digits after the ninth are dropped\<close>
  "parse_fraction s =
     (case s of
        p # d # r \<Rightarrow>
          if (p = CHR ''.'' \<or> p = CHR '','') \<and> is_digit d
          then (let ds = takeWhile is_digit (d # r); kept = take 9 ds
                in (int (the (dec_val 0 kept)) * 10 ^ (9 - length kept), dropWhile is_digit (d # r)))
          else (0, s)
      | _ \<Rightarrow> (0, s))"

definition parse_zone :: "string \<Rightarrow> (int \<times> string) option" where
  \<comment> \<open>\<open>Z07:00\<close>: the offset in seconds\<close>
  "parse_zone s =
     (if HasPrefix s ''Z'' then Some (0, tl s)
      else if length s < 6 \<or> s ! 3 \<noteq> CHR '':'' then None
      else case (getnum True (take 2 (drop 1 s)), getnum True (take 2 (drop 4 s))) of
        (Some (hr, _), Some (mm, _)) \<Rightarrow>
          if hr > 24 \<or> mm > 60 then None
          else if s ! 0 = CHR ''+'' then Some ((hr * 60 + mm) * 60, drop 6 s)
          else if s ! 0 = CHR ''-'' then Some (- ((hr * 60 + mm) * 60), drop 6 s)
          else None
      | _ \<Rightarrow> None)"

definition bindo :: "'a option \<Rightarrow> ('a \<Rightarrow> 'b option) \<Rightarrow> 'b option" where
  "bindo x f = (case x of None \<Rightarrow> None | Some y \<Rightarrow> f y)"

definition parse_date :: "string \<Rightarrow> ((int \<times> int \<times> int) \<times> string) option" where
  "parse_date s =
     (if length s < 4 then None
      else bindo (dec_val 0 (take 4 s)) (\<lambda>y.
        bindo (skip_char (CHR ''-'') (drop 4 s)) (\<lambda>s.
        bindo (getnum True s) (\<lambda>(mo, s).
        if mo \<le> 0 \<or> 12 < mo then None
        else bindo (skip_char (CHR ''-'') s) (\<lambda>s.
        bindo (getnum True s) (\<lambda>(d, s). Some ((int y, mo, d), s)))))))"

definition parse_clock :: "string \<Rightarrow> ((int \<times> int \<times> int) \<times> string) option" where
  "parse_clock s =
     bindo (getnum False s) (\<lambda>(h, s).
     if 24 \<le> h then None
     else bindo (skip_char (CHR '':'') s) (\<lambda>s.
     bindo (getnum True s) (\<lambda>(mi, s).
     if 60 \<le> mi then None
     else bindo (skip_char (CHR '':'') s) (\<lambda>s.
     bindo (getnum True s) (\<lambda>(sec, s). if 60 \<le> sec then None else Some ((h, mi, sec), s))))))"

definition ParseRFC3339 :: "string \<Rightarrow> time option" where
  "ParseRFC3339 s =
     bindo (parse_date s) (\<lambda>((y, mo, d), s).
     bindo (skip_char (CHR ''T'') s) (\<lambda>s.
     bindo (parse_clock s) (\<lambda>((h, mi, sec), s).
     let (ns, s) = parse_fraction s
     in bindo (parse_zone s) (\<lambda>(off, s).
        if s \<noteq> [] \<or> d < 1 \<or> d > daysIn mo y then None
        else Some (((unix_day y mo d * 24 + h) * 60 + mi) * 60 * Second + (sec - off) * Second + ns)))))"

section \<open>Time.Format with the layout RFC3339, in UTC\<close>

definition pad2 :: "int \<Rightarrow> string" where
  "pad2 n = [digit_char (nat n div 10 mod 10), digit_char (nat n mod 10)]"

definition pad4 :: "int \<Rightarrow> string" where
  "pad4 n = pad2 (n div 100) @ pad2 (n mod 100)"

definition year_of :: "int \<Rightarrow> int" where
  \<comment> \<open>the year of a day counted from January 1 of year 1\<close>
  "year_of d =
     (let y = d * 400 div 146097 + 1
      in if d < year_start y then y - 1 else if d \<ge> year_start (y + 1) then y + 1 else y)"

definition month_of :: "int \<Rightarrow> int \<Rightarrow> int" where
  \<comment> \<open>the month of a day of the year, counted from 0\<close>
  "month_of y k = int (length (filter (\<lambda>m. month_start m y \<le> k) [1..12]))"

definition FormatRFC3339 :: "time \<Rightarrow> string" where
  \<comment> \<open>for the years 0 to 9999, which are written with four digits\<close>
  "FormatRFC3339 t =
     (let secs = t div Second; day = secs div 86400 + epoch_day; tod = secs mod 86400;
          y = year_of day; k = day - year_start y; m = month_of y k
      in pad4 y @ ''-'' @ pad2 m @ ''-'' @ pad2 (k - month_start m y + 1) @ ''T'' @
         pad2 (tod div 3600) @ '':'' @ pad2 (tod div 60 mod 60) @ '':'' @ pad2 (tod mod 60) @ ''Z'')"

section \<open>Durations\<close>

definition duration_Round :: "duration \<Rightarrow> duration \<Rightarrow> duration" where
  \<comment> \<open>\<open>d.Round(m)\<close> for \<open>d \<ge> 0\<close> and \<open>m > 0\<close>: half away from zero, the maximum on overflow\<close>
  "duration_Round d m =
     (let r = d mod m
      in if 2 * r < m then d - r else if d + m - r \<le> 2 ^ 63 - 1 then d + m - r else 2 ^ 63 - 1)"

definition trim_zeros :: "string \<Rightarrow> string" where
  "trim_zeros s = rev (dropWhile (\<lambda>c. c = CHR ''0'') (rev s))"

definition fmtFrac :: "nat \<Rightarrow> nat \<Rightarrow> string" where
  \<comment> \<open>the fraction of \<open>v\<close> over \<open>10 ^ prec\<close> with its dot, without trailing zeros\<close>
  "fmtFrac v prec =
     (let ds = nat_dec (10 ^ prec + v mod 10 ^ prec); f = trim_zeros (tl ds)
      in if f = [] then [] else CHR ''.'' # f)"

definition duration_String :: "duration \<Rightarrow> string" where
  \<comment> \<open>\<open>Duration.String\<close> for \<open>d \<ge> 0\<close>\<close>
  "duration_String d =
     (let u = nat d
      in if u = 0 then ''0s''
         else if u < 1000 then nat_dec u @ ''ns''
         else if u < 1000000 then nat_dec (u div 1000) @ fmtFrac u 3 @ [char_of (194::nat), char_of (181::nat), CHR ''s'']
         else if u < 1000000000 then nat_dec (u div 1000000) @ fmtFrac u 6 @ ''ms''
         else let secs = u div 1000000000; mins = secs div 60; hrs = mins div 60;
                  tail = nat_dec (secs mod 60) @ fmtFrac u 9 @ ''s''
              in if mins = 0 then tail
                 else if hrs = 0 then nat_dec (mins mod 60) @ ''m'' @ tail
                 else nat_dec hrs @ ''h'' @ nat_dec (mins mod 60) @ ''m'' @ tail)"

section \<open>strconv\<close>

definition ParseBool :: "string \<Rightarrow> bool option" where
  "ParseBool s =
     (if s \<in> {''1'', ''t'', ''T'', ''TRUE'', ''true'', ''True''} then Some True
      else if s \<in> {''0'', ''f'', ''F'', ''FALSE'', ''false'', ''False''} then Some False
      else None)"

fun uint_digits :: "nat \<Rightarrow> string \<Rightarrow> nat option" where
  \<comment> \<open>the loop of \<open>ParseUint\<close>: \<^const>\<open>None\<close> is a syntax error; overflow stops with the maximum\<close>
  "uint_digits n [] = Some n"
| "uint_digits n (c # s) =
     (if \<not> is_digit c then None
      else let n1 = n * 10 + digit_val c
           in if n1 \<ge> 2 ^ 64 then Some (2 ^ 64 - 1) else uint_digits n1 s)"

definition ParseInt_value :: "string \<Rightarrow> int" where
  \<comment> \<open>\<open>n, _ := strconv.ParseInt(s, 10, 64)\<close>: 0 on a syntax error, the nearest \<open>int64\<close> on a range error\<close>
  "ParseInt_value s =
     (let (neg, t) = (case s of [] \<Rightarrow> (False, [])
                      | c # r \<Rightarrow> if c = CHR ''-'' then (True, r) else if c = CHR ''+'' then (False, r)
                                else (False, s))
      in if t = [] then 0
         else case uint_digits 0 t of None \<Rightarrow> 0
              | Some n \<Rightarrow> if neg then - int (min n (2 ^ 63)) else int (min n (2 ^ 63 - 1)))"

section \<open>Signed floats\<close>

text \<open>A \<open>float64\<close> is its sign and its magnitude. Infinities and NaN do not occur in decoded JSON.\<close>

type_synonym sfloat = "bool \<times> float64"

definition MinInt64 :: int where "MinInt64 = - 9223372036854775808"
definition MaxInt64 :: int where "MaxInt64 = 9223372036854775807"

definition fl_integral :: "float64 \<Rightarrow> bool" where
  "fl_integral x \<longleftrightarrow> 0 \<le> snd x \<or> fst x mod 2 ^ nat (- snd x) = 0"

definition int64_of_float :: "sfloat \<Rightarrow> int" where
  \<comment> \<open>\<open>int64(t)\<close>: towards zero; out of range it is what amd64 gives\<close>
  "int64_of_float t =
     (let n = int (fl_trunc (snd t)); v = (if fst t then - n else n)
      in if int64_range v then v else MinInt64)"

definition float_is_int64 :: "sfloat \<Rightarrow> bool" where
  \<comment> \<open>\<open>t == float64(int64(t))\<close>\<close>
  "float_is_int64 t \<longleftrightarrow>
     fl_integral (snd t) \<and> int64_range (if fst t then - int (fl_trunc (snd t)) else int (fl_trunc (snd t)))"

definition fl_quot :: "float64 \<Rightarrow> float64 \<Rightarrow> float64" where
  \<comment> \<open>\<open>x / y\<close> for \<open>y > 0\<close>\<close>
  "fl_quot x y = (if fst x = 0 then (0, 0) else let q = fl_div (fst x) (fst y) in (fst q, snd q + snd x - snd y))"

definition fl_round :: "float64 \<Rightarrow> nat" where
  \<comment> \<open>\<open>math.Round\<close>: half away from zero\<close>
  "fl_round x = (if 0 \<le> snd x then fst x * 2 ^ nat (snd x)
                 else (2 * fst x + 2 ^ nat (- snd x)) div (2 * 2 ^ nat (- snd x)))"

definition fmt_one_decimal :: "float64 \<Rightarrow> string" where
  \<comment> \<open>\<open>%.1f\<close>: the nearest tenth of the exact value, ties to even\<close>
  "fmt_one_decimal x =
     (let t = (if 0 \<le> snd x then 10 * (fst x * 2 ^ nat (snd x)) else round_even (10 * fst x) (2 ^ nat (- snd x)))
      in nat_dec (t div 10) @ ''.'' @ nat_dec (t mod 10))"

text \<open>
  \<open>FormatFloat(t, 'f', -1, 64)\<close>: the fewest digits that read back as \<open>t\<close>, the closest such decimal.
  The magnitude is scaled to the quarter unit in the last place: with \<open>(u, k)\<close> for \<open>u * 2 powi k\<close> the
  decimals that read back as \<open>t\<close> lie between \<open>lo * 2 powi k\<close> and \<open>hi * 2 powi k\<close>, the ends included when
  the significand is even. Seventeen digits always suffice.
\<close>

record rounding =
  rd_u :: nat
  rd_k :: int
  rd_lo :: nat
  rd_hi :: nat
  rd_closed :: bool

definition rounding_of :: "float64 \<Rightarrow> rounding" where
  "rounding_of x =
     (let up = min (53 - bit_length (fst x)) (nat (snd x + 1074)); m = fst x * 2 ^ up; e = snd x - int up
      in \<lparr>rd_u = 4 * m, rd_k = e - 2,
          rd_lo = (if m = 2 ^ 52 \<and> e > -1074 then 4 * m - 1 else 4 * m - 2), rd_hi = 4 * m + 2,
          rd_closed = even m\<rparr>)"

definition scale2 :: "nat \<Rightarrow> int \<Rightarrow> nat" where
  "scale2 n k = (if 0 \<le> k then n * 2 ^ nat k else n)"

definition scale10 :: "nat \<Rightarrow> int \<Rightarrow> nat" where
  "scale10 n p = (if p \<le> 0 then n * 10 ^ nat (- p) else n)"

definition reads_back :: "rounding \<Rightarrow> int \<Rightarrow> nat \<Rightarrow> bool" where
  \<comment> \<open>\<open>n * 10 powi p\<close> rounds to the float\<close>
  "reads_back r p n \<longleftrightarrow>
     (let v = scale2 (scale10 n (- p)) (- rd_k r);
          lo = scale2 (scale10 (rd_lo r) p) (rd_k r); hi = scale2 (scale10 (rd_hi r) p) (rd_k r)
      in if rd_closed r then lo \<le> v \<and> v \<le> hi else lo < v \<and> v < hi)"

definition candidate :: "rounding \<Rightarrow> int \<Rightarrow> nat option" where
  \<comment> \<open>the decimal with last digit at position \<open>p\<close>: of the two neighbours that read back, the closer one\<close>
  "candidate r p =
     (let a = scale2 (scale10 (rd_u r) p) (rd_k r); b = scale2 (scale10 1 (- p)) (- rd_k r); n = a div b
      in if reads_back r p n \<and> reads_back r p (n + 1) then Some (round_even a b)
         else if reads_back r p n then Some n
         else if reads_back r p (n + 1) then Some (n + 1) else None)"

definition decimal_form :: "nat \<Rightarrow> int \<Rightarrow> string" where
  \<comment> \<open>\<open>n * 10 powi p\<close> without exponent\<close>
  "decimal_form n p =
     (if 0 \<le> p then nat_dec (n * 10 ^ nat p)
      else nat_dec (n div 10 ^ nat (- p)) @ ''.'' @ tl (nat_dec (10 ^ nat (- p) + n mod 10 ^ nat (- p))))"

fun first_candidate :: "rounding \<Rightarrow> nat \<Rightarrow> int \<Rightarrow> string" where
  "first_candidate r 0 p = []"
| "first_candidate r (Suc k) p =
     (case candidate r p of Some n \<Rightarrow> decimal_form n p | None \<Rightarrow> first_candidate r k (p - 1))"

definition FormatFloat :: "sfloat \<Rightarrow> string" where
  "FormatFloat t =
     (if fst (snd t) = 0 then (if fst t then ''-0'' else ''0'')
      else let r = rounding_of (snd t);
               digits = (let a = scale2 (rd_u r) (rd_k r) div scale2 1 (- rd_k r)
                         in if a > 0 then int (length (nat_dec a))
                            else 1 - int (length (nat_dec (scale2 1 (- rd_k r) div rd_u r))))
           in (if fst t then ''-'' else []) @ first_candidate r 20 digits)"

section \<open>Quoting and escaping\<close>

definition rune_val :: "string \<Rightarrow> nat" where
  \<comment> \<open>the code point of one well-formed multi-byte rune\<close>
  "rune_val s =
     (case map byte s of
        [a, b] \<Rightarrow> (a - 192) * 64 + (b - 128)
      | [a, b, c] \<Rightarrow> (a - 224) * 4096 + (b - 128) * 64 + (c - 128)
      | [a, b, c, d] \<Rightarrow> (a - 240) * 262144 + (b - 128) * 4096 + (c - 128) * 64 + (d - 128)
      | _ \<Rightarrow> 0)"

definition hex_pad :: "nat \<Rightarrow> nat \<Rightarrow> string" where
  "hex_pad k r = map (\<lambda>i. hex_digit (r div 16 ^ i mod 16)) (rev [0..<k])"

definition quote_ascii :: "char \<Rightarrow> string" where
  "quote_ascii c =
     (if c = quote \<or> c = CHR 0x5C then [CHR 0x5C, c]
      else if 32 \<le> byte c \<and> byte c < 127 then [c]
      else case map_of [(7, CHR ''a''), (8, CHR ''b''), (12, CHR ''f''), (10, CHR ''n''), (13, CHR ''r''), (9, CHR ''t''), (11, CHR ''v'')] (byte c) of
             Some x \<Rightarrow> [CHR 0x5C, x]
           | None \<Rightarrow> CHR 0x5C # CHR ''x'' # hex_byte c)"

function (sequential) quote_body :: "(nat \<Rightarrow> bool) \<Rightarrow> string \<Rightarrow> string" where
  \<comment> \<open>\<open>isPrint\<close> is the table of printable runes outside ASCII\<close>
  "quote_body isPrint [] = []"
| "quote_body isPrint (c # s) =
     (if byte c < 128 then quote_ascii c @ quote_body isPrint s
      else let n = utf8_tail (c # s); rune = c # take n s
           in if n = 0 then CHR 0x5C # CHR ''x'' # hex_byte c @ quote_body isPrint s
              else (if isPrint (rune_val rune) then rune
                    else if rune_val rune < 65536 then CHR 0x5C # CHR ''u'' # hex_pad 4 (rune_val rune)
                    else CHR 0x5C # CHR ''U'' # hex_pad 8 (rune_val rune)) @ quote_body isPrint (drop n s))"
  by pat_completeness auto
termination
  by (relation "measure (length \<circ> snd)") (auto simp: less_Suc_eq_le)

definition Quote :: "(nat \<Rightarrow> bool) \<Rightarrow> string \<Rightarrow> string" where
  \<comment> \<open>\<open>%q\<close>\<close>
  "Quote isPrint s = quote # quote_body isPrint s @ [quote]"

definition html_esc :: "char \<Rightarrow> string" where
  "html_esc c =
     (if byte c = 34 then ''&#34;'' else if byte c = 39 then ''&#39;'' else if c = CHR ''&'' then ''&amp;''
      else if c = CHR ''<'' then ''&lt;'' else if c = CHR ''>'' then ''&gt;''
      else if byte c = 0 then map char_of [239, 191, 189 :: nat] else [c])"

definition HTMLEscapeString :: "string \<Rightarrow> string" where
  "HTMLEscapeString s = concat (map html_esc s)"

definition upper_hex :: "nat \<Rightarrow> char" where
  "upper_hex n = (if n < 10 then char_of (48 + n) else char_of (55 + n))"

definition query_esc :: "char \<Rightarrow> string" where
  "query_esc c =
     (if is_letter c \<or> is_digit c \<or> c \<in> set ''-_.~'' then [c]
      else if c = CHR '' '' then ''+''
      else [CHR ''%'', upper_hex (byte c div 16), upper_hex (byte c mod 16)])"

definition QueryEscape :: "string \<Rightarrow> string" where
  "QueryEscape s = concat (map query_esc s)"

definition Values_Encode :: "string gomap \<Rightarrow> string" where
  \<comment> \<open>\<open>Values.Encode\<close> with one value per key\<close>
  "Values_Encode q = Join (map (\<lambda>(k, v). QueryEscape k @ ''='' @ QueryEscape v) (sort_keys q)) ''&''"

section \<open>Reading back a formatted instant\<close>

lemma int_div_pred:
  fixes y :: int
  assumes "0 < n"
  shows "y div n = (y - 1) div n + (if y mod n = 0 then 1 else 0)"
proof (cases "y mod n = 0")
  case True
  then have "y - 1 = n * (y div n - 1) + (n - 1)" by (auto simp: algebra_simps)
  from int_div_pos_eq [OF this] assms True show ?thesis by simp
next
  case False
  then have "y - 1 = n * (y div n) + (y mod n - 1)" by simp
  moreover have "0 \<le> y mod n - 1" "y mod n - 1 < n"
    using pos_mod_sign [OF assms, of y] pos_mod_bound [OF assms, of y] False by linarith+
  ultimately have "(y - 1) div n = y div n" by (rule int_div_pos_eq)
  with False show ?thesis by simp
qed

lemma year_start_step: "year_start (y + 1) = year_start y + (if leap y then 366 else 365)"
proof -
  have "(400 :: int) dvd y \<Longrightarrow> 100 dvd y" "(100 :: int) dvd y \<Longrightarrow> 4 dvd y"
    by (auto intro: dvd_trans [of "100 :: int" 400 y] dvd_trans [of "4 :: int" 100 y])
  then have m: "y mod 400 = 0 \<Longrightarrow> y mod 100 = 0" "y mod 100 = 0 \<Longrightarrow> y mod 4 = 0"
    by (simp_all add: dvd_eq_mod_eq_0)
  have bools: "(c \<longrightarrow> b) \<and> (b \<longrightarrow> a) \<Longrightarrow> (if a \<and> (\<not> b \<or> c) then 366 else 365) =
      365 + (if a then 1 else 0) - (if b then 1 else 0) + (if c then 1 else 0 :: int)" for a b c
    by (cases a; cases b; cases c) simp_all
  have "year_start (y + 1) = 365 * y + y div 4 - y div 100 + y div 400"
    by (simp only: year_start_def add_diff_cancel_right')
  moreover have "year_start y = 365 * y - 365 + (y - 1) div 4 - (y - 1) div 100 + (y - 1) div 400"
    by (simp only: year_start_def right_diff_distrib mult_1_right)
  moreover have "(if leap y then 366 else 365) =
      365 + (if y mod 4 = 0 then 1 else 0) - (if y mod 100 = 0 then 1 else 0) + (if y mod 400 = 0 then 1 else 0 :: int)"
    unfolding leap_def by (rule bools) (use m in blast)
  moreover note int_div_pred [of 4 y] int_div_pred [of 100 y] int_div_pred [of 400 y]
  ultimately show ?thesis by (simp only: zero_less_numeral)
qed

lemma year_start_bounds:
  "400 * year_start (q + 1) \<le> 146097 * q + 400" "146097 * q - 800 \<le> 400 * year_start (q + 1)"
proof -
  have "4 * (q div 4) \<le> q" "q - 3 \<le> 4 * (q div 4)"
    "100 * (q div 100) \<le> q" "q - 99 \<le> 100 * (q div 100)"
    "400 * (q div 400) \<le> q" "q - 399 \<le> 400 * (q div 400)"
    by presburger+
  then show "400 * year_start (q + 1) \<le> 146097 * q + 400" "146097 * q - 800 \<le> 400 * year_start (q + 1)"
    by (simp_all add: year_start_def)
qed

lemma year_of_bounds: "year_start (year_of d) \<le> d" "d < year_start (year_of d + 1)"
proof -
  define q where "q = d * 400 div 146097"
  have q: "146097 * q \<le> 400 * d" "400 * d < 146097 * q + 146097"
    unfolding q_def by linarith+
  have lo: "year_start q \<le> d"
    using year_start_bounds(1) [of "q - 1"] q by simp
  have hi: "d < year_start (q + 3)"
    using year_start_bounds(2) [of "q + 2"] q by (simp add: algebra_simps)
  show "year_start (year_of d) \<le> d" "d < year_start (year_of d + 1)"
    using lo hi by (auto simp: year_of_def Let_def q_def [symmetric] add.commute add.left_commute)
qed

lemma month_start_eqs:
  "month_start 1 y = 0" "month_start 2 y = 31" "month_start 3 y = 59 + (if leap y then 1 else 0)"
  "month_start 4 y = 90 + (if leap y then 1 else 0)" "month_start 5 y = 120 + (if leap y then 1 else 0)"
  "month_start 6 y = 151 + (if leap y then 1 else 0)" "month_start 7 y = 181 + (if leap y then 1 else 0)"
  "month_start 8 y = 212 + (if leap y then 1 else 0)" "month_start 9 y = 243 + (if leap y then 1 else 0)"
  "month_start 10 y = 273 + (if leap y then 1 else 0)" "month_start 11 y = 304 + (if leap y then 1 else 0)"
  "month_start 12 y = 334 + (if leap y then 1 else 0)" "month_start 13 y = 365 + (if leap y then 1 else 0)"
  by (simp_all add: month_start_def upto.simps daysIn_def)

lemma months: "[1..12] = [1, 2, 3, 4, 5, 6, 7, 8, 9, 10, 11, 12 :: int]"
  by (simp add: upto.simps)

lemma month_of_bounds:
  assumes "0 \<le> k" "k < (if leap y then 366 else 365)"
  shows "1 \<le> month_of y k" "month_of y k \<le> 12" "month_start (month_of y k) y \<le> k"
    "k < month_start (month_of y k) y + daysIn (month_of y k) y"
proof -
  define l where "l = (if leap y then 1 else 0 :: int)"
  have k: "0 \<le> k" "k < 365 + l" using assms by (auto simp: l_def)
  consider "k < 31" | "31 \<le> k" "k < 59 + l" | "59 + l \<le> k" "k < 90 + l" | "90 + l \<le> k" "k < 120 + l"
    | "120 + l \<le> k" "k < 151 + l" | "151 + l \<le> k" "k < 181 + l" | "181 + l \<le> k" "k < 212 + l"
    | "212 + l \<le> k" "k < 243 + l" | "243 + l \<le> k" "k < 273 + l" | "273 + l \<le> k" "k < 304 + l"
    | "304 + l \<le> k" "k < 334 + l" | "334 + l \<le> k"
    by linarith
  then have "1 \<le> month_of y k \<and> month_of y k \<le> 12 \<and> month_start (month_of y k) y \<le> k \<and>
      k < month_start (month_of y k) y + daysIn (month_of y k) y"
    by cases (use k in \<open>simp_all add: month_of_def months month_start_eqs l_def [symmetric] daysIn_def,
      simp_all add: l_def split: if_splits\<close>)
  then show "1 \<le> month_of y k" "month_of y k \<le> 12" "month_start (month_of y k) y \<le> k"
    "k < month_start (month_of y k) y + daysIn (month_of y k) y" by blast+
qed

lemma getnum_pad2:
  assumes "0 \<le> n" "n < 100"
  shows "getnum fixed (pad2 n @ r) = Some (n, r)"
proof -
  have n: "nat n div 10 mod 10 < 10" "nat n mod 10 < 10" "nat n div 10 mod 10 = nat n div 10"
    using assms by (simp_all add: nat_div_distrib)
  have "int (digit_val (digit_char (nat n div 10 mod 10)) * 10 + digit_val (digit_char (nat n mod 10))) = n"
    using assms n by (simp add: digit_char_inv)
  with n show ?thesis by (simp add: getnum_def pad2_def digit_char_inv)
qed

lemma dec_val_pad4:
  assumes "0 \<le> y" "y < 10000"
  shows "dec_val 0 (pad4 y) = Some (nat y)" "length (pad4 y) = 4"
proof -
  have a: "nat (y div 100) < 100" "nat (y mod 100) < 100" using assms by auto
  have p: "dec_val acc (pad2 n) = Some (acc * 100 + nat n)" if "0 \<le> n" "n < 100" for acc n
  proof -
    have "nat n div 10 mod 10 = nat n div 10" using that by simp
    then show ?thesis using that by (simp add: pad2_def digit_char_inv)
  qed
  have "nat (y div 100) * 100 + nat (y mod 100) = nat y" using assms by (simp add: nat_div_distrib nat_mod_distrib)
  then show "dec_val 0 (pad4 y) = Some (nat y)"
    using assms by (simp add: pad4_def dec_val_append p)
  show "length (pad4 y) = 4" by (simp add: pad4_def pad2_def)
qed

lemma parse_date_format:
  assumes "0 \<le> y" "y < 10000" "1 \<le> m" "m \<le> 12" "1 \<le> d" "d \<le> 31"
  shows "parse_date (pad4 y @ ''-'' @ pad2 m @ ''-'' @ pad2 d @ r) = Some ((y, m, d), r)"
  using assms dec_val_pad4 [of y]
  by (simp add: parse_date_def bindo_def skip_char_def getnum_pad2)

lemma parse_clock_format:
  assumes "0 \<le> h" "h < 24" "0 \<le> mi" "mi < 60" "0 \<le> s" "s < 60"
  shows "parse_clock (pad2 h @ '':'' @ pad2 mi @ '':'' @ pad2 s @ r) = Some ((h, mi, s), r)"
  using assms by (simp add: parse_clock_def bindo_def skip_char_def getnum_pad2)

definition rfc3339_range :: "time \<Rightarrow> bool" where
  \<comment> \<open>the instants whose UTC year has at most four digits\<close>
  "rfc3339_range t \<longleftrightarrow> 0 \<le> year_of (t div Second div 86400 + epoch_day) \<and> year_of (t div Second div 86400 + epoch_day) \<le> 9999"

lemma ParseRFC3339_FormatRFC3339:
  assumes "rfc3339_range t"
  shows "ParseRFC3339 (FormatRFC3339 t) = Some (t - t mod Second)"
proof -
  define secs day tod y k m where defs: "secs = t div Second" "day = secs div 86400 + epoch_day"
    "tod = secs mod 86400" "y = year_of day" "k = day - year_start y" "m = month_of y k"
  have y: "0 \<le> y" "y < 10000" using assms by (simp_all add: rfc3339_range_def defs)
  have k: "0 \<le> k" "k < (if leap y then 366 else 365)"
    using year_of_bounds [of day] year_start_step [of y] by (auto simp: defs split: if_splits)
  note m = month_of_bounds [OF k, folded defs(6)]
  have d: "daysIn m y \<le> 31" by (simp add: daysIn_def)
  have tod: "0 \<le> tod" "tod < 86400" by (simp_all add: defs)
  define h mi s where hms: "h = tod div 3600" "mi = tod div 60 mod 60" "s = tod mod 60"
  have h: "0 \<le> h" "h < 24" "0 \<le> mi" "mi < 60" "0 \<le> s" "s < 60" using tod by (auto simp: hms)
  have "h = tod div 60 div 60" using zdiv_zmult2_eq [of 60 tod 60] by (simp add: hms)
  then have tod_eq: "(h * 60 + mi) * 60 + s = tod" by (simp add: hms)
  have fmt: "FormatRFC3339 t = pad4 y @ ''-'' @ pad2 m @ ''-'' @ pad2 (k - month_start m y + 1) @ ''T'' @
      pad2 h @ '':'' @ pad2 mi @ '':'' @ pad2 s @ ''Z''"
    by (simp add: FormatRFC3339_def Let_def defs hms)
  have "unix_day y m (k - month_start m y + 1) = secs div 86400"
    by (simp add: unix_day_def defs)
  moreover have "(secs div 86400 * 24 + h) * 60 * 60 + mi * 60 + s = secs"
  proof -
    have "(q * 24 + h) * 60 * 60 + mi * 60 + s = q * 86400 + ((h * 60 + mi) * 60 + s)" for q
      by (simp add: algebra_simps)
    then show ?thesis by (simp only: tod_eq) (simp only: defs(3) div_mult_mod_eq)
  qed
  moreover have "secs * Second = t - t mod Second"
    by (simp add: defs minus_mod_eq_div_mult)
  moreover have "((q * 24 + h) * 60 + mi) * 60 * Second + s * Second = ((q * 24 + h) * 60 * 60 + mi * 60 + s) * Second" for q
    by (simp add: algebra_simps)
  ultimately have "((unix_day y m (k - month_start m y + 1) * 24 + h) * 60 + mi) * 60 * Second + s * Second = t - t mod Second"
    by (simp only:)
  then show ?thesis
    unfolding ParseRFC3339_def fmt
    using parse_date_format [of y m "k - month_start m y + 1"] parse_clock_format [of h mi s] m y d h
    by (simp add: bindo_def skip_char_def parse_fraction_def parse_zone_def HasPrefix_def)
qed

lemma FormatRFC3339_not_Nil [simp]: "FormatRFC3339 t \<noteq> []"
  by (simp add: FormatRFC3339_def Let_def pad4_def pad2_def)

end
