(* ===== verification/Console_View.thy ===== *)
theory Console_View
  imports Go_Format
begin

text \<open>
  \<open>console/internal/view\<close>: the view model the console renders, and its display helpers
  (\<open>model.go\<close>, \<open>humanize.go\<close>, \<open>commit.go\<close>, \<open>step.go\<close>, \<open>storagebar.go\<close>, \<open>schedule.go\<close>).

  The structs are records with the prefix \<open>View\<close>, to keep them apart from the operator's types of the
  same names; an \<open>int64\<close> field is an \<^typ>\<open>int\<close> and its additions wrap. Glyphs are their UTF-8 bytes. \<open>Now\<close>,
  which tests override, is an argument; the cron parser (a third-party package) is the parameter
  \<open>parseStandard\<close>, from an expression to the function \<open>Next\<close> of its schedule. \<open>strings.ToLower\<close> is the
  ASCII one.
\<close>

section \<open>Glyphs\<close>

definition utf8 :: "nat list \<Rightarrow> string" where
  "utf8 bs = map char_of bs"

definition em_dash :: string where "em_dash = utf8 [226, 128, 148]"
definition mid_dot :: string where "mid_dot = utf8 [194, 183]"

section \<open>humanize.go\<close>

fun unit_loop :: "nat \<Rightarrow> float64 \<Rightarrow> nat \<Rightarrow> float64 \<times> nat" where
  \<comment> \<open>\<open>for value >= unit && idx < len(units)-1\<close>, with \<open>idx + 1\<close> as the counter\<close>
  "unit_loop 0 v i = (v, i)"
| "unit_loop (Suc k) v i =
     (if fl_trunc v \<ge> 1024 then unit_loop k (fst v, snd v - 10) (Suc i) else (v, i))"

definition byte_units :: "string list" where
  "byte_units = [''KiB'', ''MiB'', ''GiB'', ''TiB'']"

definition HumanizeBytes :: "int \<Rightarrow> string" where
  "HumanizeBytes n =
     (if n = 0 then ''0 B''
      else let neg = n < 0; absn = (if neg then wrap64 (- n) else n)
           in if absn < 1024 then (if neg then ''-'' @ Itoa absn @ '' B'' else Itoa absn @ '' B'')
              else case unit_loop 4 (fl_of_nat (nat absn)) 0 of (v, i) \<Rightarrow>
                (if neg then ''-'' else '''') @ fmt_one_decimal v @ '' '' @ byte_units ! (i - 1))"

definition HumanizeDelta :: "int \<Rightarrow> string" where
  "HumanizeDelta n =
     (if n = 0 then utf8 [226, 150, 172] @ '' no change''
      else if n > 0 then utf8 [226, 150, 178] @ '' +'' @ HumanizeBytes n
      else utf8 [226, 150, 188] @ '' '' @ HumanizeBytes n)"

section \<open>storagebar.go\<close>

definition StorageBarNoBar :: int where "StorageBarNoBar = - 1"

definition StorageBar :: "int \<Rightarrow> int \<Rightarrow> int \<times> bool" where
  "StorageBar usedBytes capBytes =
     (if capBytes \<le> 0 then (StorageBarNoBar, False)
      else let q = fl_quot (fl_of_nat (nat \<bar>usedBytes\<bar>)) (fl_of_nat (nat capBytes));
               r = int (fl_round (fl_mult q (100, 0))); v = (if usedBytes < 0 then - r else r)
           in (if int64_range v then v else MinInt64, usedBytes > capBytes))"

section \<open>commit.go\<close>

definition CommitURL :: "string \<Rightarrow> string \<Rightarrow> string" where
  "CommitURL repo sha =
     (if sha = '''' then ''''
      else case (if HasPrefix repo ''https://'' \<or> HasPrefix repo ''http://'' then Some repo
                 else if HasPrefix repo ''git@'' then
                   (let hostPath = TrimPrefix repo ''git@''
                    in case IndexByte hostPath (CHR '':'') of
                         None \<Rightarrow> None
                       | Some i \<Rightarrow> (let host = take i hostPath; path = drop (i + 1) hostPath
                                   in if host = '''' \<or> path = '''' then None
                                      else Some (''https://'' @ host @ ''/'' @ path)))
                 else None) of
             None \<Rightarrow> ''''
           | Some base \<Rightarrow>
               (let base = TrimSuffix (TrimSuffix base ''/'') ''.git''
                in if list_ex (\<lambda>c. c = CHR '' '' \<or> c = CHR 0x09) base then ''''
                   else base @ ''/commit/'' @ sha))"

definition ShortSHA :: "string \<Rightarrow> string" where
  "ShortSHA sha = (if length sha > 7 then take 7 sha else sha)"

section \<open>The records of model.go\<close>

record ViewCondition =
  vc_Type :: string
  vc_Status :: string
  vc_Reason :: string
  vc_Message :: string
  vc_LastTransitionTime :: string

record ViewStep =
  vs_Name :: string
  vs_Status :: string
  vs_Message :: string
  vs_PeakMemory :: string
  vs_MemoryLimit :: string
  vs_StartedAt :: string
  vs_FinishedAt :: string

record ViewTermination =
  vt_Reason :: string
  vt_Container :: string
  vt_MemoryLimit :: string
  vt_FinishedAt :: string
  vt_ExitCode :: int

record ViewBuild =
  vb_Phase :: string
  vb_Result :: string
  vb_JobName :: string
  vb_PodName :: string
  vb_Trigger :: string
  vb_TriggeredBy :: string
  vb_Commit :: string
  vb_StartTime :: string
  vb_CompletionTime :: string
  vb_Attempts :: int
  vb_FailedStep :: string
  vb_Message :: string
  vb_LogsRef :: string
  vb_Steps :: "ViewStep list"
  vb_Termination :: "ViewTermination option"

record ViewRelease =
  vr_Current :: string
  vr_Previous :: string
  vr_ServingSince :: string

record StorageVolume =
  sv_Name :: string
  sv_Bytes :: int
  sv_Human :: string
  sv_Delta :: string
  sv_Cap :: int
  sv_CapHuman :: string
  sv_BarPct :: int
  sv_Over :: bool
  sv_HasBar :: bool
  sv_Releases :: int

record ViewStorage =
  vst_MeasuredAt :: string
  vst_ThresholdState :: string
  vst_ReleaseCount :: int
  vst_Volumes :: "StorageVolume list"

record CleanupAction =
  ca_RequestedAt :: string
  ca_RequestedBy :: string
  ca_Phase :: string
  ca_LastCompleted :: string
  ca_Message :: string
  ca_ReclaimedBytes :: int

record ViewCleanup =
  vcl_Cache :: CleanupAction
  vcl_Releases :: CleanupAction

record ViewManualTrigger =
  vmt_TriggeredBy :: string
  vmt_Time :: string

record ScheduledBuilds =
  vsb_Enabled :: bool
  vsb_Schedule :: string

record WatchCommits =
  vwc_Enabled :: bool
  vwc_Interval :: string
  vwc_LastSeenSHA :: string

record BuildMetrics =
  bm_Container :: string
  bm_MemoryBytes :: int
  bm_MemoryHuman :: string
  bm_MemLimitBytes :: int
  bm_MemLimitHuman :: string
  bm_MemBarPct :: int
  bm_MemOver :: bool
  bm_HasMemBar :: bool

record ViewApp =
  va_Namespace :: string
  va_Name :: string
  va_Group :: string
  va_ObservedGeneration :: int
  va_Phase :: string
  va_NodeName :: string
  va_URL :: string
  va_SpecStale :: bool
  va_Conditions :: "ViewCondition list"
  va_Build :: ViewBuild
  va_BuildHistory :: "ViewBuild list"
  va_LastProcessedRebuild :: string
  va_LastBuiltSpecHash :: string
  va_LastBuildTime :: string
  va_LastSuccessfulBuild :: string
  va_NextScheduledBuildTime :: string
  va_Release :: ViewRelease
  va_Storage :: ViewStorage
  va_Cleanup :: ViewCleanup
  va_ManualTrigger :: ViewManualTrigger
  va_Repo :: string
  va_ScheduledBuilds :: ScheduledBuilds
  va_WatchCommits :: WatchCommits
  va_HasStatus :: bool
  va_BuildMetrics :: "BuildMetrics option"
  va_BuildMetricsNote :: string

section \<open>Conditions\<close>

definition IsTrue :: "ViewCondition \<Rightarrow> bool" where
  "IsTrue c \<longleftrightarrow> vc_Status c = ''True''"

definition Condition_HealthClass :: "ViewCondition \<Rightarrow> string" where
  "Condition_HealthClass c =
     (let healthyWhenTrue = (vc_Type c \<noteq> ''Degraded'')
      in if vc_Status c = ''True'' \<or> vc_Status c = ''False''
         then (if (vc_Status c = ''True'') = healthyWhenTrue then ''true'' else ''false'')
         else ''unknown'')"

section \<open>Steps and builds\<close>

definition compactDuration :: "duration \<Rightarrow> string" where
  "compactDuration d =
     (let out = duration_String (duration_Round d Second);
          out = (if HasSuffix out ''m0s'' then TrimSuffix out ''0s'' else out)
      in if HasSuffix out ''h0m'' then TrimSuffix out ''0m'' else out)"

definition Step_Duration :: "time \<Rightarrow> ViewStep \<Rightarrow> string" where
  "Step_Duration now s =
     (case ParseRFC3339 (vs_StartedAt s) of
        None \<Rightarrow> ''''
      | Some start \<Rightarrow>
          (case (if vs_FinishedAt s \<noteq> '''' then ParseRFC3339 (vs_FinishedAt s)
                 else if vs_Status s \<noteq> ''Running'' then None else Some now) of
             None \<Rightarrow> ''''
           | Some stop \<Rightarrow> (let d = time_Sub stop start in if d < 0 then '''' else compactDuration d)))"

definition Icon :: "ViewStep \<Rightarrow> string" where
  "Icon s =
     (if vs_Status s = ''Succeeded'' then utf8 [226, 156, 147]
      else if vs_Status s = ''Running'' then utf8 [226, 151, 143]
      else if vs_Status s = ''Failed'' then utf8 [226, 156, 149]
      else if vs_Status s = ''Aborted'' then utf8 [226, 151, 188]
      else mid_dot)"

definition CSSClass :: "ViewStep \<Rightarrow> string" where
  "CSSClass s =
     (if vs_Status s = ''Succeeded'' then ''step-succeeded''
      else if vs_Status s = ''Running'' then ''step-running''
      else if vs_Status s = ''Failed'' then ''step-failed''
      else if vs_Status s = ''Aborted'' then ''step-aborted''
      else ''step-pending'')"

definition AriaLabel :: "ViewStep \<Rightarrow> string" where
  "AriaLabel s = vs_Name s @ '': '' @ ToLower (vs_Status s)"

definition IsOOM :: "ViewBuild \<Rightarrow> bool" where
  "IsOOM b \<longleftrightarrow> (case vb_Termination b of None \<Rightarrow> False | Some t \<Rightarrow> vt_Reason t = ''OOMKilled'')"

definition TerminationSummary :: "ViewBuild \<Rightarrow> string" where
  "TerminationSummary b =
     (case vb_Termination b of
        None \<Rightarrow> ''''
      | Some t \<Rightarrow>
          if vt_Reason t = '''' then ''''
          else if IsOOM b then
            ''OOM Killed '' @ em_dash @ '' the '' @ vt_Container t @
            (if vt_MemoryLimit t \<noteq> '''' then '' step exceeded its '' @ vt_MemoryLimit t @ '' memory limit.''
             else '' step exceeded its memory limit.'')
          else ''Terminated: '' @ vt_Reason t @ '' (exit '' @ Itoa (vt_ExitCode t) @ '')'')"

definition TriggerLabel :: "ViewBuild \<Rightarrow> string" where
  "TriggerLabel b =
     (if vb_Trigger b = '''' then em_dash
      else if vb_TriggeredBy b \<noteq> '''' then vb_Trigger b @ '' '' @ mid_dot @ '' '' @ vb_TriggeredBy b
      else if vb_Commit b \<noteq> '''' then vb_Trigger b @ '' '' @ mid_dot @ '' '' @ ShortSHA (vb_Commit b)
      else vb_Trigger b)"

definition Build_Duration :: "ViewBuild \<Rightarrow> string" where
  "Build_Duration b =
     (case ParseRFC3339 (vb_StartTime b) of
        None \<Rightarrow> ''''
      | Some start \<Rightarrow>
          (case ParseRFC3339 (vb_CompletionTime b) of
             None \<Rightarrow> ''''
           | Some stop \<Rightarrow> (let d = time_Sub stop start in if d < 0 then '''' else compactDuration d)))"

section \<open>Labels\<close>

definition volumeLabel :: "string \<Rightarrow> string" where
  "volumeLabel k =
     (if k = ''output'' then ''Output (current release)''
      else if k = ''outputTotal'' then ''Output (all releases)''
      else if k = ''cache'' then ''Cache''
      else if k = ''dataCache'' then ''Data cache''
      else k)"

definition DisplayName :: "StorageVolume \<Rightarrow> string" where
  "DisplayName v =
     (if sv_Name v = ''outputTotal'' \<and> sv_Releases v > 0
      then (if sv_Releases v = 1 then ''Output (1 release)''
            else ''Output ('' @ Itoa (sv_Releases v) @ '' releases)'')
      else volumeLabel (sv_Name v))"

definition ScheduledBuilds_Label :: "ScheduledBuilds \<Rightarrow> string" where
  "ScheduledBuilds_Label s =
     (if \<not> vsb_Enabled s then ''Disabled'' else if vsb_Schedule s = '''' then ''operator default'' else vsb_Schedule s)"

definition WatchCommits_Label :: "WatchCommits \<Rightarrow> string" where
  "WatchCommits_Label w =
     (if \<not> vwc_Enabled w then ''Disabled'' else if vwc_Interval w = '''' then ''operator default'' else ''every '' @ vwc_Interval w)"

definition nextScheduled :: "(string \<Rightarrow> (time \<Rightarrow> time) option) \<Rightarrow> time \<Rightarrow> ScheduledBuilds \<Rightarrow> string" where
  "nextScheduled parseStandard now sb =
     (if \<not> vsb_Enabled sb \<or> vsb_Schedule sb = '''' then ''''
      else case parseStandard (vsb_Schedule sb) of
             None \<Rightarrow> ''''
           | Some sched_Next \<Rightarrow> FormatRFC3339 (sched_Next now))"

section \<open>App\<close>

definition App_Condition :: "ViewApp \<Rightarrow> string \<Rightarrow> ViewCondition option" where
  "App_Condition a t = find (\<lambda>c. vc_Type c = t) (va_Conditions a)"

definition BuildActive :: "ViewApp \<Rightarrow> bool" where
  "BuildActive a \<longleftrightarrow>
     va_Phase a = ''Building'' \<or> vb_Phase (va_Build a) = ''Running'' \<or> vb_Phase (va_Build a) = ''Pending''"

definition Active :: "CleanupAction \<Rightarrow> bool" where
  "Active c \<longleftrightarrow> ca_Phase c = ''Pending'' \<or> ca_Phase c = ''Running''"

definition ReclaimedHuman :: "CleanupAction \<Rightarrow> string" where
  "ReclaimedHuman c = HumanizeBytes (ca_ReclaimedBytes c)"

definition CleanupActive :: "ViewApp \<Rightarrow> bool" where
  "CleanupActive a \<longleftrightarrow> Active (vcl_Cache (va_Cleanup a)) \<or> Active (vcl_Releases (va_Cleanup a))"

definition CleanupBusy :: "ViewApp \<Rightarrow> bool" where
  "CleanupBusy a \<longleftrightarrow> BuildActive a \<or> CleanupActive a"

definition Ready :: "ViewApp \<Rightarrow> bool" where
  "Ready a \<longleftrightarrow> (case App_Condition a ''Ready'' of None \<Rightarrow> False | Some c \<Rightarrow> IsTrue c)"

definition Degraded :: "ViewApp \<Rightarrow> bool" where
  "Degraded a \<longleftrightarrow> (case App_Condition a ''Degraded'' of None \<Rightarrow> False | Some c \<Rightarrow> IsTrue c)"

definition BuildFailed :: "ViewApp \<Rightarrow> bool" where
  "BuildFailed a \<longleftrightarrow> (case App_Condition a ''BuildSucceeded'' of None \<Rightarrow> False | Some c \<Rightarrow> vc_Status c = ''False'')"

definition HealthClass :: "ViewApp \<Rightarrow> string" where
  "HealthClass a =
     (if Degraded a \<and> Ready a then ''degraded-serving''
      else if Degraded a then ''degraded''
      else if Ready a then ''ready''
      else if va_Phase a = ''Building'' then ''building''
      else ''pending'')"

definition HealthLabel :: "ViewApp \<Rightarrow> string" where
  "HealthLabel a =
     (if Degraded a \<and> Ready a then ''Serving last-good (latest build failed)''
      else if Degraded a then ''Degraded''
      else if Ready a then ''Ready''
      else if va_Phase a = ''Building'' then ''Building''
      else if va_Phase a \<noteq> '''' then va_Phase a
      else ''Pending'')"

definition HealthShortLabel :: "ViewApp \<Rightarrow> string" where
  "HealthShortLabel a = (if HealthClass a = ''degraded-serving'' then ''Serving last-good'' else HealthLabel a)"

definition HealthRank :: "ViewApp \<Rightarrow> int" where
  "HealthRank a =
     (if HealthClass a = ''degraded'' then 0
      else if HealthClass a = ''degraded-serving'' then 1
      else if HealthClass a = ''building'' then 2
      else if HealthClass a = ''pending'' then 3
      else 4)"

definition URLHost :: "ViewApp \<Rightarrow> string" where
  "URLHost a =
     (if va_URL a = '''' then ''''
      else case url_host (va_URL a) of
             Some h \<Rightarrow> if h \<noteq> '''' then h else va_URL a
           | None \<Rightarrow> va_URL a)"

definition StorageBadgeLabel :: "ViewApp \<Rightarrow> string" where
  "StorageBadgeLabel a =
     (if vst_ThresholdState (va_Storage a) = ''Alert'' then ''STORAGE ALERT''
      else if vst_ThresholdState (va_Storage a) = ''Critical'' then ''STORAGE CRITICAL''
      else '''')"

definition StorageBadgeClass :: "ViewApp \<Rightarrow> string" where
  "StorageBadgeClass a =
     (if vst_ThresholdState (va_Storage a) = ''Alert'' then ''b-stale''
      else if vst_ThresholdState (va_Storage a) = ''Critical'' then ''b-degraded''
      else '''')"

definition ShowFlow :: "ViewApp \<Rightarrow> bool" where
  "ShowFlow a \<longleftrightarrow> BuildActive a \<or> vb_Result (va_Build a) = ''Failed''"

definition ServingJobName :: "ViewApp \<Rightarrow> string" where
  "ServingJobName a =
     (if \<not> Ready a then ''''
      else case find (\<lambda>b. vb_Result b = ''Succeeded'') (va_BuildHistory a) of
             Some b \<Rightarrow> vb_JobName b
           | None \<Rightarrow> '''')"

definition CommitLink :: "ViewApp \<Rightarrow> string \<Rightarrow> string" where
  "CommitLink a sha = CommitURL (va_Repo a) sha"

section \<open>Storage totals\<close>

record StorageTotals =
  tot_Cache :: int
  tot_DataCache :: int
  tot_OutputTotal :: int
  tot_OutputActive :: int
  tot_Grand :: int

definition noTotals :: StorageTotals where
  "noTotals = \<lparr>tot_Cache = 0, tot_DataCache = 0, tot_OutputTotal = 0, tot_OutputActive = 0, tot_Grand = 0\<rparr>"

definition total_volume :: "StorageTotals \<Rightarrow> StorageVolume \<Rightarrow> StorageTotals" where
  "total_volume t v =
     (if sv_Name v = ''cache'' then t\<lparr>tot_Cache := sv_Bytes v\<rparr>
      else if sv_Name v = ''dataCache'' then t\<lparr>tot_DataCache := sv_Bytes v\<rparr>
      else if sv_Name v = ''outputTotal'' then t\<lparr>tot_OutputTotal := sv_Bytes v\<rparr>
      else if sv_Name v = ''output'' then t\<lparr>tot_OutputActive := sv_Bytes v\<rparr>
      else t)"

definition with_grand :: "StorageTotals \<Rightarrow> StorageTotals" where
  "with_grand t = t\<lparr>tot_Grand := wrap64 (wrap64 (tot_Cache t + tot_DataCache t) + tot_OutputTotal t)\<rparr>"

definition storageTotals :: "ViewApp \<Rightarrow> StorageTotals" where
  "storageTotals a = with_grand (foldl total_volume noTotals (vst_Volumes (va_Storage a)))"

definition StorageCacheBytes :: "ViewApp \<Rightarrow> int" where "StorageCacheBytes a = tot_Cache (storageTotals a)"
definition StorageDataCacheBytes :: "ViewApp \<Rightarrow> int" where "StorageDataCacheBytes a = tot_DataCache (storageTotals a)"
definition StorageOutputTotalBytes :: "ViewApp \<Rightarrow> int" where "StorageOutputTotalBytes a = tot_OutputTotal (storageTotals a)"
definition StorageOutputActiveBytes :: "ViewApp \<Rightarrow> int" where "StorageOutputActiveBytes a = tot_OutputActive (storageTotals a)"
definition StorageTotalBytes :: "ViewApp \<Rightarrow> int" where "StorageTotalBytes a = tot_Grand (storageTotals a)"

definition GrandHuman :: "StorageTotals \<Rightarrow> string" where "GrandHuman t = HumanizeBytes (tot_Grand t)"
definition CacheHuman :: "StorageTotals \<Rightarrow> string" where "CacheHuman t = HumanizeBytes (tot_Cache t)"
definition DataCacheHuman :: "StorageTotals \<Rightarrow> string" where "DataCacheHuman t = HumanizeBytes (tot_DataCache t)"
definition OutputHuman :: "StorageTotals \<Rightarrow> string" where "OutputHuman t = HumanizeBytes (tot_OutputTotal t)"
definition ActiveHuman :: "StorageTotals \<Rightarrow> string" where "ActiveHuman t = HumanizeBytes (tot_OutputActive t)"

definition StorageTotalHuman :: "ViewApp \<Rightarrow> string" where "StorageTotalHuman a = GrandHuman (storageTotals a)"

definition StorageTooltip :: "ViewApp \<Rightarrow> string" where
  "StorageTooltip a =
     (let t = storageTotals a; sep = '' '' @ mid_dot @ '' ''
      in ''Cache '' @ CacheHuman t @ sep @ ''Data cache '' @ DataCacheHuman t @ sep @
         ''Output '' @ OutputHuman t @ '' (active '' @ ActiveHuman t @ '')'')"

definition add_totals :: "StorageTotals \<Rightarrow> StorageTotals \<Rightarrow> StorageTotals" where
  "add_totals t u =
     t\<lparr>tot_Cache := wrap64 (tot_Cache t + tot_Cache u), tot_DataCache := wrap64 (tot_DataCache t + tot_DataCache u),
       tot_OutputTotal := wrap64 (tot_OutputTotal t + tot_OutputTotal u),
       tot_OutputActive := wrap64 (tot_OutputActive t + tot_OutputActive u)\<rparr>"

definition AggregateStorage :: "ViewApp list \<Rightarrow> StorageTotals" where
  "AggregateStorage apps = with_grand (foldl (\<lambda>t a. add_totals t (storageTotals a)) noTotals apps)"

section \<open>Accuracy of byte counts\<close>

lemma round_even_error:
  assumes "0 < b"
  shows "2 * \<bar>int a - int (round_even a b) * int b\<bar> \<le> int b"
proof -
  have eq: "int a = int (a div b) * int b + int (a mod b)"
    by (metis div_mult_mod_eq of_nat_add of_nat_mult)
  have r: "int (a mod b) < int b" using assms by simp
  show ?thesis
  proof (cases "2 * (a mod b) > b \<or> (2 * (a mod b) = b \<and> odd (a div b))")
    case True
    then have "round_even a b = a div b + 1" by (simp add: round_even_def Let_def)
    then have "int a - int (round_even a b) * int b = int (a mod b) - int b" using eq by (simp add: algebra_simps)
    moreover have "int b \<le> 2 * int (a mod b)" using True by linarith
    ultimately show ?thesis using r by simp
  next
    case False
    then have "round_even a b = a div b" by (simp add: round_even_def Let_def)
    then have "int a - int (round_even a b) * int b = int (a mod b)" using eq by (simp add: algebra_simps)
    moreover have "2 * int (a mod b) \<le> int b" using False by linarith
    ultimately show ?thesis by simp
  qed
qed

lemma fl_trunc_shift: "fl_trunc (m, - (10 * int i)) = m div 1024 ^ i"
proof -
  have "nat (10 * int i) = 10 * i" by simp
  then show ?thesis by (cases "i = 0") (simp_all add: fl_trunc_def power_mult)
qed

lemma unit_loop_spec:
  "unit_loop j (m, - (10 * int i)) i = (v, k) \<Longrightarrow>
     v = (m, - (10 * int k)) \<and> i \<le> k \<and> k \<le> i + j \<and> (i < k \<longrightarrow> 1024 ^ k \<le> m) \<and> (k < i + j \<longrightarrow> m < 1024 ^ Suc k)"
proof (induction j arbitrary: i)
  case (Suc j)
  show ?case
  proof (cases "m div 1024 ^ i \<ge> 1024")
    case True
    then have le: "1024 ^ Suc i \<le> m"
      using div_le_mono [of m "1024 ^ Suc i - 1" "1024 ^ i"] by (simp add: less_eq_div_iff_mult_less_eq mult.commute)
    have "- (10 * int i) - 10 = - (10 * int (Suc i))" by simp
    with Suc.prems True have "unit_loop j (m, - (10 * int (Suc i))) (Suc i) = (v, k)"
      by (simp only: unit_loop.simps fl_trunc_shift fst_conv snd_conv if_True)
    from Suc.IH [OF this] le show ?thesis by (cases "k = Suc i") auto
  next
    case False
    then have "m < 1024 ^ Suc i" using div_less_iff_less_mult [of "1024 ^ i" m 1024] by simp
    with Suc.prems False show ?thesis by (auto simp: fl_trunc_shift)
  qed
qed auto

definition decimal_unit :: "nat \<Rightarrow> nat \<Rightarrow> string" where
  \<comment> \<open>\<open>t\<close> tenths of the \<open>k\<close>-th unit\<close>
  "decimal_unit t k = nat_dec (t div 10) @ ''.'' @ nat_dec (t mod 10) @ '' '' @ byte_units ! (k - 1)"

lemma HumanizeBytes_unit:
  assumes "1024 \<le> n" "n < 2 ^ 53"
  shows "\<exists>t k. HumanizeBytes n = decimal_unit t k \<and> HumanizeBytes (- n) = ''-'' @ decimal_unit t k \<and> 1 \<le> k \<and> k \<le> 4 \<and>
    1024 ^ k \<le> n \<and> (k < 4 \<longrightarrow> n < 1024 ^ (k + 1)) \<and> 2 * \<bar>10 * n - int t * 1024 ^ k\<bar> \<le> 1024 ^ k"
proof -
  define m where "m = nat n"
  have n: "n = int m" using assms by (simp add: m_def)
  have m: "1024 \<le> m" "m < 2 ^ 53" using assms unfolding m_def by (simp_all add: nat_le_iff nat_less_iff le_nat_iff)
  obtain v k where run: "unit_loop 4 (m, 0) 0 = (v, k)" by (cases "unit_loop 4 (m, 0) 0")
  from unit_loop_spec [of 4 m 0 v k] run
  have v: "v = (m, - (10 * int k))" "k \<le> 4" "0 < k \<longrightarrow> 1024 ^ k \<le> m" "k < 4 \<longrightarrow> m < 1024 ^ Suc k" by simp_all
  have k: "1 \<le> k" using v(4) m(1) by (cases k) auto
  have shift: "nat (10 * int k) = 10 * k" "\<not> 0 \<le> - (10 * int k)" using k by simp_all
  have pow: "(2 :: nat) ^ (10 * k) = 1024 ^ k" by (simp add: power_mult)
  define t where "t = round_even (10 * m) (1024 ^ k)"
  have dec: "fmt_one_decimal v = nat_dec (t div 10) @ ''.'' @ nat_dec (t mod 10)"
    using shift k by (simp add: fmt_one_decimal_def v(1) t_def pow Let_def)
  have range: "int64_range (- n)" "int64_range n" using assms by (simp_all add: int64_range_def)
  have "HumanizeBytes n = decimal_unit t k" "HumanizeBytes (- n) = ''-'' @ decimal_unit t k"
    using assms m run range by (simp_all add: HumanizeBytes_def decimal_unit_def dec n fl_of_nat_def)
  moreover have "2 * \<bar>10 * n - int t * 1024 ^ k\<bar> \<le> 1024 ^ k"
    using round_even_error [of "1024 ^ k" "10 * m"] by (simp add: t_def n)
  moreover have "1024 ^ k \<le> n" using v(3) k unfolding n by (metis less_eq_Suc_le One_nat_def of_nat_le_iff of_nat_power of_nat_numeral)
  moreover have "k < 4 \<longrightarrow> n < 1024 ^ (k + 1)" using v(4) unfolding n by (metis Suc_eq_plus1 of_nat_less_iff of_nat_power of_nat_numeral)
  ultimately show ?thesis using k v(2) by blast
qed

text \<open>Byte counts are shown to within half a tenth of the unit, in the largest unit that does not exceed
  them (up to TiB), and a negative count is the same text behind a minus sign.\<close>

theorem HumanizeBytes_accurate:
  assumes "1024 \<le> n" "n < 2 ^ 53"
  shows "\<exists>t k. HumanizeBytes n = decimal_unit t k \<and> HumanizeBytes (- n) = ''-'' @ decimal_unit t k \<and> 1 \<le> k \<and> k \<le> 4 \<and>
    1024 ^ k \<le> n \<and> (k < 4 \<longrightarrow> n < 1024 ^ (k + 1)) \<and> 2 * \<bar>10 * n - int t * 1024 ^ k\<bar> \<le> 1024 ^ k"
  by (rule HumanizeBytes_unit [OF assms])

theorem HumanizeBytes_accurate_witness:
  "\<exists>t k. HumanizeBytes 3555555555 = decimal_unit t k \<and> 1 \<le> k \<and> 2 * \<bar>10 * 3555555555 - int t * 1024 ^ k\<bar> \<le> 1024 ^ k"
  using HumanizeBytes_accurate [of 3555555555] by auto

text \<open>The one count whose negation is itself shows two minus signs.\<close>

lemma HumanizeBytes_MinInt64: "HumanizeBytes MinInt64 = ''--9223372036854775808 B''"
proof -
  have "wrap64 (- MinInt64) = MinInt64" by (simp add: wrap64_def MinInt64_def)
  moreover have "nat_dec 9223372036854775808 = ''9223372036854775808''"
    by (simp add: nat_dec.simps digit_char_def) code_simp
  ultimately show ?thesis by (simp add: HumanizeBytes_def Itoa_def MinInt64_def)
qed

end
