(* ===== verification/Console_Decode.thy ===== *)
theory Console_Decode
  imports Console_View
begin

text \<open>
  The projection of an unstructured App object into the view model: \<open>coerce.go\<close>, and
  \<open>FromUnstructured\<close> with its helpers in \<open>model.go\<close>.

  A decoded JSON tree is \<open>any\<close>. A Go map is an association list, so a lookup of an absent key gives
  \<open>VNil\<close>. The accessors of the package \<open>unstructured\<close> are not part of the sources: they are the record
  \<open>accessors\<close>, a parameter, and \<open>documented\<close> states what its documentation says of them.
\<close>

datatype any =
    VNil
  | VBool bool
  | VInt int
  | VFloat sfloat
  | VString string
  | VList "any list"
  | VMap "(string \<times> any) list"

definition mget :: "(string \<times> any) list \<Rightarrow> string \<Rightarrow> any" where
  \<comment> \<open>\<open>m[k]\<close> on a \<open>map[string]any\<close>\<close>
  "mget m k = (case map_of m k of None \<Rightarrow> VNil | Some v \<Rightarrow> v)"

record accessors =
  u_GetNamespace :: "(string \<times> any) list \<Rightarrow> string"
  u_GetName :: "(string \<times> any) list \<Rightarrow> string"
  u_GetLabels :: "(string \<times> any) list \<Rightarrow> string gomap"
  u_GetAnnotations :: "(string \<times> any) list \<Rightarrow> string gomap"
  u_NestedField :: "(string \<times> any) list \<Rightarrow> string list \<Rightarrow> any option"
  u_NestedMap :: "(string \<times> any) list \<Rightarrow> string list \<Rightarrow> (string \<times> any) list option"
  u_NestedSlice :: "(string \<times> any) list \<Rightarrow> string list \<Rightarrow> any list option"
  u_NestedString :: "(string \<times> any) list \<Rightarrow> string list \<Rightarrow> string option"
  u_NestedBool :: "(string \<times> any) list \<Rightarrow> string list \<Rightarrow> bool option"

definition items_of :: "(string \<times> any) list option \<Rightarrow> (string \<times> any) list" where
  \<comment> \<open>a nil map has no entries\<close>
  "items_of m = (case m of None \<Rightarrow> [] | Some x \<Rightarrow> x)"

section \<open>coerce.go\<close>

definition asString :: "any \<Rightarrow> string" where
  "asString v =
     (case v of
        VString t \<Rightarrow> t
      | VBool t \<Rightarrow> if t then ''true'' else ''false''
      | VInt t \<Rightarrow> Itoa t
      | VFloat t \<Rightarrow> if float_is_int64 t then Itoa (int64_of_float t) else FormatFloat t
      | _ \<Rightarrow> '''')"

definition asInt :: "any \<Rightarrow> int" where
  "asInt v =
     (case v of
        VInt t \<Rightarrow> t
      | VFloat t \<Rightarrow> int64_of_float t
      | VString t \<Rightarrow> ParseInt_value t
      | _ \<Rightarrow> 0)"

definition asBool :: "any \<Rightarrow> bool" where
  "asBool v =
     (case v of
        VBool t \<Rightarrow> t
      | VString t \<Rightarrow> (case ParseBool t of Some b \<Rightarrow> b | None \<Rightarrow> False)
      | _ \<Rightarrow> False)"

section \<open>The parts of the status\<close>

definition conditionsFrom :: "any \<Rightarrow> ViewCondition list" where
  "conditionsFrom v =
     (case v of
        VList list \<Rightarrow>
          sort_key vc_Type (concat (map (\<lambda>item. case item of
              VMap m \<Rightarrow> [\<lparr>vc_Type = asString (mget m ''type''), vc_Status = asString (mget m ''status''),
                          vc_Reason = asString (mget m ''reason''), vc_Message = asString (mget m ''message''),
                          vc_LastTransitionTime = asString (mget m ''lastTransitionTime'')\<rparr>]
            | _ \<Rightarrow> []) list))
      | _ \<Rightarrow> [])"

definition stepsFrom :: "any \<Rightarrow> ViewStep list" where
  "stepsFrom v =
     (case v of
        VList list \<Rightarrow>
          concat (map (\<lambda>item. case item of
              VMap m \<Rightarrow>
                [\<lparr>vs_Name = asString (mget m ''name''), vs_Status = asString (mget m ''status''),
                  vs_Message = asString (mget m ''message''),
                  vs_PeakMemory = (let b = asInt (mget m ''peakMemoryBytes'') in if b > 0 then HumanizeBytes b else ''''),
                  vs_MemoryLimit = asString (mget m ''memoryLimit''), vs_StartedAt = asString (mget m ''startedAt''),
                  vs_FinishedAt = asString (mget m ''finishedAt'')\<rparr>]
            | _ \<Rightarrow> []) list)
      | _ \<Rightarrow> [])"

definition terminationFrom :: "any \<Rightarrow> ViewTermination option" where
  "terminationFrom v =
     (case v of
        VMap m \<Rightarrow> Some \<lparr>vt_Reason = asString (mget m ''reason''), vt_Container = asString (mget m ''container''),
          vt_MemoryLimit = asString (mget m ''memoryLimit''), vt_FinishedAt = asString (mget m ''finishedAt''),
          vt_ExitCode = asInt (mget m ''exitCode'')\<rparr>
      | _ \<Rightarrow> None)"

definition noBuild :: ViewBuild where
  "noBuild = \<lparr>vb_Phase = '''', vb_Result = '''', vb_JobName = '''', vb_PodName = '''', vb_Trigger = '''', vb_TriggeredBy = '''',
     vb_Commit = '''', vb_StartTime = '''', vb_CompletionTime = '''', vb_Attempts = 0, vb_FailedStep = '''', vb_Message = '''',
     vb_LogsRef = '''', vb_Steps = [], vb_Termination = None\<rparr>"

definition buildFrom :: "any \<Rightarrow> ViewBuild" where
  "buildFrom v =
     (case v of
        VMap m \<Rightarrow>
          \<lparr>vb_Phase = asString (mget m ''phase''), vb_Result = asString (mget m ''result''),
           vb_JobName = asString (mget m ''jobName''), vb_PodName = asString (mget m ''podName''),
           vb_Trigger = asString (mget m ''trigger''), vb_TriggeredBy = asString (mget m ''triggeredBy''),
           vb_Commit = asString (mget m ''commit''), vb_StartTime = asString (mget m ''startTime''),
           vb_CompletionTime = asString (mget m ''completionTime''), vb_Attempts = asInt (mget m ''attempts''),
           vb_FailedStep = asString (mget m ''failedStep''), vb_Message = asString (mget m ''message''),
           vb_LogsRef = asString (mget m ''logsRef''), vb_Steps = stepsFrom (mget m ''steps''),
           vb_Termination = terminationFrom (mget m ''termination'')\<rparr>
      | _ \<Rightarrow> noBuild)"

definition buildHistoryFrom :: "any \<Rightarrow> ViewBuild list" where
  "buildHistoryFrom v = (case v of VList list \<Rightarrow> map buildFrom list | _ \<Rightarrow> [])"

definition releaseFrom :: "any \<Rightarrow> ViewRelease" where
  "releaseFrom v =
     (case v of
        VMap m \<Rightarrow> \<lparr>vr_Current = asString (mget m ''current''), vr_Previous = asString (mget m ''previous''),
                    vr_ServingSince = asString (mget m ''servingSince'')\<rparr>
      | _ \<Rightarrow> \<lparr>vr_Current = '''', vr_Previous = '''', vr_ServingSince = ''''\<rparr>)"

definition noAction :: CleanupAction where
  "noAction = \<lparr>ca_RequestedAt = '''', ca_RequestedBy = '''', ca_Phase = '''', ca_LastCompleted = '''', ca_Message = '''',
     ca_ReclaimedBytes = 0\<rparr>"

definition cleanupActionFrom :: "any \<Rightarrow> CleanupAction" where
  "cleanupActionFrom v =
     (case v of
        VMap m \<Rightarrow>
          (let completed = asString (mget m ''completedAt'');
               completed = (if completed = '''' then asString (mget m ''lastCompleted'') else completed)
           in \<lparr>ca_RequestedAt = asString (mget m ''requestedAt''), ca_RequestedBy = asString (mget m ''requestedBy''),
               ca_Phase = asString (mget m ''phase''), ca_LastCompleted = completed,
               ca_Message = asString (mget m ''message''), ca_ReclaimedBytes = asInt (mget m ''reclaimedBytes'')\<rparr>)
      | _ \<Rightarrow> noAction)"

definition cleanupFrom :: "any \<Rightarrow> ViewCleanup" where
  "cleanupFrom v =
     (case v of
        VMap m \<Rightarrow> \<lparr>vcl_Cache = cleanupActionFrom (mget m ''cache''), vcl_Releases = cleanupActionFrom (mget m ''releases'')\<rparr>
      | _ \<Rightarrow> \<lparr>vcl_Cache = noAction, vcl_Releases = noAction\<rparr>)"

definition manualTriggerFrom :: "any \<Rightarrow> ViewManualTrigger" where
  "manualTriggerFrom v =
     (case v of
        VMap m \<Rightarrow> \<lparr>vmt_TriggeredBy = asString (mget m ''triggeredBy''), vmt_Time = asString (mget m ''time'')\<rparr>
      | _ \<Rightarrow> \<lparr>vmt_TriggeredBy = '''', vmt_Time = ''''\<rparr>)"

section \<open>Storage volumes\<close>

definition nestedInt :: "(string \<times> any) list \<Rightarrow> string \<Rightarrow> string \<Rightarrow> int" where
  "nestedInt spec grp field = (case mget spec grp of VMap g \<Rightarrow> asInt (mget g field) | _ \<Rightarrow> 0)"

fun firstPositive :: "int list \<Rightarrow> int" where
  "firstPositive [] = 0"
| "firstPositive (v # vals) = (if v > 0 then v else firstPositive vals)"

definition capForKey :: "string \<Rightarrow> any \<Rightarrow> int" where
  "capForKey k specStorage =
     (case specStorage of
        VMap spec \<Rightarrow>
          (let k = ToLower k
           in if Contains k ''total'' then 0
              else if Contains k ''output'' then nestedInt spec ''output'' ''capBytes''
              else if Contains k ''data'' then
                firstPositive [nestedInt spec ''dataCache'' ''cleanupBytes'', nestedInt spec ''dataCache'' ''alertBytes'']
              else if Contains k ''cache'' then
                firstPositive [nestedInt spec ''cache'' ''cleanupBytes'', nestedInt spec ''cache'' ''alertBytes'']
              else 0)
      | _ \<Rightarrow> 0)"

definition capacityForKey :: "string \<Rightarrow> (string \<times> any) list \<Rightarrow> int" where
  "capacityForKey k capacityMap =
     (if capacityMap = [] then 0
      else let k = ToLower k
           in if Contains k ''output'' then asInt (mget capacityMap ''output'')
              else if Contains k ''data'' then asInt (mget capacityMap ''dataCache'')
              else if Contains k ''cache'' then asInt (mget capacityMap ''cache'')
              else 0)"

definition as_map :: "any \<Rightarrow> (string \<times> any) list" where
  \<comment> \<open>\<open>m, _ := v.(map[string]any)\<close>\<close>
  "as_map v = (case v of VMap m \<Rightarrow> m | _ \<Rightarrow> [])"

definition volume_row ::
  "(string \<times> any) list \<Rightarrow> (string \<times> any) list \<Rightarrow> (string \<times> any) list \<Rightarrow> int \<Rightarrow> string \<Rightarrow> any \<Rightarrow> StorageVolume" where
  "volume_row deltaMap specStorage capacityMap releaseCount name raw =
     (let bytes = asInt raw;
          capBytes = capForKey name (VMap specStorage);
          capBytes = (if capBytes \<le> 0 then capacityForKey name capacityMap else capBytes);
          v = \<lparr>sv_Name = name, sv_Bytes = bytes, sv_Human = HumanizeBytes bytes,
               sv_Delta = HumanizeDelta (asInt (mget deltaMap name)), sv_Cap = capBytes, sv_CapHuman = '''',
               sv_BarPct = 0, sv_Over = False, sv_HasBar = False, sv_Releases = 0\<rparr>;
          v = (if name = ''outputTotal'' then v\<lparr>sv_Releases := releaseCount\<rparr> else v)
      in if capBytes > 0 then
           (let v = v\<lparr>sv_CapHuman := HumanizeBytes capBytes\<rparr>; (pct, over) = StorageBar bytes capBytes
            in if pct \<noteq> StorageBarNoBar then v\<lparr>sv_HasBar := True, sv_BarPct := pct, sv_Over := over\<rparr> else v)
         else v)"

definition volumesFrom :: "any \<Rightarrow> any \<Rightarrow> (string \<times> any) list \<Rightarrow> any \<Rightarrow> int \<Rightarrow> StorageVolume list" where
  "volumesFrom sizes deltas specStorage capacities releaseCount =
     (case sizes of
        VMap sizeMap \<Rightarrow>
          sort_key sv_Name
            (map (\<lambda>(name, raw). volume_row (as_map deltas) specStorage (as_map capacities) releaseCount name raw) sizeMap)
      | _ \<Rightarrow> [])"

definition noStorage :: ViewStorage where
  "noStorage = \<lparr>vst_MeasuredAt = '''', vst_ThresholdState = '''', vst_ReleaseCount = 0, vst_Volumes = []\<rparr>"

definition storageFrom :: "any \<Rightarrow> (string \<times> any) list \<Rightarrow> ViewStorage" where
  "storageFrom v specStorage =
     (case v of
        VMap m \<Rightarrow>
          (let releaseCount = asInt (mget m ''releaseCount'')
           in \<lparr>vst_MeasuredAt = asString (mget m ''measuredAt''), vst_ThresholdState = asString (mget m ''thresholdState''),
               vst_ReleaseCount = releaseCount,
               vst_Volumes = volumesFrom (mget m ''sizes'') (mget m ''lastRunDeltas'') specStorage (mget m ''capacities'') releaseCount\<rparr>)
      | _ \<Rightarrow> noStorage)"

section \<open>FromUnstructured\<close>

abbreviation AnnotationRebuildRequestedAt where "AnnotationRebuildRequestedAt \<equiv> ''rebuild.baker.toggle-corp.com/requested-at''"
abbreviation AnnotationRebuildBy where "AnnotationRebuildBy \<equiv> ''rebuild.baker.toggle-corp.com/by''"
abbreviation AnnotationRebuildCommit where "AnnotationRebuildCommit \<equiv> ''rebuild.baker.toggle-corp.com/commit''"
abbreviation AnnotationWatchLastSeen where "AnnotationWatchLastSeen \<equiv> ''watch.baker.toggle-corp.com/last-seen-sha''"
abbreviation AnnotationCleanupCacheRequestedAt where "AnnotationCleanupCacheRequestedAt \<equiv> ''cleanup-cache.baker.toggle-corp.com/requested-at''"
abbreviation AnnotationCleanupCacheBy where "AnnotationCleanupCacheBy \<equiv> ''cleanup-cache.baker.toggle-corp.com/by''"
abbreviation AnnotationCleanupReleasesRequestedAt where "AnnotationCleanupReleasesRequestedAt \<equiv> ''cleanup-releases.baker.toggle-corp.com/requested-at''"
abbreviation AnnotationCleanupReleasesBy where "AnnotationCleanupReleasesBy \<equiv> ''cleanup-releases.baker.toggle-corp.com/by''"

definition noApp :: ViewApp where
  "noApp =
     \<lparr>va_Namespace = '''', va_Name = '''', va_Group = '''', va_ObservedGeneration = 0, va_Phase = '''', va_NodeName = '''',
      va_URL = '''', va_SpecStale = False, va_Conditions = [], va_Build = noBuild, va_BuildHistory = [],
      va_LastProcessedRebuild = '''', va_LastBuiltSpecHash = '''', va_LastBuildTime = '''', va_LastSuccessfulBuild = '''',
      va_NextScheduledBuildTime = '''', va_Release = \<lparr>vr_Current = '''', vr_Previous = '''', vr_ServingSince = ''''\<rparr>,
      va_Storage = noStorage, va_Cleanup = \<lparr>vcl_Cache = noAction, vcl_Releases = noAction\<rparr>,
      va_ManualTrigger = \<lparr>vmt_TriggeredBy = '''', vmt_Time = ''''\<rparr>, va_Repo = '''',
      va_ScheduledBuilds = \<lparr>vsb_Enabled = False, vsb_Schedule = ''''\<rparr>,
      va_WatchCommits = \<lparr>vwc_Enabled = False, vwc_Interval = '''', vwc_LastSeenSHA = ''''\<rparr>, va_HasStatus = False,
      va_BuildMetrics = None, va_BuildMetricsNote = ''''\<rparr>"

definition from_spec ::
  "accessors \<Rightarrow> (string \<Rightarrow> (time \<Rightarrow> time) option) \<Rightarrow> time \<Rightarrow> (string \<times> any) list \<Rightarrow> ViewApp" where
  "from_spec U parseStandard now obj =
     (let spec = items_of (u_NestedMap U obj [''spec'']);
          sched = (case mget spec ''scheduledBuilds'' of
                     VMap sb \<Rightarrow> \<lparr>vsb_Enabled = asBool (mget sb ''enabled''), vsb_Schedule = asString (mget sb ''schedule'')\<rparr>
                   | _ \<Rightarrow> \<lparr>vsb_Enabled = False, vsb_Schedule = ''''\<rparr>);
          watch = (case mget spec ''watchCommits'' of
                     VMap wc \<Rightarrow> \<lparr>vwc_Enabled = asBool (mget wc ''enabled''), vwc_Interval = asString (mget wc ''interval''),
                                 vwc_LastSeenSHA = ''''\<rparr>
                   | _ \<Rightarrow> \<lparr>vwc_Enabled = False, vwc_Interval = '''', vwc_LastSeenSHA = ''''\<rparr>)
      in noApp\<lparr>va_Namespace := u_GetNamespace U obj, va_Name := u_GetName U obj, va_Repo := asString (mget spec ''repo''),
               va_ScheduledBuilds := sched,
               va_WatchCommits := watch\<lparr>vwc_LastSeenSHA := map_get (u_GetAnnotations U obj) AnnotationWatchLastSeen\<rparr>,
               va_NextScheduledBuildTime := nextScheduled parseStandard now sched,
               va_Group := asString (mget spec ''group'')\<rparr>)"

definition from_status :: "(string \<times> any) list \<Rightarrow> (string \<times> any) list \<Rightarrow> ViewApp \<Rightarrow> ViewApp" where
  "from_status status specStorage a =
     a\<lparr>va_HasStatus := True,
       va_ObservedGeneration := asInt (mget status ''observedGeneration''), va_Phase := asString (mget status ''phase''),
       va_NodeName := asString (mget status ''nodeName''), va_URL := asString (mget status ''url''),
       va_SpecStale := asBool (mget status ''specStale''),
       va_LastProcessedRebuild := asString (mget status ''lastProcessedRebuild''),
       va_LastBuiltSpecHash := asString (mget status ''lastBuiltSpecHash''),
       va_LastBuildTime := asString (mget status ''lastBuildTime''),
       va_LastSuccessfulBuild := asString (mget status ''lastSuccessfulBuildTime''),
       va_Conditions := conditionsFrom (mget status ''conditions''), va_Build := buildFrom (mget status ''build''),
       va_BuildHistory := buildHistoryFrom (mget status ''buildHistory''), va_Release := releaseFrom (mget status ''release''),
       va_Storage := storageFrom (mget status ''storage'') specStorage, va_Cleanup := cleanupFrom (mget status ''cleanup''),
       va_ManualTrigger := manualTriggerFrom (mget status ''lastManualTrigger'')\<rparr>"

definition FromUnstructured ::
  "accessors \<Rightarrow> (string \<Rightarrow> (time \<Rightarrow> time) option) \<Rightarrow> time \<Rightarrow> (string \<times> any) list \<Rightarrow> ViewApp" where
  "FromUnstructured U parseStandard now obj =
     (let a = from_spec U parseStandard now obj
      in case u_NestedMap U obj [''status''] of
           None \<Rightarrow> a
         | Some status \<Rightarrow> from_status status (items_of (u_NestedMap U obj [''spec'', ''storage''])) a)"

end
