(* ===== verification/Console_Wire.thy ===== *)
theory Console_Wire
  imports Console_Decode App_Decisions
begin

text \<open>
  The App object between the two programs: what the operator's types serialise to (the JSON tags of
  \<open>api/v1alpha1/app_types.go\<close>, with \<open>omitempty\<close>), what the documentation of the package \<open>unstructured\<close>
  says of its accessors, and the proof that the console's defensive decoder (\<open>FromUnstructured\<close>) reads
  back what the operator wrote.

  The JSON forms of \<open>metav1.Time\<close> and \<open>metav1.Duration\<close> belong to a library: they are the parameters
  \<open>mt\<close> and \<open>md\<close>, and nothing is assumed of them.
\<close>

section \<open>Accessors\<close>

fun nested :: "any \<Rightarrow> string list \<Rightarrow> any option" where
  "nested v [] = Some v"
| "nested v (k # ks) =
     (case v of VMap m \<Rightarrow> (case map_of m k of None \<Rightarrow> None | Some x \<Rightarrow> nested x ks) | _ \<Rightarrow> None)"

definition string_entries :: "(string \<times> any) list \<Rightarrow> string gomap" where
  "string_entries m = (if list_all (\<lambda>(k, v). case v of VString _ \<Rightarrow> True | _ \<Rightarrow> False) m
     then map (\<lambda>(k, v). (k, case v of VString s \<Rightarrow> s | _ \<Rightarrow> '''')) m else [])"

definition std_accessors :: accessors where
  "std_accessors =
     \<lparr>u_GetNamespace = (\<lambda>obj. case nested (VMap obj) [''metadata'', ''namespace''] of Some (VString s) \<Rightarrow> s | _ \<Rightarrow> ''''),
      u_GetName = (\<lambda>obj. case nested (VMap obj) [''metadata'', ''name''] of Some (VString s) \<Rightarrow> s | _ \<Rightarrow> ''''),
      u_GetLabels = (\<lambda>obj. case nested (VMap obj) [''metadata'', ''labels''] of Some (VMap m) \<Rightarrow> string_entries m | _ \<Rightarrow> []),
      u_GetAnnotations = (\<lambda>obj. case nested (VMap obj) [''metadata'', ''annotations''] of Some (VMap m) \<Rightarrow> string_entries m | _ \<Rightarrow> []),
      u_NestedField = (\<lambda>obj. nested (VMap obj)),
      u_NestedMap = (\<lambda>obj path. case nested (VMap obj) path of Some (VMap m) \<Rightarrow> Some m | _ \<Rightarrow> None),
      u_NestedSlice = (\<lambda>obj path. case nested (VMap obj) path of Some (VList xs) \<Rightarrow> Some xs | _ \<Rightarrow> None),
      u_NestedString = (\<lambda>obj path. case nested (VMap obj) path of Some (VString s) \<Rightarrow> Some s | _ \<Rightarrow> None),
      u_NestedBool = (\<lambda>obj path. case nested (VMap obj) path of Some (VBool b) \<Rightarrow> Some b | _ \<Rightarrow> None)\<rparr>"

definition documented :: "accessors \<Rightarrow> bool" where
  \<comment> \<open>an accessor walks the maps along the path and answers when the value there has its type\<close>
  "documented U \<longleftrightarrow>
     (\<forall>obj path.
        u_NestedField U obj path = nested (VMap obj) path \<and>
        u_NestedMap U obj path = (case nested (VMap obj) path of Some (VMap m) \<Rightarrow> Some m | _ \<Rightarrow> None) \<and>
        u_NestedSlice U obj path = (case nested (VMap obj) path of Some (VList xs) \<Rightarrow> Some xs | _ \<Rightarrow> None) \<and>
        u_NestedString U obj path = (case nested (VMap obj) path of Some (VString s) \<Rightarrow> Some s | _ \<Rightarrow> None) \<and>
        u_NestedBool U obj path = (case nested (VMap obj) path of Some (VBool b) \<Rightarrow> Some b | _ \<Rightarrow> None)) \<and>
     (\<forall>obj.
        u_GetNamespace U obj = (case nested (VMap obj) [''metadata'', ''namespace''] of Some (VString s) \<Rightarrow> s | _ \<Rightarrow> '''') \<and>
        u_GetName U obj = (case nested (VMap obj) [''metadata'', ''name''] of Some (VString s) \<Rightarrow> s | _ \<Rightarrow> '''') \<and>
        u_GetLabels U obj = (case nested (VMap obj) [''metadata'', ''labels''] of Some (VMap m) \<Rightarrow> string_entries m | _ \<Rightarrow> []) \<and>
        u_GetAnnotations U obj = (case nested (VMap obj) [''metadata'', ''annotations''] of Some (VMap m) \<Rightarrow> string_entries m | _ \<Rightarrow> []))"

lemma documented_std: "documented std_accessors"
  by (simp add: documented_def std_accessors_def)

section \<open>Objects with omitted fields\<close>

definition obj_fields :: "(string \<times> any option) list \<Rightarrow> (string \<times> any) list" where
  "obj_fields fs = concat (map (\<lambda>(k, x). case x of None \<Rightarrow> [] | Some v \<Rightarrow> [(k, v)]) fs)"

definition or_nil :: "any option \<Rightarrow> any" where
  "or_nil x = (case x of None \<Rightarrow> VNil | Some v \<Rightarrow> v)"

fun fget :: "(string \<times> any option) list \<Rightarrow> string \<Rightarrow> any" where
  "fget [] k = VNil"
| "fget ((k', x) # fs) k = (if k' = k then or_nil x else fget fs k)"

lemma fget_absent: "k \<notin> fst ` set fs \<Longrightarrow> map_of (obj_fields fs) k = None"
  by (induction fs) (auto simp: obj_fields_def split: option.splits)

lemma mget_obj_fields [simp]: "distinct (map fst fs) \<Longrightarrow> mget (obj_fields fs) k = fget fs k"
proof (induction fs)
  case (Cons f fs)
  obtain k' x where f: "f = (k', x)" by (cases f)
  have "map_of (obj_fields (f # fs)) k =
      (case x of None \<Rightarrow> map_of (obj_fields fs) k | Some v \<Rightarrow> if k = k' then Some v else map_of (obj_fields fs) k)"
    by (simp add: obj_fields_def f split: option.split)
  with Cons f fget_absent [of k' fs] show ?case
    by (auto simp: mget_def or_nil_def split: option.splits)
qed (simp add: obj_fields_def mget_def)

definition os :: "string \<Rightarrow> any option" where "os s = (if s = '''' then None else Some (VString s))"
definition oi :: "int \<Rightarrow> any option" where "oi n = (if n = 0 then None else Some (VInt n))"
definition ob :: "bool \<Rightarrow> any option" where "ob b = (if b then Some (VBool True) else None)"
definition ol :: "any list \<Rightarrow> any option" where "ol xs = (if xs = [] then None else Some (VList xs))"
definition om :: "(string \<times> any) list \<Rightarrow> any option" where "om m = (if m = [] then None else Some (VMap m))"
definition ot :: "(time \<Rightarrow> any) \<Rightarrow> time option \<Rightarrow> any option" where "ot mt t = map_option mt t"

definition time_text :: "(time \<Rightarrow> any) \<Rightarrow> time option \<Rightarrow> string" where
  \<comment> \<open>what the console shows of an optional instant\<close>
  "time_text mt t = (case t of None \<Rightarrow> '''' | Some x \<Rightarrow> asString (mt x))"

lemma or_nil_simps [simp]:
  "asString (or_nil (os s)) = s" "asInt (or_nil (oi n)) = n" "asBool (or_nil (ob b)) = b"
  "asString (or_nil (ot mt t)) = time_text mt t" "or_nil (Some v) = v" "or_nil None = VNil"
  by (auto simp: or_nil_def os_def oi_def ob_def ot_def time_text_def asString_def asInt_def asBool_def split: option.split)

lemma as_simps [simp]:
  "asString (VString s) = s" "asInt (VInt n) = n" "asBool (VBool b) = b" "asString VNil = ''''" "asInt VNil = 0"
  by (simp_all add: asString_def asInt_def asBool_def)

section \<open>Spec\<close>

definition enc_strings :: "string gomap \<Rightarrow> (string \<times> any) list" where
  "enc_strings m = map (\<lambda>(k, v). (k, VString v)) m"

definition enc_ints :: "int gomap \<Rightarrow> (string \<times> any) list" where
  "enc_ints m = map (\<lambda>(k, v). (k, VInt v)) m"

definition enc_env :: "EnvVar \<Rightarrow> any" where
  "enc_env e = VMap (obj_fields [(''name'', Some (VString (ev_Name e))), (''value'', os (ev_Value e)),
     (''valueFrom'', map_option (\<lambda>s. VMap (obj_fields [(''configMapKeyRef'', map_option (\<lambda>c.
        VMap [(''name'', VString (cks_Name c)), (''key'', VString (cks_Key c))]) (evs_ConfigMapKeyRef s))])) (ev_ValueFrom e))])"

definition enc_secret_env :: "EnvVarWithSecret \<Rightarrow> any" where
  "enc_secret_env e = VMap [(''name'', VString (evs_Name e)), (''valueFrom'', VMap [(''secretKeyRef'',
     VMap [(''name'', VString (sks_Name (evss_SecretKeyRef (evs_ValueFrom e)))),
           (''key'', VString (sks_Key (evss_SecretKeyRef (evs_ValueFrom e))))])])]"

definition phase_fields :: "PhaseSpec \<Rightarrow> (string \<times> any option) list" where
  "phase_fields p = [(''image'', os (ps_Image p)), (''command'', ol (map VString (ps_Command p))),
     (''env'', ol (map enc_env (ps_Env p))), (''envMap'', om (enc_strings (ps_EnvMap p))),
     (''runAsUser'', map_option VInt (ps_RunAsUser p)), (''memoryLimit'', os (ps_MemoryLimit p))]"

definition enc_phases :: "PhasesSpec \<Rightarrow> any" where
  "enc_phases p = VMap
     [(''setup'', VMap (obj_fields (phase_fields (sps_Phase (phs_Setup p)) @ [(''skip'', ob (sps_Skip (phs_Setup p)))]))),
      (''fetch'', VMap (obj_fields (phase_fields (fps_Phase (phs_Fetch p)) @
         [(''secrets'', ol (map enc_secret_env (fps_Secrets (phs_Fetch p))))]))),
      (''build'', VMap (obj_fields (phase_fields (bps_Phase (phs_Build p)) @ [(''outputDir'', os (bps_OutputDir (phs_Build p)))])))]"

definition enc_pipeline :: "(duration \<Rightarrow> any) \<Rightarrow> PipelineSpec \<Rightarrow> any" where
  "enc_pipeline md p = VMap (obj_fields
     [(''nodeVersion'', oi (pl_NodeVersion p)), (''packageManager'', Some (VString (pl_PackageManager p))),
      (''submodules'', ob (pl_Submodules p)), (''timeout'', map_option md (pl_Timeout p)),
      (''phases'', Some (enc_phases (pl_Phases p)))])"

definition enc_ingress :: "IngressConfig \<Rightarrow> any" where
  "enc_ingress i = VMap (obj_fields
     [(''className'', map_option VString (ing_ClassName i)), (''host'', Some (VString (ing_Host i))),
      (''tls'', map_option (\<lambda>t. VMap [(''secretName'', VString (tls_SecretName t))]) (ing_TLS i)),
      (''annotations'', om (enc_strings (ing_Annotations i)))])"

definition enc_auth :: "AuthConfig \<Rightarrow> any" where
  "enc_auth a = VMap (obj_fields
     [(''passwordHash'', map_option VString (auth_PasswordHash a)),
      (''secretRef'', map_option (\<lambda>r. VMap [(''name'', VString (asr_Name r)), (''key'', VString (asr_Key r))]) (auth_SecretRef a))])"

definition enc_storage_spec :: "StorageSpec \<Rightarrow> (string \<times> any) list" where
  "enc_storage_spec s =
     [(''cache'', VMap (obj_fields [(''cleanupBytes'', oi (ct_CleanupBytes (sts_Cache s))), (''alertBytes'', oi (ct_AlertBytes (sts_Cache s)))])),
      (''dataCache'', VMap (obj_fields [(''cleanupBytes'', oi (dct_CleanupBytes (sts_DataCache s))),
         (''alertBytes'', oi (dct_AlertBytes (sts_DataCache s))), (''runDeltaBytes'', oi (dct_RunDeltaBytes (sts_DataCache s)))])),
      (''output'', VMap (obj_fields [(''alertBytes'', oi (ot_AlertBytes (sts_Output s))), (''capBytes'', oi (ot_CapBytes (sts_Output s)))]))]"

definition enc_spec :: "(duration \<Rightarrow> any) \<Rightarrow> AppSpec \<Rightarrow> (string \<times> any) list" where
  "enc_spec md s = obj_fields
     [(''repo'', Some (VString (spec_Repo s))), (''ref'', os (spec_Ref s)), (''group'', os (spec_Group s)),
      (''scheduledBuilds'', map_option (\<lambda>b. VMap (obj_fields [(''enabled'', Some (VBool (sb_Enabled b))),
         (''schedule'', os (sb_Schedule b)), (''alertThreshold'', oi (sb_AlertThreshold b))])) (spec_ScheduledBuilds s)),
      (''watchCommits'', map_option (\<lambda>w. VMap (obj_fields [(''enabled'', Some (VBool (wc_Enabled w))),
         (''interval'', os (wc_Interval w))])) (spec_WatchCommits s)),
      (''pipeline'', Some (enc_pipeline md (spec_Pipeline s))), (''keepReleases'', oi (spec_KeepReleases s)),
      (''repoAuth'', map_option (\<lambda>r. VMap [(''secretRef'', VMap [(''name'', VString (rasr_Name (ra_SecretRef r)))])]) (spec_RepoAuth s)),
      (''ingress'', Some (enc_ingress (spec_Ingress s))), (''auth'', map_option enc_auth (spec_Auth s)),
      (''storage'', Some (VMap (enc_storage_spec (spec_Storage s)))),
      (''history'', map_option (\<lambda>h. VMap (obj_fields [(''keepRecent'', oi (hs_KeepRecent h)), (''keepFailed'', oi (hs_KeepFailed h))])) (spec_History s))]"

section \<open>Status\<close>

definition enc_step :: "(time \<Rightarrow> any) \<Rightarrow> BuildStep \<Rightarrow> any" where
  "enc_step mt s = VMap (obj_fields
     [(''name'', Some (VString (step_Name s))), (''status'', Some (VString (step_Status s))), (''message'', os (step_Message s)),
      (''peakMemoryBytes'', oi (step_PeakMemoryBytes s)), (''startedAt'', ot mt (step_StartedAt s)),
      (''finishedAt'', ot mt (step_FinishedAt s)), (''memoryLimit'', os (step_MemoryLimit s))])"

definition enc_termination :: "(time \<Rightarrow> any) \<Rightarrow> BuildTermination \<Rightarrow> any" where
  "enc_termination mt t = VMap (obj_fields
     [(''reason'', os (term_Reason t)), (''container'', os (term_Container t)), (''exitCode'', oi (term_ExitCode t)),
      (''memoryLimit'', os (term_MemoryLimit t)), (''finishedAt'', ot mt (term_FinishedAt t))])"

definition enc_build :: "(time \<Rightarrow> any) \<Rightarrow> BuildStatus \<Rightarrow> any" where
  "enc_build mt b = VMap (obj_fields
     [(''phase'', os (build_Phase b)), (''result'', os (build_Result b)), (''jobName'', os (build_JobName b)),
      (''podName'', os (build_PodName b)), (''startTime'', ot mt (build_StartTime b)),
      (''completionTime'', ot mt (build_CompletionTime b)), (''attempts'', oi (build_Attempts b)),
      (''trigger'', os (build_Trigger b)), (''triggeredBy'', os (build_TriggeredBy b)), (''commit'', os (build_Commit b)),
      (''steps'', ol (map (enc_step mt) (build_Steps b))), (''resolvedImages'', om (enc_strings (build_ResolvedImages b))),
      (''failedStep'', os (build_FailedStep b)), (''message'', os (build_Message b)), (''logsRef'', os (build_LogsRef b)),
      (''termination'', map_option (enc_termination mt) (build_Termination b))])"

definition enc_condition :: "(time \<Rightarrow> any) \<Rightarrow> Condition \<Rightarrow> any" where
  "enc_condition mt c = VMap (obj_fields
     [(''type'', Some (VString (cond_Type c))), (''status'', Some (VString (cond_Status c))),
      (''observedGeneration'', oi (cond_ObservedGeneration c)), (''lastTransitionTime'', Some (mt (cond_LastTransitionTime c))),
      (''reason'', Some (VString (cond_Reason c))), (''message'', Some (VString (cond_Message c)))])"

definition enc_action :: "(time \<Rightarrow> any) \<Rightarrow> CleanupActionStatus \<Rightarrow> any" where
  "enc_action mt a = VMap (obj_fields
     [(''requestedAt'', os (cas_RequestedAt a)), (''requestedBy'', os (cas_RequestedBy a)), (''phase'', os (cas_Phase a)),
      (''startedAt'', ot mt (cas_StartedAt a)), (''completedAt'', ot mt (cas_CompletedAt a)),
      (''reclaimedBytes'', oi (cas_ReclaimedBytes a)), (''message'', os (cas_Message a))])"

definition enc_storage_status :: "(time \<Rightarrow> any) \<Rightarrow> StorageStatus \<Rightarrow> any" where
  "enc_storage_status mt s = VMap (obj_fields
     [(''measuredAt'', ot mt (stor_MeasuredAt s)), (''sizes'', om (enc_ints (stor_Sizes s))),
      (''lastRunDeltas'', om (enc_ints (stor_LastRunDeltas s))), (''thresholdState'', os (stor_ThresholdState s)),
      (''releaseCount'', oi (stor_ReleaseCount s)), (''capacities'', om (enc_ints (stor_Capacities s)))])"

definition enc_status :: "(time \<Rightarrow> any) \<Rightarrow> AppStatus \<Rightarrow> (string \<times> any) list" where
  "enc_status mt s = obj_fields
     [(''observedGeneration'', oi (st_ObservedGeneration s)), (''phase'', os (st_Phase s)), (''nodeName'', os (st_NodeName s)),
      (''url'', os (st_URL s)), (''specStale'', ob (st_SpecStale s)),
      (''conditions'', ol (map (enc_condition mt) (st_Conditions s))), (''build'', Some (enc_build mt (st_Build s))),
      (''consecutiveScheduledFailures'', oi (st_ConsecutiveScheduledFailures s)),
      (''buildHistory'', ol (map (enc_build mt) (st_BuildHistory s))),
      (''failedBuildHistory'', ol (map (enc_build mt) (st_FailedBuildHistory s))),
      (''lastProcessedRebuild'', os (st_LastProcessedRebuild s)), (''lastBuiltSpecHash'', os (st_LastBuiltSpecHash s)),
      (''lastBuildTime'', ot mt (st_LastBuildTime s)), (''lastSuccessfulBuildTime'', ot mt (st_LastSuccessfulBuildTime s)),
      (''release'', Some (VMap (obj_fields [(''current'', os (rel_Current (st_Release s))), (''previous'', os (rel_Previous (st_Release s))),
         (''servingSince'', ot mt (rel_ServingSince (st_Release s)))]))),
      (''storage'', Some (enc_storage_status mt (st_Storage s))),
      (''lastManualTrigger'', Some (VMap (obj_fields [(''triggeredBy'', os (mt_TriggeredBy (st_LastManualTrigger s))),
         (''time'', ot mt (mt_Time (st_LastManualTrigger s)))]))),
      (''cleanup'', map_option (\<lambda>c. VMap (obj_fields [(''cache'', map_option (enc_action mt) (cs_Cache c)),
         (''releases'', map_option (enc_action mt) (cs_Releases c))])) (st_Cleanup s))]"

definition wire :: "(time \<Rightarrow> any) \<Rightarrow> (duration \<Rightarrow> any) \<Rightarrow> (string \<times> any) list \<Rightarrow> App \<Rightarrow> (string \<times> any) list" where
  \<comment> \<open>\<open>extra\<close> is the metadata the API server adds\<close>
  "wire mt md extra app =
     [(''apiVersion'', VString ''baker.toggle-corp.com/v1alpha1''), (''kind'', VString ''App''),
      (''metadata'', VMap (obj_fields [(''name'', os (app_Name app)), (''namespace'', os (app_Namespace app)),
         (''annotations'', om (enc_strings (app_Annotations app)))] @ extra)),
      (''spec'', VMap (enc_spec md (app_Spec app))), (''status'', VMap (enc_status mt (app_Status app)))]"

section \<open>What the console should show\<close>

definition view_step :: "(time \<Rightarrow> any) \<Rightarrow> BuildStep \<Rightarrow> ViewStep" where
  "view_step mt s = \<lparr>vs_Name = step_Name s, vs_Status = step_Status s, vs_Message = step_Message s,
     vs_PeakMemory = (if step_PeakMemoryBytes s > 0 then HumanizeBytes (step_PeakMemoryBytes s) else ''''),
     vs_MemoryLimit = step_MemoryLimit s, vs_StartedAt = time_text mt (step_StartedAt s), vs_FinishedAt = time_text mt (step_FinishedAt s)\<rparr>"

definition view_termination :: "(time \<Rightarrow> any) \<Rightarrow> BuildTermination \<Rightarrow> ViewTermination" where
  "view_termination mt t = \<lparr>vt_Reason = term_Reason t, vt_Container = term_Container t, vt_MemoryLimit = term_MemoryLimit t,
     vt_FinishedAt = time_text mt (term_FinishedAt t), vt_ExitCode = term_ExitCode t\<rparr>"

definition view_build :: "(time \<Rightarrow> any) \<Rightarrow> BuildStatus \<Rightarrow> ViewBuild" where
  "view_build mt b = \<lparr>vb_Phase = build_Phase b, vb_Result = build_Result b, vb_JobName = build_JobName b, vb_PodName = build_PodName b,
     vb_Trigger = build_Trigger b, vb_TriggeredBy = build_TriggeredBy b, vb_Commit = build_Commit b,
     vb_StartTime = time_text mt (build_StartTime b), vb_CompletionTime = time_text mt (build_CompletionTime b),
     vb_Attempts = build_Attempts b, vb_FailedStep = build_FailedStep b, vb_Message = build_Message b, vb_LogsRef = build_LogsRef b,
     vb_Steps = map (view_step mt) (build_Steps b), vb_Termination = map_option (view_termination mt) (build_Termination b)\<rparr>"

definition view_condition :: "(time \<Rightarrow> any) \<Rightarrow> Condition \<Rightarrow> ViewCondition" where
  "view_condition mt c = \<lparr>vc_Type = cond_Type c, vc_Status = cond_Status c, vc_Reason = cond_Reason c, vc_Message = cond_Message c,
     vc_LastTransitionTime = asString (mt (cond_LastTransitionTime c))\<rparr>"

definition view_action :: "(time \<Rightarrow> any) \<Rightarrow> CleanupActionStatus option \<Rightarrow> CleanupAction" where
  "view_action mt a = (case a of None \<Rightarrow> noAction | Some a \<Rightarrow> \<lparr>ca_RequestedAt = cas_RequestedAt a, ca_RequestedBy = cas_RequestedBy a,
     ca_Phase = cas_Phase a, ca_LastCompleted = time_text mt (cas_CompletedAt a), ca_Message = cas_Message a,
     ca_ReclaimedBytes = cas_ReclaimedBytes a\<rparr>)"

definition int_get :: "int gomap \<Rightarrow> string \<Rightarrow> int" where
  "int_get m k = (case map_of m k of None \<Rightarrow> 0 | Some n \<Rightarrow> n)"

definition volume_cap :: "App \<Rightarrow> string \<Rightarrow> int" where
  \<comment> \<open>the bound of a volume by the operator's own thresholds, else by the size of its claim\<close>
  "volume_cap app k =
     (let cfg = storageConfigFrom app; caps = stor_Capacities (st_Storage (app_Status app));
          spec_cap = (case thresholdsForKey k cfg of None \<Rightarrow> 0
             | Some v \<Rightarrow> if Contains (ToLower k) ''output'' then CapBytes v
                         else if CleanupBytes v > 0 then CleanupBytes v else max 0 (AlertBytes v))
      in if spec_cap > 0 then spec_cap
         else if Contains (ToLower k) ''output'' then int_get caps ''output''
         else if Contains (ToLower k) ''data'' then int_get caps ''dataCache''
         else if Contains (ToLower k) ''cache'' then int_get caps ''cache'' else 0)"

section \<open>Reading back\<close>

lemma or_nil_ol: "or_nil (ol xs) = (if xs = [] then VNil else VList xs)"
  by (simp add: ol_def)

lemma or_nil_om: "or_nil (om m) = (if m = [] then VNil else VMap m)"
  by (simp add: om_def)

lemma as_map_om [simp]: "as_map (or_nil (om m)) = m"
  by (simp add: or_nil_om as_map_def)

lemma mget_enc_ints [simp]: "asInt (mget (enc_ints m) k) = int_get m k"
  by (induction m) (auto simp: enc_ints_def mget_def int_get_def)

lemma stepsFrom_enc [simp]: "stepsFrom (or_nil (ol (map (enc_step mt) xs))) = map (view_step mt) xs"
  by (simp add: or_nil_ol stepsFrom_def enc_step_def view_step_def comp_def Let_def)

lemma terminationFrom_enc [simp]:
  "terminationFrom (or_nil (map_option (enc_termination mt) t)) = map_option (view_termination mt) t"
  by (cases t) (simp_all add: terminationFrom_def enc_termination_def view_termination_def)

lemma buildFrom_enc [simp]: "buildFrom (enc_build mt b) = view_build mt b"
  by (simp add: buildFrom_def enc_build_def view_build_def)

lemma buildHistoryFrom_enc [simp]: "buildHistoryFrom (or_nil (ol (map (enc_build mt) bs))) = map (view_build mt) bs"
  by (simp add: or_nil_ol buildHistoryFrom_def comp_def)

lemma conditionsFrom_enc [simp]:
  "conditionsFrom (or_nil (ol (map (enc_condition mt) cs))) = sort_key vc_Type (map (view_condition mt) cs)"
  by (simp add: or_nil_ol conditionsFrom_def enc_condition_def comp_def view_condition_def [abs_def])

lemma cleanupActionFrom_enc [simp]: "cleanupActionFrom (or_nil (map_option (enc_action mt) a)) = view_action mt a"
  by (cases a) (simp_all add: cleanupActionFrom_def enc_action_def view_action_def Let_def)

lemma nestedInt_enc:
  "nestedInt (enc_storage_spec s) ''output'' ''capBytes'' = ot_CapBytes (sts_Output s)"
  "nestedInt (enc_storage_spec s) ''dataCache'' ''cleanupBytes'' = dct_CleanupBytes (sts_DataCache s)"
  "nestedInt (enc_storage_spec s) ''dataCache'' ''alertBytes'' = dct_AlertBytes (sts_DataCache s)"
  "nestedInt (enc_storage_spec s) ''cache'' ''cleanupBytes'' = ct_CleanupBytes (sts_Cache s)"
  "nestedInt (enc_storage_spec s) ''cache'' ''alertBytes'' = ct_AlertBytes (sts_Cache s)"
  by (simp_all add: nestedInt_def enc_storage_spec_def mget_def [of "_ # _"])

lemma capacityForKey_enc:
  "capacityForKey k (enc_ints caps) =
     (if Contains (ToLower k) ''output'' then int_get caps ''output''
      else if Contains (ToLower k) ''data'' then int_get caps ''dataCache''
      else if Contains (ToLower k) ''cache'' then int_get caps ''cache'' else 0)"
  by (cases caps) (simp_all add: capacityForKey_def Let_def, simp_all add: enc_ints_def int_get_def)

text \<open>The console's rules for a row's cap are the operator's rules for a volume's thresholds.\<close>

lemma capForKey_enc:
  "(let c = capForKey k (VMap (enc_storage_spec (spec_Storage (app_Spec app))))
    in if c \<le> 0 then capacityForKey k (enc_ints (stor_Capacities (st_Storage (app_Status app)))) else c) = volume_cap app k"
  by (simp add: capForKey_def nestedInt_enc capacityForKey_enc volume_cap_def thresholdsForKey_def storageConfigFrom_def Let_def)

definition view_volume :: "App \<Rightarrow> string \<Rightarrow> int \<Rightarrow> StorageVolume" where
  "view_volume app name n =
     (let st = st_Storage (app_Status app); c = volume_cap app name; pct = fst (StorageBar n c); bar = (c > 0 \<and> pct \<noteq> StorageBarNoBar)
      in \<lparr>sv_Name = name, sv_Bytes = n, sv_Human = HumanizeBytes n, sv_Delta = HumanizeDelta (int_get (stor_LastRunDeltas st) name),
          sv_Cap = c, sv_CapHuman = (if c > 0 then HumanizeBytes c else ''''), sv_BarPct = (if bar then pct else 0),
          sv_Over = (bar \<and> n > c), sv_HasBar = bar, sv_Releases = (if name = ''outputTotal'' then stor_ReleaseCount st else 0)\<rparr>)"

lemma volume_row_enc:
  "volume_row (enc_ints (stor_LastRunDeltas (st_Storage (app_Status app)))) (enc_storage_spec (spec_Storage (app_Spec app)))
     (enc_ints (stor_Capacities (st_Storage (app_Status app)))) (stor_ReleaseCount (st_Storage (app_Status app))) name (VInt n)
   = view_volume app name n"
proof -
  have over: "snd (StorageBar n c) = (n > c)" if "c > 0" for c using that by (simp add: StorageBar_def Let_def)
  show ?thesis
    using over capForKey_enc [of name app]
    by (auto simp: volume_row_def view_volume_def case_prod_beta Let_def)
qed

definition view_of :: "(time \<Rightarrow> any) \<Rightarrow> (string \<Rightarrow> (time \<Rightarrow> time) option) \<Rightarrow> time \<Rightarrow> App \<Rightarrow> ViewApp" where
  \<comment> \<open>the view of an App, field by field from the operator's own types\<close>
  "view_of mt parseStandard now app =
     (let st = app_Status app; sp = app_Spec app;
          sched = (case spec_ScheduledBuilds sp of None \<Rightarrow> \<lparr>vsb_Enabled = False, vsb_Schedule = ''''\<rparr>
                   | Some b \<Rightarrow> \<lparr>vsb_Enabled = sb_Enabled b, vsb_Schedule = sb_Schedule b\<rparr>);
          sha = map_get (app_Annotations app) WatchLastSeenAnnotation
      in \<lparr>va_Namespace = app_Namespace app, va_Name = app_Name app, va_Group = spec_Group sp,
          va_ObservedGeneration = st_ObservedGeneration st, va_Phase = st_Phase st, va_NodeName = st_NodeName st, va_URL = st_URL st,
          va_SpecStale = st_SpecStale st, va_Conditions = sort_key vc_Type (map (view_condition mt) (st_Conditions st)),
          va_Build = view_build mt (st_Build st), va_BuildHistory = map (view_build mt) (st_BuildHistory st),
          va_LastProcessedRebuild = st_LastProcessedRebuild st, va_LastBuiltSpecHash = st_LastBuiltSpecHash st,
          va_LastBuildTime = time_text mt (st_LastBuildTime st), va_LastSuccessfulBuild = time_text mt (st_LastSuccessfulBuildTime st),
          va_NextScheduledBuildTime = nextScheduled parseStandard now sched,
          va_Release = \<lparr>vr_Current = rel_Current (st_Release st), vr_Previous = rel_Previous (st_Release st),
            vr_ServingSince = time_text mt (rel_ServingSince (st_Release st))\<rparr>,
          va_Storage = \<lparr>vst_MeasuredAt = time_text mt (stor_MeasuredAt (st_Storage st)),
            vst_ThresholdState = stor_ThresholdState (st_Storage st), vst_ReleaseCount = stor_ReleaseCount (st_Storage st),
            vst_Volumes = sort_key sv_Name (map (\<lambda>(name, n). view_volume app name n) (stor_Sizes (st_Storage st)))\<rparr>,
          va_Cleanup = \<lparr>vcl_Cache = view_action mt (Option.bind (st_Cleanup st) cs_Cache),
            vcl_Releases = view_action mt (Option.bind (st_Cleanup st) cs_Releases)\<rparr>,
          va_ManualTrigger = \<lparr>vmt_TriggeredBy = mt_TriggeredBy (st_LastManualTrigger st), vmt_Time = time_text mt (mt_Time (st_LastManualTrigger st))\<rparr>,
          va_Repo = spec_Repo sp, va_ScheduledBuilds = sched,
          va_WatchCommits = (case spec_WatchCommits sp of
             None \<Rightarrow> \<lparr>vwc_Enabled = False, vwc_Interval = '''', vwc_LastSeenSHA = sha\<rparr>
           | Some w \<Rightarrow> \<lparr>vwc_Enabled = wc_Enabled w, vwc_Interval = wc_Interval w, vwc_LastSeenSHA = sha\<rparr>),
          va_HasStatus = True, va_BuildMetrics = None, va_BuildMetricsNote = ''''\<rparr>)"

lemma string_entries_enc [simp]: "string_entries (enc_strings m) = m"
proof -
  have "list_all (\<lambda>(k, v). case v of VString _ \<Rightarrow> True | _ \<Rightarrow> False) (enc_strings m)"
    "map (\<lambda>(k, v). (k, case v of VString s \<Rightarrow> s | _ \<Rightarrow> '''')) (enc_strings m) = m"
    by (induction m) (auto simp: enc_strings_def)
  then show ?thesis by (simp add: string_entries_def)
qed

lemma map_of_fields: "distinct (map fst fs) \<Longrightarrow> map_of (obj_fields fs) k = Option.bind (map_of fs k) id"
proof (induction fs)
  case (Cons f fs)
  obtain k' x where f: "f = (k', x)" by (cases f)
  have "map_of (obj_fields (f # fs)) k =
      (case x of None \<Rightarrow> map_of (obj_fields fs) k | Some v \<Rightarrow> if k = k' then Some v else map_of (obj_fields fs) k)"
    by (simp add: obj_fields_def f split: option.split)
  with Cons f fget_absent [of k' fs] show ?case by (auto split: option.splits)
qed (simp add: obj_fields_def)

lemma wire_accessors:
  assumes "documented U"
  shows "u_NestedMap U (wire mt md extra app) [''spec''] = Some (enc_spec md (app_Spec app))"
    and "u_NestedMap U (wire mt md extra app) [''status''] = Some (enc_status mt (app_Status app))"
    and "u_NestedMap U (wire mt md extra app) [''spec'', ''storage''] = Some (enc_storage_spec (spec_Storage (app_Spec app)))"
  using assms by (simp_all add: documented_def wire_def enc_spec_def map_of_fields)

definition plain_metadata :: "(string \<times> any) list \<Rightarrow> bool" where
  \<comment> \<open>the server's own metadata does not supply a name, a namespace or annotations the App lacks\<close>
  "plain_metadata extra \<longleftrightarrow> list_all (\<lambda>(k, v). k \<notin> {''name'', ''namespace'', ''annotations''}) extra"

lemma plain_metadata_absent:
  "plain_metadata extra \<Longrightarrow> k \<in> {''name'', ''namespace'', ''annotations''} \<Longrightarrow> map_of extra k = None"
  by (auto simp: plain_metadata_def map_of_eq_None_iff list_all_iff)

lemma wire_identity:
  assumes "documented U" "plain_metadata extra"
  shows "u_GetName U (wire mt md extra app) = app_Name app"
    and "u_GetNamespace U (wire mt md extra app) = app_Namespace app"
    and "u_GetAnnotations U (wire mt md extra app) = app_Annotations app"
proof -
  note absent = plain_metadata_absent [OF assms(2)]
  show "u_GetName U (wire mt md extra app) = app_Name app"
    using assms(1) absent [of "''name''"] by (cases "app_Name app") (simp_all add: documented_def wire_def map_of_fields map_add_def os_def)
  show "u_GetNamespace U (wire mt md extra app) = app_Namespace app"
    using assms(1) absent [of "''namespace''"] by (cases "app_Namespace app") (simp_all add: documented_def wire_def map_of_fields map_add_def os_def)
  have "enc_strings m = [] \<longleftrightarrow> m = []" for m by (simp add: enc_strings_def)
  then show "u_GetAnnotations U (wire mt md extra app) = app_Annotations app"
    using assms(1) absent [of "''annotations''"]
    by (cases "app_Annotations app = []") (simp_all add: documented_def wire_def map_of_fields map_add_def om_def)
qed

lemma storageFrom_enc:
  "storageFrom (enc_storage_status mt (st_Storage (app_Status app))) (enc_storage_spec (spec_Storage (app_Spec app))) =
   \<lparr>vst_MeasuredAt = time_text mt (stor_MeasuredAt (st_Storage (app_Status app))),
    vst_ThresholdState = stor_ThresholdState (st_Storage (app_Status app)), vst_ReleaseCount = stor_ReleaseCount (st_Storage (app_Status app)),
    vst_Volumes = sort_key sv_Name (map (\<lambda>(name, n). view_volume app name n) (stor_Sizes (st_Storage (app_Status app))))\<rparr>"
proof -
  have vols: "volumesFrom (or_nil (om (enc_ints sizes))) (or_nil (om (enc_ints (stor_LastRunDeltas (st_Storage (app_Status app))))))
      (enc_storage_spec (spec_Storage (app_Spec app))) (or_nil (om (enc_ints (stor_Capacities (st_Storage (app_Status app))))))
      (stor_ReleaseCount (st_Storage (app_Status app))) =
      sort_key sv_Name (map (\<lambda>(name, n). view_volume app name n) sizes)" for sizes
  proof (cases sizes)
    case Nil
    then show ?thesis by (simp add: volumesFrom_def enc_ints_def or_nil_om)
  next
    case (Cons a list)
    then have "or_nil (om (enc_ints sizes)) = VMap (enc_ints sizes)" by (simp add: or_nil_om enc_ints_def)
    then show ?thesis
      by (simp add: volumesFrom_def)
        (simp add: enc_ints_def [of sizes] comp_def case_prod_unfold volume_row_enc)
  qed
  show ?thesis by (simp add: storageFrom_def enc_storage_status_def vols Let_def)
qed

lemma FromUnstructured_wire:
  assumes "documented U" "plain_metadata extra"
  shows "FromUnstructured U parseStandard now (wire mt md extra app) = view_of mt parseStandard now app"
proof -
  have cl: "cleanupFrom (or_nil (map_option (\<lambda>c. VMap (obj_fields [(''cache'', map_option (enc_action mt) (cs_Cache c)),
         (''releases'', map_option (enc_action mt) (cs_Releases c))])) c)) =
      \<lparr>vcl_Cache = view_action mt (Option.bind c cs_Cache), vcl_Releases = view_action mt (Option.bind c cs_Releases)\<rparr>" for c
    by (cases c) (simp_all add: cleanupFrom_def view_action_def)
  show ?thesis
    unfolding FromUnstructured_def wire_accessors [OF assms(1)] option.case Let_def
    by (simp add: from_status_def from_spec_def wire_accessors [OF assms(1)] wire_identity [OF assms] items_of_def enc_spec_def
        enc_status_def cl storageFrom_enc releaseFrom_def manualTriggerFrom_def view_of_def noApp_def Let_def split: option.split)
qed

end
