(* ===== verification/Console_Client.thy ===== *)
theory Console_Client
  imports Console_Decode Kube_Types
begin

text \<open>
  \<open>console/internal/k8s\<close> (\<open>client.go\<close>, \<open>metrics.go\<close>): how the console reads the cluster, and the three
  annotation patches that are all it ever writes.

  The API server, the informer cache and the kubelet are the parameter \<open>'w cluster\<close>, over an
  arbitrary world \<open>'w\<close>: each call may fail in any way. It also carries the library pieces the console
  calls (the accessors of \<open>unstructured\<close>, the cron parser, the table of printable runes). An error is
  its text. The state is the world, the time of the last watch error, and \<open>c_writes\<close>, every patch the
  console has sent, oldest first. Contexts (deadlines and cancellation) are part of the world.
\<close>

record 'w cluster =
  x_accessors :: accessors
  x_parseStandard :: "string \<Rightarrow> (time \<Rightarrow> time) option"
  x_isPrint :: "nat \<Rightarrow> bool"
  x_QuantityValue :: "quantity \<Rightarrow> int"
  x_Now :: "'w \<Rightarrow> time \<times> 'w"
  x_HasSynced :: "'w \<Rightarrow> bool \<times> 'w"
  x_Lister :: "'w \<Rightarrow> (string + (string \<times> any) list option list) \<times> 'w"
  x_Get :: "string \<Rightarrow> string \<Rightarrow> 'w \<Rightarrow> (string + (string \<times> any) list) \<times> 'w"
  x_Patch :: "string \<Rightarrow> string \<Rightarrow> string \<Rightarrow> 'w \<Rightarrow> string option \<times> 'w"
  x_clientset :: bool
  x_GetPod :: "string \<Rightarrow> string \<Rightarrow> 'w \<Rightarrow> (string + Pod) \<times> 'w"
  x_PodLogs :: "string \<Rightarrow> string \<Rightarrow> string \<Rightarrow> int option \<Rightarrow> 'w \<Rightarrow> (string + (string + string)) \<times> 'w"
  x_StatsSummary :: "string \<Rightarrow> 'w \<Rightarrow> (string + string) \<times> 'w"

record 'w cstate =
  c_world :: 'w
  c_lastWatchErr :: time
  c_writes :: "(string \<times> string \<times> string) list"

type_synonym ('w, 'a) console = "('w cstate, string, 'a) rmonad"

definition cluster_op :: "('w \<Rightarrow> 'b \<times> 'w) \<Rightarrow> ('w, 'b) console" where
  "cluster_op f = (\<lambda>s. case f (c_world s) of (x, w) \<Rightarrow> (Inr x, s\<lparr>c_world := w\<rparr>))"

definition wrapped :: "string \<Rightarrow> (string + 'a) \<Rightarrow> ('w, 'a) console" where
  \<comment> \<open>\<open>fmt.Errorf("...: %w", err)\<close>\<close>
  "wrapped what r = (case r of Inl e \<Rightarrow> raise (what @ '': '' @ e) | Inr x \<Rightarrow> ret x)"

section \<open>client.go\<close>

definition staleWindow :: duration where "staleWindow = 60 * Second"

definition recordWatchErr :: "'w cluster \<Rightarrow> ('w, unit) console" where
  "recordWatchErr C = bindr (cluster_op (x_Now C)) (\<lambda>now. modify (\<lambda>s. s\<lparr>c_lastWatchErr := now\<rparr>))"

definition Synced :: "'w cluster \<Rightarrow> ('w, bool) console" where
  "Synced C = cluster_op (x_HasSynced C)"

definition recentWatchErr :: "time \<Rightarrow> time \<Rightarrow> bool" where
  "recentWatchErr prev now = (if IsZero prev then False else time_Sub now prev < staleWindow)"

definition Stale :: "'w cluster \<Rightarrow> ('w, bool) console" where
  "Stale C = bindr (gets c_lastWatchErr) (\<lambda>prev. bindr (cluster_op (x_Now C)) (\<lambda>now. ret (recentWatchErr prev now)))"

fun view_objects :: "'w cluster \<Rightarrow> (string \<times> any) list option list \<Rightarrow> ('w, ViewApp list) console" where
  \<comment> \<open>the loop of \<open>List\<close>; \<^const>\<open>None\<close> is an entry of an unexpected type\<close>
  "view_objects C [] = ret []"
| "view_objects C (o1 # os) =
     (case o1 of
        None \<Rightarrow> view_objects C os
      | Some u \<Rightarrow> bindr (cluster_op (x_Now C)) (\<lambda>now. bindr (view_objects C os) (\<lambda>apps.
          ret (FromUnstructured (x_accessors C) (x_parseStandard C) now u # apps))))"

definition List_apps :: "'w cluster \<Rightarrow> ('w, ViewApp list) console" where
  "List_apps C =
     bindr (cluster_op (x_Lister C)) (\<lambda>r. bindr (wrapped ''list apps from cache'' r) (view_objects C))"

definition Get_app :: "'w cluster \<Rightarrow> string \<Rightarrow> string \<Rightarrow> ('w, (string \<times> any) list) console" where
  "Get_app C namespace name =
     bindr (cluster_op (x_Get C namespace name)) (wrapped (''get app '' @ namespace @ ''/'' @ name))"

definition rebuildPatch :: "(nat \<Rightarrow> bool) \<Rightarrow> string \<Rightarrow> time \<Rightarrow> string" where
  "rebuildPatch isPrint user now =
     ''{'' @ Quote isPrint ''metadata'' @ '':{'' @ Quote isPrint ''annotations'' @ '':{'' @
     Quote isPrint AnnotationRebuildRequestedAt @ '':'' @ Quote isPrint (FormatRFC3339 now) @ '','' @
     Quote isPrint AnnotationRebuildBy @ '':'' @ Quote isPrint user @ '','' @
     Quote isPrint AnnotationRebuildCommit @ '':null}}}''"

definition cleanupPatch :: "(nat \<Rightarrow> bool) \<Rightarrow> string \<Rightarrow> string \<Rightarrow> string \<Rightarrow> time \<Rightarrow> string" where
  "cleanupPatch isPrint requestedAtKey byKey user now =
     ''{'' @ Quote isPrint ''metadata'' @ '':{'' @ Quote isPrint ''annotations'' @ '':{'' @
     Quote isPrint requestedAtKey @ '':'' @ Quote isPrint (FormatRFC3339 now) @ '','' @
     Quote isPrint byKey @ '':'' @ Quote isPrint user @ ''}}}''"

definition patch_app :: "'w cluster \<Rightarrow> string \<Rightarrow> string \<Rightarrow> string \<Rightarrow> string \<Rightarrow> ('w, unit) console" where
  \<comment> \<open>\<open>c.dyn.Resource(GVR).Namespace(ns).Patch(...)\<close>, the only write of the console\<close>
  "patch_app C what namespace name patch =
     seqr (modify (\<lambda>s. s\<lparr>c_writes := c_writes s @ [(namespace, name, patch)]\<rparr>))
       (bindr (cluster_op (x_Patch C namespace name patch)) (\<lambda>e.
          case e of None \<Rightarrow> ret ()
          | Some err \<Rightarrow> raise (''patch '' @ what @ '' annotation on '' @ namespace @ ''/'' @ name @ '': '' @ err)))"

definition RequestRebuild :: "'w cluster \<Rightarrow> string \<Rightarrow> string \<Rightarrow> string \<Rightarrow> ('w, unit) console" where
  "RequestRebuild C namespace name user =
     bindr (cluster_op (x_Now C)) (\<lambda>now. patch_app C ''rebuild'' namespace name (rebuildPatch (x_isPrint C) user now))"

definition RequestCleanupCache :: "'w cluster \<Rightarrow> string \<Rightarrow> string \<Rightarrow> string \<Rightarrow> ('w, unit) console" where
  "RequestCleanupCache C namespace name user =
     bindr (cluster_op (x_Now C)) (\<lambda>now. patch_app C ''cleanup-cache'' namespace name
       (cleanupPatch (x_isPrint C) AnnotationCleanupCacheRequestedAt AnnotationCleanupCacheBy user now))"

definition RequestCleanupReleases :: "'w cluster \<Rightarrow> string \<Rightarrow> string \<Rightarrow> string \<Rightarrow> ('w, unit) console" where
  "RequestCleanupReleases C namespace name user =
     bindr (cluster_op (x_Now C)) (\<lambda>now. patch_app C ''cleanup-releases'' namespace name
       (cleanupPatch (x_isPrint C) AnnotationCleanupReleasesRequestedAt AnnotationCleanupReleasesBy user now))"

definition errNoClientset :: string where "errNoClientset = ''k8s: no typed clientset configured''"

definition GetPod :: "'w cluster \<Rightarrow> string \<Rightarrow> string \<Rightarrow> ('w, Pod) console" where
  "GetPod C namespace name =
     (if \<not> x_clientset C then raise errNoClientset
      else bindr (cluster_op (x_GetPod C namespace name)) (wrapped (''get pod '' @ namespace @ ''/'' @ name)))"

definition log_lines :: "string \<Rightarrow> string list" where
  \<comment> \<open>split at newlines, without one trailing empty line\<close>
  "log_lines raw = (let lines = SplitByte raw (CHR 0x0A) in if lines \<noteq> [] \<and> last lines = '''' then butlast lines else lines)"

definition PodLogTail :: "'w cluster \<Rightarrow> string \<Rightarrow> string \<Rightarrow> string \<Rightarrow> int \<Rightarrow> ('w, string list) console" where
  "PodLogTail C namespace pod container tail =
     (if \<not> x_clientset C then raise errNoClientset
      else let what = namespace @ ''/'' @ pod @ ''['' @ container @ '']''
           in bindr (cluster_op (x_PodLogs C namespace pod container (if tail > 0 then Some tail else None))) (\<lambda>r.
              bindr (wrapped (''stream logs '' @ what) r) (\<lambda>stream.
              bindr (wrapped (''read logs '' @ what) stream) (\<lambda>raw. ret (log_lines raw)))))"

section \<open>metrics.go\<close>

record statsContainer =
  sct_Name :: string
  sct_WorkingSet :: "int option"

record statsPod =
  spd_Name :: string
  spd_Namespace :: string
  spd_Containers :: "statsContainer list"

definition dec_slice :: "(json \<Rightarrow> 'r \<Rightarrow> 'r option) \<Rightarrow> 'r \<Rightarrow> json \<Rightarrow> 'r list \<Rightarrow> 'r list option" where
  \<comment> \<open>into a slice: an element is decoded over the one a repeated field left there\<close>
  "dec_slice dec zero j old =
     (case j of
        JNull \<Rightarrow> Some []
      | JArr js \<Rightarrow> those (map2 dec js (take (length js) old @ replicate (length js - length old) zero))
      | _ \<Rightarrow> None)"

definition dec_uint64 :: "json \<Rightarrow> int option \<Rightarrow> int option option" where
  \<comment> \<open>into a \<open>*uint64\<close>\<close>
  "dec_uint64 j old =
     (case j of
        JNull \<Rightarrow> Some None
      | JNum s \<Rightarrow> (case dec_val 0 s of Some n \<Rightarrow> if n < 2 ^ 64 then Some (Some (int n)) else None | None \<Rightarrow> None)
      | _ \<Rightarrow> None)"

definition dec_stats_container :: "json \<Rightarrow> statsContainer \<Rightarrow> statsContainer option" where
  "dec_stats_container = dec_struct [''name'', ''memory''] (\<lambda>f j c.
     if f = ''name'' then map_option (\<lambda>x. c\<lparr>sct_Name := x\<rparr>) (dec_string j (sct_Name c))
     else dec_struct [''workingSetBytes''] (\<lambda>_ j c. map_option (\<lambda>x. c\<lparr>sct_WorkingSet := x\<rparr>) (dec_uint64 j (sct_WorkingSet c))) j c)"

definition dec_stats_pod :: "json \<Rightarrow> statsPod \<Rightarrow> statsPod option" where
  "dec_stats_pod = dec_struct [''podRef'', ''containers''] (\<lambda>f j p.
     if f = ''podRef'' then dec_struct [''name'', ''namespace''] (\<lambda>g j p.
       if g = ''name'' then map_option (\<lambda>x. p\<lparr>spd_Name := x\<rparr>) (dec_string j (spd_Name p))
       else map_option (\<lambda>x. p\<lparr>spd_Namespace := x\<rparr>) (dec_string j (spd_Namespace p))) j p
     else map_option (\<lambda>x. p\<lparr>spd_Containers := x\<rparr>)
       (dec_slice dec_stats_container \<lparr>sct_Name = '''', sct_WorkingSet = None\<rparr> j (spd_Containers p)))"

definition statsSummary :: "string \<Rightarrow> statsPod list option" where
  \<comment> \<open>\<open>json.Unmarshal\<close> into the \<open>Pods\<close> of a \<open>statsSummary\<close>\<close>
  "statsSummary raw =
     (case json_parse raw of
        None \<Rightarrow> None
      | Some j \<Rightarrow> dec_struct [''pods''] (\<lambda>_. dec_slice dec_stats_pod \<lparr>spd_Name = '''', spd_Namespace = '''', spd_Containers = []\<rparr>) j [])"

definition clampInt64 :: "int \<Rightarrow> int" where
  "clampInt64 v = (if v > MaxInt64 then MaxInt64 else v)"

fun container_usage :: "statsContainer list \<Rightarrow> int gomap \<Rightarrow> int gomap" where
  "container_usage [] out = out"
| "container_usage (ctr # cs) out =
     (if sct_Name ctr = '''' then container_usage cs out
      else container_usage cs (AList.update (sct_Name ctr)
             (case sct_WorkingSet ctr of None \<Rightarrow> 0 | Some n \<Rightarrow> clampInt64 n) out))"

definition projectPodUsage :: "string \<Rightarrow> string \<Rightarrow> string \<Rightarrow> string + int gomap" where
  "projectPodUsage raw namespace pod =
     (case statsSummary raw of
        None \<Rightarrow> Inl ''decode kubelet stats summary''
      | Some pods \<Rightarrow>
          (case find (\<lambda>p. spd_Name p = pod \<and> spd_Namespace p = namespace) pods of
             Some p \<Rightarrow> Inr (container_usage (spd_Containers p) [])
           | None \<Rightarrow> Inl (''pod '' @ namespace @ ''/'' @ pod @ '' not in kubelet stats summary'')))"

definition PodMetrics :: "'w cluster \<Rightarrow> string \<Rightarrow> string \<Rightarrow> string \<Rightarrow> ('w, int gomap) console" where
  "PodMetrics C node namespace pod =
     (if \<not> x_clientset C then raise errNoClientset
      else if node = '''' then raise (''pod '' @ namespace @ ''/'' @ pod @ '' has no node yet (unscheduled)'')
      else bindr (cluster_op (x_StatsSummary C node)) (\<lambda>r.
           bindr (wrapped (''kubelet stats summary for node '' @ node) r) (\<lambda>raw.
           case projectPodUsage raw namespace pod of Inl e \<Rightarrow> raise e | Inr m \<Rightarrow> ret m)))"

end
