(* ===== verification/Console_Loki.thy ===== *)
theory Console_Loki
  imports Console_Client
begin

text \<open>
  \<open>console/internal/loki\<close>: the range query for the logs of a finished build, and the choice of the log
  source. Loki's HTTP endpoint is the parameter \<open>send\<close>, which answers a request with a transport error, an
  error while reading the body, or a status and a body. The base URL carries no query of its own.
\<close>

section \<open>source.go\<close>

datatype Source = SourceLivePod | SourceLoki | SourcePodFallback | SourceUnavailable

definition ResolveLogSource :: "bool \<Rightarrow> bool \<Rightarrow> bool \<Rightarrow> Source" where
  "ResolveLogSource inProgress lokiConfigured podRetained =
     (if inProgress then SourceLivePod
      else if lokiConfigured then SourceLoki
      else if podRetained then SourcePodFallback
      else SourceUnavailable)"

section \<open>client.go and query.go\<close>

record loki_config =
  lk_URL :: string
  lk_BasicAuthUser :: string
  lk_BasicAuthPass :: string
  lk_BearerToken :: string
  lk_TenantID :: string

definition Configured :: "loki_config \<Rightarrow> bool" where
  "Configured cfg \<longleftrightarrow> lk_URL cfg \<noteq> ''''"

definition defaultLimit :: int where "defaultLimit = 100"

abbreviation queryRangePath where "queryRangePath \<equiv> ''/loki/api/v1/query_range''"

definition buildSelector :: "string \<Rightarrow> string \<Rightarrow> string \<Rightarrow> string" where
  "buildSelector namespace pod container =
     ''{namespace='' @ [quote] @ namespace @ [quote] @ '',pod='' @ [quote] @ pod @ [quote] @
     (if container \<noteq> '''' then '',container='' @ [quote] @ container @ [quote] else '''') @ ''}''"

datatype authorization = BearerAuth string | BasicAuth string string

record loki_request =
  lr_URL :: string
  lr_RawQuery :: string
  lr_Authorization :: "authorization option"
  lr_OrgID :: "string option"

definition buildRequest ::
  "loki_config \<Rightarrow> string \<Rightarrow> string \<Rightarrow> string \<Rightarrow> time \<Rightarrow> time \<Rightarrow> int \<Rightarrow> string + loki_request" where
  "buildRequest cfg namespace pod container start stop limit =
     (let limit = (if limit \<le> 0 then defaultLimit else limit); url = lk_URL cfg @ queryRangePath
      in case url_host url of
           None \<Rightarrow> Inl ''invalid URL''
         | Some _ \<Rightarrow>
             Inr \<lparr>lr_URL = url,
                  lr_RawQuery = Values_Encode (
                    [(''query'', buildSelector namespace pod container), (''limit'', Itoa limit), (''direction'', ''backward'')] @
                    (if \<not> IsZero start then [(''start'', Itoa (wrap64 start))] else []) @
                    (if \<not> IsZero stop then [(''end'', Itoa (wrap64 stop))] else [])),
                  lr_Authorization =
                    (if lk_BearerToken cfg \<noteq> '''' then Some (BearerAuth (lk_BearerToken cfg))
                     else if lk_BasicAuthUser cfg \<noteq> '''' \<or> lk_BasicAuthPass cfg \<noteq> ''''
                     then Some (BasicAuth (lk_BasicAuthUser cfg) (lk_BasicAuthPass cfg)) else None),
                  lr_OrgID = (if lk_TenantID cfg \<noteq> '''' then Some (lk_TenantID cfg) else None)\<rparr>)"

section \<open>tail.go\<close>

datatype loki_error = ErrNotConfigured | QueryError int string | LokiFailure string

definition loki_text :: "loki_error \<Rightarrow> string" where
  "loki_text e =
     (case e of
        ErrNotConfigured \<Rightarrow> ''loki: not configured''
      | QueryError code body \<Rightarrow> ''loki: query failed with status '' @ Itoa code @ '': '' @ body
      | LokiFailure msg \<Rightarrow> msg)"

definition dec_pair :: "json \<Rightarrow> string \<times> string \<Rightarrow> (string \<times> string) option" where
  \<comment> \<open>into a \<open>[2]string\<close>: missing elements become empty, further ones are dropped, \<open>null\<close> leaves it alone\<close>
  "dec_pair j old =
     (case j of
        JNull \<Rightarrow> Some old
      | JArr js \<Rightarrow>
          (case js of
             [] \<Rightarrow> Some ('''', '''')
           | [a] \<Rightarrow> map_option (\<lambda>x. (x, '''')) (dec_string a (fst old))
           | a # b # _ \<Rightarrow> (case (dec_string a (fst old), dec_string b (snd old)) of (Some x, Some y) \<Rightarrow> Some (x, y) | _ \<Rightarrow> None))
      | _ \<Rightarrow> None)"

definition queryRangeResponse :: "string \<Rightarrow> (string \<times> string) list list option" where
  \<comment> \<open>the \<open>values\<close> of every stream\<close>
  "queryRangeResponse body =
     (case json_parse body of
        None \<Rightarrow> None
      | Some j \<Rightarrow>
          dec_struct [''data''] (\<lambda>_. dec_struct [''result''] (\<lambda>_.
            dec_slice (dec_struct [''values''] (\<lambda>_. dec_slice dec_pair ('''', ''''))) [])) j [])"

record log_entry =
  le_ts :: int
  le_line :: string

definition newest_last :: "int \<Rightarrow> log_entry list \<Rightarrow> log_entry list" where
  \<comment> \<open>stable sort by time, capped to the newest\<close>
  "newest_last limit es =
     (let es = sort_key le_ts es
      in if int (length es) > limit then drop (length es - nat limit) es else es)"

definition entries_of :: "(string \<times> string) list list \<Rightarrow> log_entry list" where
  "entries_of streams = concat (map (map (\<lambda>(ts, line). \<lparr>le_ts = ParseInt_value ts, le_line = line\<rparr>)) streams)"

definition tail_response :: "int \<Rightarrow> int \<Rightarrow> string \<Rightarrow> loki_error + string list" where
  "tail_response limit code body =
     (if code < 200 \<or> code \<ge> 300 then Inl (QueryError code body)
      else case queryRangeResponse body of
             None \<Rightarrow> Inl (LokiFailure ''loki: decode response'')
           | Some streams \<Rightarrow> Inr (map le_line (newest_last limit (entries_of streams))))"

definition Tail ::
  "loki_config \<Rightarrow> (loki_request \<Rightarrow> 'w \<Rightarrow> (string + (string + (int \<times> string))) \<times> 'w) \<Rightarrow>
   string \<Rightarrow> string \<Rightarrow> string \<Rightarrow> time \<Rightarrow> time \<Rightarrow> int \<Rightarrow> ('w, loki_error + string list) console" where
  "Tail cfg send namespace pod container start stop limit =
     (if \<not> Configured cfg then ret (Inl ErrNotConfigured)
      else let limit = (if limit \<le> 0 then defaultLimit else limit)
           in case buildRequest cfg namespace pod container start stop limit of
                Inl e \<Rightarrow> ret (Inl (LokiFailure e))
              | Inr req \<Rightarrow> bindr (cluster_op (send req)) (\<lambda>r.
                  case r of
                    Inl e \<Rightarrow> ret (Inl (LokiFailure e))
                  | Inr (Inl e) \<Rightarrow> ret (Inl (LokiFailure e))
                  | Inr (Inr (code, body)) \<Rightarrow> ret (tail_response limit code body)))"

section \<open>The newest lines, oldest first\<close>

lemma newest_last_splits:
  assumes "0 \<le> limit"
  shows "\<exists>old. sort_key le_ts es = old @ newest_last limit es \<and> int (length (newest_last limit es)) = min limit (int (length es))"
proof (cases "int (length es) > limit")
  case True
  then have "sort_key le_ts es = take (length es - nat limit) (sort_key le_ts es) @ newest_last limit es"
    by (simp add: newest_last_def Let_def)
  moreover have "int (length (newest_last limit es)) = limit" using True assms by (simp add: newest_last_def Let_def)
  ultimately show ?thesis using True by (intro exI [of _ "take (length es - nat limit) (sort_key le_ts es)"]) simp
next
  case False
  then show ?thesis by (simp add: newest_last_def Let_def)
qed

lemma newest_last_newest:
  assumes "0 \<le> limit"
  shows "\<exists>old. mset es = mset old + mset (newest_last limit es) \<and> sorted (map le_ts (newest_last limit es)) \<and>
    (\<forall>a\<in>set old. \<forall>b\<in>set (newest_last limit es). le_ts a \<le> le_ts b) \<and> int (length (newest_last limit es)) = min limit (int (length es))"
proof -
  from newest_last_splits [OF assms] obtain old where old: "sort_key le_ts es = old @ newest_last limit es"
      "int (length (newest_last limit es)) = min limit (int (length es))" by blast
  have "mset es = mset (old @ newest_last limit es)" by (metis mset_sort old(1))
  moreover have "sorted (map le_ts (old @ newest_last limit es))" by (metis sorted_sort_key old(1))
  ultimately show ?thesis using old(2) by (intro exI [of _ old]) (auto simp: sorted_append)
qed

text \<open>Logs of a finished build: when Loki answers a tail query with a success and a readable body, the
  lines shown are the newest of all the streams together, oldest first, as many as the limit allows: the
  entries left out are all at most as new as every line shown.\<close>

theorem loki_tail_newest:
  assumes "buildRequest cfg ns pod container start stop limit = Inr req" "Configured cfg" "0 < limit"
    and "fst (send req (c_world s)) = Inr (Inr (code, body))" "200 \<le> code" "code < 300"
    and "queryRangeResponse body = Some streams"
  shows "\<exists>old new. fst (Tail cfg send ns pod container start stop limit s) = Inr (Inr (map le_line new)) \<and>
    mset (entries_of streams) = mset old + mset new \<and> sorted (map le_ts new) \<and>
    (\<forall>a\<in>set old. \<forall>b\<in>set new. le_ts a \<le> le_ts b) \<and> int (length new) = min limit (int (length (entries_of streams)))"
proof -
  have "fst (Tail cfg send ns pod container start stop limit s) = Inr (Inr (map le_line (newest_last limit (entries_of streams))))"
    using assms by (cases "send req (c_world s)")
      (simp add: Tail_def bindr_def cluster_op_def tail_response_def ret_def Let_def split: sum.splits)
  with newest_last_newest [of limit "entries_of streams"] assms(3) show ?thesis by fastforce
qed

definition sample_loki :: loki_config where
  "sample_loki = \<lparr>lk_URL = ''http://loki:3100'', lk_BasicAuthUser = '''', lk_BasicAuthPass = '''', lk_BearerToken = '''', lk_TenantID = ''''\<rparr>"

definition sample_answer :: string where
  "sample_answer = map (\<lambda>c. if c = CHR ''!'' then quote else c)
     ''{!data!:{!result!:[{!values!:[[!2!,!b!],[!1!,!a!]]}]}}''"

theorem loki_tail_newest_witness:
  "\<exists>new :: log_entry list. fst (Tail sample_loki (\<lambda>req w. (Inr (Inr (200, sample_answer)), w)) ''web'' ''pod-1'' ''build'' 0 0 1
       \<lparr>c_world = (), c_lastWatchErr = 0, c_writes = []\<rparr>) = Inr (Inr (map le_line new)) \<and> length new = 1 \<and> sorted (map le_ts new)"
proof -
  let ?send = "\<lambda>req w :: unit. (Inr (Inr (200, sample_answer)), w)"
  have "url_host (lk_URL sample_loki @ queryRangePath) \<noteq> None" by code_simp
  then have "\<exists>req. buildRequest sample_loki ''web'' ''pod-1'' ''build'' 0 0 1 = Inr req"
    by (auto simp: buildRequest_def Let_def)
  then obtain req where req: "buildRequest sample_loki ''web'' ''pod-1'' ''build'' 0 0 1 = Inr req" by blast
  have body: "queryRangeResponse sample_answer = Some [[(''2'', ''b''), (''1'', ''a'')]]"
    by code_simp
  have len: "length (entries_of [[(''2'', ''b''), (''1'', ''a'')]]) = 2" by (simp add: entries_of_def)
  have "Configured sample_loki" by (simp add: Configured_def sample_loki_def)
  from loki_tail_newest [OF req this, where send = ?send and code = 200 and body = sample_answer and
      s = "\<lparr>c_world = (), c_lastWatchErr = 0, c_writes = []\<rparr>" and streams = "[[(''2'', ''b''), (''1'', ''a'')]]"]
  show ?thesis unfolding len using body by fastforce
qed

end
