(* ===== verification/Console_Pages.thy ===== *)
theory Console_Pages
  imports Console_Loki "HOL-Library.Product_Lexorder"
begin

text \<open>
  The pure part of \<open>console/internal/server\<close>: the list pipeline of \<open>server.go\<close> (filters, facets, search,
  order, pages), the choice of build and container for the log pane, \<open>manifest.go\<close>, \<open>loghl.go\<close> and
  \<open>timeTag\<close> of \<open>render.go\<close>. The HTML templates, the YAML encoder and the chroma highlighter are not
  part of the model.
\<close>

section \<open>The list page\<close>

abbreviation sortByName where "sortByName \<equiv> ''name''"
abbreviation ungroupedParam where "ungroupedParam \<equiv> ''ungrouped''"

definition toggleSort :: "string \<Rightarrow> string" where
  "toggleSort cur = (if cur = sortByName then '''' else sortByName)"

definition pageSize :: int where "pageSize = 50"

definition clampPage :: "string \<Rightarrow> int \<Rightarrow> int \<times> int" where
  "clampPage raw match =
     (let totalPages = quot (match + pageSize - 1) pageSize;
          totalPages = (if totalPages < 1 then 1 else totalPages);
          page = (case ParseInt raw of None \<Rightarrow> 1 | Some p \<Rightarrow> if p < 1 then 1 else p);
          page = (if page > totalPages then totalPages else page)
      in (page, totalPages))"

definition filter_params :: "string \<Rightarrow> string \<Rightarrow> string \<Rightarrow> string \<Rightarrow> string gomap" where
  "filter_params status grp search sortOrder =
     (if status \<noteq> '''' then [(''status'', status)] else []) @ (if grp \<noteq> '''' then [(''group'', grp)] else []) @
     (if search \<noteq> '''' then [(''search'', search)] else []) @ (if sortOrder \<noteq> '''' then [(''sort'', sortOrder)] else [])"

definition pageURL :: "string \<Rightarrow> string \<Rightarrow> string \<Rightarrow> string \<Rightarrow> int \<Rightarrow> string" where
  "pageURL status grp search sortOrder page =
     ''/?'' @ Values_Encode (filter_params status grp search sortOrder @ [(''page'', Itoa page)])"

definition listURL :: "string \<Rightarrow> string \<Rightarrow> string \<Rightarrow> string \<Rightarrow> string" where
  "listURL status grp search sortOrder =
     (let q = filter_params status grp search sortOrder in if q = [] then ''/'' else ''/?'' @ Values_Encode q)"

definition healthClasses :: "string list" where
  "healthClasses = [''ready'', ''building'', ''degraded'', ''degraded-serving'', ''pending'']"

definition validHealthClass :: "string \<Rightarrow> bool" where
  "validHealthClass s \<longleftrightarrow> s \<in> set healthClasses"

definition facetLabel :: "string \<Rightarrow> string" where
  "facetLabel hc = (if hc = ''degraded-serving'' then ''serving last-good'' else hc)"

record statusFacet =
  sf_Value :: string
  sf_Label :: string
  sf_Count :: int
  sf_Active :: bool
  sf_URL :: string

definition class_count :: "ViewApp list \<Rightarrow> string \<Rightarrow> int" where
  \<comment> \<open>\<open>counts[a.HealthClass()]++\<close> over the apps, then \<open>counts[hc]\<close>\<close>
  "class_count apps hc = int (length (filter (\<lambda>a. HealthClass a = hc) apps))"

definition statusFacets :: "ViewApp list \<Rightarrow> string \<Rightarrow> string \<Rightarrow> string \<Rightarrow> string \<Rightarrow> statusFacet list" where
  "statusFacets apps activeStatus grp search sortOrder =
     \<lparr>sf_Value = '''', sf_Label = ''all'', sf_Count = int (length apps), sf_Active = (activeStatus = ''''),
      sf_URL = listURL '''' grp search sortOrder\<rparr> #
     map (\<lambda>hc. \<lparr>sf_Value = hc, sf_Label = facetLabel hc, sf_Count = class_count apps hc, sf_Active = (activeStatus = hc),
                 sf_URL = listURL hc grp search sortOrder\<rparr>) healthClasses"

record groupChip =
  gc_Value :: string
  gc_Label :: string
  gc_Active :: bool
  gc_URL :: string

definition groupChips :: "ViewApp list \<Rightarrow> string \<Rightarrow> string \<Rightarrow> string \<Rightarrow> string \<Rightarrow> groupChip list" where
  "groupChips apps status activeGroup search sortOrder =
     (let hasUngrouped = list_ex (\<lambda>a. va_Group a = '''') apps;
          groups = sort (remdups (filter (\<lambda>g. g \<noteq> '''') (map va_Group apps)))
      in if groups = [] then []
         else [\<lparr>gc_Value = '''', gc_Label = ''all'', gc_Active = (activeGroup = ''''), gc_URL = listURL status '''' search sortOrder\<rparr>] @
              map (\<lambda>g. \<lparr>gc_Value = g, gc_Label = g, gc_Active = (activeGroup = g), gc_URL = listURL status g search sortOrder\<rparr>) groups @
              (if hasUngrouped
               then [\<lparr>gc_Value = ungroupedParam, gc_Label = ''ungrouped'', gc_Active = (activeGroup = ungroupedParam),
                      gc_URL = listURL status ungroupedParam search sortOrder\<rparr>]
               else []))"

definition filterApps :: "ViewApp list \<Rightarrow> string \<Rightarrow> string \<Rightarrow> ViewApp list" where
  "filterApps apps status grp =
     filter (\<lambda>a. \<not> (status \<noteq> '''' \<and> HealthClass a \<noteq> status) \<and>
                  (if grp = '''' then True else if grp = ungroupedParam then va_Group a = '''' else va_Group a = grp)) apps"

definition searchApps :: "ViewApp list \<Rightarrow> string \<Rightarrow> ViewApp list" where
  "searchApps apps term =
     (if term = '''' then apps
      else filter (\<lambda>a. list_ex (\<lambda>field. Contains (ToLower field) (ToLower term))
                         [va_Name a, va_Namespace a, va_Group a, URLHost a]) apps)"

definition order_key :: "string \<Rightarrow> ViewApp \<Rightarrow> int \<times> string \<times> string" where
  \<comment> \<open>the \<open>less\<close> of \<open>sort.SliceStable\<close> compares the rank, unless the order is by name, then namespace and name\<close>
  "order_key sortOrder a = (if sortOrder = '''' then HealthRank a else 0, va_Namespace a, va_Name a)"

definition page_window :: "int \<Rightarrow> 'a list \<Rightarrow> 'a list" where
  \<comment> \<open>\<open>filtered[lo:hi]\<close> with \<open>hi\<close> cut to the length\<close>
  "page_window page xs =
     (let lo = (page - 1) * pageSize; hi = lo + pageSize;
          hi = (if hi > int (length xs) then int (length xs) else hi)
      in take (nat hi - nat lo) (drop (nat lo) xs))"

record listData =
  ld_User :: string
  ld_Warming :: bool
  ld_Stale :: bool
  ld_Apps :: "ViewApp list"
  ld_Total :: int
  ld_Matched :: int
  ld_Filtered :: bool
  ld_Storage :: StorageTotals
  ld_StatusFacets :: "statusFacet list"
  ld_GroupChips :: "groupChip list"
  ld_Search :: string
  ld_ClearSearchURL :: string
  ld_Status :: string
  ld_Group :: string
  ld_Sort :: string
  ld_SortToggleURL :: string
  ld_Page :: int
  ld_TotalPages :: int
  ld_ShowPager :: bool
  ld_HasPrev :: bool
  ld_HasNext :: bool
  ld_PrevURL :: string
  ld_NextURL :: string

definition warming :: "string \<Rightarrow> listData" where
  "warming user = \<lparr>ld_User = user, ld_Warming = True, ld_Stale = False, ld_Apps = [], ld_Total = 0, ld_Matched = 0,
     ld_Filtered = False, ld_Storage = noTotals, ld_StatusFacets = [], ld_GroupChips = [], ld_Search = '''', ld_ClearSearchURL = '''',
     ld_Status = '''', ld_Group = '''', ld_Sort = '''', ld_SortToggleURL = '''', ld_Page = 0, ld_TotalPages = 0, ld_ShowPager = False,
     ld_HasPrev = False, ld_HasNext = False, ld_PrevURL = '''', ld_NextURL = ''''\<rparr>"

definition matching :: "ViewApp list \<Rightarrow> string gomap \<Rightarrow> ViewApp list" where
  \<comment> \<open>the apps the filters and the search of a query keep, in the order of the page\<close>
  "matching apps query =
     (let status = map_get query ''status''; status = (if \<not> validHealthClass status then '''' else status);
          search = TrimSpace (map_get query ''search'');
          sortOrder = (if map_get query ''sort'' \<noteq> sortByName then '''' else map_get query ''sort'')
      in sort_key (order_key sortOrder) (searchApps (filterApps apps status (map_get query ''group'')) search))"

definition list_page :: "ViewApp list \<Rightarrow> string gomap \<Rightarrow> string \<Rightarrow> bool \<Rightarrow> listData" where
  \<comment> \<open>\<open>handleList\<close> once the cache is warm and the apps are listed\<close>
  "list_page apps query user stale =
     (let status = map_get query ''status''; status = (if \<not> validHealthClass status then '''' else status);
          grp = map_get query ''group''; search = TrimSpace (map_get query ''search'');
          sortOrder = (if map_get query ''sort'' \<noteq> sortByName then '''' else map_get query ''sort'');
          filtered = matching apps query;
          (page, totalPages) = clampPage (map_get query ''page'') (int (length filtered))
      in \<lparr>ld_User = user, ld_Warming = False, ld_Stale = stale, ld_Apps = page_window page filtered,
          ld_Total = int (length apps), ld_Matched = int (length filtered), ld_Filtered = (length filtered \<noteq> length apps),
          ld_Storage = AggregateStorage filtered,
          ld_StatusFacets = statusFacets apps status grp search sortOrder,
          ld_GroupChips = groupChips apps status grp search sortOrder,
          ld_Search = search, ld_ClearSearchURL = listURL status grp '''' sortOrder, ld_Status = status, ld_Group = grp,
          ld_Sort = sortOrder, ld_SortToggleURL = listURL status grp search (toggleSort sortOrder),
          ld_Page = page, ld_TotalPages = totalPages, ld_ShowPager = (totalPages > 1), ld_HasPrev = (page > 1),
          ld_HasNext = (page < totalPages), ld_PrevURL = pageURL status grp search sortOrder (page - 1),
          ld_NextURL = pageURL status grp search sortOrder (page + 1)\<rparr>)"

section \<open>Log pane: build and container\<close>

abbreviation releaseStepName where "releaseStepName \<equiv> ''release''"

definition containerSteps :: "ViewBuild \<Rightarrow> ViewStep list" where
  "containerSteps rec = filter (\<lambda>st. vs_Name st \<noteq> releaseStepName) (vb_Steps rec)"

definition validContainer :: "ViewStep list \<Rightarrow> string \<Rightarrow> bool" where
  "validContainer steps name \<longleftrightarrow> list_ex (\<lambda>st. vs_Name st = name) steps"

definition pickBuild :: "ViewApp \<Rightarrow> string \<Rightarrow> (ViewBuild \<times> bool) option" where
  "pickBuild app build =
     (if build = '''' \<or> build = ''current'' then Some (va_Build app, True)
      else if vb_JobName (va_Build app) = build then Some (va_Build app, True)
      else map_option (\<lambda>h. (h, False)) (find (\<lambda>h. vb_JobName h = build) (va_BuildHistory app)))"

fun gap_step :: "bool \<Rightarrow> ViewStep list \<Rightarrow> string option" where
  \<comment> \<open>the first Pending step after a Succeeded one\<close>
  "gap_step begun [] = None"
| "gap_step begun (st # steps) =
     (if vs_Status st = ''Succeeded'' then gap_step True steps
      else if begun \<and> vs_Status st = ''Pending'' then Some (vs_Name st)
      else gap_step begun steps)"

definition defaultContainer :: "ViewStep list \<Rightarrow> string" where
  "defaultContainer steps =
     (case find (\<lambda>st. vs_Status st = ''Failed'' \<or> vs_Status st = ''Aborted'') steps of
        Some st \<Rightarrow> vs_Name st
      | None \<Rightarrow>
          (case find (\<lambda>st. vs_Status st = ''Running'') steps of
             Some st \<Rightarrow> vs_Name st
           | None \<Rightarrow>
               (case gap_step False steps of
                  Some name \<Rightarrow> name
                | None \<Rightarrow>
                    (case steps of
                       [] \<Rightarrow> ''build''
                     | st # _ \<Rightarrow> if vs_Status st = ''Pending'' then vs_Name st else vs_Name (last steps)))))"

definition containerMemLimit :: "(quantity \<Rightarrow> int) \<Rightarrow> Pod \<Rightarrow> string \<Rightarrow> int" where
  "containerMemLimit quantityValue p container =
     (case find (\<lambda>c. c_Name c = container) (pod_InitContainers (p_Spec p) @ pod_Containers (p_Spec p)) of
        None \<Rightarrow> 0
      | Some c \<Rightarrow> (case map_of (rr_Limits (c_Resources c)) ''memory'' of None \<Rightarrow> 0 | Some mem \<Rightarrow> quantityValue mem))"

definition dashOr :: "string \<Rightarrow> string" where
  "dashOr s = (if s = '''' then em_dash else s)"

section \<open>render.go\<close>

definition timeTag :: "string \<Rightarrow> bool \<Rightarrow> string" where
  "timeTag ts full =
     (if ts = '''' then em_dash
      else ''<time datetime='' @ [quote] @ HTMLEscapeString ts @ [quote] @
           (if full then '' data-format='' @ [quote] @ ''full'' @ [quote] else '''') @ ''>'' @ HTMLEscapeString ts @ ''</time>'')"

section \<open>manifest.go\<close>

abbreviation hiddenValue where "hiddenValue \<equiv> ''(hidden)''"

definition hide_auth :: "(string \<times> any) list \<Rightarrow> (string \<times> any) list \<times> bool" where
  \<comment> \<open>a deep copy with the inline credential replaced\<close>
  "hide_auth spec =
     (case mget spec ''auth'' of
        VMap auth \<Rightarrow>
          (case map_of auth ''passwordHash'' of
             None \<Rightarrow> (spec, False)
           | Some _ \<Rightarrow> (AList.update ''auth'' (VMap (AList.update ''passwordHash'' (VString hiddenValue) auth)) spec, True))
      | _ \<Rightarrow> (spec, False))"

definition pruneManifest :: "accessors \<Rightarrow> (string \<times> any) list \<Rightarrow> (string \<times> any) list \<times> bool" where
  "pruneManifest U obj =
     (let ident = concat (map (\<lambda>k. case map_of obj k of None \<Rightarrow> [] | Some v \<Rightarrow> [(k, v)]) [''apiVersion'', ''kind'']);
          name = u_GetName U obj; ns = u_GetNamespace U obj; labels = u_GetLabels U obj; ann = u_GetAnnotations U obj;
          m = (if name \<noteq> '''' then [(''name'', VString name)] else []) @ (if ns \<noteq> '''' then [(''namespace'', VString ns)] else []) @
              (if labels \<noteq> [] then [(''labels'', VMap (map (\<lambda>(k, v). (k, VString v)) labels))] else []) @
              (if ann \<noteq> [] then [(''annotations'', VMap (map (\<lambda>(k, v). (k, VString hiddenValue)) ann))] else []);
          metadata = (if m \<noteq> [] then [(''metadata'', VMap m)] else [])
      in case mget obj ''spec'' of
           VMap spec \<Rightarrow> (let (spec', masked) = hide_auth spec in (ident @ metadata @ [(''spec'', VMap spec')], ann \<noteq> [] \<or> masked))
         | _ \<Rightarrow> (ident @ metadata, ann \<noteq> []))"

definition setupHint :: "accessors \<Rightarrow> (string \<times> any) list \<Rightarrow> string" where
  "setupHint U obj =
     (case u_NestedMap U obj [''spec'', ''pipeline''] of
        None \<Rightarrow> ''''
      | Some pipeline \<Rightarrow>
          (let sp = items_of (u_NestedMap U pipeline [''phases'', ''setup''])
           in if u_NestedBool U sp [''skip''] = Some True then ''setup skipped by spec''
              else if (case u_NestedString U sp [''image''] of None \<Rightarrow> '''' | Some s \<Rightarrow> s) \<noteq> '''' \<or>
                      (case u_NestedSlice U sp [''command''] of None \<Rightarrow> [] | Some xs \<Rightarrow> xs) \<noteq> [] then ''''
              else if u_NestedField U pipeline [''nodeVersion''] = None then ''''
              else ''setup omitted '' @ em_dash @ '' the operator runs its default install for '' @
                   (case u_NestedString U pipeline [''packageManager''] of None \<Rightarrow> '''' | Some s \<Rightarrow> s) @
                   ''; the exact command is echoed in the build logs''))"

definition plainPre :: "string \<Rightarrow> string" where
  "plainPre raw = ''<pre>'' @ HTMLEscapeString raw @ ''</pre>''"

definition highlightYAML :: "(string \<Rightarrow> string option) \<Rightarrow> string \<Rightarrow> string" where
  \<comment> \<open>\<open>chroma\<close> is the third-party highlighter; \<^const>\<open>None\<close> stands for a missing lexer or any error of it\<close>
  "highlightYAML chroma raw = (case chroma raw of None \<Rightarrow> plainPre raw | Some html \<Rightarrow> html)"

section \<open>Pages partition the matches\<close>

lemma take_windows:
  "concat (map (\<lambda>p. take k (drop (p * k) xs)) [0..<n]) = take (n * k) xs"
proof (induction n)
  case (Suc n)
  have "take (Suc n * k) xs = take (n * k) xs @ take k (drop (n * k) xs)"
    by (metis add.commute mult_Suc take_add)
  with Suc show ?case by simp
qed simp

lemma page_window_take: "page_window (int (Suc p)) xs = take 50 (drop (p * 50) xs)"
proof -
  have "nat (int p * 50) = p * 50" "nat (int p * 50 + 50) = p * 50 + 50" by (simp_all add: nat_mult_distrib nat_add_distrib)
  then show ?thesis
    by (auto simp: page_window_def pageSize_def Let_def algebra_simps)
qed

definition page_count :: "nat \<Rightarrow> nat" where
  "page_count n = (if n = 0 then 1 else (n + 49) div 50)"

lemma page_count_covers: "n \<le> page_count n * 50" "0 < page_count n" "page_count n \<le> Suc n"
proof -
  have "(n + 49) div 50 * 50 + (n + 49) mod 50 = n + 49" "(n + 49) mod 50 < 50" by simp_all
  then show "n \<le> page_count n * 50" "0 < page_count n" "page_count n \<le> Suc n"
    unfolding page_count_def by (simp_all only: split: if_split) linarith+
qed

lemma clampPage_count:
  "clampPage raw (int n) =
     (let p = (case ParseInt raw of None \<Rightarrow> 1 | Some p \<Rightarrow> max 1 p) in (min p (int (page_count n)), int (page_count n)))"
proof -
  have "quot (int n + pageSize - 1) pageSize = int ((n + 49) div 50)"
    by (simp add: quot_def pageSize_def zdiv_int)
  then have t: "(if quot (int n + pageSize - 1) pageSize < 1 then 1 else quot (int n + pageSize - 1) pageSize) = int (page_count n)"
    using page_count_covers(2) [of n] by (auto simp: page_count_def)
  show ?thesis unfolding clampPage_def t Let_def by (auto split: option.split)
qed

lemma matching_page: "matching apps (AList.update ''page'' p query) = matching apps query"
  by (simp add: matching_def map_get_def update_conv' Let_def)

lemma list_page_fields:
  "ld_Apps (list_page apps query user stale) = page_window (ld_Page (list_page apps query user stale)) (matching apps query)"
  "(ld_Page (list_page apps query user stale), ld_TotalPages (list_page apps query user stale)) =
     clampPage (map_get query ''page'') (int (length (matching apps query)))"
  "ld_Matched (list_page apps query user stale) = int (length (matching apps query))"
  "ld_HasNext (list_page apps query user stale) \<longleftrightarrow> ld_Page (list_page apps query user stale) < ld_TotalPages (list_page apps query user stale)"
  by (simp_all add: list_page_def Let_def split: prod.split)

definition page_of :: "ViewApp list \<Rightarrow> string gomap \<Rightarrow> string \<Rightarrow> bool \<Rightarrow> nat \<Rightarrow> listData" where
  \<comment> \<open>the page the pager's link to page \<open>n\<close> leads to\<close>
  "page_of apps query user stale n = list_page apps (AList.update ''page'' (Itoa (int n)) query) user stale"

lemma page_of_window:
  assumes "int (length (matching apps query)) < 2 ^ 63 - 1" "p < page_count (length (matching apps query))"
  shows "ld_Apps (page_of apps query user stale (Suc p)) = take 50 (drop (p * 50) (matching apps query))"
proof -
  let ?q = "AList.update ''page'' (Itoa (int (Suc p))) query"
  have "int64_range (int (Suc p))"
    using assms page_count_covers(3) [of "length (matching apps query)"] by (simp add: int64_range_def)
  then have "ParseInt (map_get ?q ''page'') = Some (int (Suc p))"
    by (simp add: map_get_def update_conv' ParseInt_Itoa del: of_nat_Suc)
  then have "ld_Page (list_page apps ?q user stale) = int (Suc p)"
    using list_page_fields(2) [of apps ?q user stale] assms(2) by (simp add: matching_page clampPage_count Let_def)
  then show ?thesis
    unfolding page_of_def list_page_fields(1) matching_page by (simp only: page_window_take)
qed

lemma pages_concat:
  assumes "int (length (matching apps query)) < 2 ^ 63 - 1"
  shows "concat (map (\<lambda>n. ld_Apps (page_of apps query user stale n)) [1..<Suc (page_count (length (matching apps query)))]) = matching apps query"
proof -
  let ?n = "page_count (length (matching apps query))"
  have "map (\<lambda>n. ld_Apps (page_of apps query user stale n)) [1..<Suc ?n] = map (\<lambda>p. ld_Apps (page_of apps query user stale (Suc p))) [0..<?n]"
    by (simp add: map_Suc_upt [symmetric] comp_def del: upt_Suc)
  also have "\<dots> = map (\<lambda>p. take 50 (drop (p * 50) (matching apps query))) [0..<?n]"
    using page_of_window [OF assms] by simp
  finally show ?thesis
    using page_count_covers(1) [of "length (matching apps query)"] by (simp add: take_windows)
qed

text \<open>The pager reaches every App exactly once: whatever the query, the page shown exists, and the pages
  1 to the last, put one after the other, are exactly the Apps the filters and the search keep, in the
  order of the list, with at most fifty on a page.\<close>

theorem pages_partition_matches:
  assumes "int (length (matching apps query)) < 2 ^ 63 - 1"
    and "d = list_page apps query user stale"
  shows "concat (map (\<lambda>n. ld_Apps (page_of apps query user stale n)) [1..<Suc (nat (ld_TotalPages d))]) = matching apps query \<and>
    1 \<le> ld_Page d \<and> ld_Page d \<le> ld_TotalPages d \<and> length (ld_Apps d) \<le> 50 \<and> ld_Matched d = int (length (matching apps query)) \<and>
    ld_HasNext d = (ld_Page d < ld_TotalPages d)"
proof -
  let ?n = "page_count (length (matching apps query))"
  have pages: "ld_TotalPages d = int ?n" "1 \<le> ld_Page d" "ld_Page d \<le> int ?n"
    using list_page_fields(2) [of apps query user stale] page_count_covers(2) [of "length (matching apps query)"]
    by (auto simp: assms(2) clampPage_count Let_def split: option.splits)
  then have "ld_Page d = int (Suc (nat (ld_Page d) - 1))" by simp
  then have "ld_Apps d = take 50 (drop ((nat (ld_Page d) - 1) * 50) (matching apps query))"
    unfolding assms(2) list_page_fields(1) by (metis page_window_take)
  then have "length (ld_Apps d) \<le> 50" by simp
  with pages pages_concat [OF assms(1)] show ?thesis
    by (simp add: list_page_fields(3,4) assms(2))
qed

theorem pages_partition_matches_witness:
  "concat (map (\<lambda>n. ld_Apps (page_of (replicate 60 noApp) [] ''octocat'' False n))
      [1..<Suc (nat (ld_TotalPages (list_page (replicate 60 noApp) [] ''octocat'' False)))]) = matching (replicate 60 noApp) []"
proof -
  have "length (matching (replicate 60 noApp) []) = 60"
    by (simp add: matching_def map_get_def Let_def searchApps_def filterApps_def validHealthClass_def healthClasses_def TrimSpace_def)
  then show ?thesis using pages_partition_matches [of "replicate 60 noApp" "[]" _ "''octocat''" False, OF _ refl] by simp
qed

text \<open>A facet counts what it leads to: each status facet shows the number of Apps that its status alone
  keeps, and the counts of the five classes add up to all Apps. Every App is under exactly one facet.\<close>

theorem facets_count_matches:
  assumes "f \<in> set (statusFacets apps active grp search sortOrder)"
  shows "ld_Matched (list_page apps [(''status'', sf_Value f)] user stale) = sf_Count f \<and>
    (\<Sum>g\<leftarrow>tl (statusFacets apps active grp search sortOrder). sf_Count g) = int (length apps) \<and> HealthClass a \<in> set healthClasses"
proof -
  have cls: "HealthClass a \<in> set healthClasses" for a by (simp add: HealthClass_def healthClasses_def)
  have sum: "(\<Sum>hc\<leftarrow>healthClasses. class_count apps hc) = int (length apps)"
  proof (induction apps)
    case (Cons a apps)
    have "class_count (a # apps) hc = class_count apps hc + (if HealthClass a = hc then 1 else 0)" for hc
      by (simp add: class_count_def)
    moreover have "(\<Sum>hc\<leftarrow>healthClasses. if HealthClass a = hc then 1 else 0) = (1 :: int)"
      using cls [of a] by (auto simp: healthClasses_def)
    ultimately show ?case using Cons by (simp add: sum_list_addf)
  qed (simp add: class_count_def healthClasses_def)
  have "ld_Matched (list_page apps [(''status'', hc)] user stale) = (if hc = '''' then int (length apps) else class_count apps hc)"
    if "hc = '''' \<or> hc \<in> set healthClasses" for hc
    using that
    by (auto simp: list_page_fields(3) matching_def map_get_def Let_def searchApps_def filterApps_def validHealthClass_def
        class_count_def TrimSpace_def healthClasses_def)
  moreover have "'''' \<notin> set healthClasses" by (simp add: healthClasses_def)
  ultimately show ?thesis using assms cls sum by (auto simp: statusFacets_def comp_def)
qed

theorem facets_count_matches_witness:
  "\<exists>f :: statusFacet. sf_Value f = ''pending'' \<and> sf_Count f = 2 \<and> ld_Matched (list_page [noApp, noApp] [(''status'', ''pending'')] '''' False) = 2"
proof -
  let ?apps = "[noApp, noApp]" and ?f = "\<lparr>sf_Value = ''pending'', sf_Label = ''pending'', sf_Count = 2, sf_Active = False, sf_URL = listURL ''pending'' '''' '''' ''''\<rparr>"
  have "HealthClass noApp = ''pending''"
    by (simp add: HealthClass_def Ready_def Degraded_def App_Condition_def noApp_def)
  then have "?f \<in> set (statusFacets ?apps '''' '''' '''' '''')"
    by (simp add: statusFacets_def healthClasses_def class_count_def facetLabel_def)
  from facets_count_matches [OF this, of "''''" False] show ?thesis by (intro exI [of _ ?f]) simp
qed

end
