(* ===== verification/Console_Loghl.thy ===== *)
theory Console_Loghl
  imports Go_Format
begin

text \<open>
  \<open>console/internal/server/loghl.go\<close>: severity classes and time stamps of log lines.

  The regular expressions are written out as matchers over bytes. Case folding is that of the
  library's \<open>(?i)\<close>: ASCII case, and the long s and the Kelvin sign for \<open>s\<close> and \<open>k\<close>. A word boundary is the
  ASCII one. In the time stamp pattern the greedy runs need no backtracking, because what follows a
  run is not in its class.
\<close>

definition word_char :: "char \<Rightarrow> bool" where
  "word_char c \<longleftrightarrow> is_letter c \<or> is_digit c \<or> c = CHR ''_''"

definition re_space :: "char \<Rightarrow> bool" where
  \<comment> \<open>\<open>\s\<close>, which has no vertical tab\<close>
  "re_space c \<longleftrightarrow> byte c \<in> {9, 10, 12, 13, 32}"

definition at_start :: "char option \<Rightarrow> bool" where
  "at_start c = (case c of None \<Rightarrow> False | Some c \<Rightarrow> word_char c)"

definition boundary :: "char option \<Rightarrow> string \<Rightarrow> bool" where
  \<comment> \<open>\<open>\b\<close> between the byte before and the rest of the line\<close>
  "boundary prev s \<longleftrightarrow> at_start prev \<noteq> at_start (case s of [] \<Rightarrow> None | c # _ \<Rightarrow> Some c)"

fun fold_lit :: "string \<Rightarrow> string \<Rightarrow> string option" where
  \<comment> \<open>a lower-case literal under \<open>(?i)\<close>: what follows it\<close>
  "fold_lit [] s = Some s"
| "fold_lit (p # ps) [] = None"
| "fold_lit (p # ps) (c # s) =
     (if lower_char c = p then fold_lit ps s
      else if p = CHR ''s'' \<and> map byte (c # take 1 s) = [197, 191] then fold_lit ps (drop 1 s)
      else if p = CHR ''k'' \<and> map byte (c # take 2 s) = [226, 132, 170] then fold_lit ps (drop 2 s)
      else None)"

definition consumed :: "string \<Rightarrow> string \<Rightarrow> char option" where
  \<comment> \<open>the last byte of the matched text\<close>
  "consumed s r = (let m = take (length s - length r) s in if m = [] then None else Some (last m))"

definition word_here :: "string \<Rightarrow> char option \<Rightarrow> string \<Rightarrow> bool" where
  \<comment> \<open>\<open>\bword\b\<close> at this place\<close>
  "word_here w prev s \<longleftrightarrow>
     boundary prev s \<and> (case fold_lit w s of None \<Rightarrow> False | Some r \<Rightarrow> boundary (consumed s r) r)"

definition exit_here :: "string \<Rightarrow> bool" where
  \<comment> \<open>\<open>exit (code|status) [1-9]\<close>\<close>
  "exit_here s \<longleftrightarrow>
     list_ex (\<lambda>w. case fold_lit (''exit '' @ w @ '' '') s of None \<Rightarrow> False
                  | Some r \<Rightarrow> (case r of [] \<Rightarrow> False | c # _ \<Rightarrow> is_digit c \<and> c \<noteq> CHR ''0'')) [''code'', ''status'']"

fun somewhere :: "(char option \<Rightarrow> string \<Rightarrow> bool) \<Rightarrow> char option \<Rightarrow> string \<Rightarrow> bool" where
  "somewhere P prev [] = P prev []"
| "somewhere P prev (c # s) = (P prev (c # s) \<or> somewhere P (Some c) s)"

definition reLogErr :: "string \<Rightarrow> bool" where
  "reLogErr line = somewhere (\<lambda>prev s.
     list_ex (\<lambda>w. word_here w prev s) [''error'', ''errors'', ''fatal'', ''failed'', ''failure'', ''panic''] \<or>
     fold_lit ''npm err!'' s \<noteq> None \<or> exit_here s) None line"

definition reLogWarn :: "string \<Rightarrow> bool" where
  "reLogWarn line = somewhere (\<lambda>prev s. list_ex (\<lambda>w. word_here w prev s) [''warn'', ''warning'', ''deprecated'']) None line"

definition reLogOk :: "string \<Rightarrow> bool" where
  "reLogOk line = somewhere (\<lambda>prev s.
     list_ex (\<lambda>w. word_here w prev s) [''succeeded'', ''successfully'', ''success''] \<or> fold_lit ''build complete'' s \<noteq> None) None line"

definition logLevelClass :: "string \<Rightarrow> string" where
  "logLevelClass line =
     (if reLogErr line then ''log-err'' else if reLogWarn line then ''log-warn'' else if reLogOk line then ''log-ok'' else '''')"

section \<open>Time stamps\<close>

fun shape :: "string \<Rightarrow> string \<Rightarrow> string option" where
  \<comment> \<open>a fixed-width pattern, \<open>d\<close> for a digit and \<open>t\<close> for \<open>[T ]\<close>: what follows it\<close>
  "shape [] s = Some s"
| "shape (p # ps) [] = None"
| "shape (p # ps) (c # s) =
     (if (if p = CHR ''d'' then is_digit c else if p = CHR ''t'' then c = CHR ''T'' \<or> c = CHR '' '' else c = p)
      then shape ps s else None)"

definition opt_fraction :: "string \<Rightarrow> string" where
  \<comment> \<open>\<open>(?:\.\d+)?\<close>\<close>
  "opt_fraction s = (case s of p # d # r \<Rightarrow> if p = CHR ''.'' \<and> is_digit d then dropWhile is_digit (d # r) else s | _ \<Rightarrow> s)"

definition stamp_rest :: "string \<Rightarrow> string option" where
  \<comment> \<open>what follows the first group\<close>
  "stamp_rest line =
     (let date = ''dddd-dd-ddtdd:dd:dd''; clock = ''dd:dd:dd''
      in case shape date (if HasPrefix line ''['' then tl line else line) of
           Some r \<Rightarrow> Some (dropWhile (\<lambda>c. \<not> re_space c) r)
         | None \<Rightarrow>
             (case shape (''['' @ clock) line of
                Some r \<Rightarrow> (case opt_fraction r of [] \<Rightarrow> None | c # r' \<Rightarrow> if c = CHR '']'' then Some r' else None)
              | None \<Rightarrow> map_option opt_fraction (shape clock line)))"

definition reLogTS :: "string \<Rightarrow> (string \<times> string \<times> string) option" where
  \<comment> \<open>the two groups and the rest of the line\<close>
  "reLogTS line =
     (case stamp_rest line of
        None \<Rightarrow> None
      | Some r \<Rightarrow> (case r of
          [] \<Rightarrow> None
        | c # _ \<Rightarrow> if re_space c then Some (take (length line - length r) line, takeWhile re_space r, dropWhile re_space r) else None))"

definition highlightLogLine :: "string \<Rightarrow> string" where
  "highlightLogLine line =
     (let lvl = logLevelClass line; cls = (if lvl \<noteq> '''' then ''log-ln '' @ lvl else ''log-ln'')
      in ''<span class='' @ [quote] @ cls @ [quote] @ ''>'' @
         (case reLogTS line of
            Some (ts, sp, rest) \<Rightarrow>
              ''<span class='' @ [quote] @ ''log-ts'' @ [quote] @ ''>'' @ HTMLEscapeString ts @ ''</span>'' @
              HTMLEscapeString sp @ HTMLEscapeString rest
          | None \<Rightarrow> HTMLEscapeString line) @ ''</span>'')"

section \<open>What a browser shows\<close>

text \<open>
  The text of an HTML fragment: markup between \<open><\<close> and \<open>>\<close> is dropped and the character references
  that \<open>HTMLEscapeString\<close> produces are decoded.
\<close>

definition references :: "(string \<times> char) list" where
  "references = [(''&#34;'', CHR 0x22), (''&#39;'', CHR 0x27), (''&amp;'', CHR ''&''), (''&lt;'', CHR ''<''), (''&gt;'', CHR ''>'')]"

function (sequential) html_text :: "bool \<Rightarrow> string \<Rightarrow> string" where
  "html_text in_tag [] = []"
| "html_text True (c # s) = html_text (c \<noteq> CHR ''>'') s"
| "html_text False (c # s) =
     (if c = CHR ''<'' then html_text True s
      else case find (\<lambda>(p, x). HasPrefix (c # s) p) references of
             Some (p, x) \<Rightarrow> x # html_text False (drop (length p - 1) s)
           | None \<Rightarrow> c # html_text False s)"
  by pat_completeness auto
termination
  by (relation "measure (length \<circ> snd)") (auto simp: less_Suc_eq_le)

lemma html_text_escape:
  assumes "byte c \<noteq> 0"
  shows "html_text False (html_esc c @ s) = c # html_text False s"
proof -
  have inj: "byte c = byte d \<longleftrightarrow> c = d" for d by (simp add: byte_def)
  have "byte c = 34 \<longleftrightarrow> c = CHR 0x22" "byte c = 39 \<longleftrightarrow> c = CHR 0x27"
    using inj [of "CHR 0x22"] inj [of "CHR 0x27"] by (simp_all add: byte_def)
  then consider "c = CHR 0x22" | "c = CHR 0x27" | "c = CHR ''&''" | "c = CHR ''<''" | "c = CHR ''>''"
    | "byte c \<noteq> 34" "byte c \<noteq> 39" "c \<noteq> CHR ''&''" "c \<noteq> CHR ''<''" "c \<noteq> CHR ''>''" by blast
  then show ?thesis
  proof cases
    case 6
    have "find (\<lambda>(p, x). HasPrefix (c # s) p) references = None"
      using 6(3) by (auto simp: references_def HasPrefix_def)
    with 6 assms show ?thesis by (simp add: html_esc_def)
  qed (simp_all add: html_esc_def references_def HasPrefix_def byte_def)
qed

lemma html_text_HTMLEscapeString:
  "list_all (\<lambda>c. byte c \<noteq> 0) t \<Longrightarrow> html_text False (HTMLEscapeString t @ s) = t @ html_text False s"
  by (induction t) (simp_all add: HTMLEscapeString_def html_text_escape)

lemma stamp_groups:
  assumes "reLogTS line = Some (ts, sp, rest)"
  shows "ts @ sp @ rest = line"
proof -
  have shape_suffix: "shape p s = Some r \<Longrightarrow> \<exists>u. s = u @ r" for p s r
    by (induction p s rule: shape.induct) (auto split: if_splits)
  have frac: "\<exists>u. s = u @ opt_fraction s" for s
    by (auto simp: opt_fraction_def split: list.split intro: exI [of _ "takeWhile _ _"])
       (metis append_Cons takeWhile_dropWhile_id)+
  have drop: "\<exists>u. s = u @ dropWhile P s" for P and s :: string
    by (metis takeWhile_dropWhile_id)
  have "\<exists>u. line = u @ r" if "stamp_rest line = Some r" for r
  proof -
    have strip: "\<exists>u. line = u @ (if HasPrefix line ''['' then tl line else line)"
      by (cases line) (auto simp: HasPrefix_def)
    from that show ?thesis
      unfolding stamp_rest_def Let_def
      using strip frac drop
      by (auto split: option.splits list.splits if_splits dest!: shape_suffix) (metis append.assoc append_Cons append_Nil)+
  qed
  with assms show ?thesis
    by (fastforce simp: reLogTS_def split: option.splits list.splits if_splits)
qed

text \<open>C37. A log line is shown as it was printed: whatever the bytes of a line of untrusted build output (other than
  NUL), the text a browser reads from the highlighted line is exactly that line. No markup in the output
  can reach the page, and colouring loses nothing.\<close>

theorem log_line_shown_verbatim:
  assumes "list_all (\<lambda>c. byte c \<noteq> 0) line"
  shows "html_text False (highlightLogLine line) = line"
proof -
  have open_tag: "html_text False (''<span class='' @ [quote] @ cls @ [quote] @ ''>'' @ s) = html_text False s"
    if "cls \<in> {''log-ln'', ''log-ts'', ''log-ln log-err'', ''log-ln log-warn'', ''log-ln log-ok''}" for cls s
    using that by (auto simp: quote_def)
  have close_tag: "html_text False (''</span>'' @ s) = html_text False s" for s by simp
  have cls: "(let lvl = logLevelClass line in if lvl \<noteq> '''' then ''log-ln '' @ lvl else ''log-ln'') \<in>
      {''log-ln'', ''log-ts'', ''log-ln log-err'', ''log-ln log-warn'', ''log-ln log-ok''}"
    by (simp add: logLevelClass_def Let_def)
  show ?thesis
  proof (cases "reLogTS line")
    case None
    then show ?thesis
      using open_tag [OF cls] html_text_HTMLEscapeString [OF assms] close_tag [of "[]"]
      by (simp only: highlightLogLine_def Let_def option.case append_assoc append_Nil2) simp
  next
    case (Some m)
    obtain ts sp rest where m: "m = (ts, sp, rest)" by (cases m)
    have parts: "list_all (\<lambda>c. byte c \<noteq> 0) ts" "list_all (\<lambda>c. byte c \<noteq> 0) sp" "list_all (\<lambda>c. byte c \<noteq> 0) rest"
      using assms stamp_groups [OF Some [unfolded m]] by (metis list_all_append)+
    show ?thesis
      using open_tag [OF cls] open_tag [of "''log-ts''"] parts close_tag [of "[]"] stamp_groups [OF Some [unfolded m]]
      by (simp add: highlightLogLine_def Let_def Some m html_text_HTMLEscapeString)
  qed
qed

theorem log_line_shown_verbatim_witness:
  "html_text False (highlightLogLine ''12:00:00 <script>alert(1)</script> error & warning'') = ''12:00:00 <script>alert(1)</script> error & warning''"
  by (rule log_line_shown_verbatim) (simp add: byte_def)

end
