(* ===== verification/Console_Server.thy ===== *)
theory Console_Server
  imports Console_Pages Console_Loghl Sentry_Limiter
begin

text \<open>
  The HTTP handlers of \<open>console/internal/server/server.go\<close> and the middleware of
  \<open>console/internal/sentryhttp\<close>.

  A request is its method, its path segments, the first value of each query parameter and its headers
  by canonical name. A handler returns a \<open>response\<close>: the data handed to a template, with its status, or
  a redirect; the templates themselves are not modelled. The field \<open>sv_pods\<close> says whether a pod reader
  is set, and so on for the other capabilities of \<open>Server\<close>; \<open>sv_yaml\<close> and \<open>sv_chroma\<close> are the YAML encoder
  and the highlighter.
\<close>

record 'w server =
  sv_cluster :: "'w cluster"
  sv_pods :: bool
  sv_metrics :: bool
  sv_tailer :: "loki_config option"
  sv_send :: "loki_request \<Rightarrow> 'w \<Rightarrow> (string + (string + (int \<times> string))) \<times> 'w"
  sv_yaml :: "(string \<times> any) list \<Rightarrow> string + string"
  sv_chroma :: "string \<Rightarrow> string option"

record request =
  rq_Method :: string
  rq_Path :: "string list"
  rq_Query :: "string gomap"
  rq_Header :: "string gomap"

record logpaneData =
  lp_Namespace :: string
  lp_Build :: ViewBuild
  lp_Container :: string
  lp_Steps :: "ViewStep list"
  lp_SourceNote :: string
  lp_Lines :: "string list"
  lp_Unavailable :: string
  lp_Follow :: bool
  lp_AppActive :: bool
  lp_IsCurrent :: bool

record manifestData =
  md_Title :: string
  md_User :: string
  md_Namespace :: string
  md_Name :: string
  md_Highlighted :: string
  md_HasHidden :: bool
  md_SetupHint :: string

record detailData =
  dd_Title :: string
  dd_User :: string
  dd_App :: ViewApp
  dd_Requested :: bool
  dd_CleanupRequested :: string

record errorData =
  ed_User :: string
  ed_Message :: string
  ed_Detail :: string
  ed_Code :: int

datatype response =
    SignedOutPage
  | ListPage listData
  | DetailPage detailData
  | PartialPage ViewApp
  | LogPane logpaneData
  | ManifestPage manifestData
  | ErrorPage errorData
  | Redirect int string
  | Text int string

fun response_status :: "response \<Rightarrow> int" where
  "response_status (ErrorPage e) = ed_Code e"
| "response_status (Redirect code url) = code"
| "response_status (Text code body) = code"
| "response_status _ = 200"

section \<open>Helpers\<close>

definition UserFrom :: "request \<Rightarrow> string" where
  "UserFrom r = (if map_get (rq_Header r) ''X-Forwarded-User'' \<noteq> '''' then map_get (rq_Header r) ''X-Forwarded-User''
                 else map_get (rq_Header r) ''X-Auth-Request-User'')"

definition renderError :: "request \<Rightarrow> int \<Rightarrow> string \<Rightarrow> string \<Rightarrow> response" where
  "renderError r code msg err = ErrorPage \<lparr>ed_User = UserFrom r, ed_Message = msg, ed_Detail = err, ed_Code = code\<rparr>"

definition with_app ::
  "'w server \<Rightarrow> request \<Rightarrow> string \<Rightarrow> string \<Rightarrow> ((string \<times> any) list \<Rightarrow> ('w, response) console) \<Rightarrow> ('w, response) console" where
  \<comment> \<open>\<open>getApp\<close> and the early return of its callers\<close>
  "with_app S r ns name f =
     bindr (tryr (Get_app (sv_cluster S) ns name)) (\<lambda>res.
       case res of Inl err \<Rightarrow> ret (renderError r 404 ''App not found'' err) | Inr obj \<Rightarrow> f obj)"

definition view_now :: "'w server \<Rightarrow> (string \<times> any) list \<Rightarrow> ('w, ViewApp) console" where
  "view_now S obj =
     bindr (cluster_op (x_Now (sv_cluster S))) (\<lambda>now.
       ret (FromUnstructured (x_accessors (sv_cluster S)) (x_parseStandard (sv_cluster S)) now obj))"

definition build_metrics :: "'w cluster \<Rightarrow> Pod \<Rightarrow> string \<Rightarrow> int \<Rightarrow> BuildMetrics" where
  "build_metrics C p container bytes =
     (let memLim = containerMemLimit (x_QuantityValue C) p container; (pct, over) = StorageBar bytes memLim
      in \<lparr>bm_Container = container, bm_MemoryBytes = bytes, bm_MemoryHuman = HumanizeBytes bytes, bm_MemLimitBytes = memLim,
          bm_MemLimitHuman = (if memLim > 0 then HumanizeBytes memLim else ''''),
          bm_MemBarPct = (if pct \<noteq> StorageBarNoBar then pct else 0), bm_MemOver = (pct \<noteq> StorageBarNoBar \<and> over),
          bm_HasMemBar = (pct \<noteq> StorageBarNoBar)\<rparr>)"

definition attachBuildMetrics :: "'w server \<Rightarrow> string \<Rightarrow> ViewApp \<Rightarrow> ('w, ViewApp) console" where
  "attachBuildMetrics S ns app =
     (if \<not> sv_metrics S \<or> \<not> sv_pods S \<or> \<not> BuildActive app \<or> vb_PodName (va_Build app) = '''' then ret app
      else let container = defaultContainer (containerSteps (va_Build app)); unavailable = app\<lparr>va_BuildMetricsNote := ''metrics unavailable''\<rparr>
           in bindr (tryr (GetPod (sv_cluster S) ns (vb_PodName (va_Build app)))) (\<lambda>res.
              case res of
                Inl _ \<Rightarrow> ret unavailable
              | Inr p \<Rightarrow>
                  bindr (tryr (PodMetrics (sv_cluster S) (pod_NodeName (p_Spec p)) ns (vb_PodName (va_Build app)))) (\<lambda>res.
                  case res of
                    Inl _ \<Rightarrow> ret unavailable
                  | Inr usage \<Rightarrow>
                      (case map_of usage container of
                         None \<Rightarrow> ret unavailable
                       | Some bytes \<Rightarrow> ret (app\<lparr>va_BuildMetrics := Some (build_metrics (sv_cluster S) p container bytes)\<rparr>)))))"

section \<open>Pages\<close>

definition handleHealthz :: response where
  "handleHealthz = Text 200 ''ok''"

definition handleSignedOut :: response where
  "handleSignedOut = SignedOutPage"

definition handleList :: "'w server \<Rightarrow> request \<Rightarrow> ('w, response) console" where
  "handleList S r =
     (if rq_Path r \<noteq> [] then ret (Text 404 ''404 page not found'')
      else bindr (Synced (sv_cluster S)) (\<lambda>synced.
        if \<not> synced then ret (ListPage (warming (UserFrom r)))
        else bindr (tryr (List_apps (sv_cluster S))) (\<lambda>res.
          case res of
            Inl err \<Rightarrow> ret (renderError r 502 ''Could not list Apps'' err)
          | Inr apps \<Rightarrow>
              bindr (Stale (sv_cluster S)) (\<lambda>stale. ret (ListPage (list_page apps (rq_Query r) (UserFrom r) stale))))))"

definition handleDetail :: "'w server \<Rightarrow> request \<Rightarrow> string \<Rightarrow> string \<Rightarrow> ('w, response) console" where
  "handleDetail S r ns name =
     with_app S r ns name (\<lambda>obj. bindr (view_now S obj) (\<lambda>app. bindr (attachBuildMetrics S ns app) (\<lambda>app.
       ret (DetailPage \<lparr>dd_Title = name, dd_User = UserFrom r, dd_App = app,
         dd_Requested = (map_get (rq_Query r) ''rebuild'' = ''requested''), dd_CleanupRequested = map_get (rq_Query r) ''cleanup''\<rparr>))))"

definition handleManifest :: "'w server \<Rightarrow> request \<Rightarrow> string \<Rightarrow> string \<Rightarrow> ('w, response) console" where
  "handleManifest S r ns name =
     with_app S r ns name (\<lambda>obj.
       let U = x_accessors (sv_cluster S); (pruned, masked) = pruneManifest U obj
       in case sv_yaml S pruned of
            Inl err \<Rightarrow> ret (renderError r 500 ''Could not render manifest'' err)
          | Inr raw \<Rightarrow>
              ret (ManifestPage \<lparr>md_Title = name @ '' '' @ mid_dot @ '' manifest'', md_User = UserFrom r, md_Namespace = ns, md_Name = name,
                md_Highlighted = highlightYAML (sv_chroma S) raw, md_HasHidden = masked, md_SetupHint = setupHint U obj\<rparr>))"

definition handlePartial :: "'w server \<Rightarrow> request \<Rightarrow> string \<Rightarrow> string \<Rightarrow> ('w, response) console" where
  "handlePartial S r ns name =
     with_app S r ns name (\<lambda>obj. bindr (view_now S obj) (\<lambda>app. bindr (attachBuildMetrics S ns app) (\<lambda>app. ret (PartialPage app))))"

section \<open>Logs\<close>

definition logTailLines :: int where "logTailLines = 5000"

definition podLines :: "'w server \<Rightarrow> string \<Rightarrow> string \<Rightarrow> string \<Rightarrow> ('w, string + string list) console" where
  "podLines S ns p container =
     (if \<not> sv_pods S then ret (Inl ''pod reader unavailable'')
      else tryr (PodLogTail (sv_cluster S) ns p container logTailLines))"

definition lokiLines :: "'w server \<Rightarrow> string \<Rightarrow> ViewBuild \<Rightarrow> string \<Rightarrow> loki_config \<Rightarrow> ('w, string + string list) console" where
  \<comment> \<open>the case \<open>SourceLoki\<close> of \<open>resolveLogs\<close>; an unreadable start is the zero time\<close>
  "lokiLines S ns rec container cfg =
     (let start = (case ParseRFC3339 (vb_StartTime rec) of None \<Rightarrow> zero_time | Some t \<Rightarrow> t)
      in bindr (cluster_op (x_Now (sv_cluster S))) (\<lambda>now.
         let stop = (if vb_CompletionTime rec \<noteq> ''''
                     then (case ParseRFC3339 (vb_CompletionTime rec) of Some t \<Rightarrow> t | None \<Rightarrow> now) else now)
         in bindr (Tail cfg (sv_send S) ns (vb_PodName rec) container start stop logTailLines) (\<lambda>res.
            ret (case res of Inl e \<Rightarrow> Inl (loki_text e) | Inr ls \<Rightarrow> Inr ls))))"

definition with_lines :: "logpaneData \<Rightarrow> string \<Rightarrow> string + string list \<Rightarrow> logpaneData" where
  "with_lines data note res =
     (case res of
        Inl err \<Rightarrow> data\<lparr>lp_SourceNote := note, lp_Unavailable := ''logs unavailable '' @ em_dash @ '' '' @ err\<rparr>
      | Inr ls \<Rightarrow> data\<lparr>lp_SourceNote := note, lp_Lines := ls\<rparr>)"

definition resolveLogs ::
  "'w server \<Rightarrow> string \<Rightarrow> ViewBuild \<Rightarrow> bool \<Rightarrow> string \<Rightarrow> ViewStep list \<Rightarrow> ('w, logpaneData) console" where
  "resolveLogs S ns rec isCurrent container steps =
     (let data = \<lparr>lp_Namespace = ns, lp_Build = rec, lp_Container = container, lp_Steps = steps, lp_SourceNote = '''', lp_Lines = [],
                  lp_Unavailable = '''', lp_Follow = False, lp_AppActive = False, lp_IsCurrent = False\<rparr>;
          inProgress = (isCurrent \<and> (vb_Phase rec = ''Running'' \<or> vb_Phase rec = ''Pending'') \<and> vb_CompletionTime rec = '''');
          lokiConfigured = (case sv_tailer S of None \<Rightarrow> False | Some cfg \<Rightarrow> Configured cfg)
      in bindr (if vb_PodName rec \<noteq> '''' \<and> sv_pods S
                then bindr (tryr (GetPod (sv_cluster S) ns (vb_PodName rec))) (\<lambda>res. ret (case res of Inl _ \<Rightarrow> False | Inr _ \<Rightarrow> True))
                else ret False) (\<lambda>podRetained.
         case ResolveLogSource inProgress lokiConfigured podRetained of
           SourceLivePod \<Rightarrow> bindr (podLines S ns (vb_PodName rec) container) (\<lambda>res. ret (with_lines data ''live pod'' res))
         | SourcePodFallback \<Rightarrow> bindr (podLines S ns (vb_PodName rec) container) (\<lambda>res. ret (with_lines data ''pod (Loki unavailable)'' res))
         | SourceLoki \<Rightarrow>
             (case sv_tailer S of
                None \<Rightarrow> ret data
              | Some cfg \<Rightarrow> bindr (lokiLines S ns rec container cfg) (\<lambda>res. ret (with_lines data ''Loki'' res)))
         | SourceUnavailable \<Rightarrow>
             ret (data\<lparr>lp_Unavailable :=
               (if vb_JobName rec = '''' \<and> vb_PodName rec = ''''
                then ''no builds yet '' @ em_dash @ '' logs will appear when the first build starts''
                else ''logs unavailable '' @ em_dash @ '' job '' @ dashOr (vb_JobName rec) @ '' / pod '' @ dashOr (vb_PodName rec))\<rparr>)))"

definition handleLogs :: "'w server \<Rightarrow> request \<Rightarrow> string \<Rightarrow> string \<Rightarrow> ('w, response) console" where
  "handleLogs S r ns name =
     with_app S r ns name (\<lambda>obj. bindr (view_now S obj) (\<lambda>app.
       let follow = (map_get (rq_Query r) ''follow'' = ''1'');
           build = (if follow then ''current'' else map_get (rq_Query r) ''build'')
       in case pickBuild app build of
            None \<Rightarrow> ret (renderError r 404 ''build not found'' (''no build matches '' @ build))
          | Some (rec, isCurrent) \<Rightarrow>
              (let steps = containerSteps rec; container = map_get (rq_Query r) ''container'';
                   container = (if follow \<or> \<not> validContainer steps container then defaultContainer steps else container)
               in bindr (resolveLogs S ns rec isCurrent container steps) (\<lambda>data.
                  ret (LogPane (data\<lparr>lp_Follow := follow, lp_AppActive := BuildActive app, lp_IsCurrent := isCurrent\<rparr>))))))"

section \<open>Writes\<close>

abbreviation ErrNoUser where "ErrNoUser \<equiv> ''no authenticated user header''"

definition handle_request ::
  "(string \<Rightarrow> string \<Rightarrow> string \<Rightarrow> ('w, unit) console) \<Rightarrow> string \<Rightarrow> string \<Rightarrow> request \<Rightarrow> string \<Rightarrow> string \<Rightarrow> ('w, response) console" where
  "handle_request send failed flag r ns name =
     (let user = UserFrom r
      in if user = '''' then ret (renderError r 401 ''No authenticated user'' ErrNoUser)
         else bindr (tryr (send ns name user)) (\<lambda>res.
           case res of
             Inl err \<Rightarrow> ret (renderError r 502 failed err)
           | Inr _ \<Rightarrow> ret (Redirect 303 (''/ns/'' @ ns @ ''/app/'' @ name @ flag))))"

definition handleRebuild :: "'w server \<Rightarrow> request \<Rightarrow> string \<Rightarrow> string \<Rightarrow> ('w, response) console" where
  "handleRebuild S = handle_request (RequestRebuild (sv_cluster S)) ''Rebuild request failed'' ''?rebuild=requested''"

definition handleCleanupCache :: "'w server \<Rightarrow> request \<Rightarrow> string \<Rightarrow> string \<Rightarrow> ('w, response) console" where
  "handleCleanupCache S = handle_request (RequestCleanupCache (sv_cluster S)) ''Cache cleanup request failed'' ''?cleanup=cache''"

definition handleCleanupReleases :: "'w server \<Rightarrow> request \<Rightarrow> string \<Rightarrow> string \<Rightarrow> ('w, response) console" where
  "handleCleanupReleases S = handle_request (RequestCleanupReleases (sv_cluster S)) ''Release cleanup request failed'' ''?cleanup=releases''"

section \<open>Routes\<close>

datatype route =
    RHealthz | RSignedOut | RList
  | RDetail string string | RManifest string string | RPartial string string | RLogs string string
  | RRebuild string string | RCleanupCache string string | RCleanupReleases string string
  | RMethodNotAllowed

definition get_route :: "string list \<Rightarrow> route" where
  "get_route path =
     (case path of
        [a] \<Rightarrow> if a = ''healthz'' then RHealthz else if a = ''signed-out'' then RSignedOut else RList
      | [a, ns, b, name] \<Rightarrow> if a = ''ns'' \<and> b = ''app'' then RDetail ns name else RList
      | [a, ns, b, name, x] \<Rightarrow>
          if a = ''ns'' \<and> b = ''app'' then
            (if x = ''manifest'' then RManifest ns name else if x = ''partial'' then RPartial ns name
             else if x = ''logs'' then RLogs ns name else RList)
          else RList
      | _ \<Rightarrow> RList)"

definition post_route :: "string list \<Rightarrow> route" where
  "post_route path =
     (case path of
        [a, ns, b, name, x] \<Rightarrow>
          if a = ''ns'' \<and> b = ''app'' then
            (if x = ''rebuild'' then RRebuild ns name else if x = ''cleanup-cache'' then RCleanupCache ns name
             else if x = ''cleanup-releases'' then RCleanupReleases ns name else RMethodNotAllowed)
          else RMethodNotAllowed
      | _ \<Rightarrow> RMethodNotAllowed)"

definition route_of :: "request \<Rightarrow> route" where
  \<comment> \<open>\<open>GET\<close> patterns also serve \<open>HEAD\<close>; the pattern \<open>GET /\<close> takes every other path, so another method
     without a pattern of its own is refused\<close>
  "route_of r =
     (if rq_Method r = ''GET'' \<or> rq_Method r = ''HEAD'' then get_route (rq_Path r)
      else if rq_Method r = ''POST'' then post_route (rq_Path r)
      else RMethodNotAllowed)"

definition Routes :: "'w server \<Rightarrow> request \<Rightarrow> ('w, response) console" where
  "Routes S r =
     (case route_of r of
        RHealthz \<Rightarrow> ret handleHealthz
      | RSignedOut \<Rightarrow> ret handleSignedOut
      | RList \<Rightarrow> handleList S r
      | RDetail ns name \<Rightarrow> handleDetail S r ns name
      | RManifest ns name \<Rightarrow> handleManifest S r ns name
      | RPartial ns name \<Rightarrow> handlePartial S r ns name
      | RLogs ns name \<Rightarrow> handleLogs S r ns name
      | RRebuild ns name \<Rightarrow> handleRebuild S r ns name
      | RCleanupCache ns name \<Rightarrow> handleCleanupCache S r ns name
      | RCleanupReleases ns name \<Rightarrow> handleCleanupReleases S r ns name
      | RMethodNotAllowed \<Rightarrow> ret (Text 405 ''Method Not Allowed''))"

section \<open>Who may write\<close>

text \<open>
  \<open>quiet\<close>: the computation sends no patch. \<open>reads\<close>: it also always produces a value. The rules follow the
  shape of the handlers, so each handler is an application of the collection.
\<close>

named_theorems reads_intros "rules for computations that send no patch"

definition quiet :: "('w, 'a) console \<Rightarrow> bool" where
  "quiet m \<longleftrightarrow> (\<forall>s. c_writes (snd (m s)) = c_writes s)"

definition reads :: "('w, 'a) console \<Rightarrow> bool" where
  "reads m \<longleftrightarrow> quiet m \<and> (\<forall>s. \<exists>x. fst (m s) = Inr x)"

lemma quiet_basic [reads_intros]:
  "quiet (ret x)" "quiet (raise e)" "quiet (cluster_op f)" "quiet (gets g)"
  by (simp_all add: quiet_def ret_def raise_def cluster_op_def gets_def case_prod_beta)

lemma quiet_bindr [reads_intros]: "quiet m \<Longrightarrow> (\<And>x. quiet (f x)) \<Longrightarrow> quiet (bindr m f)"
  unfolding quiet_def bindr_def by (auto split: prod.split sum.split) (metis snd_conv)+

lemma reads_basic [reads_intros]: "reads (ret x)" "reads (cluster_op f)" "reads (gets g)"
  using quiet_basic by (auto simp: reads_def ret_def cluster_op_def gets_def case_prod_beta)

lemma reads_bindr [reads_intros]: "reads m \<Longrightarrow> (\<And>x. reads (f x)) \<Longrightarrow> reads (bindr m f)"
proof -
  assume m: "reads m" and f: "\<And>x. reads (f x)"
  have "\<exists>y. fst (bindr m f s) = Inr y" for s
  proof -
    from m obtain x where "fst (m s) = Inr x" by (auto simp: reads_def)
    with f show ?thesis by (cases "m s") (auto simp: bindr_def reads_def)
  qed
  with m f show "reads (bindr m f)" by (simp add: reads_def quiet_bindr)
qed

lemma reads_tryr [reads_intros]: "quiet m \<Longrightarrow> reads (tryr m)"
  by (auto simp: reads_def quiet_def tryr_def case_prod_beta)

lemma quiet_wrapped [reads_intros]: "quiet (wrapped w r)"
  by (cases r) (simp_all add: wrapped_def quiet_basic)

lemma quiet_view_objects [reads_intros]: "quiet (view_objects C xs)"
  by (induction xs) (auto split: option.split intro!: reads_intros)

lemma quiet_calls [reads_intros]:
  "quiet (List_apps C)" "quiet (Get_app C ns name)" "quiet (GetPod C ns name)" "quiet (PodLogTail C ns p c n)"
  "quiet (PodMetrics C node ns p)"
  unfolding List_apps_def Get_app_def GetPod_def PodLogTail_def PodMetrics_def Let_def
  by (auto intro!: reads_intros split: sum.split)

lemma reads_calls [reads_intros]:
  "reads (Synced C)" "reads (Stale C)" "reads (view_now S obj)" "reads (podLines S ns p c)"
  "reads (Tail cfg send ns p c t0 t1 n)"
  unfolding Synced_def Stale_def view_now_def podLines_def Tail_def Let_def
  by (auto intro!: reads_intros split: sum.split)

lemma reads_lokiLines [reads_intros]: "reads (lokiLines S ns rec c cfg)"
  unfolding lokiLines_def Let_def by (auto intro!: reads_intros)

lemma reads_resolveLogs [reads_intros]: "reads (resolveLogs S ns rec cur c steps)"
  unfolding resolveLogs_def Let_def by (auto intro!: reads_intros split: Source.split option.split)

lemma reads_metrics [reads_intros]: "reads (attachBuildMetrics S ns app)"
  unfolding attachBuildMetrics_def Let_def by (auto intro!: reads_intros split: sum.split option.split)

lemma reads_with_app [reads_intros]: "(\<And>obj. reads (f obj)) \<Longrightarrow> reads (with_app S r ns name f)"
  unfolding with_app_def by (auto intro!: reads_intros split: sum.split)

lemma reads_pages [reads_intros]:
  "reads (handleList S r)" "reads (handleDetail S r ns name)" "reads (handleManifest S r ns name)"
  "reads (handlePartial S r ns name)" "reads (handleLogs S r ns name)"
  unfolding handleList_def handleDetail_def handleManifest_def handlePartial_def handleLogs_def Let_def
  by (auto intro!: reads_intros split: sum.split option.split prod.split)

lemma handle_request_effect:
  assumes send: "\<And>s. \<exists>now. c_writes (snd (send ns name (UserFrom r) s)) = c_writes s @ [(ns, name, patch now)]"
  shows "\<exists>resp. fst (handle_request send failed flag r ns name s) = Inr resp"
    and "UserFrom r = '''' \<Longrightarrow> handle_request send failed flag r ns name s = (Inr (renderError r 401 ''No authenticated user'' ErrNoUser), s)"
    and "UserFrom r \<noteq> '''' \<Longrightarrow> \<exists>now. c_writes (snd (handle_request send failed flag r ns name s)) = c_writes s @ [(ns, name, patch now)]"
proof -
  show "\<exists>resp. fst (handle_request send failed flag r ns name s) = Inr resp"
    by (auto simp: handle_request_def Let_def bindr_def tryr_def ret_def split: prod.split sum.split)
  show "handle_request send failed flag r ns name s = (Inr (renderError r 401 ''No authenticated user'' ErrNoUser), s)"
    if "UserFrom r = ''''" using that by (simp add: handle_request_def ret_def Let_def)
  assume user: "UserFrom r \<noteq> ''''"
  have "snd (handle_request send failed flag r ns name s) = snd (send ns name (UserFrom r) s)"
    using user by (auto simp: handle_request_def Let_def bindr_def tryr_def ret_def split: prod.split sum.split)
  with send [of s] show "\<exists>now. c_writes (snd (handle_request send failed flag r ns name s)) = c_writes s @ [(ns, name, patch now)]" by simp
qed

lemma patch_app_writes: "c_writes (snd (patch_app C what ns name patch s)) = c_writes s @ [(ns, name, patch)]"
  by (auto simp: patch_app_def seqr_def bindr_def modify_def cluster_op_def ret_def raise_def split: prod.split option.split)

lemma clock_then:
  assumes "\<And>now s. c_writes (snd (f now s)) = c_writes s @ [(ns, name, patch now)]"
  shows "\<exists>now. c_writes (snd (bindr (cluster_op clock) f s)) = c_writes s @ [(ns, name, patch now)]"
  using assms by (auto simp: bindr_def cluster_op_def split: prod.split)

lemma request_writes:
  "\<exists>now. c_writes (snd (RequestRebuild C ns name user s)) = c_writes s @ [(ns, name, rebuildPatch (x_isPrint C) user now)]"
  "\<exists>now. c_writes (snd (RequestCleanupCache C ns name user s)) = c_writes s @
     [(ns, name, cleanupPatch (x_isPrint C) AnnotationCleanupCacheRequestedAt AnnotationCleanupCacheBy user now)]"
  "\<exists>now. c_writes (snd (RequestCleanupReleases C ns name user s)) = c_writes s @
     [(ns, name, cleanupPatch (x_isPrint C) AnnotationCleanupReleasesRequestedAt AnnotationCleanupReleasesBy user now)]"
  unfolding RequestRebuild_def RequestCleanupCache_def RequestCleanupReleases_def
  by (rule clock_then, rule patch_app_writes)+

text \<open>The specification of what a request may write, independent of the code: who is signed in, by the headers of the
  proxy, and the JSON document with the annotations of the three buttons. \<open>Quote\<close> is Go's \<open>%q\<close>.\<close>

definition header_user :: "request \<Rightarrow> string" where
  "header_user r =
     (case filter (\<lambda>u. u \<noteq> '''') (map (map_get (rq_Header r)) [''X-Forwarded-User'', ''X-Auth-Request-User'']) of
        [] \<Rightarrow> '''' | u # _ \<Rightarrow> u)"

definition annotations_text :: "(nat \<Rightarrow> bool) \<Rightarrow> (string \<times> string option) list \<Rightarrow> string" where
  \<comment> \<open>a merge patch that sets annotations, or removes them (\<open>null\<close>)\<close>
  "annotations_text P entries =
     ''{'' @ Quote P ''metadata'' @ '':{'' @ Quote P ''annotations'' @ '':{'' @
     Join (map (\<lambda>(k, v). Quote P k @ '':'' @ (case v of None \<Rightarrow> ''null'' | Some x \<Rightarrow> Quote P x)) entries) '','' @ ''}}}''"

definition intended_patch :: "'w server \<Rightarrow> request \<Rightarrow> (string \<times> string \<times> (time \<Rightarrow> string)) option" where
  \<comment> \<open>the one patch a request may cause: only for a signed-in user, and only on the three \<open>POST\<close> routes\<close>
  "intended_patch S r =
     (let text = annotations_text (x_isPrint (sv_cluster S)); user = header_user r
      in if user = '''' \<or> rq_Method r \<noteq> ''POST'' then None
         else case rq_Path r of
                [a, ns, b, name, x] \<Rightarrow>
                  if a \<noteq> ''ns'' \<or> b \<noteq> ''app'' then None
                  else if x = ''rebuild''
                  then Some (ns, name, \<lambda>now. text
                    [(''rebuild.baker.toggle-corp.com/requested-at'', Some (FormatRFC3339 now)),
                     (''rebuild.baker.toggle-corp.com/by'', Some user), (''rebuild.baker.toggle-corp.com/commit'', None)])
                  else if x = ''cleanup-cache''
                  then Some (ns, name, \<lambda>now. text
                    [(''cleanup-cache.baker.toggle-corp.com/requested-at'', Some (FormatRFC3339 now)),
                     (''cleanup-cache.baker.toggle-corp.com/by'', Some user)])
                  else if x = ''cleanup-releases''
                  then Some (ns, name, \<lambda>now. text
                    [(''cleanup-releases.baker.toggle-corp.com/requested-at'', Some (FormatRFC3339 now)),
                     (''cleanup-releases.baker.toggle-corp.com/by'', Some user)])
                  else None
              | _ \<Rightarrow> None)"

lemma header_user_eq [simp]: "header_user r = UserFrom r"
  by (simp add: header_user_def UserFrom_def)

lemma patch_texts [simp]:
  "(\<lambda>now. annotations_text P [(''rebuild.baker.toggle-corp.com/requested-at'', Some (FormatRFC3339 now)),
     (''rebuild.baker.toggle-corp.com/by'', Some user), (''rebuild.baker.toggle-corp.com/commit'', None)]) = rebuildPatch P user"
  "(\<lambda>now. annotations_text P [(k1, Some (FormatRFC3339 now)), (k2, Some user)]) = cleanupPatch P k1 k2 user"
  by (rule ext, simp add: annotations_text_def rebuildPatch_def cleanupPatch_def)+

lemma read_routes:
  assumes "reads m"
  shows "(\<exists>resp. fst (m s) = Inr resp) \<and> c_writes (snd (m s)) = c_writes s"
  using assms by (auto simp: reads_def quiet_def)

lemma intended_of_route:
  "route_of r = RRebuild ns name \<Longrightarrow>
     intended_patch S r = (if UserFrom r = '''' then None else Some (ns, name, rebuildPatch (x_isPrint (sv_cluster S)) (UserFrom r)))"
  "route_of r = RCleanupCache ns name \<Longrightarrow>
     intended_patch S r = (if UserFrom r = '''' then None else Some (ns, name,
       cleanupPatch (x_isPrint (sv_cluster S)) AnnotationCleanupCacheRequestedAt AnnotationCleanupCacheBy (UserFrom r)))"
  "route_of r = RCleanupReleases ns name \<Longrightarrow>
     intended_patch S r = (if UserFrom r = '''' then None else Some (ns, name,
       cleanupPatch (x_isPrint (sv_cluster S)) AnnotationCleanupReleasesRequestedAt AnnotationCleanupReleasesBy (UserFrom r)))"
  "(\<forall>ns name. route_of r \<notin> {RRebuild ns name, RCleanupCache ns name, RCleanupReleases ns name}) \<Longrightarrow> intended_patch S r = None"
proof -
  have get: "get_route path \<noteq> RRebuild ns name" "get_route path \<noteq> RCleanupCache ns name" "get_route path \<noteq> RCleanupReleases ns name" for path
    unfolding get_route_def by (simp_all split: list.split)
  have post: "post_route path = RRebuild ns name \<Longrightarrow> path = [''ns'', ns, ''app'', name, ''rebuild'']"
    "post_route path = RCleanupCache ns name \<Longrightarrow> path = [''ns'', ns, ''app'', name, ''cleanup-cache'']"
    "post_route path = RCleanupReleases ns name \<Longrightarrow> path = [''ns'', ns, ''app'', name, ''cleanup-releases'']" for path
    unfolding post_route_def by (simp_all split: list.splits if_splits)
  show "intended_patch S r = (if UserFrom r = '''' then None else Some (ns, name, rebuildPatch (x_isPrint (sv_cluster S)) (UserFrom r)))"
    if "route_of r = RRebuild ns name"
    using that get(1) by (auto simp: route_of_def intended_patch_def dest!: post(1) split: if_splits)
  show "intended_patch S r = (if UserFrom r = '''' then None else Some (ns, name,
       cleanupPatch (x_isPrint (sv_cluster S)) AnnotationCleanupCacheRequestedAt AnnotationCleanupCacheBy (UserFrom r)))"
    if "route_of r = RCleanupCache ns name"
    using that get(2) by (auto simp: route_of_def intended_patch_def dest!: post(2) split: if_splits)
  show "intended_patch S r = (if UserFrom r = '''' then None else Some (ns, name,
       cleanupPatch (x_isPrint (sv_cluster S)) AnnotationCleanupReleasesRequestedAt AnnotationCleanupReleasesBy (UserFrom r)))"
    if "route_of r = RCleanupReleases ns name"
    using that get(3) by (auto simp: route_of_def intended_patch_def dest!: post(3) split: if_splits)
  show "intended_patch S r = None"
    if "\<forall>ns name. route_of r \<notin> {RRebuild ns name, RCleanupCache ns name, RCleanupReleases ns name}"
  proof (cases "rq_Method r = ''POST''")
    case True
    then have "route_of r = post_route (rq_Path r)" by (simp add: route_of_def)
    with that show ?thesis unfolding intended_patch_def post_route_def Let_def by (auto split: list.splits if_splits)
  qed (simp add: intended_patch_def)
qed

text \<open>C9. The console never writes on its own: a request in which both user headers (\<open>X-Forwarded-User\<close>, then
  \<open>X-Auth-Request-User\<close>) are absent or empty, or on any route but the three \<open>POST\<close> routes, sends no patch at all, and
  a request of a signed-in user on one of those routes sends exactly one patch, to the App named in its path, whose
  document sets the time and the user's name in the two annotations of that button (and removes the commit
  annotation, for a rebuild). Every request is answered: no error of the cluster, of Loki or of a decoder escapes
  the handlers.\<close>

theorem console_writes_only_for_users:
  "(\<exists>resp. fst (Routes S r s) = Inr resp) \<and>
   (case intended_patch S r of
      None \<Rightarrow> c_writes (snd (Routes S r s)) = c_writes s
    | Some (ns, name, patch) \<Rightarrow> \<exists>now. c_writes (snd (Routes S r s)) = c_writes s @ [(ns, name, patch now)])"
proof (cases "route_of r")
  case (RRebuild ns name)
  note eff = handle_request_effect [of "RequestRebuild (sv_cluster S)" ns name r, OF request_writes(1)]
  show ?thesis
    using eff by (auto simp: Routes_def RRebuild handleRebuild_def intended_of_route(1) [OF RRebuild])
next
  case (RCleanupCache ns name)
  note eff = handle_request_effect [of "RequestCleanupCache (sv_cluster S)" ns name r, OF request_writes(2)]
  show ?thesis
    using eff by (auto simp: Routes_def RCleanupCache handleCleanupCache_def intended_of_route(2) [OF RCleanupCache])
next
  case (RCleanupReleases ns name)
  note eff = handle_request_effect [of "RequestCleanupReleases (sv_cluster S)" ns name r, OF request_writes(3)]
  show ?thesis
    using eff by (auto simp: Routes_def RCleanupReleases handleCleanupReleases_def intended_of_route(3) [OF RCleanupReleases])
qed (auto simp: Routes_def intended_of_route(4) intro!: reads_intros read_routes [THEN conjunct1] read_routes [THEN conjunct2])

section \<open>The log pane\<close>

named_theorems gives_intros "rules for what a computation returns"

definition gives :: "('a \<Rightarrow> bool) \<Rightarrow> ('w, 'a) console \<Rightarrow> bool" where
  "gives P m \<longleftrightarrow> (\<forall>s. case fst (m s) of Inr x \<Rightarrow> P x | Inl _ \<Rightarrow> True)"

lemma gives_ret [gives_intros]: "P x \<Longrightarrow> gives P (ret x)"
  by (simp add: gives_def ret_def)

lemma gives_bindr: "gives Q m \<Longrightarrow> (\<And>x. Q x \<Longrightarrow> gives P (f x)) \<Longrightarrow> gives P (bindr m f)"
  unfolding gives_def bindr_def by (auto split: prod.splits sum.splits) (metis fst_conv sum.simps(6))

lemma gives_any: "gives (\<lambda>_. True) m"
  by (simp add: gives_def split: sum.split)

lemmas gives_then [gives_intros] = gives_bindr [OF gives_any]

lemma gives_with_app [gives_intros]:
  "(\<And>err. P (renderError r 404 ''App not found'' err)) \<Longrightarrow> (\<And>obj. gives P (f obj)) \<Longrightarrow> gives P (with_app S r ns name f)"
  unfolding with_app_def by (auto intro!: gives_intros split: sum.split)

lemma gives_resolveLogs:
  "gives (\<lambda>d. lp_Container d = container \<and> lp_Steps d = steps \<and> (lp_Unavailable d = '''' \<or> lp_Lines d = []))
     (resolveLogs S ns rec cur container steps)"
  unfolding resolveLogs_def with_lines_def Let_def
  by (auto intro!: gives_intros split: Source.split option.split sum.split)

definition real_container :: "ViewStep list \<Rightarrow> string \<Rightarrow> bool" where
  "real_container steps name = (if steps = [] then name = ''build'' else validContainer steps name)"

lemma gap_step_member: "gap_step b steps = Some name \<Longrightarrow> validContainer steps name"
  by (induction steps arbitrary: b) (auto simp: validContainer_def split: if_splits)

lemma defaultContainer_real: "real_container steps (defaultContainer steps)"
proof -
  have found: "find P steps = Some st \<Longrightarrow> validContainer steps (vs_Name st)" for P st
    by (auto simp: validContainer_def list_ex_iff find_Some_iff)
  have ends: "validContainer steps (vs_Name (last steps))" "validContainer steps (vs_Name (hd steps))" if "steps \<noteq> []"
    using that by (auto simp: validContainer_def list_ex_iff)
  have none: "defaultContainer [] = ''build''" by (simp add: defaultContainer_def)
  show ?thesis
  proof (cases "steps = []")
    case False
    then have "(case steps of [] \<Rightarrow> ''build'' | st # _ \<Rightarrow> if vs_Status st = ''Pending'' then vs_Name st else vs_Name (last steps)) \<in>
        {vs_Name (hd steps), vs_Name (last steps)}" by (simp split: list.split)
    with ends [OF False] have "validContainer steps (case steps of [] \<Rightarrow> ''build''
        | st # _ \<Rightarrow> if vs_Status st = ''Pending'' then vs_Name st else vs_Name (last steps))" by auto
    with False found gap_step_member show ?thesis
      unfolding real_container_def defaultContainer_def by (simp split: option.split)
  qed (simp add: real_container_def none)
qed

lemma gives_handleLogs:
  "gives (\<lambda>resp. case resp of
      LogPane d \<Rightarrow> real_container (lp_Steps d) (lp_Container d) \<and> list_all (\<lambda>st. vs_Name st \<noteq> releaseStepName) (lp_Steps d) \<and>
        (if lp_Follow d then lp_IsCurrent d else True) \<and> (lp_Unavailable d = '''' \<or> lp_Lines d = [])
    | ErrorPage e \<Rightarrow> ed_Code e = 404 | _ \<Rightarrow> False) (handleLogs S r ns name)"
proof -
  have steps: "list_all (\<lambda>st. vs_Name st \<noteq> releaseStepName) (containerSteps rec)" for rec
    by (simp add: containerSteps_def list_all_iff)
  have current: "pickBuild app ''current'' = Some (rec, cur) \<longleftrightarrow> rec = va_Build app \<and> cur" for app rec cur
    by (auto simp: pickBuild_def)
  have valid: "validContainer ss c \<Longrightarrow> real_container ss c" for ss c
    by (auto simp: real_container_def validContainer_def)
  show ?thesis
    unfolding handleLogs_def Let_def
    by (auto simp: renderError_def steps defaultContainer_real valid current
        intro!: gives_intros gives_bindr [OF gives_resolveLogs] split: option.split if_splits)
qed

text \<open>The log pane never asks for a container that does not exist: whatever the query says and whatever the
  cluster answers, the logs shown are those of a container of the build shown (of \<open>build\<close> when it has no steps yet),
  never of the synthetic release step; in follow mode it is the current build; lines are shown or the
  reason for their absence, never both; and the only error is that the App or the build is not found.\<close>

theorem log_pane_real_container:
  "case fst (handleLogs S r ns name s) of
     Inl _ \<Rightarrow> False
   | Inr (LogPane d) \<Rightarrow> real_container (lp_Steps d) (lp_Container d) \<and> list_all (\<lambda>st. vs_Name st \<noteq> releaseStepName) (lp_Steps d) \<and>
       (if lp_Follow d then lp_IsCurrent d else True) \<and> (lp_Unavailable d = '''' \<or> lp_Lines d = [])
   | Inr (ErrorPage e) \<Rightarrow> ed_Code e = 404
   | Inr _ \<Rightarrow> False"
proof -
  obtain resp where "fst (handleLogs S r ns name s) = Inr resp"
    using reads_pages(5) [of S r ns name] by (auto simp: reads_def)
  with gives_handleLogs [of S r ns name, unfolded gives_def, rule_format, of s] show ?thesis
    by (cases resp) simp_all
qed

end
