(* ===== verification/Sentry_Core.thy ===== *)
theory Sentry_Core
  imports Sentry_Limiter
begin

text \<open>
  \<open>internal/observability/zapcore.go\<close>: the zap core that forwards error logs to Sentry through the reporter's
  limiter, and \<open>internal/observability/init.go\<close>.

  A zap field is its key with either an error (\<^const>\<open>None\<close> when \<open>Field.Interface\<close> holds no error) or another
  value. How zap encodes a field into the event context is the parameter \<open>addTo\<close>. The limiter is shared by all
  clones of a core and by \<open>CaptureTerminalFailure\<close>, so it is passed along; the result of a write lists the
  events handed to the hub.
\<close>

definition maxFingerprintErrLen :: nat where "maxFingerprintErrLen = 200"

definition truncate_bytes :: "string \<Rightarrow> nat \<Rightarrow> string" where
  "truncate_bytes s n = (if length s \<le> n then s else take n s)"

datatype zap_field = ErrorField string "log_error option" | ValueField string string

record zap_entry =
  ze_Level :: int
  ze_LoggerName :: string
  ze_Message :: string

definition ErrorLevel :: int where "ErrorLevel = 2"

record core_event =
  ce_Message :: string
  ce_Fingerprint :: "string list"
  ce_Exception :: "log_error option"
  ce_Fields :: "string gomap option"

record sentryCore =
  sc_fields :: "zap_field list"

definition NewZapCore :: "fingerprintLimiter option \<Rightarrow> sentryCore option" where
  \<comment> \<open>\<^const>\<open>None\<close>, the core that does nothing, for a nil reporter\<close>
  "NewZapCore r = (case r of None \<Rightarrow> None | Some _ \<Rightarrow> Some \<lparr>sc_fields = []\<rparr>)"

definition Enabled :: "int \<Rightarrow> bool" where
  "Enabled level \<longleftrightarrow> level \<ge> ErrorLevel"

definition With :: "sentryCore \<Rightarrow> zap_field list \<Rightarrow> sentryCore" where
  "With c flds = \<lparr>sc_fields = sc_fields c @ flds\<rparr>"

definition Check :: "sentryCore \<Rightarrow> zap_entry \<Rightarrow> sentryCore list \<Rightarrow> sentryCore list" where
  \<comment> \<open>the cores of a checked entry\<close>
  "Check c entry ce = (if \<not> Enabled (ze_Level entry) then ce else ce @ [c])"

fun last_error :: "log_error option \<Rightarrow> zap_field list \<Rightarrow> log_error option" where
  "last_error e [] = e"
| "last_error e (ErrorField k (Some err) # fs) = last_error (Some err) fs"
| "last_error e (f # fs) = last_error e fs"

definition extractError :: "zap_field list list \<Rightarrow> log_error option" where
  "extractError fieldSets = last_error None (concat fieldSets)"

definition error_text :: "log_error \<Rightarrow> string" where
  \<comment> \<open>\<open>err.Error()\<close>, which the code asks only of an error that was not dropped\<close>
  "error_text e = (case e of OtherError t \<Rightarrow> t | ConflictError \<Rightarrow> ''conflict'' | CanceledError \<Rightarrow> ''context canceled'')"

definition core_fingerprint :: "zap_entry \<Rightarrow> log_error option \<Rightarrow> string list" where
  "core_fingerprint entry err =
     [ze_LoggerName entry, ze_Message entry] @
     (case err of None \<Rightarrow> [] | Some e \<Rightarrow> [truncate_bytes (error_text e) maxFingerprintErrLen])"

definition Write ::
  "(zap_field \<Rightarrow> string gomap \<Rightarrow> string gomap) \<Rightarrow> sentryCore \<Rightarrow> time \<Rightarrow> zap_entry \<Rightarrow> zap_field list \<Rightarrow>
   fingerprintLimiter \<Rightarrow> core_event list \<times> fingerprintLimiter" where
  "Write addTo c now entry flds l =
     (if dropMessage (ze_Message entry) then ([], l)
      else let err = extractError [sc_fields c, flds]
           in if dropError err then ([], l)
              else let fingerprint = core_fingerprint entry err; (ok, l') = allow now fingerprint l
                   in if \<not> ok then ([], l')
                      else let enc = foldl (\<lambda>m f. addTo f m) [] (sc_fields c @ flds)
                           in ([\<lparr>ce_Message = ze_Message entry, ce_Fingerprint = fingerprint, ce_Exception = err,
                                 ce_Fields = (if enc \<noteq> [] then Some enc else None)\<rparr>], l'))"

definition Sync :: "string option" where "Sync = None"

section \<open>init.go\<close>

record sentry_options =
  so_Dsn :: string
  so_Environment :: string
  so_Release :: string

definition InitFromEnv ::
  "(string \<Rightarrow> string) \<Rightarrow> (sentry_options \<Rightarrow> string option) \<Rightarrow> string + fingerprintLimiter option" where
  \<comment> \<open>\<open>sentry.NewClient\<close> is the parameter \<open>newClient\<close>, which answers with an error or nothing; a reporter is its limiter\<close>
  "InitFromEnv getenv newClient =
     (let dsn = getenv ''SENTRY_DSN''
      in if dsn = '''' then Inr None
         else case newClient \<lparr>so_Dsn = dsn, so_Environment = getenv ''SENTRY_ENVIRONMENT'', so_Release = getenv ''SENTRY_RELEASE''\<rparr> of
                Some err \<Rightarrow> Inl (''init sentry: '' @ err)
              | None \<Rightarrow> Inr (Some newFingerprintLimiter))"

section \<open>What reaches Sentry\<close>

type_synonym log_call = "time \<times> sentryCore \<times> zap_entry \<times> zap_field list"

fun core_run :: "(zap_field \<Rightarrow> string gomap \<Rightarrow> string gomap) \<Rightarrow> fingerprintLimiter \<Rightarrow> log_call list \<Rightarrow> core_event list list" where
  \<comment> \<open>the events of each of a sequence of writes, by any of the clones\<close>
  "core_run addTo l [] = []"
| "core_run addTo l ((now, c, entry, flds) # calls) =
     (case Write addTo c now entry flds l of (evs, l') \<Rightarrow> evs # core_run addTo l' calls)"

definition logged_error :: "zap_field list \<Rightarrow> log_error option" where
  \<comment> \<open>the last error among the fields\<close>
  "logged_error fs =
     (let errs = concat (map (\<lambda>f. case f of ErrorField _ (Some e) \<Rightarrow> [e] | _ \<Rightarrow> []) fs)
      in if errs = [] then None else Some (last errs))"

definition noise :: "log_call \<Rightarrow> bool" where
  \<comment> \<open>leader-election chatter, conflicts and cancellations\<close>
  "noise call = (case call of (now, c, entry, flds) \<Rightarrow>
     Contains (ze_Message entry) ''leader election'' \<or>
     logged_error (sc_fields c @ flds) \<in> {Some ConflictError, Some CanceledError})"

definition report :: "(zap_field \<Rightarrow> string gomap \<Rightarrow> string gomap) \<Rightarrow> log_call \<Rightarrow> core_event" where
  \<comment> \<open>the event of a log write; its fingerprint is the logger, the message and the first 200 bytes of the error text\<close>
  "report addTo call = (case call of (now, c, entry, flds) \<Rightarrow>
     let all = sc_fields c @ flds; context = foldl (\<lambda>m f. addTo f m) [] all
     in \<lparr>ce_Message = ze_Message entry,
         ce_Fingerprint = [ze_LoggerName entry, ze_Message entry] @
           (case logged_error all of None \<Rightarrow> [] | Some e \<Rightarrow> [take 200 (error_text e)]),
         ce_Exception = logged_error all,
         ce_Fields = (if context = [] then None else Some context)\<rparr>)"

fun nul_joined :: "string list \<Rightarrow> string" where
  "nul_joined [] = []"
| "nul_joined (x # xs) = x @ concat (map (\<lambda>y. CHR 0x00 # y) xs)"

fun reports :: "(zap_field \<Rightarrow> string gomap \<Rightarrow> string gomap) \<Rightarrow> (string \<Rightarrow> time option) \<Rightarrow> log_call list \<Rightarrow> core_event list list" where
  \<comment> \<open>what each write of a sequence sends: \<open>L\<close> has the time of the last event of each fingerprint, and forgets nothing\<close>
  "reports addTo L [] = []"
| "reports addTo L (call # calls) =
     (let k = nul_joined (ce_Fingerprint (report addTo call))
      in if noise call then [] # reports addTo L calls
         else if \<exists>t. L k = Some t \<and> fst call - t < 3600 * 10 ^ 9 then [] # reports addTo L calls
         else [report addTo call] # reports addTo (L(k \<mapsto> fst call)) calls)"

lemma extractError_eq: "extractError [fs, gs] = logged_error (fs @ gs)"
proof -
  let ?errs = "\<lambda>fs. concat (map (\<lambda>f. case f of ErrorField _ (Some e) \<Rightarrow> [e] | _ \<Rightarrow> []) fs)"
  have "last_error e fs = (if ?errs fs = [] then e else Some (last (?errs fs)))" for e fs
    by (induction e fs rule: last_error.induct) auto
  then show ?thesis unfolding extractError_def logged_error_def Let_def by (simp only: concat.simps append_Nil2)
qed

lemma joinFingerprint_eq: "joinFingerprint xs = nul_joined xs"
proof -
  have "Join (x # xs) [CHR 0x00] = x @ concat (map (\<lambda>y. CHR 0x00 # y) xs)" for x xs
    by (induction xs arbitrary: x) simp_all
  then show ?thesis by (cases xs) (simp_all add: joinFingerprint_def)
qed

lemma Write_noise: "noise (now, c, entry, flds) \<Longrightarrow> Write addTo c now entry flds l = ([], l)"
  by (auto simp: noise_def Write_def dropMessage_def dropError_def extractError_eq Let_def)

lemma Write_loud:
  assumes "\<not> noise (now, c, entry, flds)"
  shows "Write addTo c now entry flds l =
    (case allow now (ce_Fingerprint (report addTo (now, c, entry, flds))) l of
       (ok, l') \<Rightarrow> (if ok then [report addTo (now, c, entry, flds)] else [], l'))"
proof -
  have loud: "\<not> dropMessage (ze_Message entry)" "\<not> dropError (logged_error (sc_fields c @ flds))"
    using assms by (auto simp: noise_def dropMessage_def dropError_def split: option.split)
  have "core_fingerprint entry err = [ze_LoggerName entry, ze_Message entry] @ (case err of None \<Rightarrow> [] | Some e \<Rightarrow> [take 200 (error_text e)])" for err
    by (simp add: core_fingerprint_def truncate_bytes_def maxFingerprintErrLen_def split: option.split)
  with loud show ?thesis by (simp add: Write_def extractError_eq report_def Let_def case_prod_beta)
qed

lemma core_run_reports:
  assumes "operator_limiter.sim t l L" "sorted (t # map fst calls)"
  shows "core_run addTo l calls = reports addTo L calls"
  using assms
proof (induction calls arbitrary: t l L)
  case (Cons call calls)
  obtain now c entry flds where call: "call = (now, c, entry, flds)" by (cases call)
  have sim: "operator_limiter.sim now l L" by (rule operator_limiter.sim_mono [OF Cons.prems(1)]) (use Cons.prems(2) call in simp)
  have srt: "sorted (now # map fst calls)" using Cons.prems(2) call by simp
  note IH = Cons.IH [OF _ srt]
  show ?case
  proof (cases "noise call")
    case True
    with Write_noise [of now c entry flds addTo l] IH [OF sim] show ?thesis by (simp add: call Let_def)
  next
    case False
    let ?fp = "ce_Fingerprint (report addTo call)"
    obtain ok l' where gate: "allow now ?fp l = (ok, l')" by (meson surj_pair)
    have mute: "ok \<longleftrightarrow> \<not> (\<exists>t. L (nul_joined ?fp) = Some t \<and> now - t < 3600 * 10 ^ 9)"
      using operator_limiter.sim_step(1) [OF sim, of ?fp] gate
      by (auto simp: joinFingerprint_eq limitWindow_def Hour_def Minute_def Second_def split: option.splits)
    have "ok \<Longrightarrow> operator_limiter.sim now l' (L(nul_joined ?fp \<mapsto> now))" "\<not> ok \<Longrightarrow> operator_limiter.sim now l' L"
      using operator_limiter.sim_step(2,3) [OF sim, of ?fp] gate by (simp_all add: joinFingerprint_eq)
    with IH Write_loud [OF False [unfolded call], of addTo l] gate mute False show ?thesis
      by (cases ok) (simp_all add: call Let_def del: fun_upd_apply)
  qed
qed simp

text \<open>C29. Error logs reach Sentry once an hour and noise never: for every sequence of log writes by the core and its
  clones, with a clock that does not go back, a conflict, a cancellation or leader-election chatter sends
  nothing and uses up no budget; any other write sends exactly one event, with its message, error and fields,
  unless an event of the same fingerprint (the logger, the message and the first 200 bytes of the error text,
  compared as joined by NUL bytes) was sent less than an hour before, and then it sends nothing.\<close>

theorem error_logs_reported_hourly:
  assumes "sorted (map fst calls)"
  shows "core_run addTo newFingerprintLimiter calls = reports addTo (\<lambda>_. None) calls"
proof -
  have "operator_limiter.sim t newFingerprintLimiter (\<lambda>_. None)" for t
    by (simp add: operator_limiter.sim_def newFingerprintLimiter_def keys_once_def)
  moreover obtain t0 where "sorted (t0 # map fst calls)"
    using assms by (cases calls) (auto intro: that)
  ultimately show ?thesis by (rule core_run_reports)
qed

definition reconciler_error :: "log_error \<Rightarrow> zap_field list" where
  "reconciler_error e = [ValueField ''controller'' ''app'', ErrorField ''error'' (Some e)]"

definition reconciler_entry :: zap_entry where
  "reconciler_entry = \<lparr>ze_Level = 2, ze_LoggerName = '''', ze_Message = ''Reconciler error''\<rparr>"

theorem error_logs_reported_hourly_witness:
  "map (map ce_Exception) (core_run (\<lambda>f m. m) newFingerprintLimiter
     (map (\<lambda>(t, e). (t, \<lparr>sc_fields = []\<rparr>, reconciler_entry, reconciler_error e))
        [(0, OtherError ''dns''), (60 * 10 ^ 9, ConflictError), (120 * 10 ^ 9, OtherError ''dns''), (180 * 10 ^ 9, OtherError ''disk''), (3600 * 10 ^ 9, OtherError ''dns'')])) =
   [[Some (OtherError ''dns'')], [], [], [Some (OtherError ''disk'')], [Some (OtherError ''dns'')]]"
proof -
  let ?call = "\<lambda>(t :: int, e). (t, \<lparr>sc_fields = []\<rparr>, reconciler_entry, reconciler_error e)"
  let ?calls = "map ?call [(0, OtherError ''dns''), (60 * 10 ^ 9, ConflictError), (120 * 10 ^ 9, OtherError ''dns''), (180 * 10 ^ 9, OtherError ''disk''), (3600 * 10 ^ 9, OtherError ''dns'')]"
  have msg: "\<not> Contains ''Reconciler error'' ''leader election''" by code_simp
  have err: "logged_error (reconciler_error e) = Some e" for e by (simp add: logged_error_def reconciler_error_def)
  have fp: "ce_Fingerprint (report addTo (t, \<lparr>sc_fields = []\<rparr>, reconciler_entry, reconciler_error (OtherError x))) =
      ['''', ''Reconciler error'', take 200 x]" for addTo t x
    by (simp add: report_def err error_text_def reconciler_entry_def Let_def)
  have ex: "ce_Exception (report addTo (t, \<lparr>sc_fields = []\<rparr>, reconciler_entry, reconciler_error e)) = Some e" for addTo t e
    by (simp add: report_def err Let_def)
  have loud: "noise (t, \<lparr>sc_fields = []\<rparr>, reconciler_entry, reconciler_error e) \<longleftrightarrow> e \<in> {ConflictError, CanceledError}" for t e
    by (simp add: noise_def err msg reconciler_entry_def)
  have "sorted (map fst ?calls)" by simp
  from error_logs_reported_hourly [OF this, of "\<lambda>f m. m"] show ?thesis
    by (simp add: loud fp ex Let_def)
qed

end
