(* ===== verification/Console_Informer.thy ===== *)
theory Console_Informer
  imports Console_Client
begin

text \<open>
  The rest of \<open>console/internal/k8s/client.go\<close>: how the client is built (\<open>restConfig\<close>, \<open>New\<close>,
  \<open>newWithInformer\<close>, \<open>NewWithDynamic\<close>) and how its goroutines work together (\<open>waitForSync\<close>, \<open>Close\<close>, the handler of
  watch errors).

  The goroutines are a machine over the record \<open>informer\<close>. A channel that is only ever closed is the flag that it
  is closed; closing it twice is a Go panic and sets \<open>i_panic\<close>. Any number of goroutines may call \<open>Close\<close>, each with
  a program counter; \<open>sync.Once\<close> records who runs the function, and the other callers wait for it. One goroutine
  may be in \<open>waitForSync\<close>, which starts the goroutine that fans the two stop channels into one. The informer of
  client-go is the environment: it may sync and meet watch errors while it runs, and it may end after its stop
  channel is closed. What the informer factory answers to the calls of the code is the parameter \<open>informer_lib\<close>: whether a
  handler is accepted, whether \<open>Shutdown\<close> may return now, and whether \<open>WaitForCacheSync\<close> may return now with a given
  answer. Its documented behaviour is the hypothesis \<open>documented_informer\<close>.
\<close>

section \<open>Construction\<close>

fun clean_parts :: "bool \<Rightarrow> string list \<Rightarrow> string list \<Rightarrow> string list" where
  \<comment> \<open>\<open>filepath.Clean\<close> on the elements of a path; the result so far is in reverse order\<close>
  "clean_parts rooted out [] = rev out"
| "clean_parts rooted out (p # ps) =
     (if p = '''' \<or> p = ''.'' then clean_parts rooted out ps
      else if p = ''..'' then
        (if out \<noteq> [] \<and> hd out \<noteq> ''..'' then clean_parts rooted (tl out) ps
         else if rooted then clean_parts rooted out ps else clean_parts rooted (p # out) ps)
      else clean_parts rooted (p # out) ps)"

definition filepath_Clean :: "string \<Rightarrow> string" where
  "filepath_Clean path =
     (let rooted = HasPrefix path ''/''; body = Join (clean_parts rooted [] (SplitByte path CHR ''/'')) ''/''
      in if rooted then ''/'' @ body else if body = '''' then ''.'' else body)"

definition filepath_Join :: "string list \<Rightarrow> string" where
  "filepath_Join elems =
     (case dropWhile (\<lambda>e. e = '''') elems of [] \<Rightarrow> '''' | es \<Rightarrow> filepath_Clean (Join es ''/''))"

record 'c connecting =
  cn_InClusterConfig :: "string + 'c"
  cn_HomeDir :: string
  cn_BuildConfigFromFlags :: "string \<Rightarrow> string + 'c"
  cn_NewDynamic :: "'c \<Rightarrow> string option"
  cn_NewClientset :: "'c \<Rightarrow> string option"

definition restConfig :: "(nat \<Rightarrow> bool) \<Rightarrow> 'c connecting \<Rightarrow> string + 'c" where
  "restConfig isPrint N =
     (case cn_InClusterConfig N of
        Inr cfg \<Rightarrow> Inr cfg
      | Inl _ \<Rightarrow>
          let kubeconfig = filepath_Join [cn_HomeDir N, ''.kube'', ''config'']
          in (case cn_BuildConfigFromFlags N kubeconfig of
                Inl err \<Rightarrow> Inl (''no in-cluster config and kubeconfig '' @ Quote isPrint kubeconfig @ '' failed: '' @ err)
              | Inr cfg \<Rightarrow> Inr cfg))"

section \<open>The goroutines\<close>

datatype once = OnceNew | OnceRunning nat | OnceFinished

datatype closer = CloseEnter | CloseStop | CloseShutdown | CloseReturned

datatype waiter = WaitNotCalled | WaitStart | WaitSync | WaitClose bool | WaitReturned bool

datatype fan = FanNone | FanSelect | FanClose | FanEnded

record informer =
  i_clientset :: bool
  i_factory :: bool
  i_handler :: bool
  i_started :: bool
  i_running :: bool
  i_synced :: bool
  i_shutdowns :: nat
  i_stop :: bool
  i_stopCh :: bool
  i_done :: bool
  i_fanDone :: bool
  i_panic :: bool
  i_once :: once
  i_closers :: "closer list"
  i_waiter :: waiter
  i_fan :: fan
  i_lastWatchErr :: time
  i_errors :: "time list"

record informer_lib =
  f_SetWatchErrorHandler :: "informer \<Rightarrow> bool"
  f_Shutdown :: "informer \<Rightarrow> bool"
  f_WaitForCacheSync :: "informer \<Rightarrow> bool \<Rightarrow> bool"

definition set_handler :: "informer_lib \<Rightarrow> informer \<Rightarrow> informer" where
  \<comment> \<open>the code ignores a refusal\<close>
  "set_handler F s = (if f_SetWatchErrorHandler F s then s\<lparr>i_handler := True\<rparr> else s)"

definition factory_Start :: "informer \<Rightarrow> informer" where
  "factory_Start s = s\<lparr>i_started := True, i_running := True\<rparr>"

definition newWithInformer :: "informer_lib \<Rightarrow> informer" where
  "newWithInformer F =
     factory_Start (set_handler F
       \<lparr>i_clientset = False, i_factory = True, i_handler = False, i_started = False, i_running = False, i_synced = False, i_shutdowns = 0,
        i_stop = False, i_stopCh = False, i_done = False, i_fanDone = False, i_panic = False, i_once = OnceNew, i_closers = [],
        i_waiter = WaitNotCalled, i_fan = FanNone, i_lastWatchErr = zero_time, i_errors = []\<rparr>)"

definition New_client :: "(nat \<Rightarrow> bool) \<Rightarrow> informer_lib \<Rightarrow> 'c connecting \<Rightarrow> string + informer" where
  "New_client isPrint F N =
     (case restConfig isPrint N of
        Inl err \<Rightarrow> Inl err
      | Inr cfg \<Rightarrow>
          (case cn_NewDynamic N cfg of
             Some err \<Rightarrow> Inl (''build dynamic client: '' @ err)
           | None \<Rightarrow>
               (case cn_NewClientset N cfg of
                  Some err \<Rightarrow> Inl (''build clientset: '' @ err)
                | None \<Rightarrow> Inr ((newWithInformer F)\<lparr>i_clientset := True\<rparr>))))"

definition NewWithDynamic :: "informer_lib \<Rightarrow> informer" where
  \<comment> \<open>the constructor that waits: its caller is now in \<open>waitForSync\<close>, under a time-out that closes \<open>stopCh\<close>\<close>
  "NewWithDynamic F = (newWithInformer F)\<lparr>i_waiter := WaitStart\<rparr>"

definition close_stop :: "informer \<Rightarrow> informer" where
  "close_stop s = (if i_stop s then s\<lparr>i_panic := True\<rparr> else s\<lparr>i_stop := True\<rparr>)"

definition close_done :: "informer \<Rightarrow> informer" where
  "close_done s = (if i_done s then s\<lparr>i_panic := True\<rparr> else s\<lparr>i_done := True\<rparr>)"

definition close_fanDone :: "informer \<Rightarrow> informer" where
  "close_fanDone s = (if i_fanDone s then s\<lparr>i_panic := True\<rparr> else s\<lparr>i_fanDone := True\<rparr>)"

definition Close_step :: "informer_lib \<Rightarrow> nat \<Rightarrow> informer \<Rightarrow> informer option" where
  \<comment> \<open>the next step of the \<open>i\<close>-th caller of \<open>Close\<close>; \<^const>\<open>None\<close> when it has to wait or has returned\<close>
  "Close_step F i s =
     (if i \<ge> length (i_closers s) then None
      else case i_closers s ! i of
        CloseEnter \<Rightarrow>
          (case i_once s of
             OnceNew \<Rightarrow> Some (s\<lparr>i_once := OnceRunning i, i_closers := (i_closers s)[i := CloseStop]\<rparr>)
           | OnceRunning _ \<Rightarrow> None
           | OnceFinished \<Rightarrow> Some (s\<lparr>i_closers := (i_closers s)[i := CloseReturned]\<rparr>))
      | CloseStop \<Rightarrow> Some ((close_stop s)\<lparr>i_closers := (i_closers s)[i := CloseShutdown]\<rparr>)
      | CloseShutdown \<Rightarrow>
          if i_factory s \<and> \<not> f_Shutdown F s then None
          else Some (s\<lparr>i_shutdowns := i_shutdowns s + (if i_factory s then 1 else 0), i_once := OnceFinished,
                       i_closers := (i_closers s)[i := CloseReturned]\<rparr>)
      | CloseReturned \<Rightarrow> None)"

definition waitForSync_step :: "informer_lib \<Rightarrow> bool \<Rightarrow> informer \<Rightarrow> informer option" where
  "waitForSync_step F b s =
     (case i_waiter s of
        WaitStart \<Rightarrow> Some (s\<lparr>i_done := False, i_fanDone := False, i_fan := FanSelect, i_waiter := WaitSync\<rparr>)
      | WaitSync \<Rightarrow> if f_WaitForCacheSync F s b then Some (s\<lparr>i_waiter := WaitClose b\<rparr>) else None
      | WaitClose r \<Rightarrow> Some ((close_fanDone s)\<lparr>i_waiter := WaitReturned r\<rparr>)
      | _ \<Rightarrow> None)"

definition fan_step :: "informer \<Rightarrow> informer option" where
  "fan_step s =
     (case i_fan s of
        FanSelect \<Rightarrow> if i_stopCh s \<or> i_stop s \<or> i_fanDone s then Some (s\<lparr>i_fan := FanClose\<rparr>) else None
      | FanClose \<Rightarrow> Some ((close_done s)\<lparr>i_fan := FanEnded\<rparr>)
      | _ \<Rightarrow> None)"

datatype action = CloseAct nat | WaitAct bool | FanAct | Timeout | InformerSynced | InformerExit | WatchError time

fun act :: "informer_lib \<Rightarrow> action \<Rightarrow> informer \<Rightarrow> informer option" where
  "act F (CloseAct i) s = Close_step F i s"
| "act F (WaitAct b) s = waitForSync_step F b s"
| "act F FanAct s = fan_step s"
| "act F Timeout s = Some (s\<lparr>i_stopCh := True\<rparr>)"
| "act F InformerSynced s = (if i_running s then Some (s\<lparr>i_synced := True\<rparr>) else None)"
| "act F InformerExit s = (if i_running s \<and> i_stop s then Some (s\<lparr>i_running := False\<rparr>) else None)"
| "act F (WatchError t) s =
     (if i_running s then Some (s\<lparr>i_errors := i_errors s @ [t], i_lastWatchErr := (if i_handler s then t else i_lastWatchErr s)\<rparr>) else None)"

lemma watch_error_recordWatchErr:
  \<comment> \<open>with the handler installed, the step of a watch error stores the time that \<open>recordWatchErr\<close> stores\<close>
  assumes "i_running s" "i_handler s" "x_Now C (c_world k) = (t, w)" "recordWatchErr C k = (r, k')"
  shows "\<exists>s'. act F (WatchError t) s = Some s' \<and> r = Inr () \<and> i_lastWatchErr s' = c_lastWatchErr k'"
  using assms by (auto simp: recordWatchErr_def cluster_op_def bindr_def modify_def)

inductive reach :: "informer_lib \<Rightarrow> informer \<Rightarrow> informer \<Rightarrow> bool" for F s0 where
  start: "reach F s0 s0"
| step: "reach F s0 s \<Longrightarrow> act F a s = Some s' \<Longrightarrow> reach F s0 s'"

definition clients :: "informer_lib \<Rightarrow> nat \<Rightarrow> informer set" where
  \<comment> \<open>a client as its two constructors leave it, with \<open>n\<close> goroutines about to call \<open>Close\<close>\<close>
  "clients F n = (\<lambda>s. s\<lparr>i_closers := replicate n CloseEnter\<rparr>) ` {newWithInformer F, (newWithInformer F)\<lparr>i_clientset := True\<rparr>, NewWithDynamic F}"

section \<open>The invariant\<close>

definition documented_informer :: "informer_lib \<Rightarrow> bool" where
  \<comment> \<open>a handler is accepted before the start; \<open>Shutdown\<close> waits for the informer's goroutines; a started factory's
      \<open>WaitForCacheSync\<close> answers true for a synced cache and false when its channel is closed, and then returns\<close>
  "documented_informer F \<longleftrightarrow>
     (\<forall>s. \<not> i_started s \<longrightarrow> f_SetWatchErrorHandler F s) \<and>
     (\<forall>s. f_Shutdown F s = (\<not> i_running s)) \<and>
     (\<forall>s b. i_started s \<and> f_WaitForCacheSync F s b \<longrightarrow> (if b then i_synced s else i_done s)) \<and>
     (\<forall>s. i_started s \<and> (i_synced s \<or> i_done s) \<longrightarrow> (\<exists>b. f_WaitForCacheSync F s b))"

lemma documented_informerD:
  assumes "documented_informer F"
  shows "\<not> i_started s \<Longrightarrow> f_SetWatchErrorHandler F s" "f_Shutdown F s = (\<not> i_running s)"
    and "i_started s \<Longrightarrow> f_WaitForCacheSync F s b \<Longrightarrow> if b then i_synced s else i_done s"
    and "i_started s \<Longrightarrow> i_synced s \<or> i_done s \<Longrightarrow> \<exists>b. f_WaitForCacheSync F s b"
  using assms unfolding documented_informer_def by blast+

definition closers_ok :: "informer \<Rightarrow> bool" where
  "closers_ok s =
     (case i_once s of
        OnceNew \<Rightarrow> \<not> i_stop s \<and> i_running s \<and> i_shutdowns s = 0 \<and> (\<forall>j < length (i_closers s). i_closers s ! j = CloseEnter)
      | OnceRunning i \<Rightarrow> i < length (i_closers s) \<and> i_shutdowns s = 0 \<and> (i_running s \<or> i_stop s) \<and>
          i_closers s ! i = (if i_stop s then CloseShutdown else CloseStop) \<and>
          (\<forall>j < length (i_closers s). j \<noteq> i \<longrightarrow> i_closers s ! j = CloseEnter)
      | OnceFinished \<Rightarrow> i_stop s \<and> \<not> i_running s \<and> i_shutdowns s = 1 \<and> i_closers s \<noteq> [] \<and>
          (\<forall>j < length (i_closers s). i_closers s ! j = CloseEnter \<or> i_closers s ! j = CloseReturned))"

definition waiter_ok :: "informer \<Rightarrow> bool" where
  "waiter_ok s \<longleftrightarrow>
     (case i_waiter s of
        WaitNotCalled \<Rightarrow> i_fan s = FanNone
      | WaitStart \<Rightarrow> i_fan s = FanNone
      | WaitSync \<Rightarrow> i_fan s \<noteq> FanNone \<and> \<not> i_fanDone s
      | WaitClose b \<Rightarrow> i_fan s \<noteq> FanNone \<and> \<not> i_fanDone s \<and> (if b then i_synced s else i_stopCh s \<or> i_stop s)
      | WaitReturned b \<Rightarrow> i_fan s \<noteq> FanNone \<and> i_fanDone s \<and> (if b then i_synced s else i_stopCh s \<or> i_stop s)) \<and>
     (i_fan s = FanNone \<longrightarrow> \<not> i_done s \<and> \<not> i_fanDone s) \<and> (i_fan s = FanSelect \<longrightarrow> \<not> i_done s) \<and>
     (i_fan s = FanClose \<longrightarrow> \<not> i_done s \<and> (i_stopCh s \<or> i_stop s \<or> i_fanDone s)) \<and>
     (i_fan s = FanEnded \<longrightarrow> i_done s \<and> (i_stopCh s \<or> i_stop s \<or> i_fanDone s))"

definition informer_inv :: "informer \<Rightarrow> bool" where
  "informer_inv s \<longleftrightarrow> \<not> i_panic s \<and> i_factory s \<and> i_handler s \<and> i_started s \<and> closers_ok s \<and> waiter_ok s \<and>
     i_lastWatchErr s = (if i_errors s = [] then zero_time else last (i_errors s))"

lemma closers_ok_frame [simp]:
  "closers_ok (s\<lparr>i_stopCh := x\<rparr>) = closers_ok s" "closers_ok (s\<lparr>i_done := x\<rparr>) = closers_ok s"
  "closers_ok (s\<lparr>i_fanDone := x\<rparr>) = closers_ok s" "closers_ok (s\<lparr>i_synced := x\<rparr>) = closers_ok s"
  "closers_ok (s\<lparr>i_waiter := w\<rparr>) = closers_ok s" "closers_ok (s\<lparr>i_fan := f\<rparr>) = closers_ok s"
  "closers_ok (s\<lparr>i_errors := ts, i_lastWatchErr := t\<rparr>) = closers_ok s"
  by (simp_all add: closers_ok_def cong: once.case_cong)

lemma waiter_ok_frame [simp]:
  "waiter_ok (s\<lparr>i_closers := cs\<rparr>) = waiter_ok s" "waiter_ok (s\<lparr>i_once := c\<rparr>) = waiter_ok s"
  "waiter_ok (s\<lparr>i_shutdowns := k\<rparr>) = waiter_ok s" "waiter_ok (s\<lparr>i_running := x\<rparr>) = waiter_ok s"
  "waiter_ok (s\<lparr>i_errors := ts, i_lastWatchErr := t\<rparr>) = waiter_ok s"
  by (simp_all add: waiter_ok_def cong: waiter.case_cong)

lemma waiter_ok_more:
  assumes "waiter_ok s"
  shows "waiter_ok (s\<lparr>i_stop := True\<rparr>)" "waiter_ok (s\<lparr>i_stopCh := True\<rparr>)" "waiter_ok (s\<lparr>i_synced := True\<rparr>)"
  using assms by (cases "i_waiter s"; simp add: waiter_ok_def)+

lemma informer_inv_start: "documented_informer F \<Longrightarrow> s0 \<in> clients F n \<Longrightarrow> informer_inv s0"
  by (auto simp: documented_informerD clients_def newWithInformer_def NewWithDynamic_def factory_Start_def set_handler_def
      informer_inv_def closers_ok_def waiter_ok_def)

lemma closer_busy:
  assumes "closers_ok s" "i < length (i_closers s)" "i_closers s ! i = CloseStop \<or> i_closers s ! i = CloseShutdown"
  shows "i_once s = OnceRunning i \<and> (i_closers s ! i = CloseStop) = (\<not> i_stop s)"
proof (cases "i_once s")
  case (OnceRunning j)
  with assms have "j = i" by (force simp: closers_ok_def)
  with OnceRunning assms show ?thesis by (auto simp: closers_ok_def)
qed (use assms in \<open>force simp: closers_ok_def\<close>)+

lemma closers_ok_returned:
  assumes "closers_ok s"
  shows "i_shutdowns s \<le> 1 \<and> (CloseReturned \<in> set (i_closers s) \<longrightarrow> i_shutdowns s = 1 \<and> i_stop s \<and> \<not> i_running s)"
proof (cases "i_once s")
  case (OnceRunning i)
  have "i_closers s ! j \<noteq> CloseReturned" if "j < length (i_closers s)" for j
    using assms OnceRunning that by (cases "j = i") (auto simp: closers_ok_def)
  then show ?thesis using assms OnceRunning by (auto simp: closers_ok_def in_set_conv_nth)
qed (use assms in \<open>auto simp: closers_ok_def in_set_conv_nth\<close>)

lemma Close_step_closers:
  assumes "documented_informer F" "closers_ok s" "i_factory s" "Close_step F i s = Some s'"
  shows "closers_ok s'"
proof -
  have i: "i < length (i_closers s)" using assms(4) by (auto simp: Close_step_def split: if_splits)
  show ?thesis
  proof (cases "i_closers s ! i")
    case CloseEnter
    with assms i show ?thesis
      by (cases "i_once s") (auto simp: Close_step_def closers_ok_def nth_list_update)
  next
    case CloseStop
    with closer_busy [OF assms(2) i] assms i show ?thesis
      by (auto simp: Close_step_def close_stop_def closers_ok_def nth_list_update)
  next
    case CloseShutdown
    with closer_busy [OF assms(2) i] assms i show ?thesis
      by (auto simp: Close_step_def closers_ok_def nth_list_update documented_informerD(2) [OF assms(1)] split: if_splits)
  next
    case CloseReturned
    with assms i show ?thesis by (simp add: Close_step_def)
  qed
qed

lemma Close_step_rest:
  assumes "closers_ok s" "waiter_ok s" "Close_step F i s = Some s'"
  shows "waiter_ok s' \<and> i_panic s' = i_panic s \<and> i_factory s' = i_factory s \<and> i_handler s' = i_handler s \<and> i_started s' = i_started s \<and>
    i_lastWatchErr s' = i_lastWatchErr s \<and> i_errors s' = i_errors s"
proof (cases "i_closers s ! i")
  case CloseStop
  have "i < length (i_closers s)" using assms(3) by (auto simp: Close_step_def split: if_splits)
  with CloseStop closer_busy [OF assms(1)] have "\<not> i_stop s" by blast
  with CloseStop assms waiter_ok_more(1) [OF assms(2)] show ?thesis
    by (auto simp: Close_step_def close_stop_def split: if_splits)
qed (use assms in \<open>auto simp: Close_step_def split: if_splits once.splits\<close>)

lemma waitForSync_step_waiter:
  assumes "documented_informer F" "waiter_ok s" "i_started s" "waitForSync_step F b s = Some s'"
  shows "waiter_ok s' \<and> i_panic s' = i_panic s"
proof (cases "i_waiter s")
  case WaitSync
  with assms(4) have s': "f_WaitForCacheSync F s b" "s' = s\<lparr>i_waiter := WaitClose b\<rparr>"
    by (auto simp: waitForSync_step_def split: if_splits)
  from documented_informerD(3) [OF assms(1,3) s'(1)] WaitSync assms(2) show ?thesis
    by (cases "i_fan s") (auto simp: s'(2) waiter_ok_def split: if_splits)
next
  case WaitStart
  with assms(2,4) show ?thesis by (auto simp: waitForSync_step_def waiter_ok_def)
next
  case (WaitClose r)
  with assms(2,4) show ?thesis
    by (cases "i_fan s") (auto simp: waitForSync_step_def close_fanDone_def waiter_ok_def split: if_splits)
qed (use assms(4) in \<open>simp_all add: waitForSync_step_def\<close>)

lemma waitForSync_step_rest:
  assumes "waitForSync_step F b s = Some s'"
  shows "closers_ok s' = closers_ok s \<and> i_factory s' = i_factory s \<and> i_handler s' = i_handler s \<and> i_started s' = i_started s \<and>
    i_lastWatchErr s' = i_lastWatchErr s \<and> i_errors s' = i_errors s"
  using assms by (cases "i_waiter s") (auto simp: waitForSync_step_def close_fanDone_def closers_ok_def cong: once.case_cong split: if_splits)

lemma fan_step_waiter:
  assumes "waiter_ok s" "fan_step s = Some s'"
  shows "waiter_ok s' \<and> i_panic s' = i_panic s"
  using assms
  by (cases "i_waiter s"; cases "i_fan s") (auto simp: fan_step_def close_done_def waiter_ok_def split: if_splits)

lemma fan_step_rest:
  assumes "fan_step s = Some s'"
  shows "closers_ok s' = closers_ok s \<and> i_factory s' = i_factory s \<and> i_handler s' = i_handler s \<and> i_started s' = i_started s \<and>
    i_lastWatchErr s' = i_lastWatchErr s \<and> i_errors s' = i_errors s"
  using assms by (cases "i_fan s") (auto simp: fan_step_def close_done_def closers_ok_def cong: once.case_cong split: if_splits)

lemma act_inv:
  assumes "documented_informer F" "informer_inv s" "act F a s = Some s'"
  shows "informer_inv s'"
proof (cases a)
  case (CloseAct i)
  with assms Close_step_closers [of F s i s'] Close_step_rest [of s F i s'] show ?thesis by (simp add: informer_inv_def)
next
  case (WaitAct b)
  with assms waitForSync_step_waiter [of F s b s'] waitForSync_step_rest [of F b s s'] show ?thesis by (simp add: informer_inv_def)
next
  case FanAct
  with assms fan_step_waiter [of s s'] fan_step_rest [of s s'] show ?thesis by (simp add: informer_inv_def)
next
  case InformerExit
  with assms show ?thesis by (cases "i_once s") (auto simp: informer_inv_def closers_ok_def split: if_splits)
qed (use assms in \<open>auto simp: informer_inv_def waiter_ok_more split: if_splits\<close>)

lemma reach_inv: "reach F s0 s \<Longrightarrow> documented_informer F \<Longrightarrow> s0 \<in> clients F n \<Longrightarrow> informer_inv s"
  by (induction rule: reach.induct) (auto intro: informer_inv_start act_inv)

fun run_actions :: "informer_lib \<Rightarrow> action list \<Rightarrow> informer \<Rightarrow> informer option" where
  "run_actions F [] s = Some s"
| "run_actions F (a # as) s = Option.bind (act F a s) (run_actions F as)"

lemma run_actions_reach: "reach F s0 s \<Longrightarrow> run_actions F as s = Some s' \<Longrightarrow> reach F s0 s'"
  by (induction as arbitrary: s) (auto intro: reach.step split: Option.bind_splits)

text \<open>C33. \<open>Close\<close> is idempotent and safe under concurrent callers, and \<open>waitForSync\<close> tells the truth: in every interleaving
  of any number of callers of \<open>Close\<close>, of \<open>waitForSync\<close> with its fan-in goroutine and of the informer, no channel is
  closed twice (which would panic), the factory is shut down at most once, every caller of \<open>Close\<close> returns only
  after the informer's goroutines have ended, and \<open>waitForSync\<close> returns true only when the cache has synced and
  false only when its time-out has fired or the client is being closed. No watch error is lost: \<open>Stale\<close> looks at
  the last error the informer had.\<close>

theorem client_goroutines_safe:
  assumes "documented_informer F" "s0 \<in> clients F n" "reach F s0 s"
  shows "\<not> i_panic s \<and> i_shutdowns s \<le> 1 \<and> (CloseReturned \<in> set (i_closers s) \<longrightarrow> i_shutdowns s = 1 \<and> \<not> i_running s) \<and>
    (case i_waiter s of WaitReturned b \<Rightarrow> if b then i_synced s else i_stopCh s \<or> i_stop s | _ \<Rightarrow> True) \<and>
    recentWatchErr (i_lastWatchErr s) now = (i_errors s \<noteq> [] \<and> \<not> IsZero (last (i_errors s)) \<and> time_Sub now (last (i_errors s)) < staleWindow)"
proof -
  have inv: "informer_inv s" by (rule reach_inv [OF assms(3,1,2)])
  have "i_shutdowns s \<le> 1 \<and> (CloseReturned \<in> set (i_closers s) \<longrightarrow> i_shutdowns s = 1 \<and> \<not> i_running s)"
    using inv closers_ok_returned [of s] by (simp add: informer_inv_def)
  moreover have "case i_waiter s of WaitReturned b \<Rightarrow> if b then i_synced s else i_stopCh s \<or> i_stop s | _ \<Rightarrow> True"
    using inv by (auto simp: informer_inv_def waiter_ok_def split: waiter.split)
  moreover have "\<not> i_panic s"
    "recentWatchErr (i_lastWatchErr s) now = (i_errors s \<noteq> [] \<and> \<not> IsZero (last (i_errors s)) \<and> time_Sub now (last (i_errors s)) < staleWindow)"
    using inv by (simp_all add: informer_inv_def recentWatchErr_def IsZero_def)
  ultimately show ?thesis by blast
qed

definition sample_informer_lib :: informer_lib where
  "sample_informer_lib = \<lparr>f_SetWatchErrorHandler = (\<lambda>s. \<not> i_started s), f_Shutdown = (\<lambda>s. \<not> i_running s),
     f_WaitForCacheSync = (\<lambda>s b. if b then i_synced s else i_done s)\<rparr>"

lemma sample_informer_documented: "documented_informer sample_informer_lib"
  by (auto simp: documented_informer_def sample_informer_lib_def split: if_splits)

definition two_closers :: informer where
  "two_closers = (NewWithDynamic sample_informer_lib)\<lparr>i_closers := [CloseEnter, CloseEnter]\<rparr>"

lemma two_closers_client: "two_closers \<in> clients sample_informer_lib 2"
  unfolding two_closers_def clients_def by (rule image_eqI [of _ _ "NewWithDynamic sample_informer_lib"]) (simp_all add: numeral_2_eq_2)

lemmas goroutine_defs = two_closers_def sample_informer_lib_def NewWithDynamic_def newWithInformer_def factory_Start_def set_handler_def
  Close_step_def close_stop_def waitForSync_step_def close_fanDone_def fan_step_def close_done_def

theorem client_goroutines_safe_witness:
  "\<exists>s. run_actions sample_informer_lib [WaitAct True, CloseAct 1, WatchError 5, CloseAct 1, FanAct, InformerExit, FanAct, CloseAct 1, CloseAct 0, WaitAct False, WaitAct False] two_closers = Some s \<and>
     i_closers s = [CloseReturned, CloseReturned] \<and> i_waiter s = WaitReturned False \<and> i_shutdowns s = 1 \<and> \<not> i_panic s \<and>
     recentWatchErr (i_lastWatchErr s) 6"
proof -
  obtain s where run: "run_actions sample_informer_lib [WaitAct True, CloseAct 1, WatchError 5, CloseAct 1, FanAct, InformerExit, FanAct, CloseAct 1, CloseAct 0, WaitAct False, WaitAct False] two_closers = Some s"
    and s: "i_closers s = [CloseReturned, CloseReturned]" "i_waiter s = WaitReturned False" "i_errors s = [5]"
    by (simp add: goroutine_defs)
  from run_actions_reach [OF reach.start run] have "reach sample_informer_lib two_closers s" .
  from client_goroutines_safe [OF sample_informer_documented two_closers_client this, of 6] run s show ?thesis
    by (simp add: IsZero_def zero_time_def staleWindow_def Second_def time_Sub_def)
qed

section \<open>No goroutine is left behind\<close>

fun closer_left :: "closer \<Rightarrow> nat" where
  "closer_left CloseEnter = 3"
| "closer_left CloseStop = 2"
| "closer_left CloseShutdown = 1"
| "closer_left CloseReturned = 0"

fun waiter_left :: "waiter \<Rightarrow> nat" where
  "waiter_left WaitStart = 5"
| "waiter_left WaitSync = 2"
| "waiter_left (WaitClose b) = 1"
| "waiter_left _ = 0"

fun fan_left :: "fan \<Rightarrow> nat" where
  "fan_left FanSelect = 2"
| "fan_left FanClose = 1"
| "fan_left _ = 0"

definition work_left :: "informer \<Rightarrow> nat" where
  "work_left s = sum_list (map closer_left (i_closers s)) + waiter_left (i_waiter s) + fan_left (i_fan s) + (if i_running s then 1 else 0)"

fun scheduled :: "action \<Rightarrow> bool" where
  \<comment> \<open>the steps of the client's goroutines and the end of the informer's, as opposed to what happens to them\<close>
  "scheduled (CloseAct i) = True"
| "scheduled (WaitAct b) = True"
| "scheduled FanAct = True"
| "scheduled InformerExit = True"
| "scheduled _ = False"

definition all_ended :: "informer \<Rightarrow> bool" where
  "all_ended s \<longleftrightarrow> list_all (\<lambda>c. c = CloseReturned) (i_closers s) \<and>
     (case i_waiter s of WaitNotCalled \<Rightarrow> True | WaitReturned b \<Rightarrow> True | _ \<Rightarrow> False) \<and> (i_fan s = FanNone \<or> i_fan s = FanEnded)"

lemma closer_moves:
  assumes "i < length cs" "closer_left c < closer_left (cs ! i)"
  shows "sum_list (map closer_left (cs[i := c])) < sum_list (map closer_left cs)"
proof -
  have "sum_list (map closer_left cs) \<ge> closer_left (cs ! i)" using assms(1) by (simp add: member_le_sum_list)
  then show ?thesis using assms by (simp add: map_update sum_list_update)
qed

lemma act_work:
  assumes "informer_inv s" "act F a s = Some s'"
  shows "if scheduled a then work_left s' < work_left s else work_left s' = work_left s"
proof (cases a)
  case (CloseAct i)
  then have i: "i < length (i_closers s)" using assms(2) by (auto simp: Close_step_def split: if_splits)
  with CloseAct assms show ?thesis
    using closer_moves [OF i, of CloseStop] closer_moves [OF i, of CloseShutdown] closer_moves [OF i, of CloseReturned]
    by (cases "i_closers s ! i") (auto simp: Close_step_def close_stop_def work_left_def split: once.splits if_splits)
next
  case (WaitAct b)
  have "i_waiter s = WaitStart \<Longrightarrow> i_fan s = FanNone" using assms(1) by (simp add: informer_inv_def waiter_ok_def)
  with WaitAct assms(2) show ?thesis
    by (cases "i_waiter s") (auto simp: waitForSync_step_def close_fanDone_def work_left_def split: if_splits)
next
  case FanAct
  with assms show ?thesis by (cases "i_fan s") (auto simp: fan_step_def close_done_def work_left_def split: if_splits)
qed (use assms in \<open>auto simp: work_left_def split: if_splits\<close>)

lemma closers_progress:
  assumes "documented_informer F" "closers_ok s" "\<not> list_all (\<lambda>c. c = CloseReturned) (i_closers s)"
  shows "\<exists>a. scheduled a \<and> act F a s \<noteq> None"
proof (cases "i_once s")
  case OnceNew
  then have "0 < length (i_closers s)" "i_closers s ! 0 = CloseEnter"
    using assms by (cases "i_closers s"; auto simp: closers_ok_def)+
  with OnceNew have "act F (CloseAct 0) s \<noteq> None" by (simp add: Close_step_def)
  then show ?thesis by (metis scheduled.simps(1))
next
  case (OnceRunning i)
  with assms(2) have i: "i < length (i_closers s)" "i_closers s ! i = (if i_stop s then CloseShutdown else CloseStop)"
    by (simp_all add: closers_ok_def)
  then have "if i_stop s \<and> i_running s then act F InformerExit s \<noteq> None else act F (CloseAct i) s \<noteq> None"
    by (simp add: Close_step_def documented_informerD(2) [OF assms(1)])
  then show ?thesis by (metis scheduled.simps(1,4))
next
  case OnceFinished
  with assms obtain i where "i < length (i_closers s)" "i_closers s ! i = CloseEnter"
    by (auto simp: closers_ok_def list_all_length)
  with OnceFinished have "act F (CloseAct i) s \<noteq> None" by (simp add: Close_step_def)
  then show ?thesis by (metis scheduled.simps(1))
qed

lemma waiter_progress:
  assumes "documented_informer F" "waiter_ok s" "i_started s" "i_stopCh s \<or> i_stop s \<or> i_synced s"
    and "\<not> ((case i_waiter s of WaitNotCalled \<Rightarrow> True | WaitReturned b \<Rightarrow> True | _ \<Rightarrow> False) \<and> (i_fan s = FanNone \<or> i_fan s = FanEnded))"
  shows "\<exists>a. scheduled a \<and> act F a s \<noteq> None"
proof -
  have "act F FanAct s \<noteq> None \<or> act F (WaitAct True) s \<noteq> None \<or> act F (WaitAct False) s \<noteq> None"
  proof (cases "i_waiter s = WaitSync \<and> (i_synced s \<or> i_done s)")
    case True
    then obtain b where "f_WaitForCacheSync F s b" using documented_informerD(4) [OF assms(1,3)] by blast
    with True show ?thesis by (cases b) (simp_all add: waitForSync_step_def)
  next
    case False
    with assms(2,4,5) show ?thesis
      by (cases "i_waiter s"; cases "i_fan s") (auto simp: fan_step_def waitForSync_step_def waiter_ok_def)
  qed
  then show ?thesis by (metis scheduled.simps(2,3))
qed

lemma act_frame:
  assumes "act F a s = Some s'"
  shows "length (i_closers s') = length (i_closers s) \<and> (i_waiter s' = WaitNotCalled) = (i_waiter s = WaitNotCalled)"
proof (cases a)
  case (CloseAct i)
  with assms show ?thesis
    by (cases "i_closers s ! i") (auto simp: Close_step_def close_stop_def split: if_splits once.splits)
next
  case (WaitAct b)
  with assms show ?thesis by (cases "i_waiter s") (auto simp: waitForSync_step_def close_fanDone_def split: if_splits)
next
  case FanAct
  with assms show ?thesis by (cases "i_fan s") (auto simp: fan_step_def close_done_def split: if_splits)
qed (use assms in \<open>auto split: if_splits\<close>)

lemma reach_frame:
  "reach F s0 s \<Longrightarrow> length (i_closers s) = length (i_closers s0) \<and> (i_waiter s = WaitNotCalled) = (i_waiter s0 = WaitNotCalled)"
  by (induction rule: reach.induct) (simp_all add: act_frame)

lemma reach_work: "reach F s0 s \<Longrightarrow> documented_informer F \<Longrightarrow> s0 \<in> clients F n \<Longrightarrow> work_left s \<le> work_left s0"
proof (induction rule: reach.induct)
  case (step s a s')
  then show ?case using act_work [OF reach_inv [OF step.hyps(1) step.prems] step.hyps(2)] by (auto split: if_splits)
qed simp

lemma clients_work: "s0 \<in> clients F n \<Longrightarrow> work_left s0 \<le> 3 * n + 6 \<and> length (i_closers s0) = n"
  by (auto simp: clients_def newWithInformer_def NewWithDynamic_def factory_Start_def set_handler_def work_left_def sum_list_replicate)

text \<open>C34. Nobody waits for ever and no goroutine leaks: once \<open>Close\<close> is called, or the time-out of \<open>waitForSync\<close> has fired, or
  the cache has synced, the client cannot get stuck. As long as a caller of \<open>Close\<close>, \<open>waitForSync\<close> or its fan-in
  goroutine has not ended, one of them (or the informer, which is then told to stop) can take a step, and
  every such step brings the end nearer: at most 3 per caller and 6 more, whatever happens in between.\<close>

theorem client_shutdown_ends:
  assumes "documented_informer F" "s0 \<in> clients F n" "reach F s0 s" "0 < n \<or> i_stopCh s \<or> i_synced s \<or> i_waiter s0 = WaitNotCalled"
  shows "(all_ended s \<or> (\<exists>a. scheduled a \<and> act F a s \<noteq> None)) \<and> work_left s \<le> 3 * n + 6 \<and>
    (\<forall>a s'. act F a s = Some s' \<longrightarrow> (if scheduled a then work_left s' < work_left s else work_left s' = work_left s))"
proof -
  have inv: "informer_inv s" by (rule reach_inv [OF assms(3,1,2)])
  then have ok: "closers_ok s" "waiter_ok s" "i_started s" by (simp_all add: informer_inv_def)
  have len: "length (i_closers s) = n" using reach_frame [OF assms(3)] clients_work [OF assms(2)] by simp
  have "all_ended s \<or> (\<exists>a. scheduled a \<and> act F a s \<noteq> None)"
  proof (cases "list_all (\<lambda>c. c = CloseReturned) (i_closers s)")
    case True
    have "0 < n \<longrightarrow> i_stop s" using True len closers_ok_returned [OF ok(1)] by (cases "i_closers s") auto
    then consider "i_stopCh s \<or> i_stop s \<or> i_synced s" | "i_waiter s = WaitNotCalled"
      using assms(4) reach_frame [OF assms(3)] by blast
    then show ?thesis
    proof cases
      case 1
      with True waiter_progress [OF assms(1) ok(2,3)] show ?thesis unfolding all_ended_def by blast
    next
      case 2
      with True ok(2) show ?thesis by (simp add: all_ended_def waiter_ok_def)
    qed
  next
    case False
    then show ?thesis using closers_progress [OF assms(1) ok(1)] by blast
  qed
  then show ?thesis using reach_work [OF assms(3,1,2)] clients_work [OF assms(2)] act_work [OF inv] by auto
qed

theorem client_shutdown_ends_witness:
  "\<exists>a. scheduled a \<and> act sample_informer_lib a (two_closers\<lparr>i_once := OnceRunning 0, i_closers := [CloseStop, CloseEnter]\<rparr>) \<noteq> None"
proof -
  have "reach sample_informer_lib two_closers (two_closers\<lparr>i_once := OnceRunning 0, i_closers := [CloseStop, CloseEnter]\<rparr>)"
    by (rule reach.step [OF reach.start, where a = "CloseAct 0"]) (simp add: goroutine_defs)
  from client_shutdown_ends [OF sample_informer_documented two_closers_client this] show ?thesis by (auto simp: all_ended_def)
qed

end
