(* ===== verification/Console_Sentry.thy ===== *)
theory Console_Sentry
  imports Console_Server Sentry_Core Console_Informer
begin

text \<open>
  \<open>console/internal/sentryhttp\<close> (\<open>middleware.go\<close>, \<open>carrier.go\<close>): panic recovery and the reporting of 5xx
  responses. How the inner handler ended is a value: it returned with the status the recorder saw and
  what it attached, or it panicked with the status seen so far (0 when nothing was sent).
\<close>

definition sr_WriteHeader :: "int \<Rightarrow> int \<Rightarrow> int" where
  "sr_WriteHeader status code = (if status = 0 then code else status)"

definition sr_Write :: "int \<Rightarrow> int" where
  "sr_Write status = (if status = 0 then 200 else status)"

record carrier =
  cr_msg :: string
  cr_err :: "string option"

definition AttachError :: "carrier option \<Rightarrow> string \<Rightarrow> string option \<Rightarrow> carrier option" where
  \<comment> \<open>nothing without a carrier in the context\<close>
  "AttachError c msg err = map_option (\<lambda>_. \<lparr>cr_msg = msg, cr_err = err\<rparr>) c"

datatype panic_value = ErrAbortHandler | PanicError string | PanicOther string

datatype outcome =
    Returned int "carrier option"
  | Panicked panic_value int

record http_event =
  he_User :: string
  he_Message :: string
  he_Status :: "string option"
  he_Fingerprint :: "string list"

datatype delivered = AsHandled int | InternalServerError | ConnectionAborted

definition url_path :: "request \<Rightarrow> string" where
  "url_path r = ''/'' @ Join (rq_Path r) ''/''"

definition capture_5xx :: "request \<Rightarrow> int \<Rightarrow> carrier option \<Rightarrow> http_event" where
  "capture_5xx r status c =
     \<lparr>he_User = UserFrom r,
      he_Message = rq_Method r @ '' '' @ url_path r @ '' -> '' @ Itoa status @
        (case c of None \<Rightarrow> '''' | Some c \<Rightarrow> (if cr_msg c \<noteq> '''' then '': '' @ cr_msg c else '''') @
           (case cr_err c of None \<Rightarrow> '''' | Some e \<Rightarrow> '': '' @ e)),
      he_Status = Some (Itoa status), he_Fingerprint = [rq_Method r, url_path r, Itoa status]\<rparr>"

definition capture_panic :: "request \<Rightarrow> string \<Rightarrow> http_event" where
  "capture_panic r text = \<lparr>he_User = UserFrom r, he_Message = text, he_Status = None, he_Fingerprint = []\<rparr>"

definition wrapWithClock ::
  "bool \<Rightarrow> time \<Rightarrow> request \<Rightarrow> outcome \<Rightarrow> fingerprintLimiter \<Rightarrow> (http_event list \<times> delivered) \<times> fingerprintLimiter" where
  \<comment> \<open>\<open>hub\<close> says whether reporting is enabled\<close>
  "wrapWithClock hub now r out l =
     (case out of
        Panicked v status \<Rightarrow>
          (case v of
             ErrAbortHandler \<Rightarrow> (([], ConnectionAborted), l)
           | PanicError e \<Rightarrow> ((if hub then [capture_panic r e] else [], if status = 0 then InternalServerError else ConnectionAborted), l)
           | PanicOther e \<Rightarrow> ((if hub then [capture_panic r (''panic: '' @ e)] else [], if status = 0 then InternalServerError else ConnectionAborted), l))
      | Returned status c \<Rightarrow>
          if hub \<and> status \<ge> 500
          then (let (ok, l') = console_allow now [rq_Method r, url_path r, Itoa status] l
                in ((if ok then [capture_5xx r status c] else [], AsHandled status), l'))
          else (([], AsHandled status), l))"

definition handler_outcome :: "bool \<Rightarrow> response \<Rightarrow> outcome" where
  \<comment> \<open>how a handler of the console ends: \<open>renderError\<close> writes its code and attaches its error\<close>
  "handler_outcome hub resp =
     (let planted = (if hub then Some \<lparr>cr_msg = '''', cr_err = None\<rparr> else None)
      in case resp of
           ErrorPage e \<Rightarrow> Returned (sr_Write (sr_WriteHeader 0 (ed_Code e))) (AttachError planted (ed_Message e) (Some (ed_Detail e)))
         | _ \<Rightarrow> Returned (sr_Write (sr_WriteHeader 0 (response_status resp))) planted)"

definition serve :: "bool \<Rightarrow> time \<Rightarrow> 'w server \<Rightarrow> request \<Rightarrow> fingerprintLimiter \<Rightarrow>
    ('w, (http_event list \<times> delivered) \<times> fingerprintLimiter) console" where
  "serve hub now S r l = bindr (Routes S r) (\<lambda>resp. ret (wrapWithClock hub now r (handler_outcome hub resp) l))"

section \<open>The start of the console\<close>

definition hub_InitFromEnv :: "(string \<Rightarrow> string) \<Rightarrow> (sentry_options \<Rightarrow> string option) \<Rightarrow> string + bool" where
  \<comment> \<open>\<open>sentryhttp.InitFromEnv\<close>: whether there is a hub\<close>
  "hub_InitFromEnv getenv newClient =
     (let dsn = getenv ''SENTRY_DSN''
      in if dsn = '''' then Inr False
         else case newClient \<lparr>so_Dsn = dsn, so_Environment = getenv ''SENTRY_ENVIRONMENT'', so_Release = getenv ''SENTRY_RELEASE''\<rparr> of
                Some err \<Rightarrow> Inl (''init sentry: '' @ err)
              | None \<Rightarrow> Inr True)"

definition loki_from_env :: "(string \<Rightarrow> string) \<Rightarrow> loki_config" where
  "loki_from_env getenv = \<lparr>lk_URL = getenv ''LOKI_URL'', lk_BasicAuthUser = getenv ''LOKI_BASIC_AUTH_USER'',
     lk_BasicAuthPass = getenv ''LOKI_BASIC_AUTH_PASS'', lk_BearerToken = getenv ''LOKI_BEARER_TOKEN'', lk_TenantID = getenv ''LOKI_TENANT_ID''\<rparr>"

datatype serve_end = ServerClosed | ServerFailed string

datatype console_step = Listening string loki_config bool | HubFlushed

definition fatalf :: "bool \<Rightarrow> console_step list \<Rightarrow> int \<times> console_step list" where
  "fatalf hub steps = (1, steps @ (if hub then [HubFlushed] else []))"

definition console_main ::
  "(nat \<Rightarrow> bool) \<Rightarrow> (string \<Rightarrow> string) \<Rightarrow> (sentry_options \<Rightarrow> string option) \<Rightarrow> informer_lib \<Rightarrow> 'c connecting \<Rightarrow> (string \<Rightarrow> serve_end) \<Rightarrow>
   int \<times> console_step list" where
  \<comment> \<open>\<open>listen\<close> is the end of \<open>ListenAndServe\<close>; the result is the exit code and the steps\<close>
  "console_main isPrint getenv newClient F N listen =
     (let addr = (if getenv ''LISTEN_ADDR'' = '''' then '':8080'' else getenv ''LISTEN_ADDR'');
          hub = (case hub_InitFromEnv getenv newClient of Inl _ \<Rightarrow> False | Inr b \<Rightarrow> b)
      in case New_client isPrint F N of
           Inl _ \<Rightarrow> fatalf hub []
         | Inr _ \<Rightarrow>
             (case listen addr of
                ServerClosed \<Rightarrow> (0, [Listening addr (loki_from_env getenv) hub])
              | ServerFailed _ \<Rightarrow> fatalf hub [Listening addr (loki_from_env getenv) hub]))"

lemma console_starts_without_sentry:
  \<comment> \<open>telemetry never decides whether the console serves\<close>
  "map (\<lambda>st. case st of Listening addr cfg hub \<Rightarrow> Some (addr, cfg) | HubFlushed \<Rightarrow> None) (filter (\<lambda>st. st \<noteq> HubFlushed) (snd (console_main isPrint getenv newClient F N listen))) =
   map (\<lambda>st. case st of Listening addr cfg hub \<Rightarrow> Some (addr, cfg) | HubFlushed \<Rightarrow> None) (filter (\<lambda>st. st \<noteq> HubFlushed) (snd (console_main isPrint getenv newClient' F N listen)))"
  by (simp add: console_main_def fatalf_def Let_def split: serve_end.split sum.split)

end
