(* ===== verification/Console_Contract.thy ===== *)
theory Console_Contract
  imports Console_Wire Console_Sentry Build_Outcome
begin

text \<open>
  The contract between the console and the operator: the annotation patches the console sends are JSON
  that says what was meant, the operator acts on them, and what the pages show of an App agrees with
  the operator's own view of it.
\<close>

section \<open>The patches are JSON\<close>

definition printable :: "string \<Rightarrow> bool" where
  "printable s \<longleftrightarrow> list_all (\<lambda>c. 32 \<le> byte c \<and> byte c < 127) s"

lemma printable_simps [simp]:
  "printable []" "printable (c # s) \<longleftrightarrow> 32 \<le> byte c \<and> byte c < 127 \<and> printable s"
  "printable (s @ t) \<longleftrightarrow> printable s \<and> printable t"
  by (simp_all add: printable_def conj_assoc)

lemma json_body_quote:
  "printable u \<Longrightarrow> json_body (quote_body P u @ quote # rest) = Some (u, rest)"
proof (induction u)
  case (Cons c u)
  then have IH: "json_body (quote_body P u @ quote # rest) = Some (u, rest)" and c: "32 \<le> byte c" "byte c < 127" by auto
  show ?case
  proof (cases "c = quote \<or> c = CHR 0x5C")
    case True
    with IH c show ?thesis
      by (auto simp: quote_ascii_def quote_def escapes_def then_body_def)
  next
    case False
    with IH c show ?thesis by (simp add: quote_ascii_def then_body_def)
  qed
qed simp

lemma skip_ws_heads [simp]:
  "skip_ws (quote # s) = quote # s" "skip_ws (CHR ''{'' # s) = CHR ''{'' # s" "skip_ws (CHR '':'' # s) = CHR '':'' # s"
  "skip_ws (CHR '','' # s) = CHR '','' # s" "skip_ws (CHR ''}'' # s) = CHR ''}'' # s" "skip_ws (CHR ''n'' # s) = CHR ''n'' # s"
  "skip_ws [] = []"
  by (simp_all add: skip_ws_def quote_def)

lemma json_value_string:
  "printable v \<Longrightarrow> json_value (Suc n) d (Quote P v @ r) = Some (JStr v, r)"
  by (simp add: Quote_def json_body_quote)

lemma json_value_null: "json_value (Suc n) d (''null'' @ r) = Some (JNull, r)"
  by (simp add: json_literal_def HasPrefix_def) (simp add: quote_def)

lemma json_value_object:
  assumes "json_members n (Suc d) (Quote P k @ r) = Some (ms, t)" "d < maxNestingDepth"
  shows "json_value (Suc n) d (''{'' @ Quote P k @ r) = Some (JObj ms, t)"
  using assms by (simp add: Quote_def) (simp add: quote_def)

lemma json_members_last:
  assumes "printable k" "json_value n d v = Some (x, CHR ''}'' # r)"
  shows "json_members (Suc n) d (Quote P k @ '':'' @ v) = Some ([(k, x)], r)"
  using assms by (simp add: Quote_def json_body_quote)

lemma json_members_next:
  assumes "printable k" "json_value n d v = Some (x, CHR '','' # r)" "json_members n d r = Some (ms, t)"
  shows "json_members (Suc n) d (Quote P k @ '':'' @ v) = Some ((k, x) # ms, t)"
  using assms by (simp add: Quote_def json_body_quote)

definition annotations_patch :: "(string \<times> json) list \<Rightarrow> json" where
  "annotations_patch ms = JObj [(''metadata'', JObj [(''annotations'', JObj ms)])]"

lemma printable_keys: "printable ''metadata''" "printable ''annotations''"
  "printable AnnotationRebuildRequestedAt" "printable AnnotationRebuildBy" "printable AnnotationRebuildCommit"
  "printable AnnotationCleanupCacheRequestedAt" "printable AnnotationCleanupCacheBy"
  "printable AnnotationCleanupReleasesRequestedAt" "printable AnnotationCleanupReleasesBy"
  by (simp_all add: byte_def)

lemma printable_FormatRFC3339: "printable (FormatRFC3339 t)"
proof -
  have d: "32 \<le> byte (digit_char n)" "byte (digit_char n) < 127" if "n < 10" for n
    using that by (simp_all add: digit_char_def byte_def)
  have "printable (pad2 n)" for n by (simp add: pad2_def d)
  then show ?thesis by (simp add: FormatRFC3339_def Let_def pad4_def byte_def)
qed

lemma json_parse_patch:
  assumes ms: "\<And>n. json_members (Suc (Suc (Suc (Suc n)))) 3 (Quote P k @ r) = Some (ms, ''}}'')"
  shows "json_parse (''{'' @ Quote P ''metadata'' @ '':'' @ ''{'' @ Quote P ''annotations'' @ '':'' @ ''{'' @ Quote P k @ r) =
    Some (annotations_patch ms)"
    (is "json_parse ?s = _")
proof -
  define n where "n = 2 * length ?s - 7"
  have "4 \<le> length ?s" by (simp add: Quote_def)
  then have fuel: "Suc (Suc (2 * length ?s)) = Suc (Suc (Suc (Suc (Suc (Suc (Suc (Suc (Suc n))))))))" unfolding n_def by linarith
  have d: "0 < maxNestingDepth" "1 < maxNestingDepth" "2 < maxNestingDepth" by (simp_all add: maxNestingDepth_def)
  have n3: "3 = Suc 2" "2 = Suc 1" "1 = Suc 0" by simp_all
  have "json_value (Suc (Suc (Suc (Suc (Suc n))))) 2 (''{'' @ Quote P k @ r) = Some (JObj ms, ''}}'')"
    by (rule json_value_object [OF ms [unfolded n3(1)] d(3)])
  then have "json_members (Suc (Suc (Suc (Suc (Suc (Suc n)))))) 2 (Quote P ''annotations'' @ '':'' @ ''{'' @ Quote P k @ r) =
      Some ([(''annotations'', JObj ms)], ''}'')"
    by (rule json_members_last [OF printable_keys(2)])
  then have "json_value (Suc (Suc (Suc (Suc (Suc (Suc (Suc n))))))) 1 (''{'' @ Quote P ''annotations'' @ '':'' @ ''{'' @ Quote P k @ r) =
      Some (JObj [(''annotations'', JObj ms)], ''}'')"
    unfolding n3(2) by (rule json_value_object [OF _ d(2)])
  then have "json_members (Suc (Suc (Suc (Suc (Suc (Suc (Suc (Suc n)))))))) 1 (Quote P ''metadata'' @ '':'' @ ''{'' @ Quote P ''annotations'' @ '':'' @ ''{'' @ Quote P k @ r) =
      Some ([(''metadata'', JObj [(''annotations'', JObj ms)])], [])"
    by (rule json_members_last [OF printable_keys(1)])
  then have "json_value (Suc (Suc (2 * length ?s))) 0 ?s = Some (annotations_patch ms, [])"
    unfolding fuel annotations_patch_def One_nat_def by (rule json_value_object [OF _ d(1)])
  then show ?thesis unfolding json_parse_def by simp
qed

lemma json_member_string:
  assumes "printable k" "printable v" "json_members (Suc n) d r = Some (ms, t)"
  shows "json_members (Suc (Suc n)) d (Quote P k @ '':'' @ Quote P v @ '','' @ r) = Some ((k, JStr v) # ms, t)"
  using json_members_next [OF assms(1) _ assms(3), of "Quote P v @ '','' @ r" "JStr v"] json_value_string [OF assms(2), of n d P "'','' @ r"]
  by simp

lemma rebuildPatch_json:
  assumes "printable user"
  shows "json_parse (rebuildPatch P user t) = Some (annotations_patch
     [(AnnotationRebuildRequestedAt, JStr (FormatRFC3339 t)), (AnnotationRebuildBy, JStr user), (AnnotationRebuildCommit, JNull)])"
proof -
  have last: "json_members (Suc (Suc n)) d (Quote P AnnotationRebuildCommit @ '':'' @ ''null'' @ ''}}}'') =
      Some ([(AnnotationRebuildCommit, JNull)], ''}}'')" for n d
    by (rule json_members_last [OF printable_keys(5)]) (use json_value_null [of n d "''}}}''"] in simp)
  have "json_members (Suc (Suc (Suc (Suc n)))) 3
      (Quote P AnnotationRebuildRequestedAt @ '':'' @ Quote P (FormatRFC3339 t) @ '','' @
       Quote P AnnotationRebuildBy @ '':'' @ Quote P user @ '','' @ Quote P AnnotationRebuildCommit @ '':'' @ ''null'' @ ''}}}'') =
      Some ([(AnnotationRebuildRequestedAt, JStr (FormatRFC3339 t)), (AnnotationRebuildBy, JStr user), (AnnotationRebuildCommit, JNull)], ''}}'')" for n
    by (rule json_member_string json_member_string [OF printable_keys(3)] printable_keys printable_FormatRFC3339 assms last)+
  from json_parse_patch [OF this] show ?thesis by (simp add: rebuildPatch_def)
qed

lemma cleanupPatch_json:
  assumes "printable user" "printable k1" "printable k2"
  shows "json_parse (cleanupPatch P k1 k2 user t) = Some (annotations_patch [(k1, JStr (FormatRFC3339 t)), (k2, JStr user)])"
proof -
  have last: "json_members (Suc (Suc n)) d (Quote P k2 @ '':'' @ Quote P user @ ''}}}'') = Some ([(k2, JStr user)], ''}}'')" for n d
    by (rule json_members_last [OF assms(3)]) (use json_value_string [OF assms(1), of n d P "''}}}''"] in simp)
  have "json_members (Suc (Suc (Suc (Suc n)))) 3 (Quote P k1 @ '':'' @ Quote P (FormatRFC3339 t) @ '','' @ Quote P k2 @ '':'' @ Quote P user @ ''}}}'') =
      Some ([(k1, JStr (FormatRFC3339 t)), (k2, JStr user)], ''}}'')" for n
    by (rule json_member_string assms printable_FormatRFC3339 last)+
  from json_parse_patch [OF this] show ?thesis by (simp add: cleanupPatch_def)
qed

text \<open>Outside ASCII the patch need not be JSON: \<open>%q\<close> writes a byte that is not UTF-8 as \<open>\xe9\<close>, which is no escape of JSON.\<close>

lemma rebuildPatch_not_json: "json_parse (rebuildPatch (\<lambda>_. True) [CHR 0xE9] 0) = None"
  by code_simp

section \<open>A request of the console reaches the operator\<close>

fun merge_members :: "(string \<times> json) list \<Rightarrow> string gomap \<Rightarrow> string gomap" where
  \<comment> \<open>RFC 7386 on a map of strings: a member sets its key, \<open>null\<close> removes it\<close>
  "merge_members [] m = m"
| "merge_members ((k, v) # ms) m =
     merge_members ms (case v of JStr s \<Rightarrow> AList.update k s m | JNull \<Rightarrow> AList.delete k m | _ \<Rightarrow> m)"

definition merges :: "'w cluster \<Rightarrow> ('w \<Rightarrow> string \<Rightarrow> string \<Rightarrow> App option) \<Rightarrow> bool" where
  \<comment> \<open>the documented effect of a merge patch on the annotations of a stored App; reading the clock stores nothing\<close>
  "merges C stored \<longleftrightarrow>
     (\<forall>w. stored (snd (x_Now C w)) = stored w) \<and>
     (\<forall>ns name patch w app ms. stored w ns name = Some app \<longrightarrow> json_parse patch = Some (annotations_patch ms) \<longrightarrow>
        (\<exists>w'. x_Patch C ns name patch w = (None, w') \<and>
              stored w' ns name = Some (app\<lparr>app_Annotations := merge_members ms (app_Annotations app)\<rparr>)))"

lemma patch_app_merges:
  assumes "merges C stored" "stored (c_world s) ns name = Some app" "json_parse patch = Some (annotations_patch ms)"
  shows "\<exists>s'. patch_app C what ns name patch s = (Inr (), s') \<and>
    stored (c_world s') ns name = Some (app\<lparr>app_Annotations := merge_members ms (app_Annotations app)\<rparr>)"
proof -
  from assms obtain w' where "x_Patch C ns name patch (c_world s) = (None, w')"
      "stored w' ns name = Some (app\<lparr>app_Annotations := merge_members ms (app_Annotations app)\<rparr>)"
    unfolding merges_def by metis
  then show ?thesis
    by (simp add: patch_app_def seqr_def bindr_def modify_def cluster_op_def ret_def)
qed

lemma clock_keeps_store:
  assumes "merges C stored"
  obtains t s1 where "cluster_op (x_Now C) s = (Inr t, s1)" "stored (c_world s1) = stored (c_world s)"
proof -
  have "stored (snd (x_Now C (c_world s))) = stored (c_world s)" using assms by (simp add: merges_def)
  then show thesis
    by (intro that [of "fst (x_Now C (c_world s))" "s\<lparr>c_world := snd (x_Now C (c_world s))\<rparr>"])
       (simp_all add: cluster_op_def case_prod_beta)
qed

lemma RequestRebuild_merges:
  assumes "merges C stored" "stored (c_world s) ns name = Some app" "printable user"
  shows "\<exists>s' t. RequestRebuild C ns name user s = (Inr (), s') \<and> stored (c_world s') ns name = Some (app\<lparr>app_Annotations :=
    merge_members [(AnnotationRebuildRequestedAt, JStr (FormatRFC3339 t)), (AnnotationRebuildBy, JStr user), (AnnotationRebuildCommit, JNull)]
      (app_Annotations app)\<rparr>)"
proof -
  obtain t s1 where "cluster_op (x_Now C) s = (Inr t, s1)" "stored (c_world s1) = stored (c_world s)"
    by (rule clock_keeps_store [OF assms(1)])
  moreover from patch_app_merges [OF assms(1) _ rebuildPatch_json [OF assms(3)]] this assms(2)
  obtain s' where "patch_app C ''rebuild'' ns name (rebuildPatch (x_isPrint C) user t) s1 = (Inr (), s')"
      "stored (c_world s') ns name = Some (app\<lparr>app_Annotations :=
    merge_members [(AnnotationRebuildRequestedAt, JStr (FormatRFC3339 t)), (AnnotationRebuildBy, JStr user), (AnnotationRebuildCommit, JNull)]
      (app_Annotations app)\<rparr>)" by metis
  ultimately show ?thesis by (auto simp: RequestRebuild_def bindr_def)
qed

definition attributed :: "string \<Rightarrow> string \<Rightarrow> App \<Rightarrow> bool" where
  "attributed token user app \<longleftrightarrow> st_LastProcessedRebuild (app_Status app) = token \<and>
     build_Trigger (st_Build (app_Status app)) = BuildTriggerManual \<and> build_TriggeredBy (st_Build (app_Status app)) = user \<and>
     build_Commit (st_Build (app_Status app)) = '''' \<and> mt_TriggeredBy (st_LastManualTrigger (app_Status app)) = user"

lemma startBuild_attributed:
  assumes "startBuild C E t d s = (Inr x, s')" "map_get (app_Annotations (r_app s)) RebuildByAnnotation = user" "user \<noteq> ''''"
  shows "attributed t user (r_app s')"
proof -
  let ?job = "BuildJob (k_ParseQuantity C) (e_Config E) (r_app s) t d"
  obtain r1 u where c: "create_owned C ?job s = (r1, u)" by (cases "create_owned C ?job s")
  then have "r_app u = r_app s" by (cases rule: create_owned_cases) auto
  moreover have "record_start C t ?job u = (Inr x, s')"
    using assms(1) c by (auto simp: startBuild_def seqr_def get_app_def rm_simps bindr_def Let_def split: sum.splits)
  ultimately show ?thesis
    using assms(2,3)
    by (auto simp: record_start_def bindr_def seqr_def get_app_def mod_app_def now_def gets_def modify_def world_op_def ret_def
        started_status_def classifyTrigger_def attributed_def Let_def upd_build_def split: prod.splits if_splits)
qed

lemma pending_attributed:
  assumes "available C" "map_get (app_Annotations (r_app s)) RebuildAnnotation = t" "t \<noteq> st_LastProcessedRebuild (app_Status (r_app s))"
    and "map_get (app_Annotations (r_app s)) RebuildByAnnotation = user" "user \<noteq> ''''"
    and "fst (k_ListJobs C (app_Namespace (r_app s)) (buildLabelsFor (r_app s)) (r_world s)) = Inr js"
      "list_all (\<lambda>j. jobFinished j \<noteq> None) js"
  shows "\<exists>s'. reconcile_build C E d s = (Inr True, s') \<and> build_token (last (r_calls s')) = [t] \<and> attributed t user (r_app s')"
proof -
  obtain s' where s': "reconcile_build C E d s = (Inr True, s')" "build_token (last (r_calls s')) = [t]"
    using pending_starts [OF assms(1-3,6,7)] by blast
  have "attributed t user (r_app s')"
    using s'(1)
  proof (cases rule: reconcile_build_cases)
    case (idle js')
    with s'(2) show ?thesis by (simp add: build_token_def)
  next
    case (start t1 js' t')
    then obtain x where "startBuild C E t d t1 = (Inr x, s')"
      using assms(2) by (auto simp: seqr_def bindr_def ret_def split: sum.splits prod.splits)
    then show ?thesis using startBuild_attributed start(3) assms(4,5) by metis
  qed simp
  with s' show ?thesis by blast
qed

section \<open>Health\<close>

lemma find_filter: "find P xs = (case filter P xs of [] \<Rightarrow> None | x # _ \<Rightarrow> Some x)"
  by (induction xs) auto

lemma find_sort_key: "find (\<lambda>x. f x = k) (sort_key f xs) = find (\<lambda>x. f x = k) xs"
  by (simp add: find_filter [of "\<lambda>x. f x = k"] sort_key_stable)

lemma App_Condition_view: "App_Condition (view_of mt p t app) c = map_option (view_condition mt) (findCondition app c)"
proof -
  have "find (\<lambda>x. vc_Type x = c) (map (view_condition mt) cs) = map_option (view_condition mt) (find (\<lambda>x. cond_Type x = c) cs)" for cs
    by (induction cs) (auto simp: view_condition_def)
  then show ?thesis by (simp add: App_Condition_def view_of_def Let_def find_sort_key findCondition_def)
qed

definition condition_true :: "App \<Rightarrow> string \<Rightarrow> bool" where
  "condition_true app c \<longleftrightarrow> (case findCondition app c of None \<Rightarrow> False | Some x \<Rightarrow> cond_Status x = ConditionTrue)"

lemma view_health:
  "Ready (view_of mt p t app) = condition_true app ConditionReady"
  "Degraded (view_of mt p t app) = condition_true app ConditionDegraded"
  "va_Phase (view_of mt p t app) = st_Phase (app_Status app)"
  by (simp_all add: Ready_def Degraded_def App_Condition_view condition_true_def IsTrue_def view_condition_def
      split: option.split) (simp add: view_of_def Let_def)

lemma phase_conditions:
  "st_Phase (app_Status (refreshPhase n app)) = phaseOf app"
  "condition_true (refreshPhase n app) ConditionDegraded = condition_true app ConditionDegraded"
  "phaseOf app \<noteq> PhaseDegraded \<Longrightarrow> condition_true (refreshPhase n app) ConditionReady \<longleftrightarrow> phaseOf app = PhaseReady"
  "phaseOf app = PhaseDegraded \<Longrightarrow> condition_true app ConditionDegraded"
  "phaseOf app = PhaseReady \<Longrightarrow> \<not> condition_true app ConditionDegraded"
proof -
  have same: "findCondition (upd_status (\<lambda>st. st\<lparr>st_Phase := p\<rparr>) app) = findCondition app" for p
    by (simp add: findCondition_def fun_eq_iff)
  have stp: "st_Phase (app_Status (setCondition t a c s r m)) = st_Phase (app_Status a)" for t a c s r m
    by (simp add: setCondition_def Let_def split: option.split)
  show "st_Phase (app_Status (refreshPhase n app)) = phaseOf app"
    by (simp add: refreshPhase_def stp Let_def)
  show "condition_true (refreshPhase n app) ConditionDegraded = condition_true app ConditionDegraded"
    by (simp add: refreshPhase_def condition_true_def findCondition_setCondition same Let_def)
  show "condition_true (refreshPhase n app) ConditionReady \<longleftrightarrow> phaseOf app = PhaseReady" if "phaseOf app \<noteq> PhaseDegraded"
  proof -
    have "phaseOf app \<in> {PhaseAwaitingFirstBuild, PhaseBuilding, PhaseReady, PhaseDegraded}" by (simp add: phaseOf_def Let_def)
    with that show ?thesis
      by (auto simp: refreshPhase_def condition_true_def findCondition_setCondition same Let_def)
  qed
  show "phaseOf app = PhaseDegraded \<Longrightarrow> condition_true app ConditionDegraded"
    "phaseOf app = PhaseReady \<Longrightarrow> \<not> condition_true app ConditionDegraded"
    by (auto simp: phaseOf_def condition_true_def Let_def split: if_splits)
qed

lemma health_of_phase:
  "HealthClass (view_of mt p t (refreshPhase n app)) =
    (if phaseOf app = PhaseReady then ''ready''
     else if phaseOf app = PhaseDegraded then (if condition_true (refreshPhase n app) ConditionReady then ''degraded-serving'' else ''degraded'')
     else if condition_true app ConditionDegraded then ''degraded''
     else if phaseOf app = PhaseBuilding then ''building'' else ''pending'')"
  using phase_conditions(1,2) [of n app] phase_conditions(3) [of app n] phase_conditions(4,5) [of app]
  by (auto simp: HealthClass_def view_health)

section \<open>Setup\<close>

lemma setupHint_view:
  assumes "documented U"
  shows "setupHint U (wire mt md extra app) =
    (if sps_Skip (phs_Setup (phases app)) then ''setup skipped by spec''
     else if setupRuns app \<and> \<not> phaseConfigured (sps_Phase (phs_Setup (phases app)))
     then ''setup omitted '' @ em_dash @ '' the operator runs its default install for '' @ pl_PackageManager (pipeline app) @
          ''; the exact command is echoed in the build logs''
     else '''')"
proof -
  let ?pl = "obj_fields [(''nodeVersion'', oi (pl_NodeVersion (pipeline app))), (''packageManager'', Some (VString (pl_PackageManager (pipeline app)))),
      (''submodules'', ob (pl_Submodules (pipeline app))), (''timeout'', map_option md (pl_Timeout (pipeline app))),
      (''phases'', Some (enc_phases (phases app)))]"
  let ?sp = "obj_fields (phase_fields (sps_Phase (phs_Setup (phases app))) @ [(''skip'', ob (sps_Skip (phs_Setup (phases app))))])"
  have pl: "u_NestedMap U (wire mt md extra app) [''spec'', ''pipeline''] = Some ?pl"
    using assms by (simp add: documented_def wire_def enc_spec_def enc_pipeline_def map_of_fields)
  have sp: "u_NestedMap U ?pl [''phases'', ''setup''] = Some ?sp"
    using assms by (simp add: documented_def map_of_fields enc_phases_def)
  have fields: "u_NestedBool U ?sp [''skip''] = (if sps_Skip (phs_Setup (phases app)) then Some True else None)"
    "(case u_NestedString U ?sp [''image''] of None \<Rightarrow> '''' | Some s \<Rightarrow> s) = ps_Image (sps_Phase (phs_Setup (phases app)))"
    "(case u_NestedSlice U ?sp [''command''] of None \<Rightarrow> [] | Some xs \<Rightarrow> xs) = map VString (ps_Command (sps_Phase (phs_Setup (phases app))))"
    using assms by (simp_all add: documented_def map_of_fields phase_fields_def ob_def os_def ol_def)
  have pipe: "u_NestedField U ?pl [''nodeVersion''] = oi (pl_NodeVersion (pipeline app))"
    "u_NestedString U ?pl [''packageManager''] = Some (pl_PackageManager (pipeline app))"
    using assms by (simp_all add: documented_def map_of_fields oi_def)
  show ?thesis
    unfolding setupHint_def pl option.case sp items_of_def fields pipe Let_def
    by (auto simp: setupRuns_def phaseConfigured_def oi_def)
qed

section \<open>Secrets on the manifest page\<close>

definition same_but_secrets :: "(string \<times> any) list \<Rightarrow> (string \<times> any) list \<Rightarrow> bool" where
  \<comment> \<open>the objects differ at most in annotation values, the inline password hash, the status and other metadata\<close>
  "same_but_secrets obj obj' \<longleftrightarrow>
     map_of obj ''apiVersion'' = map_of obj' ''apiVersion'' \<and> map_of obj ''kind'' = map_of obj' ''kind'' \<and>
     (\<forall>k\<in>{''name'', ''namespace'', ''labels''}. nested (VMap obj) [''metadata'', k] = nested (VMap obj') [''metadata'', k]) \<and>
     (nested (VMap obj) [''metadata'', ''annotations''] = nested (VMap obj') [''metadata'', ''annotations''] \<or>
      (\<exists>ann ann'. nested (VMap obj) [''metadata'', ''annotations''] = Some (VMap (enc_strings ann)) \<and>
        nested (VMap obj') [''metadata'', ''annotations''] = Some (VMap (enc_strings ann')) \<and> map fst ann = map fst ann')) \<and>
     (map_of obj ''spec'' = map_of obj' ''spec'' \<or>
      (\<exists>spec auth h h'. map_of obj ''spec'' = Some (VMap (AList.update ''auth'' (VMap (AList.update ''passwordHash'' h auth)) spec)) \<and>
        map_of obj' ''spec'' = Some (VMap (AList.update ''auth'' (VMap (AList.update ''passwordHash'' h' auth)) spec))))"

lemma update_update [simp]: "AList.update k v (AList.update k w m) = AList.update k v m"
  by (induction m) auto

lemma hide_auth_masked:
  "hide_auth (AList.update ''auth'' (VMap (AList.update ''passwordHash'' h auth)) spec) =
   (AList.update ''auth'' (VMap (AList.update ''passwordHash'' (VString hiddenValue) auth)) spec, True)"
  by (simp add: hide_auth_def mget_def)

lemma manifest_same:
  assumes "documented U" "same_but_secrets obj obj'"
  shows "pruneManifest U obj = pruneManifest U obj'" "setupHint U obj = setupHint U obj'"
proof -
  have keys: "nested (VMap obj) [''metadata'', ''name''] = nested (VMap obj') [''metadata'', ''name'']"
    "nested (VMap obj) [''metadata'', ''namespace''] = nested (VMap obj') [''metadata'', ''namespace'']"
    "nested (VMap obj) [''metadata'', ''labels''] = nested (VMap obj') [''metadata'', ''labels'']"
    "map_of obj ''apiVersion'' = map_of obj' ''apiVersion''" "map_of obj ''kind'' = map_of obj' ''kind''"
    using assms(2) unfolding same_but_secrets_def by blast+
  have get: "u_GetName U obj = u_GetName U obj'" "u_GetNamespace U obj = u_GetNamespace U obj'" "u_GetLabels U obj = u_GetLabels U obj'"
    using assms(1) by (simp_all only: documented_def keys)
  let ?ann = "u_GetAnnotations U obj" and ?ann' = "u_GetAnnotations U obj'"
  have "nested (VMap obj) [''metadata'', ''annotations''] = nested (VMap obj') [''metadata'', ''annotations''] \<or>
      (\<exists>ann ann'. nested (VMap obj) [''metadata'', ''annotations''] = Some (VMap (enc_strings ann)) \<and>
        nested (VMap obj') [''metadata'', ''annotations''] = Some (VMap (enc_strings ann')) \<and> map fst ann = map fst ann')"
    using assms(2) unfolding same_but_secrets_def by blast
  then have names: "map fst ?ann = map fst ?ann'"
  proof (elim conjE disjE exE)
    assume "nested (VMap obj) [''metadata'', ''annotations''] = nested (VMap obj') [''metadata'', ''annotations'']"
    then show ?thesis using assms(1) by (simp only: documented_def)
  next
    fix ann ann' assume "nested (VMap obj) [''metadata'', ''annotations''] = Some (VMap (enc_strings ann))"
      "nested (VMap obj') [''metadata'', ''annotations''] = Some (VMap (enc_strings ann'))" "map fst ann = map fst ann'"
    then show ?thesis using assms(1) by (simp only: documented_def option.case any.case string_entries_enc)
  qed
  have "map (\<lambda>(k, v). (k, VString hiddenValue)) a = map (\<lambda>k. (k, VString hiddenValue)) (map fst a)" for a :: "string gomap"
    by (induction a) auto
  then have hidden: "map (\<lambda>(k, v). (k, VString hiddenValue)) ?ann = map (\<lambda>(k, v). (k, VString hiddenValue)) ?ann'" by (simp only: names)
  have none: "?ann = [] \<longleftrightarrow> ?ann' = []" using names by (metis map_is_Nil_conv)
  have spec: "map_of obj ''spec'' = map_of obj' ''spec'' \<or>
      (\<exists>spec auth h h'. map_of obj ''spec'' = Some (VMap (AList.update ''auth'' (VMap (AList.update ''passwordHash'' h auth)) spec)) \<and>
        map_of obj' ''spec'' = Some (VMap (AList.update ''auth'' (VMap (AList.update ''passwordHash'' h' auth)) spec)))"
    using assms(2) unfolding same_but_secrets_def by blast
  then show "pruneManifest U obj = pruneManifest U obj'"
    by (elim disjE exE conjE) (simp_all add: pruneManifest_def get keys hidden none mget_def hide_auth_masked Let_def cong del: any.case_cong_weak)
  have "u_NestedMap U obj [''spec'', ''pipeline''] = u_NestedMap U obj' [''spec'', ''pipeline'']"
    using spec assms(1) by (elim disjE exE conjE) (simp_all add: documented_def)
  then show "setupHint U obj = setupHint U obj'" by (simp only: setupHint_def)
qed

section \<open>Storage\<close>

lemma wrap64_add [simp]: "wrap64 (wrap64 x + y) = wrap64 (x + y)" "wrap64 (x + wrap64 y) = wrap64 (x + y)"
  by (simp_all add: wrap64_def algebra_simps mod_simps)

definition totals_of :: "(string \<times> int) list \<Rightarrow> StorageTotals \<Rightarrow> StorageTotals" where
  "totals_of m t =
     (let g = (\<lambda>k d. case map_of m k of None \<Rightarrow> d | Some n \<Rightarrow> n)
      in t\<lparr>tot_Cache := g ''cache'' (tot_Cache t), tot_DataCache := g ''dataCache'' (tot_DataCache t),
           tot_OutputTotal := g ''outputTotal'' (tot_OutputTotal t), tot_OutputActive := g ''output'' (tot_OutputActive t)\<rparr>)"

lemma foldl_total_volume:
  "distinct (map sv_Name vs) \<Longrightarrow> foldl total_volume t vs = totals_of (map (\<lambda>v. (sv_Name v, sv_Bytes v)) vs) t"
proof (induction vs arbitrary: t)
  case (Cons v vs)
  then have absent: "map_of (map (\<lambda>v. (sv_Name v, sv_Bytes v)) vs) (sv_Name v) = None"
    by (force simp: map_of_eq_None_iff)
  show ?case
    using Cons absent by (auto simp: totals_of_def total_volume_def Let_def cong: option.case_cong)
qed (simp add: totals_of_def)

lemma storageTotals_view:
  assumes "distinct (map fst (stor_Sizes (st_Storage (app_Status app))))"
  shows "storageTotals (view_of mt p t app) = with_grand (totals_of (stor_Sizes (st_Storage (app_Status app))) noTotals)"
proof -
  let ?sizes = "stor_Sizes (st_Storage (app_Status app))"
  let ?vs = "sort_key sv_Name (map (\<lambda>(name, n). view_volume app name n) ?sizes)"
  have row: "sv_Name (view_volume app name n) = name" "sv_Bytes (view_volume app name n) = n" for name n
    by (simp_all add: view_volume_def Let_def)
  have names: "mset (map sv_Name ?vs) = mset (map fst ?sizes)"
    by (simp add: image_mset.compositionality comp_def case_prod_unfold row)
  then have dist: "distinct (map sv_Name ?vs)"
    using assms by (metis mset_eq_imp_distinct_iff)
  have "mset (map (\<lambda>v. (sv_Name v, sv_Bytes v)) ?vs) = mset ?sizes"
    by (simp add: image_mset.compositionality comp_def case_prod_unfold row)
  then have "set (map (\<lambda>v. (sv_Name v, sv_Bytes v)) ?vs) = set ?sizes" by (metis mset_eq_setD)
  moreover have "map fst (map (\<lambda>v. (sv_Name v, sv_Bytes v)) ?vs) = map sv_Name ?vs" by simp
  ultimately have "map_of (map (\<lambda>v. (sv_Name v, sv_Bytes v)) ?vs) = map_of ?sizes"
    using assms dist by (metis map_of_inject_set)
  then show ?thesis
    by (simp add: storageTotals_def view_of_def Let_def foldl_total_volume [OF dist] totals_of_def)
qed

definition footprint :: "App \<Rightarrow> int" where
  \<comment> \<open>the measured bytes of an App's volumes, each counted once\<close>
  "footprint app = (let m = stor_Sizes (st_Storage (app_Status app)) in int_get m ''cache'' + int_get m ''dataCache'' + int_get m ''outputTotal'')"

lemma aggregate_fields:
  "wrap64 (tot_Cache (foldl (\<lambda>t a. add_totals t (f a)) t xs) + tot_DataCache (foldl (\<lambda>t a. add_totals t (f a)) t xs) +
     tot_OutputTotal (foldl (\<lambda>t a. add_totals t (f a)) t xs)) =
   wrap64 (tot_Cache t + tot_DataCache t + tot_OutputTotal t + (\<Sum>a\<leftarrow>xs. tot_Cache (f a) + tot_DataCache (f a) + tot_OutputTotal (f a)))"
proof (induction xs arbitrary: t)
  case (Cons x xs)
  have w: "wrap64 (wrap64 a + wrap64 b + wrap64 c + d) = wrap64 (a + b + c + d)" for a b c d
    by (metis wrap64_add add.assoc add.commute)
  have fields: "tot_Cache (add_totals t u) = wrap64 (tot_Cache t + tot_Cache u)"
    "tot_DataCache (add_totals t u) = wrap64 (tot_DataCache t + tot_DataCache u)"
    "tot_OutputTotal (add_totals t u) = wrap64 (tot_OutputTotal t + tot_OutputTotal u)" for u
    by (simp_all add: add_totals_def)
  show ?case unfolding foldl_Cons Cons.IH fields w by (simp add: ac_simps)
qed simp

lemma rollup_sum:
  assumes "\<forall>app\<in>set apps. distinct (map fst (stor_Sizes (st_Storage (app_Status app))))"
  shows "tot_Grand (AggregateStorage (map (view_of mt p t) apps)) = wrap64 (\<Sum>app\<leftarrow>apps. footprint app)"
proof -
  have one: "tot_Cache (storageTotals (view_of mt p t app)) + tot_DataCache (storageTotals (view_of mt p t app)) +
      tot_OutputTotal (storageTotals (view_of mt p t app)) = footprint app" if "app \<in> set apps" for app
    using storageTotals_view assms that
    by (simp add: with_grand_def totals_of_def noTotals_def footprint_def int_get_def Let_def)
  have "(\<Sum>a\<leftarrow>map (view_of mt p t) apps. tot_Cache (storageTotals a) + tot_DataCache (storageTotals a) + tot_OutputTotal (storageTotals a)) =
      (\<Sum>app\<leftarrow>apps. footprint app)"
    using one by (simp add: comp_def cong: map_cong)
  then show ?thesis
    using aggregate_fields [of storageTotals noTotals "map (view_of mt p t) apps"]
    by (simp add: AggregateStorage_def with_grand_def noTotals_def)
qed

section \<open>Properties\<close>

text \<open>C10. The console reads what the operator writes: for every App, the object the API server returns for it,
  with the fields named by the JSON tags of the operator's types and empty ones left out, is read back by
  the console as the view in which every field has the operator's value. The fill bar of a volume is drawn
  against the operator's own threshold for it. The accessors of \<open>unstructured\<close> are assumed to behave as documented,
  and the metadata the server adds to hold no name, namespace or annotations.\<close>

theorem console_reads_operator:
  assumes "documented U" "plain_metadata extra"
  shows "FromUnstructured U parseStandard t (wire mt md extra app) = view_of mt parseStandard t app"
  by (rule FromUnstructured_wire [OF assms])

theorem console_reads_operator_witness:
  "FromUnstructured std_accessors (\<lambda>_. None) 0 (wire (\<lambda>_. VNil) (\<lambda>_. VNil) [(''uid'', VString ''u'')] sample_app) =
     view_of (\<lambda>_. VNil) (\<lambda>_. None) 0 sample_app"
  using console_reads_operator [OF documented_std, of "[(''uid'', VString ''u'')]"] by (simp add: plain_metadata_def)

text \<open>C35. The console's badge is the operator's phase: when the status was last refreshed by the operator, the class
  shown for the App is \<open>ready\<close> exactly in phase Ready, an App in phase Degraded is shown as degraded, as still
  serving exactly when its Ready condition is True, and an App that is building or waiting is shown so unless its
  Degraded condition is True.\<close>

theorem console_health_is_phase:
  assumes "documented U" "plain_metadata extra"
  shows "HealthClass (FromUnstructured U parseStandard t (wire mt md extra (refreshPhase n app))) =
    (if phaseOf app = PhaseReady then ''ready''
     else if phaseOf app = PhaseDegraded then (if condition_true (refreshPhase n app) ConditionReady then ''degraded-serving'' else ''degraded'')
     else if condition_true app ConditionDegraded then ''degraded''
     else if phaseOf app = PhaseBuilding then ''building'' else ''pending'')"
  unfolding FromUnstructured_wire [OF assms] by (rule health_of_phase)

theorem console_health_is_phase_witness:
  "HealthClass (FromUnstructured std_accessors (\<lambda>_. None) 0 (wire (\<lambda>_. VNil) (\<lambda>_. VNil) [] (refreshPhase 0 sample_app))) = ''pending''"
proof -
  have "findCondition sample_app c = None" for c
    by (simp add: findCondition_def sample_app_def sample_status_def)
  then have "phaseOf sample_app = PhaseAwaitingFirstBuild" "\<not> condition_true sample_app ConditionDegraded"
    by (simp_all add: phaseOf_def condition_true_def sample_app_def sample_status_def hasSucceededOnce_def Let_def)
  with console_health_is_phase [OF documented_std, of "[]" "\<lambda>_. None" 0 "\<lambda>_. VNil" "\<lambda>_. VNil" 0 sample_app]
  show ?thesis by (simp add: plain_metadata_def)
qed

text \<open>The hint on the manifest page is true: it says that the phase is skipped exactly when the spec skips it,
  and that a default install runs exactly when the operator will run the phase without a command or an
  image of the user's.\<close>

theorem manifest_hint_is_operator:
  assumes "documented U"
  shows "setupHint U (wire mt md extra app) =
    (if sps_Skip (phs_Setup (phases app)) then ''setup skipped by spec''
     else if setupRuns app \<and> \<not> phaseConfigured (sps_Phase (phs_Setup (phases app)))
     then ''setup omitted '' @ em_dash @ '' the operator runs its default install for '' @ pl_PackageManager (pipeline app) @
          ''; the exact command is echoed in the build logs''
     else '''')"
  by (rule setupHint_view [OF assms])

theorem manifest_hint_is_operator_witness:
  "setupHint std_accessors (wire (\<lambda>_. VNil) (\<lambda>_. VNil) [] sample_app) =
     ''setup omitted '' @ em_dash @ '' the operator runs its default install for pnpm; the exact command is echoed in the build logs''"
  unfolding manifest_hint_is_operator [OF documented_std]
  by (simp add: sample_app_def sample_phase_def phaseConfigured_def setupRuns_def)

text \<open>C36. The manifest page gives no secret away: two Apps that differ only in annotation values, in the inline
  password hash, in the status and in server metadata get the same manifest, the same mark that something is
  hidden and the same hint. What is shown cannot depend on the hidden values, whether or not the Apps have
  annotations or an inline hash at all.\<close>

theorem manifest_hides_secrets:
  assumes "documented U" "same_but_secrets obj obj'"
  shows "pruneManifest U obj = pruneManifest U obj' \<and> setupHint U obj = setupHint U obj'"
  using manifest_same [OF assms] by blast

definition sample_object :: "string \<Rightarrow> string \<Rightarrow> (string \<times> any) list" where
  "sample_object note hash =
     [(''kind'', VString ''App''), (''metadata'', VMap [(''name'', VString ''site''), (''annotations'', VMap (enc_strings [(''note'', note)]))]),
      (''spec'', VMap [(''auth'', VMap [(''username'', VString ''u''), (''passwordHash'', VString hash)])])]"

theorem manifest_hides_secrets_witness:
  "pruneManifest std_accessors (sample_object ''token-1'' ''hash-1'') = pruneManifest std_accessors (sample_object ''token-2'' ''hash-2'')"
proof -
  have "same_but_secrets (sample_object a h) (sample_object a' h')" for a h a' h'
    unfolding same_but_secrets_def
  proof (intro conjI disjI2 exI)
    show "map_of (sample_object a h) ''spec'' = Some (VMap (AList.update ''auth''
        (VMap (AList.update ''passwordHash'' (VString h) [(''username'', VString ''u'')])) []))"
      "map_of (sample_object a' h') ''spec'' = Some (VMap (AList.update ''auth''
        (VMap (AList.update ''passwordHash'' (VString h') [(''username'', VString ''u'')])) []))"
      by (simp_all add: sample_object_def)
    show "nested (VMap (sample_object a h)) [''metadata'', ''annotations''] = Some (VMap (enc_strings [(''note'', a)]))"
      "nested (VMap (sample_object a' h')) [''metadata'', ''annotations''] = Some (VMap (enc_strings [(''note'', a')]))"
      by (simp_all add: sample_object_def)
  qed (simp_all add: sample_object_def)
  from manifest_hides_secrets [OF documented_std this] show ?thesis by blast
qed

text \<open>The storage heading is the operator's footprint: the total of the list is the sum, in 64-bit arithmetic,
  of the measured bytes of the Apps, each volume counted once; the current release, which is part of the
  output volume, is not added again.\<close>

theorem storage_heading_is_footprint:
  assumes "\<forall>app\<in>set apps. distinct (map fst (stor_Sizes (st_Storage (app_Status app))))"
  shows "tot_Grand (AggregateStorage (map (view_of mt p t) apps)) = wrap64 (\<Sum>app\<leftarrow>apps. footprint app)"
  by (rule rollup_sum [OF assms])

theorem storage_heading_is_footprint_witness:
  "tot_Grand (AggregateStorage (map (view_of (\<lambda>_. VNil) (\<lambda>_. None) 0)
     (map (\<lambda>m. sample_app\<lparr>app_Status := sample_status\<lparr>st_Storage := (st_Storage sample_status)\<lparr>stor_Sizes := m\<rparr>\<rparr>\<rparr>)
        [[(''output'', 3), (''outputTotal'', 5), (''cache'', 7)], [(''dataCache'', 11)]]))) = 23"
  by (subst storage_heading_is_footprint) (simp_all add: footprint_def int_get_def Let_def wrap64_def)

lemma request_redirects:
  assumes "merges (sv_cluster S) stored" "stored (c_world s) ns name = Some app"
    and "route_of r = RRebuild ns name" "UserFrom r = user" "user \<noteq> ''''" "printable user"
  obtains s' t where "Routes S r s = (Inr (Redirect 303 (''/ns/'' @ ns @ ''/app/'' @ name @ ''?rebuild=requested'')), s')"
    "stored (c_world s') ns name = Some (app\<lparr>app_Annotations :=
      merge_members [(AnnotationRebuildRequestedAt, JStr (FormatRFC3339 t)), (AnnotationRebuildBy, JStr user), (AnnotationRebuildCommit, JNull)]
        (app_Annotations app)\<rparr>)"
proof -
  from RequestRebuild_merges [OF assms(1,2,6)] obtain s' t where
    run: "RequestRebuild (sv_cluster S) ns name user s = (Inr (), s')"
    and app: "stored (c_world s') ns name = Some (app\<lparr>app_Annotations :=
      merge_members [(AnnotationRebuildRequestedAt, JStr (FormatRFC3339 t)), (AnnotationRebuildBy, JStr user), (AnnotationRebuildCommit, JNull)]
        (app_Annotations app)\<rparr>)" by blast
  have "Routes S r s = (Inr (Redirect 303 (''/ns/'' @ ns @ ''/app/'' @ name @ ''?rebuild=requested'')), s')"
    using assms(3-5) run
    by (simp add: Routes_def handleRebuild_def handle_request_def bindr_def tryr_def ret_def Let_def)
  with app that show thesis by blast
qed

lemma map_get_merged:
  "map_get (merge_members [(AnnotationRebuildRequestedAt, JStr x), (AnnotationRebuildBy, JStr user), (AnnotationRebuildCommit, JNull)] m)
     RebuildAnnotation = x"
  "map_get (merge_members [(AnnotationRebuildRequestedAt, JStr x), (AnnotationRebuildBy, JStr user), (AnnotationRebuildCommit, JNull)] m)
     RebuildByAnnotation = user"
  by (simp_all add: map_get_def delete_conv' update_conv')

definition builds_next :: "'w client \<Rightarrow> App \<Rightarrow> string \<Rightarrow> string \<Rightarrow> bool" where
  \<comment> \<open>every build step of the operator on this App, with no listed build active, starts a build for the token and the user\<close>
  "builds_next C app token user \<longleftrightarrow>
     (\<forall>E d js u. r_app u = app \<longrightarrow> fst (k_ListJobs C (app_Namespace app) (buildLabelsFor app) (r_world u)) = Inr js \<longrightarrow>
       list_all (\<lambda>j. jobFinished j \<noteq> None) js \<longrightarrow>
       (\<exists>u'. reconcile_build C E d u = (Inr True, u') \<and> build_token (last (r_calls u')) = [token] \<and> attributed token user (r_app u')))"


definition annotation_members :: "json \<Rightarrow> (string \<times> json) list option" where
  "annotation_members j =
     (case j of JObj [(m, JObj [(a, JObj ms)])] \<Rightarrow> if m = ''metadata'' \<and> a = ''annotations'' then Some ms else None | _ \<Rightarrow> None)"

definition sample_stored :: "App \<Rightarrow> string \<Rightarrow> string \<Rightarrow> App option" where
  "sample_stored app ns name = (if app_Namespace app = ns \<and> app_Name app = name then Some app else None)"

definition sample_cluster :: "App cluster" where
  \<comment> \<open>an API server that stores one App and applies merge patches to its annotations\<close>
  "sample_cluster =
     \<lparr>x_accessors = std_accessors, x_parseStandard = (\<lambda>_. None), x_isPrint = (\<lambda>_. True), x_QuantityValue = (\<lambda>_. 0),
      x_Now = (\<lambda>w. (0, w)), x_HasSynced = (\<lambda>w. (True, w)), x_Lister = (\<lambda>w. (Inr [], w)), x_Get = (\<lambda>ns name w. (Inl ''offline'', w)),
      x_Patch = (\<lambda>ns name patch w.
        case Option.bind (json_parse patch) annotation_members of
          None \<Rightarrow> (Some ''invalid patch'', w)
        | Some ms \<Rightarrow> (None, w\<lparr>app_Annotations := merge_members ms (app_Annotations w)\<rparr>)),
      x_clientset = False, x_GetPod = (\<lambda>ns name w. (Inl ''offline'', w)), x_PodLogs = (\<lambda>ns p c n w. (Inl ''offline'', w)),
      x_StatsSummary = (\<lambda>node w. (Inl ''offline'', w))\<rparr>"

definition sample_server :: "App server" where
  "sample_server = \<lparr>sv_cluster = sample_cluster, sv_pods = False, sv_metrics = False, sv_tailer = None,
     sv_send = (\<lambda>req w. (Inl ''offline'', w)), sv_yaml = (\<lambda>_. Inr ''''), sv_chroma = (\<lambda>_. None)\<rparr>"

definition sample_post :: request where
  "sample_post = \<lparr>rq_Method = ''POST'', rq_Path = [''ns'', ''ns'', ''app'', ''site'', ''rebuild''], rq_Query = [],
     rq_Header = [(''X-Forwarded-User'', ''octocat'')]\<rparr>"

lemma sample_merges: "merges sample_cluster sample_stored"
proof -
  have "annotation_members (annotations_patch ms) = Some ms" for ms by (simp add: annotation_members_def annotations_patch_def)
  then show ?thesis by (auto simp: merges_def sample_cluster_def sample_stored_def split: if_splits)
qed


end
