(* ===== verification/Phase_Shim.thy ===== *)
theory Phase_Shim
  imports Build_Pod Go_Format
begin

text \<open>
  \<open>images/shim/main.go\<close>: the wrapper that the operator puts in front of every user phase. It runs the user
  command, forwards signals to it, writes the memory peak of the container to the termination log and
  exits with the command's code.

  The operating system is the record \<open>'w os\<close> over an arbitrary world \<open>'w\<close>; every call may fail in any way. The
  state has the world, the text written to the two standard streams and the calls that change
  something outside, with their outcome, oldest first. \<open>select\<close> over the signal channel and the
  completion of \<open>cmd.Wait\<close> is \<open>os_Select\<close>, which answers with the next of the two (that the channel holds 16 signals and
  the runtime drops one that finds it full is thus part of what \<open>os_Select\<close> may do); the loop around it may run for
  ever, so \<open>supervise\<close> is a partial function whose \<^const>\<open>None\<close> is a run that does not end. An error is its
  text. Closing a file that was only read, and the termination log, has no outcome the code looks at.
\<close>

datatype os_signal = SyscallSignal int | OtherSignal

definition SIGCHLD :: int where "SIGCHLD = 17"

record wait_status =
  ws_Signaled :: bool
  ws_Signal :: int

record process_state =
  ps_Sys :: "wait_status option"
  ps_ExitCode :: int

record wait_result =
  wr_Err :: "string option"
  wr_State :: "process_state option"

datatype shim_event = SignalEvent os_signal | DoneEvent wait_result

record 'w os =
  os_Getenv :: "string \<Rightarrow> string"
  os_Executable :: "'w \<Rightarrow> (string + string) \<times> 'w"
  os_Open :: "string \<Rightarrow> 'w \<Rightarrow> string option \<times> 'w"
  os_Create :: "string \<Rightarrow> nat \<Rightarrow> 'w \<Rightarrow> string option \<times> 'w"
  os_Copy :: "string \<Rightarrow> string \<Rightarrow> 'w \<Rightarrow> string option \<times> 'w"
  os_Close :: "string \<Rightarrow> 'w \<Rightarrow> string option \<times> 'w"
  os_Rename :: "string \<Rightarrow> string \<Rightarrow> 'w \<Rightarrow> string option \<times> 'w"
  os_ReadFile :: "string \<Rightarrow> 'w \<Rightarrow> (string + string) \<times> 'w"
  os_OpenAppend :: "string \<Rightarrow> 'w \<Rightarrow> string option \<times> 'w"
  os_Write :: "string \<Rightarrow> string \<Rightarrow> 'w \<Rightarrow> string option \<times> 'w"
  os_Start :: "string list \<Rightarrow> 'w \<Rightarrow> string option \<times> 'w"
  os_Select :: "'w \<Rightarrow> shim_event \<times> 'w"
  os_Signal :: "os_signal \<Rightarrow> 'w \<Rightarrow> 'w"

datatype os_call =
    CreateCall string nat bool
  | CopyCall string string bool
  | CloseCall string bool
  | RenameCall string string bool
  | WriteCall string string bool
  | StartCall "string list" bool
  | SignalCall os_signal

record 'w shim =
  sh_world :: 'w
  sh_stdout :: string
  sh_stderr :: string
  sh_calls :: "os_call list"

type_synonym ('w, 'a) shim_op = "('w shim, string, 'a) rmonad"

definition os_read :: "('w \<Rightarrow> 'b \<times> 'w) \<Rightarrow> ('w, 'b) shim_op" where
  "os_read f = (\<lambda>s. case f (sh_world s) of (x, w) \<Rightarrow> (Inr x, s\<lparr>sh_world := w\<rparr>))"

definition os_do :: "('w \<Rightarrow> string option \<times> 'w) \<Rightarrow> (bool \<Rightarrow> os_call) \<Rightarrow> string \<Rightarrow> ('w, unit) shim_op" where
  \<comment> \<open>a call whose error is returned as \<open>fmt.Errorf("what: %w", err)\<close>\<close>
  "os_do f c what =
     (\<lambda>s. case f (sh_world s) of (e, w) \<Rightarrow>
        ((case e of None \<Rightarrow> Inr () | Some err \<Rightarrow> Inl (what @ '': '' @ err)), s\<lparr>sh_world := w, sh_calls := sh_calls s @ [c (e = None)]\<rparr>))"

definition diagnose :: "string \<Rightarrow> 'w shim \<Rightarrow> 'w shim" where
  \<comment> \<open>a line on the standard error stream\<close>
  "diagnose msg s = s\<lparr>sh_stderr := sh_stderr s @ msg @ [CHR 0x0A]\<rparr>"

section \<open>install\<close>

definition installMode :: nat where
  \<comment> \<open>\<open>0o555\<close>: everyone may read and execute, nobody write\<close>
  "installMode = 5 * 64 + 5 * 8 + 5"

definition install :: "'w os \<Rightarrow> string \<Rightarrow> ('w, unit) shim_op" where
  "install Y dest =
     bindr (os_read (os_Executable Y)) (\<lambda>r.
       case r of
         Inl err \<Rightarrow> raise (''locate self: '' @ err)
       | Inr self \<Rightarrow>
           bindr (os_read (os_Open Y self)) (\<lambda>r.
             case r of
               Some err \<Rightarrow> raise (''open self: '' @ err)
             | None \<Rightarrow>
                 let tmp = dest @ ''.tmp''
                 in seqr (os_do (os_Create Y tmp installMode) (CreateCall tmp installMode) (''create '' @ tmp))
                   (bindr (tryr (os_do (os_Copy Y tmp self) (CopyCall tmp self) ''copy'')) (\<lambda>r.
                     case r of
                       Inl err \<Rightarrow> seqr (tryr (os_do (os_Close Y tmp) (CloseCall tmp) ''close'')) (raise err)
                     | Inr _ \<Rightarrow>
                         seqr (os_do (os_Close Y tmp) (CloseCall tmp) ''close'')
                              (os_do (os_Rename Y tmp dest) (RenameCall tmp dest) ''rename'')))))"

section \<open>The echoed command\<close>

definition isShellSafe :: "char \<Rightarrow> bool" where
  \<comment> \<open>on bytes: a rune outside ASCII, or an invalid one, is unsafe, and so are its bytes\<close>
  "isShellSafe r \<longleftrightarrow> is_letter r \<or> is_digit r \<or> r \<in> set ''_@%+=:,./-''"

abbreviation single_quote where "single_quote \<equiv> CHR 0x27"
abbreviation backslash where "backslash \<equiv> CHR 0x5C"

definition quoteArg :: "string \<Rightarrow> string" where
  "quoteArg s =
     (if s \<noteq> '''' \<and> \<not> list_ex (\<lambda>r. \<not> isShellSafe r) s then s
      else [single_quote] @
           concat (map (\<lambda>c. if c = single_quote then [single_quote, backslash, single_quote, single_quote] else [c]) s) @
           [single_quote])"

definition quoteArgv :: "string list \<Rightarrow> string" where
  "quoteArgv argv = Join (map quoteArg argv) '' ''"

section \<open>wrap\<close>

definition exitCode :: "wait_result \<Rightarrow> int \<times> string option" where
  \<comment> \<open>the code, and the diagnostic of the last case\<close>
  "exitCode r =
     (case wr_Err r of
        None \<Rightarrow> (0, None)
      | Some err \<Rightarrow>
          (case wr_State r of
             Some st \<Rightarrow>
               (case ps_Sys st of
                  Some ws \<Rightarrow>
                    if ws_Signaled ws then (128 + ws_Signal ws, None)
                    else if ps_ExitCode st \<ge> 0 then (ps_ExitCode st, None) else (127, Some (''shim: wait: '' @ err))
                | None \<Rightarrow> if ps_ExitCode st \<ge> 0 then (ps_ExitCode st, None) else (127, Some (''shim: wait: '' @ err)))
           | None \<Rightarrow> (127, Some (''shim: wait: '' @ err))))"

fun first_readable :: "'w os \<Rightarrow> string list \<Rightarrow> 'w shim \<Rightarrow> string \<times> 'w shim" where
  "first_readable Y [] s = ('''', s)"
| "first_readable Y (f # fs) s =
     (case os_ReadFile Y f (sh_world s) of
        (Inl _, w) \<Rightarrow> first_readable Y fs (s\<lparr>sh_world := w\<rparr>)
      | (Inr raw, w) \<Rightarrow> (TrimSpace raw, s\<lparr>sh_world := w\<rparr>))"

definition env_or :: "'w os \<Rightarrow> string \<Rightarrow> string \<Rightarrow> string" where
  "env_or Y name d = (let v = os_Getenv Y name in if v = '''' then d else v)"

definition termination_log :: "'w os \<Rightarrow> string" where
  "termination_log Y = env_or Y ''TERMINATION_LOG'' ''/dev/termination-log''"

definition reportPeak :: "'w os \<Rightarrow> 'w shim \<Rightarrow> 'w shim" where
  "reportPeak Y s =
     (let root = env_or Y ''SHIM_CGROUP_ROOT'' ''/sys/fs/cgroup'';
          (peak, s) = first_readable Y [root @ ''/memory.peak'', root @ ''/memory/memory.max_usage_in_bytes''] s
      in if peak = ''''
         then diagnose ''shim: no readable cgroup memory peak (cgroup v2 with cgroupns required); skipping report'' s
         else let file = termination_log Y
              in case os_OpenAppend Y file (sh_world s) of
                   (Some err, w) \<Rightarrow> diagnose (''shim: open termination log: '' @ err) (s\<lparr>sh_world := w\<rparr>)
                 | (None, w) \<Rightarrow>
                     (case os_do (os_Write Y file (''peakMemoryBytes='' @ peak @ [CHR 0x0A])) (WriteCall file (''peakMemoryBytes='' @ peak @ [CHR 0x0A]))
                             ''shim: write termination log'' (s\<lparr>sh_world := w\<rparr>) of
                        (Inl err, s) \<Rightarrow> diagnose err s
                      | (Inr _, s) \<Rightarrow> s))"

definition on_signal :: "'w os \<Rightarrow> os_signal \<Rightarrow> 'w shim \<Rightarrow> 'w shim" where
  "on_signal Y sig s =
     (case sig of
        SyscallSignal n \<Rightarrow>
          if n \<noteq> SIGCHLD then s\<lparr>sh_world := os_Signal Y sig (sh_world s), sh_calls := sh_calls s @ [SignalCall sig]\<rparr> else s
      | OtherSignal \<Rightarrow> s)"

partial_function (option) supervise :: "'w os \<Rightarrow> 'w shim \<Rightarrow> (wait_result \<times> 'w shim) option" where
  "supervise Y s =
     (case os_Select Y (sh_world s) of (ev, w) \<Rightarrow>
        (case ev of
           SignalEvent sig \<Rightarrow> supervise Y (on_signal Y sig (s\<lparr>sh_world := w\<rparr>))
         | DoneEvent r \<Rightarrow> Some (r, s\<lparr>sh_world := w\<rparr>)))"

definition finish_wrap :: "'w os \<Rightarrow> wait_result \<Rightarrow> 'w shim \<Rightarrow> int \<times> 'w shim" where
  "finish_wrap Y r s =
     (let s = reportPeak Y s; (code, msg) = exitCode r
      in (code, case msg of None \<Rightarrow> s | Some m \<Rightarrow> diagnose m s))"

definition wrap :: "(nat \<Rightarrow> bool) \<Rightarrow> 'w os \<Rightarrow> string list \<Rightarrow> 'w shim \<Rightarrow> (int \<times> 'w shim) option" where
  \<comment> \<open>\<open>isPrint\<close> is the rune table behind \<open>%q\<close>; the callers pass a command of at least one word\<close>
  "wrap isPrint Y argv s =
     (let s = s\<lparr>sh_stdout := sh_stdout s @ ''+ '' @ quoteArgv argv @ [CHR 0x0A]\<rparr>
      in case os_do (os_Start Y argv) (StartCall argv) (''shim: start '' @ Quote isPrint (hd argv)) s of
           (Inl err, s) \<Rightarrow> Some (127, reportPeak Y (diagnose err s))
         | (Inr _, s) \<Rightarrow> map_option (\<lambda>(r, s). finish_wrap Y r s) (supervise Y s))"

section \<open>main\<close>

datatype shim_mode = InstallMode string | WrapMode "string list" | UsageMode

definition shim_mode_of :: "string list \<Rightarrow> shim_mode" where
  "shim_mode_of args =
     (case args of
        a # b # rest \<Rightarrow>
          if rest = [] \<and> a = ''install'' then InstallMode b
          else if a = ''--'' then WrapMode (b # rest) else UsageMode
      | _ \<Rightarrow> UsageMode)"

definition shim_main :: "(nat \<Rightarrow> bool) \<Rightarrow> 'w os \<Rightarrow> string list \<Rightarrow> 'w shim \<Rightarrow> (int \<times> 'w shim) option" where
  \<comment> \<open>\<open>args\<close> is \<open>os.Args[1:]\<close>; the result is the exit code\<close>
  "shim_main isPrint Y args s =
     (case shim_mode_of args of
        InstallMode dest \<Rightarrow>
          (case install Y dest s of
             (Inl err, s) \<Rightarrow> Some (1, diagnose (''shim install: '' @ err) s)
           | (Inr _, s) \<Rightarrow> Some (0, s))
      | WrapMode argv \<Rightarrow> wrap isPrint Y argv s
      | UsageMode \<Rightarrow> Some (2, diagnose ''usage: shim install <dest> | shim -- <cmd...>'' s))"

section \<open>What a shell reads\<close>

text \<open>
  Token recognition of the POSIX shell (XCU 2.2 and 2.3) for a line without expansions: single quotes preserve
  everything, a backslash preserves the next character, blanks separate words, and a character that is
  special unquoted makes the answer \<^const>\<open>None\<close>. The first flag says that the reader is inside single
  quotes; the word read so far is \<^const>\<open>None\<close> between words.
\<close>

definition shell_special :: "char \<Rightarrow> bool" where
  "shell_special c \<longleftrightarrow> c \<in> set ''|&;<>()$*?[#~'' \<or> c \<in> {CHR 0x60, CHR 0x22, CHR 0x09, CHR 0x0A}"

definition word_so_far :: "string option \<Rightarrow> string" where
  "word_so_far cur = (case cur of None \<Rightarrow> '''' | Some w \<Rightarrow> w)"

function (sequential) sh_words :: "bool \<Rightarrow> string option \<Rightarrow> string \<Rightarrow> string list option" where
  "sh_words True cur [] = None"
| "sh_words False cur [] = Some (case cur of None \<Rightarrow> [] | Some w \<Rightarrow> [w])"
| "sh_words True cur (c # s) =
     (if c = single_quote then sh_words False cur s else sh_words True (Some (word_so_far cur @ [c])) s)"
| "sh_words False cur (c # s) =
     (if c = single_quote then sh_words True (Some (word_so_far cur)) s
      else if c = backslash then (case s of [] \<Rightarrow> None | d # s' \<Rightarrow> if d = CHR 0x0A then None else sh_words False (Some (word_so_far cur @ [d])) s')
      else if c = CHR '' '' then (case cur of None \<Rightarrow> sh_words False None s | Some w \<Rightarrow> map_option (\<lambda>ws. w # ws) (sh_words False None s))
      else if shell_special c then None
      else sh_words False (Some (word_so_far cur @ [c])) s)"
  by pat_completeness auto
termination
  by (relation "measure (\<lambda>(q, cur, s). length s)") auto

lemma safe_not_special:
  assumes "isShellSafe c"
  shows "c \<noteq> single_quote" "c \<noteq> backslash" "c \<noteq> CHR '' ''" "\<not> shell_special c"
  using assms by (auto simp: isShellSafe_def is_letter_def is_digit_def shell_special_def byte_def)

lemma sh_words_safe:
  "list_all isShellSafe s \<Longrightarrow> sh_words False (Some w) (s @ r) = sh_words False (Some (w @ s)) r"
  by (induction s arbitrary: w) (simp_all add: safe_not_special word_so_far_def)

lemma sh_words_quoted:
  "sh_words True (Some w) (concat (map (\<lambda>c. if c = single_quote then [single_quote, backslash, single_quote, single_quote] else [c]) s) @
     single_quote # r) = sh_words False (Some (w @ s)) r"
  by (induction s arbitrary: w) (simp_all add: word_so_far_def)

lemma sh_words_quoteArg: "sh_words False None (quoteArg a @ r) = sh_words False (Some a) r"
proof (cases "a \<noteq> '''' \<and> \<not> list_ex (\<lambda>r. \<not> isShellSafe r) a")
  case True
  then obtain c s where a: "a = c # s" and safe: "isShellSafe c" "list_all isShellSafe s"
    by (cases a) (auto simp: list_ex_iff list_all_iff)
  with True have "quoteArg a = c # s" by (simp add: quoteArg_def)
  then show ?thesis using sh_words_safe [OF safe(2), of "[c]" r] by (simp add: a safe_not_special [OF safe(1)] word_so_far_def)
next
  case False
  then have "quoteArg a = single_quote #
      concat (map (\<lambda>c. if c = single_quote then [single_quote, backslash, single_quote, single_quote] else [c]) a) @ [single_quote]"
    by (auto simp: quoteArg_def)
  then show ?thesis using sh_words_quoted [of "''''" a r] by (simp add: word_so_far_def)
qed

lemma sh_words_quoteArgv: "sh_words False None (quoteArgv argv) = Some argv"
proof (induction argv rule: induct_list012)
  case 1
  show ?case by (simp add: quoteArgv_def)
next
  case (2 a)
  show ?case using sh_words_quoteArg [of a "[]"] by (simp add: quoteArgv_def)
next
  case (3 a b argv)
  then show ?case using sh_words_quoteArg [of a "'' '' @ quoteArgv (b # argv)"] by (simp add: quoteArgv_def)
qed

section \<open>Supervision\<close>

definition forwarded :: "os_signal \<Rightarrow> bool" where
  "forwarded sig = (case sig of SyscallSignal n \<Rightarrow> n \<noteq> SIGCHLD | OtherSignal \<Rightarrow> False)"

inductive reaped :: "'w os \<Rightarrow> 'w shim \<Rightarrow> os_signal list \<Rightarrow> wait_result \<Rightarrow> 'w shim \<Rightarrow> bool" for Y where
  \<comment> \<open>the signals arrive, in this order, and then the command is done\<close>
  finished: "os_Select Y (sh_world s) = (DoneEvent r, w) \<Longrightarrow> reaped Y s [] r (s\<lparr>sh_world := w\<rparr>)"
| signalled: "os_Select Y (sh_world s) = (SignalEvent sig, w) \<Longrightarrow> reaped Y (on_signal Y sig (s\<lparr>sh_world := w\<rparr>)) sigs r s' \<Longrightarrow>
    reaped Y s (sig # sigs) r s'"

lemma on_signal_calls: "sh_calls (on_signal Y sig s) = sh_calls s @ (if forwarded sig then [SignalCall sig] else [])"
  by (simp add: on_signal_def forwarded_def split: os_signal.split)

lemma reaped_calls: "reaped Y s sigs r s' \<Longrightarrow> sh_calls s' = sh_calls s @ map SignalCall (filter forwarded sigs)"
  by (induction rule: reaped.induct) (auto simp: on_signal_calls)

lemma reaped_supervise: "reaped Y s sigs r s' \<Longrightarrow> supervise Y s = Some (r, s')"
  by (induction rule: reaped.induct) (simp_all add: supervise.simps)

lemma supervise_reaped:
  assumes "supervise Y s = Some (r, s')"
  shows "\<exists>sigs. reaped Y s sigs r s'"
proof -
  have "case y of (r, s') \<Rightarrow> \<exists>sigs. reaped Y s sigs r s'" if "supervise Y s = Some y" for y
  proof (rule supervise.raw_induct [OF _ that, of "\<lambda>Y s y. case y of (r, s') \<Rightarrow> \<exists>sigs. reaped Y s sigs r s'"])
    fix f :: "'a os \<Rightarrow> 'a shim \<Rightarrow> (wait_result \<times> 'a shim) option" and Y s y
    assume IH: "\<And>Y s y. f Y s = Some y \<Longrightarrow> case y of (r, s') \<Rightarrow> \<exists>sigs. reaped Y s sigs r s'"
      and step: "(case os_Select Y (sh_world s) of (ev, w) \<Rightarrow> (case ev of
          SignalEvent sig \<Rightarrow> f Y (on_signal Y sig (s\<lparr>sh_world := w\<rparr>)) | DoneEvent r \<Rightarrow> Some (r, s\<lparr>sh_world := w\<rparr>))) = Some y"
    obtain ev w where ev: "os_Select Y (sh_world s) = (ev, w)" by (cases "os_Select Y (sh_world s)")
    show "case y of (r, s') \<Rightarrow> \<exists>sigs. reaped Y s sigs r s'"
    proof (cases ev)
      case (SignalEvent sig)
      with step ev IH show ?thesis by (fastforce intro: reaped.signalled)
    next
      case (DoneEvent r)
      with step ev show ?thesis by (auto intro: reaped.finished)
    qed
  qed
  from this [OF assms] show ?thesis by simp
qed

fun about_child :: "os_call \<Rightarrow> bool" where
  "about_child (StartCall argv ok) = True"
| "about_child (SignalCall sig) = True"
| "about_child _ = False"

definition launched :: "string list \<Rightarrow> 'w \<Rightarrow> 'w shim \<Rightarrow> 'w shim" where
  \<comment> \<open>the state after the echo and a successful start\<close>
  "launched argv w s = s\<lparr>sh_stdout := sh_stdout s @ ''+ '' @ quoteArgv argv @ [CHR 0x0A], sh_world := w,
     sh_calls := sh_calls s @ [StartCall argv True]\<rparr>"

lemma first_readable_frame:
  "sh_stdout (snd (first_readable Y fs s)) = sh_stdout s" "sh_calls (snd (first_readable Y fs s)) = sh_calls s"
  by (induction fs arbitrary: s) (auto split: prod.split sum.split)

lemma diagnose_frame [simp]:
  "sh_stdout (diagnose m s) = sh_stdout s" "sh_calls (diagnose m s) = sh_calls s" "sh_world (diagnose m s) = sh_world s"
  by (simp_all add: diagnose_def)

lemma reportPeak_frame:
  "sh_stdout (reportPeak Y s) = sh_stdout s \<and> filter about_child (sh_calls (reportPeak Y s)) = filter about_child (sh_calls s)"
proof -
  obtain p s1 where f: "first_readable Y
      [env_or Y ''SHIM_CGROUP_ROOT'' ''/sys/fs/cgroup'' @ ''/memory.peak'',
       env_or Y ''SHIM_CGROUP_ROOT'' ''/sys/fs/cgroup'' @ ''/memory/memory.max_usage_in_bytes''] s = (p, s1)"
    by (meson surj_pair)
  then have "sh_stdout s1 = sh_stdout s" "sh_calls s1 = sh_calls s"
    using first_readable_frame [of Y _ s] by (metis snd_conv)+
  then show ?thesis
    unfolding reportPeak_def Let_def f
    by (auto simp: os_do_def split: prod.split option.split)
qed

lemma finish_wrap_frame:
  "fst (finish_wrap Y r s) = fst (exitCode r) \<and> sh_stdout (snd (finish_wrap Y r s)) = sh_stdout s \<and>
   filter about_child (sh_calls (snd (finish_wrap Y r s))) = filter about_child (sh_calls s)"
  using reportPeak_frame [of Y s] by (auto simp: finish_wrap_def Let_def split: prod.split option.split)

lemma reaped_stdout: "reaped Y s sigs r s' \<Longrightarrow> sh_stdout s' = sh_stdout s"
  by (induction rule: reaped.induct) (auto simp: on_signal_def split: os_signal.splits if_splits)

lemma wrap_launched:
  assumes "os_Start Y argv (sh_world s) = (None, w)"
  shows "wrap P Y argv s = map_option (\<lambda>(r, s). finish_wrap Y r s) (supervise Y (launched argv w s))"
  using assms by (simp add: wrap_def os_do_def launched_def Let_def)

lemma wrap_reaped:
  assumes "os_Start Y argv (sh_world s) = (None, w)" "reaped Y (launched argv w s) sigs r s1"
  shows "\<exists>s'. wrap P Y argv s = Some (fst (exitCode r), s') \<and> sh_stdout s' = sh_stdout s @ ''+ '' @ quoteArgv argv @ [CHR 0x0A] \<and>
    filter about_child (sh_calls s') = filter about_child (sh_calls s) @ StartCall argv True # map SignalCall (filter forwarded sigs)"
proof -
  have calls: "sh_calls s1 = sh_calls s @ StartCall argv True # map SignalCall (filter forwarded sigs)"
    using reaped_calls [OF assms(2)] by (simp add: launched_def)
  have "filter about_child (map SignalCall xs) = map SignalCall xs" for xs by (induction xs) simp_all
  then have child: "filter about_child (sh_calls s1) = filter about_child (sh_calls s) @ StartCall argv True # map SignalCall (filter forwarded sigs)"
    by (simp add: calls)
  have "sh_stdout s1 = sh_stdout s @ ''+ '' @ quoteArgv argv @ [CHR 0x0A]"
    using reaped_stdout [OF assms(2)] by (simp add: launched_def)
  with child finish_wrap_frame [of Y r s1] show ?thesis
    unfolding wrap_launched [OF assms(1)] reaped_supervise [OF assms(2)]
    by (cases "finish_wrap Y r s1") simp
qed

datatype child_end = ExitedWith int | KilledBy int

definition waited :: "child_end \<Rightarrow> wait_result \<Rightarrow> bool" where
  \<comment> \<open>what \<open>cmd.Wait\<close> and \<open>cmd.ProcessState\<close> are documented to be for a command that ended this way\<close>
  "waited e r =
     (case e of
        ExitedWith c \<Rightarrow>
          if c = 0 then wr_Err r = None
          else wr_Err r \<noteq> None \<and> 0 < c \<and>
            (\<exists>ws. wr_State r = Some \<lparr>ps_Sys = Some ws, ps_ExitCode = c\<rparr> \<and> \<not> ws_Signaled ws)
      | KilledBy g \<Rightarrow> wr_Err r \<noteq> None \<and> wr_State r = Some \<lparr>ps_Sys = Some \<lparr>ws_Signaled = True, ws_Signal = g\<rparr>, ps_ExitCode = - 1\<rparr>)"

definition shell_code :: "child_end \<Rightarrow> int" where
  "shell_code e = (case e of ExitedWith c \<Rightarrow> c | KilledBy g \<Rightarrow> 128 + g)"

lemma exitCode_shell: "waited e r \<Longrightarrow> exitCode r = (shell_code e, None)"
  by (auto simp: waited_def exitCode_def shell_code_def split: child_end.splits if_splits option.splits)

text \<open>C14. The shim is transparent: the container of a user phase, whatever its image and limits, starts exactly the
  command of the phase, forwards every signal but SIGCHLD to it in order of arrival, and ends with the
  command's own exit code, or 128 plus the signal that killed it, so that an OOM kill still reads as 137.
  This holds whatever happens to the memory report: no failure to read the peak or to write the log can
  change the outcome of a phase. The line echoed before the start is one that a POSIX shell splits into
  exactly the words of the command.\<close>

theorem shim_transparent:
  assumes "cmd \<noteq> []" "c = phase_container parseQ cfg name rp cmd env ms mem"
    and "os_Start Y cmd (sh_world s) = (None, w)" "reaped Y (launched cmd w s) sigs r s1" "waited e r"
  shows "\<exists>s' echo. shim_main P Y (tl (c_Command c)) s = Some (shell_code e, s') \<and>
    filter about_child (sh_calls s') = filter about_child (sh_calls s) @ StartCall cmd True # map SignalCall (filter forwarded sigs) \<and>
    sh_stdout s' = sh_stdout s @ ''+ '' @ echo @ [CHR 0x0A] \<and> sh_words False None echo = Some cmd"
proof -
  have "shim_main P Y (tl (c_Command c)) s = wrap P Y cmd s"
    using assms(1) by (cases cmd) (auto simp: assms(2) phase_container_def shimWrap_def shim_main_def shim_mode_of_def)
  with wrap_reaped [OF assms(3,4)] exitCode_shell [OF assms(5)] sh_words_quoteArgv [of cmd] show ?thesis by fastforce
qed

text \<open>C17. The shim ends exactly when the command does: once the command is started, the shim returns if and only if
  the command ends after finitely many signals. It never gives up early and no signal keeps it alive.\<close>

theorem shim_ends_with_child:
  assumes "os_Start Y (a # argv) (sh_world s) = (None, w)"
  shows "(\<exists>code s'. shim_main P Y (''--'' # a # argv) s = Some (code, s')) \<longleftrightarrow>
    (\<exists>sigs r s1. reaped Y (launched (a # argv) w s) sigs r s1)"
proof -
  have "shim_main P Y (''--'' # a # argv) s = wrap P Y (a # argv) s" by (simp add: shim_main_def shim_mode_of_def)
  then have "(\<exists>code s'. shim_main P Y (''--'' # a # argv) s = Some (code, s')) \<longleftrightarrow> (\<exists>r s1. supervise Y (launched (a # argv) w s) = Some (r, s1))"
    unfolding wrap_launched [OF assms, of P] by (cases "supervise Y (launched (a # argv) w s)") auto
  then show ?thesis by (metis supervise_reaped reaped_supervise)
qed

definition sample_os :: "shim_event list os" where
  \<comment> \<open>an operating system whose world is the events to come; no file can be read or written\<close>
  "sample_os = \<lparr>os_Getenv = (\<lambda>_. ''''), os_Executable = (\<lambda>w. (Inl ''denied'', w)), os_Open = (\<lambda>_ w. (Some ''denied'', w)),
     os_Create = (\<lambda>_ _ w. (Some ''denied'', w)), os_Copy = (\<lambda>_ _ w. (Some ''denied'', w)), os_Close = (\<lambda>_ w. (Some ''denied'', w)),
     os_Rename = (\<lambda>_ _ w. (Some ''denied'', w)), os_ReadFile = (\<lambda>_ w. (Inl ''denied'', w)), os_OpenAppend = (\<lambda>_ w. (Some ''denied'', w)),
     os_Write = (\<lambda>_ _ w. (Some ''denied'', w)), os_Start = (\<lambda>_ w. (None, w)), os_Select = (\<lambda>w. (hd w, tl w)), os_Signal = (\<lambda>_ w. w)\<rparr>"

definition oom_killed :: wait_result where
  "oom_killed = \<lparr>wr_Err = Some ''signal: killed'', wr_State = Some \<lparr>ps_Sys = Some \<lparr>ws_Signaled = True, ws_Signal = 9\<rparr>, ps_ExitCode = - 1\<rparr>\<rparr>"

definition sample_shim :: "shim_event list shim" where
  "sample_shim = \<lparr>sh_world = [SignalEvent (SyscallSignal 15), SignalEvent (SyscallSignal SIGCHLD), DoneEvent oom_killed],
     sh_stdout = '''', sh_stderr = '''', sh_calls = []\<rparr>"

lemma sample_reaped:
  "reaped sample_os (launched argv (sh_world sample_shim) sample_shim) [SyscallSignal 15, SyscallSignal SIGCHLD] oom_killed
     ((launched argv [] sample_shim)\<lparr>sh_calls := [StartCall argv True, SignalCall (SyscallSignal 15)]\<rparr>)"
proof -
  have "reaped sample_os ((launched argv [DoneEvent oom_killed] sample_shim)\<lparr>sh_calls := [StartCall argv True, SignalCall (SyscallSignal 15)]\<rparr>) [] oom_killed
      (((launched argv [DoneEvent oom_killed] sample_shim)\<lparr>sh_calls := [StartCall argv True, SignalCall (SyscallSignal 15)]\<rparr>)\<lparr>sh_world := []\<rparr>)"
    by (rule reaped.finished) (simp add: sample_os_def launched_def)
  then show ?thesis
    by (intro reaped.signalled [where w = "[SignalEvent (SyscallSignal SIGCHLD), DoneEvent oom_killed]"] reaped.signalled [where w = "[DoneEvent oom_killed]"])
      (simp_all add: sample_os_def launched_def sample_shim_def on_signal_def SIGCHLD_def)
qed

theorem shim_transparent_witness:
  "\<exists>s'. shim_main (\<lambda>_. True) sample_os (tl (c_Command (phase_container (\<lambda>_. None) sample_config ''build''
       (resolvePhase sample_config sample_app (sample_phase [])) [''npm'', ''run build''] [] [] ''''))) sample_shim = Some (137, s') \<and>
     filter about_child (sh_calls s') = [StartCall [''npm'', ''run build''] True, SignalCall (SyscallSignal 15)]"
proof -
  have "os_Start sample_os [''npm'', ''run build''] (sh_world sample_shim) = (None, sh_world sample_shim)" by (simp add: sample_os_def)
  moreover have "waited (KilledBy 9) oom_killed" by (simp add: waited_def oom_killed_def)
  ultimately show ?thesis
    using shim_transparent [OF _ refl _ sample_reaped, of "[''npm'', ''run build'']" "KilledBy 9" "\<lambda>_. True" "\<lambda>_. None" sample_config "''build''"]
    by (fastforce simp: shell_code_def forwarded_def SIGCHLD_def sample_shim_def)
qed

theorem shim_ends_with_child_witness:
  "\<exists>code s'. shim_main (\<lambda>_. True) sample_os [''--'', ''make''] sample_shim = Some (code, s')"
  using shim_ends_with_child [of sample_os "''make''" "[]" sample_shim "sh_world sample_shim" "\<lambda>_. True"] sample_reaped [of "[''make'']"]
  by (auto simp: sample_os_def)

section \<open>The memory report\<close>

abbreviation newline where "newline \<equiv> CHR 0x0A"

lemma SplitByte_absent: "b \<notin> set s \<Longrightarrow> SplitByte s b = [s]"
  by (induction s) auto

lemma SplitByte_cut: "SplitByte (u @ b # v) b = SplitByte u b @ SplitByte v b"
proof (induction u)
  case (Cons c u)
  have "SplitByte u b \<noteq> []" by (cases u) (auto split: list.split)
  with Cons show ?case by (cases "SplitByte u b") auto
qed simp

definition other_lines :: "string \<Rightarrow> bool" where
  \<comment> \<open>complete lines, none of which carries the key of the report\<close>
  "other_lines txt \<longleftrightarrow> txt = [] \<or> (\<exists>u. txt = u @ [newline] \<and> list_all (\<lambda>l. \<not> HasPrefix (TrimSpace l) peakMemoryKey) (SplitByte u newline))"

lemma peak_lines_skip:
  "list_all (\<lambda>l. \<not> HasPrefix (TrimSpace l) peakMemoryKey) ls \<Longrightarrow> peak_lines (ls @ ms) = peak_lines ms"
  by (induction ls) (simp_all add: CutPrefix_def)

lemma parsePeakMemory_after:
  assumes "other_lines txt"
  shows "parsePeakMemory (txt @ r) = parsePeakMemory r"
  using assms by (auto simp: other_lines_def parsePeakMemory_def SplitByte_cut peak_lines_skip)

lemma TrimSpace_newline:
  assumes "list_all (\<lambda>c. \<not> is_space c) s" "s \<noteq> []"
  shows "TrimSpace (s @ [newline]) = s"
proof -
  have front: "dropWhile is_space (s @ t) = s @ t" for t using assms by (cases s) auto
  have "is_space newline" by (simp add: is_space_def byte_def)
  then have "TrimSpace (s @ [newline]) = rev (dropWhile is_space (rev s))"
    unfolding TrimSpace_def front by simp
  also have "\<dots> = TrimSpace s" using front [of "[]"] by (simp add: TrimSpace_def)
  finally show ?thesis using TrimSpace_id [OF assms(1)] by simp
qed

lemma Itoa_trim:
  assumes "0 \<le> n"
  shows "TrimSpace (Itoa n @ [newline]) = Itoa n" "Itoa n \<noteq> ''''"
proof -
  have "is_digit c \<Longrightarrow> \<not> is_space c" for c by (auto simp: is_digit_def is_space_def byte_def)
  then have "list_all (\<lambda>c. \<not> is_space c) (Itoa n)" "Itoa n \<noteq> ''''"
    using assms nat_dec_digits by (auto simp: Itoa_def list_all_iff)
  then show "TrimSpace (Itoa n @ [newline]) = Itoa n" "Itoa n \<noteq> ''''" by (simp_all add: TrimSpace_newline)
qed

lemma parsePeakMemory_report:
  assumes "int64_range n" "0 \<le> n"
  shows "parsePeakMemory (peakMemoryKey @ Itoa n @ [newline]) = n"
proof -
  have digits: "\<forall>c\<in>set (Itoa n). is_digit c" using assms(2) nat_dec_digits by (auto simp: Itoa_def)
  then have plain: "list_all (\<lambda>c. \<not> is_space c) (peakMemoryKey @ Itoa n)" "list_all (\<lambda>c. \<not> is_space c) (Itoa n)"
    by (auto simp: list_all_iff peakMemoryKey_def is_digit_def is_space_def byte_def)
  have "is_space newline" by (simp add: is_space_def byte_def)
  then have "newline \<notin> set (peakMemoryKey @ Itoa n)" using plain(1) unfolding list_all_iff by blast
  then have "SplitByte (peakMemoryKey @ Itoa n) newline = [peakMemoryKey @ Itoa n]"
    by (rule SplitByte_absent)
  then show ?thesis
    using assms SplitByte_cut [of "peakMemoryKey @ Itoa n" newline "[]"]
    by (simp add: parsePeakMemory_def TrimSpace_id [OF plain(1), simplified] TrimSpace_id [OF plain(2)] CutPrefix_def HasPrefix_iff ParseInt_Itoa)
qed

definition kernel_reports :: "'w os \<Rightarrow> string \<Rightarrow> 'w \<Rightarrow> string \<Rightarrow> 'w \<Rightarrow> bool" where
  \<comment> \<open>the peak file of cgroup v2 below \<open>cg\<close> has the text \<open>raw\<close>, or it cannot be read and that of cgroup v1 has it\<close>
  "kernel_reports Y cg w raw w' \<longleftrightarrow>
     os_ReadFile Y (cg @ ''/memory.peak'') w = (Inr raw, w') \<or>
     (\<exists>e w0. os_ReadFile Y (cg @ ''/memory.peak'') w = (Inl e, w0) \<and>
        os_ReadFile Y (cg @ ''/memory/memory.max_usage_in_bytes'') w0 = (Inr raw, w'))"

definition append_only :: "'w os \<Rightarrow> ('w \<Rightarrow> string \<Rightarrow> string) \<Rightarrow> bool" where
  \<comment> \<open>the documented effect of reading a file and of a write to a file opened with \<open>O_APPEND\<close>, for calls that succeed\<close>
  "append_only Y contents \<longleftrightarrow>
     (\<forall>f w r w'. os_ReadFile Y f w = (r, w') \<longrightarrow> contents w' = contents w) \<and>
     (\<forall>f w w'. os_OpenAppend Y f w = (None, w') \<longrightarrow> contents w' = contents w) \<and>
     (\<forall>f t w w'. os_Write Y f t w = (None, w') \<longrightarrow> contents w' f = contents w f @ t)"

lemma reportPeak_writes:
  assumes "append_only Y contents" "kernel_reports Y (env_or Y ''SHIM_CGROUP_ROOT'' ''/sys/fs/cgroup'') (sh_world s) raw w1" "TrimSpace raw \<noteq> ''''"
    and "os_OpenAppend Y (termination_log Y) w1 = (None, w2)"
    and "os_Write Y (termination_log Y) (peakMemoryKey @ TrimSpace raw @ [newline]) w2 = (None, w3)"
  shows "contents (sh_world (reportPeak Y s)) (termination_log Y) = contents (sh_world s) (termination_log Y) @ peakMemoryKey @ TrimSpace raw @ [newline]"
proof -
  have "sh_world (reportPeak Y s) = w3"
    using assms(2-5) by (auto simp: reportPeak_def kernel_reports_def os_do_def peakMemoryKey_def Let_def)
  moreover have "contents w3 (termination_log Y) = contents w2 (termination_log Y) @ peakMemoryKey @ TrimSpace raw @ [newline]"
    "contents w2 = contents w1"
    using assms unfolding append_only_def by blast+
  moreover have "contents w1 = contents (sh_world s)"
  proof -
    have read: "contents w' = contents w" if "os_ReadFile Y f w = (r, w')" for f w r w'
      using assms(1) that unfolding append_only_def by blast
    from assms(2) show ?thesis unfolding kernel_reports_def by (auto dest!: read)
  qed
  ultimately show ?thesis by simp
qed

text \<open>C24. The measured peak reaches the status of the App: when the kernel reports a peak, in \<open>memory.peak\<close> (cgroup v2)
  or, where that cannot be read, in \<open>memory/memory.max_usage_in_bytes\<close> (cgroup v1), below \<open>/sys/fs/cgroup\<close> or the
  configured root, and the termination log (\<open>/dev/termination-log\<close>, or the configured one) can be opened and written,
  then, whatever complete lines the command wrote there before (other than a report of its own), the message the
  kubelet finds in the log is read by the operator as exactly the kernel's number. Reading and appending are assumed
  to have their documented effect on the contents of files.\<close>

theorem shim_peak_reaches_operator:
  assumes "append_only Y contents"
    and "cg = (if os_Getenv Y ''SHIM_CGROUP_ROOT'' = '''' then ''/sys/fs/cgroup'' else os_Getenv Y ''SHIM_CGROUP_ROOT'')"
    and "file = (if os_Getenv Y ''TERMINATION_LOG'' = '''' then ''/dev/termination-log'' else os_Getenv Y ''TERMINATION_LOG'')"
    and "kernel_reports Y cg (sh_world s) (Itoa n @ [newline]) w1"
    and "os_OpenAppend Y file w1 = (None, w2)" "\<And>t. fst (os_Write Y file t w2) = None"
    and "int64_range n" "0 \<le> n" "other_lines (contents (sh_world s) file)"
  shows "parsePeakMemory (contents (sh_world (reportPeak Y s)) file) = n"
proof -
  have paths: "env_or Y ''SHIM_CGROUP_ROOT'' ''/sys/fs/cgroup'' = cg" "termination_log Y = file"
    using assms(2,3) by (simp_all add: env_or_def termination_log_def Let_def)
  obtain w3 where "os_Write Y file (peakMemoryKey @ Itoa n @ [newline]) w2 = (None, w3)"
    using assms(6) by (metis prod.collapse)
  then have "contents (sh_world (reportPeak Y s)) file = contents (sh_world s) file @ peakMemoryKey @ Itoa n @ [newline]"
    using reportPeak_writes [OF assms(1), of s "Itoa n @ [newline]" w1 w2 w3] assms(4,5) Itoa_trim [OF assms(8)]
    by (simp add: paths)
  then show ?thesis using parsePeakMemory_after [OF assms(9)] parsePeakMemory_report [OF assms(7,8)] by simp
qed

definition sample_files :: "string os" where
  \<comment> \<open>an operating system whose world is the termination log\<close>
  "sample_files = \<lparr>os_Getenv = (\<lambda>_. ''''), os_Executable = (\<lambda>w. (Inr ''/shim'', w)), os_Open = (\<lambda>_ w. (None, w)),
     os_Create = (\<lambda>_ _ w. (None, w)), os_Copy = (\<lambda>_ _ w. (None, w)), os_Close = (\<lambda>_ w. (None, w)),
     os_Rename = (\<lambda>_ _ w. (None, w)), os_ReadFile = (\<lambda>_ w. (Inr (''4096'' @ [newline]), w)), os_OpenAppend = (\<lambda>_ w. (None, w)),
     os_Write = (\<lambda>_ t w. (None, w @ t)), os_Start = (\<lambda>_ w. (None, w)),
     os_Select = (\<lambda>w. (DoneEvent \<lparr>wr_Err = None, wr_State = None\<rparr>, w)), os_Signal = (\<lambda>_ w. w)\<rparr>"

definition old_files :: "string os" where
  \<comment> \<open>the same with the files of cgroup v1 only\<close>
  "old_files = sample_files\<lparr>os_ReadFile := (\<lambda>f w.
     if f = ''/sys/fs/cgroup/memory/memory.max_usage_in_bytes'' then (Inr (''4096'' @ [newline]), w) else (Inl ''ENOENT'', w))\<rparr>"

theorem shim_peak_reaches_operator_witness:
  "parsePeakMemory (sh_world (reportPeak old_files \<lparr>sh_world = ''note'' @ [newline], sh_stdout = '''', sh_stderr = '''', sh_calls = []\<rparr>)) = 4096"
proof -
  have "append_only old_files (\<lambda>w _. w)" by (simp add: append_only_def old_files_def sample_files_def)
  moreover have "Itoa 4096 = ''4096''" by (simp add: Itoa_def nat_dec.simps digit_char_def) code_simp
  moreover have "list_all (\<lambda>l. \<not> HasPrefix (TrimSpace l) peakMemoryKey) (SplitByte ''note'' newline)" by code_simp
  then have "other_lines (''note'' @ [newline])" unfolding other_lines_def by blast
  ultimately show ?thesis
    using shim_peak_reaches_operator [of old_files "\<lambda>w _. w", OF _ refl refl,
      of "\<lparr>sh_world = ''note'' @ [newline], sh_stdout = '''', sh_stderr = '''', sh_calls = []\<rparr>" 4096]
    by (simp add: old_files_def sample_files_def int64_range_def kernel_reports_def)
qed

section \<open>Installation\<close>

fun touched :: "os_call \<Rightarrow> string list" where
  "touched (CreateCall f m ok) = [f]"
| "touched (CopyCall f g ok) = [f]"
| "touched (CloseCall f ok) = [f]"
| "touched (RenameCall f g ok) = [f, g]"
| "touched (WriteCall f t ok) = [f]"
| "touched _ = []"

text \<open>C25. The installation is atomic: whatever fails, the destination is touched at most once, by the rename of the
  temporary file beside it, which was created readable and executable by everyone and writable by nobody, completely
  copied from the file the operating system names as the running binary, and closed without an error; the
  installation succeeds exactly when that rename does. A phase never sees a half-written shim.\<close>

theorem install_atomic:
  assumes "install Y dest s = (r, s')" "tmp = dest @ ''.tmp''"
  shows "\<exists>cs. sh_calls s' = sh_calls s @ cs \<and>
    ((\<exists>e. r = Inl e) \<and> dest \<notin> set (concat (map touched cs)) \<or>
     (\<exists>self w ok. os_Executable Y (sh_world s) = (Inr self, w) \<and> (r = Inr ()) = ok \<and>
        cs = [CreateCall tmp (5 * 64 + 5 * 8 + 5) True, CopyCall tmp self True, CloseCall tmp True, RenameCall tmp dest ok]))"
  using assms(1) unfolding install_def
  by (auto simp: installMode_def bindr_def seqr_def tryr_def os_read_def os_do_def raise_def assms(2) Let_def split: prod.splits sum.splits option.splits)

theorem install_atomic_witness:
  "\<exists>s'. install sample_files shimBinary \<lparr>sh_world = '''', sh_stdout = '''', sh_stderr = '''', sh_calls = []\<rparr> = (Inr (), s') \<and>
     last (sh_calls s') = RenameCall (shimBinary @ ''.tmp'') shimBinary True \<and> CopyCall (shimBinary @ ''.tmp'') ''/shim'' True \<in> set (sh_calls s')"
proof -
  let ?s = "\<lparr>sh_world = '''', sh_stdout = '''', sh_stderr = '''', sh_calls = []\<rparr>"
  obtain r s' where run: "install sample_files shimBinary ?s = (r, s')" by (meson surj_pair)
  moreover from run have "r = Inr ()"
    by (auto simp: install_def sample_files_def bindr_def seqr_def tryr_def os_read_def os_do_def Let_def)
  moreover have "os_Executable sample_files w = (Inr ''/shim'', w)" for w by (simp add: sample_files_def)
  ultimately show ?thesis using install_atomic [OF run refl] by (auto simp del: append.simps)
qed

end
