(* ===== verification/Operator_Startup.thy ===== *)
theory Operator_Startup
  imports Ensure Sentry_Core
begin

text \<open>
  \<open>cmd/main.go\<close>: the start of the operator, and \<open>SetupWithManager\<close> of \<open>app_controller.go\<close>.

  What the code asks of its surroundings is the record \<open>boot\<close>: the environment, the libraries of \<open>LoadConfig\<close>, the
  Sentry client, the direct API client with its read of a Secret, and the outcomes of the manager's
  operations, each an error text or nothing. A run is its steps in order and its error. The manager's
  \<open>Start\<close> blocks until shutdown; the step \<open>Started\<close> carries the reconciler's environment it runs with.
  \<open>ctrl.GetConfigOrDie\<close>, which ends the process when there is no cluster, and log lines are left out.
\<close>

record boot =
  bt_Getenv :: "string \<Rightarrow> string"
  bt_libs :: config_libs
  bt_NewSentryClient :: "sentry_options \<Rightarrow> string option"
  bt_NewClient :: "string option"
  bt_GetSecret :: "string \<Rightarrow> string \<Rightarrow> api_error + Secret"
  bt_NewManager :: "ManagerOptions \<Rightarrow> string option"
  bt_Complete :: "string option"
  bt_AddHealthzCheck :: "string option"
  bt_AddReadyzCheck :: "string option"
  bt_Start :: "env \<Rightarrow> string option"
  bt_Text :: "rejection \<Rightarrow> string"

datatype boot_error =
    BootConfig config_error
  | BootNoNamespace
  | BootClient string
  | BootGitAuth git_auth_startup_error
  | BootManager string
  | BootController string
  | BootHealthz string
  | BootReadyz string
  | BootStart string

datatype watch = WatchApp | WatchOwned object_kind | WatchBuildPods | WatchSecretMetadata

datatype boot_step =
    ConfigLoaded OperatorConfig
  | GitAuthChecked
  | ManagerCreated ManagerOptions
  | ControllerRegistered env "watch list"
  | Started env
  | Flushed

type_synonym booting = "(boot_step list, boot_error, unit) rmonad"

definition step :: "boot_step \<Rightarrow> booting" where
  "step b = modify (\<lambda>steps. steps @ [b])"

definition attempt :: "string option \<Rightarrow> (string \<Rightarrow> boot_error) \<Rightarrow> booting" where
  "attempt e err = (case e of None \<Rightarrow> ret () | Some t \<Rightarrow> raise (err t))"

definition check_git_auth :: "boot \<Rightarrow> GitAuth \<Rightarrow> booting" where
  "check_git_auth B ga =
     (if GitAuth_Enabled ga
      then let podNamespace = bt_Getenv B ''POD_NAMESPACE''
           in if podNamespace = '''' then raise BootNoNamespace
              else seqr (attempt (bt_NewClient B) BootClient)
                (case ValidateGitAuthSecret (bt_GetSecret B) podNamespace ga of
                   Some e \<Rightarrow> raise (BootGitAuth e)
                 | None \<Rightarrow> step GitAuthChecked)
      else ret ())"

definition app_watches :: "watch list" where
  \<comment> \<open>\<open>For\<close>, \<open>Owns\<close> and \<open>Watches\<close>; build Pods are mapped by \<open>mapBuildPodToApp\<close>, Secrets by \<open>mapSecretToApps\<close>\<close>
  "app_watches = [WatchApp] @ map WatchOwned [KJob, KCronJob, KPVC, KConfigMap, KService, KServiceAccount, KDeployment, KIngress,
     KNetworkPolicy, KRole, KRoleBinding] @ [WatchBuildPods, WatchSecretMetadata]"

definition SetupWithManager :: "boot \<Rightarrow> env \<Rightarrow> (env \<Rightarrow> booting) \<Rightarrow> booting" where
  \<comment> \<open>the defaults are filled in before the controller is registered; \<open>k\<close> is what the caller does with it\<close>
  "SetupWithManager B E k =
     (let E' = E\<lparr>e_Config := Defaults (e_Config E)\<rparr>
      in seqr (attempt (bt_Complete B) BootController) (seqr (step (ControllerRegistered E' app_watches)) (k E')))"

definition run_body :: "boot \<Rightarrow> string \<Rightarrow> booting" where
  "run_body B configPath =
     (case LoadConfig (bt_libs B) configPath of
        Inl e \<Rightarrow> raise (BootConfig e)
      | Inr (cfg, mgrOpts) \<Rightarrow>
          seqr (step (ConfigLoaded cfg))
          (seqr (check_git_auth B (cfg_GitAuth cfg))
          (seqr (attempt (bt_NewManager B mgrOpts) BootManager)
          (seqr (step (ManagerCreated mgrOpts))
          (SetupWithManager B
             \<lparr>e_Config = cfg, e_StorageClassName = mo_StorageClass mgrOpts, e_TraefikNamespace = mo_TraefikNamespace mgrOpts,
              e_OperatorNamespace = bt_Getenv B ''POD_NAMESPACE'', e_Recorder = True, e_Text = bt_Text B\<rparr>
             (\<lambda>E. seqr (attempt (bt_AddHealthzCheck B) BootHealthz)
                 (seqr (attempt (bt_AddReadyzCheck B) BootReadyz)
                 (seqr (step (Started E)) (attempt (bt_Start B E) BootStart)))))))))"

definition Flush :: "fingerprintLimiter option \<Rightarrow> boot_step list" where
  \<comment> \<open>\<open>Reporter.Flush\<close>, which does nothing on a nil reporter\<close>
  "Flush reporter = (case reporter of None \<Rightarrow> [] | Some _ \<Rightarrow> [Flushed])"

definition run :: "boot \<Rightarrow> string \<Rightarrow> fingerprintLimiter option \<Rightarrow> (boot_error + unit) \<times> boot_step list" where
  \<comment> \<open>the deferred \<open>Flush\<close> runs on every path\<close>
  "run B configPath reporter =
     (case run_body B configPath [] of (r, steps) \<Rightarrow> (r, steps @ Flush reporter))"

definition operator_main :: "boot \<Rightarrow> string \<Rightarrow> int \<times> boot_step list \<times> bool" where
  \<comment> \<open>the exit code, the steps, and whether error logs are teed into Sentry; a bad DSN only disables Sentry\<close>
  "operator_main B configPath =
     (let reporter = (case InitFromEnv (bt_Getenv B) (bt_NewSentryClient B) of Inl _ \<Rightarrow> None | Inr r \<Rightarrow> r)
      in case run B configPath reporter of
           (Inl _, steps) \<Rightarrow> (1, steps, reporter \<noteq> None)
         | (Inr _, steps) \<Rightarrow> (0, steps, reporter \<noteq> None))"

section \<open>Fail-closed start\<close>

definition git_auth_ready :: "boot \<Rightarrow> env \<Rightarrow> bool" where
  "git_auth_ready B E =
     (if ga_SecretName (cfg_GitAuth (e_Config E)) \<noteq> ''''
      then e_OperatorNamespace E \<noteq> '''' \<and>
        (case bt_GetSecret B (e_OperatorNamespace E) (ga_SecretName (cfg_GitAuth (e_Config E))) of
           Inl _ \<Rightarrow> False
         | Inr sec \<Rightarrow> map_get (sec_Data sec) ''username'' \<noteq> '''' \<and> map_get (sec_Data sec) ''password'' \<noteq> '''')
      else True)"

definition sentry_on :: "boot \<Rightarrow> bool" where
  \<comment> \<open>there is an address and the Sentry library accepts it\<close>
  "sentry_on B \<longleftrightarrow> bt_Getenv B ''SENTRY_DSN'' \<noteq> '''' \<and>
     bt_NewSentryClient B \<lparr>so_Dsn = bt_Getenv B ''SENTRY_DSN'', so_Environment = bt_Getenv B ''SENTRY_ENVIRONMENT'',
       so_Release = bt_Getenv B ''SENTRY_RELEASE''\<rparr> = None"

definition without_sentry :: "boot \<Rightarrow> boot" where
  \<comment> \<open>the same surroundings with no Sentry address\<close>
  "without_sentry B = B\<lparr>bt_Getenv := (bt_Getenv B)(''SENTRY_DSN'' := '''')\<rparr>"

lemma check_git_auth_ready:
  assumes "check_git_auth B (cfg_GitAuth (e_Config E)) steps = (Inr u, steps')" "e_OperatorNamespace E = bt_Getenv B ''POD_NAMESPACE''"
  shows "git_auth_ready B E"
  using assms
  by (auto simp: check_git_auth_def git_auth_ready_def GitAuth_Enabled_def ValidateGitAuthSecret_def checkGitCredentialData_def attempt_def seqr_def
      bindr_def raise_def ret_def Let_def split: if_splits option.splits sum.splits)

lemma check_git_auth_steps:
  assumes "check_git_auth B ga steps = (r, steps')"
  shows "set steps' \<subseteq> insert GitAuthChecked (set steps)"
  using assms
  by (auto simp: check_git_auth_def attempt_def seqr_def bindr_def raise_def ret_def step_def modify_def Let_def
      split: if_splits option.splits)

lemma run_body_started:
  assumes "run_body B path [] = (r, steps)" "Started E \<in> set steps"
  obtains mgr where "LoadConfig (bt_libs B) path = Inr (e_Config E, mgr)" "git_auth_ready B E"
proof -
  from assms obtain cfg mgr where load: "LoadConfig (bt_libs B) path = Inr (cfg, mgr)"
    by (auto simp: run_body_def raise_def split: sum.splits)
  let ?E = "\<lparr>e_Config = cfg, e_StorageClassName = mo_StorageClass mgr, e_TraefikNamespace = mo_TraefikNamespace mgr,
      e_OperatorNamespace = bt_Getenv B ''POD_NAMESPACE'', e_Recorder = True, e_Text = bt_Text B\<rparr>"
  obtain g s1 where git: "check_git_auth B (cfg_GitAuth cfg) [ConfigLoaded cfg] = (g, s1)" by (meson surj_pair)
  have s1: "Started E \<notin> set s1" using check_git_auth_steps [OF git] by auto
  have same: "?E\<lparr>e_Config := Defaults cfg\<rparr> = ?E" using LoadConfig_loaded(2) [OF load] by simp
  have ok: "\<exists>u. g = Inr u" and E: "E = ?E"
    using assms s1 git same unfolding run_body_def load
    by (auto simp: seqr_def bindr_def step_def modify_def attempt_def ret_def raise_def SetupWithManager_def Let_def
        split: sum.splits option.splits)
  from ok obtain u where u: "g = Inr u" by blast
  have "git_auth_ready B E" by (rule check_git_auth_ready [of B E]) (use git u E in simp_all)
  with load E that show thesis by simp
qed

lemma run_body_unflushed: "Flushed \<notin> set (snd (run_body B path []))"
proof -
  have git: "Flushed \<notin> set (snd (check_git_auth B ga [ConfigLoaded cfg]))" for ga cfg
  proof -
    obtain r s' where "check_git_auth B ga [ConfigLoaded cfg] = (r, s')" by (meson surj_pair)
    with check_git_auth_steps [OF this] show ?thesis by auto
  qed
  show ?thesis
  proof (cases "LoadConfig (bt_libs B) path")
    case (Inl e)
    then show ?thesis by (simp add: run_body_def raise_def)
  next
    case (Inr a)
    obtain cfg mgr where a: "a = (cfg, mgr)" by (cases a)
    obtain g s1 where s1: "check_git_auth B (cfg_GitAuth cfg) [ConfigLoaded cfg] = (g, s1)" by (meson surj_pair)
    then show ?thesis
      using git [of "cfg_GitAuth cfg" cfg] unfolding run_body_def Inr a
      by (auto simp: seqr_def bindr_def step_def modify_def attempt_def ret_def raise_def SetupWithManager_def Let_def
          split: sum.splits option.splits)
  qed
qed

lemma run_body_without_sentry: "run_body (without_sentry B) path = run_body B path"
proof -
  have same: "bt_libs (without_sentry B) = bt_libs B" "bt_NewClient (without_sentry B) = bt_NewClient B"
    "bt_GetSecret (without_sentry B) = bt_GetSecret B" "bt_NewManager (without_sentry B) = bt_NewManager B"
    "bt_Complete (without_sentry B) = bt_Complete B" "bt_AddHealthzCheck (without_sentry B) = bt_AddHealthzCheck B"
    "bt_AddReadyzCheck (without_sentry B) = bt_AddReadyzCheck B" "bt_Start (without_sentry B) = bt_Start B"
    "bt_Text (without_sentry B) = bt_Text B"
    "bt_Getenv (without_sentry B) ''POD_NAMESPACE'' = bt_Getenv B ''POD_NAMESPACE''"
    by (simp_all add: without_sentry_def)
  show ?thesis unfolding run_body_def check_git_auth_def SetupWithManager_def same by (rule refl)
qed

lemma run_body_done:
  assumes "run_body B path [] = (Inr u, steps)"
  shows "\<exists>E. Started E \<in> set steps"
proof -
  from assms obtain cfg mgr where load: "LoadConfig (bt_libs B) path = Inr (cfg, mgr)"
    by (auto simp: run_body_def raise_def split: sum.splits)
  obtain g s1 where "check_git_auth B (cfg_GitAuth cfg) [ConfigLoaded cfg] = (g, s1)" by (meson surj_pair)
  with assms show ?thesis unfolding run_body_def load
    by (auto simp: seqr_def bindr_def step_def modify_def attempt_def ret_def raise_def SetupWithManager_def Let_def
        split: sum.splits option.splits)
qed

lemma operator_main_body:
  assumes "run_body B path [] = (r, body)"
  shows "operator_main B path = (if isl r then 1 else 0, body @ (if sentry_on B then [Flushed] else []), sentry_on B)"
  using assms
  by (cases r) (auto simp: operator_main_def run_def Flush_def InitFromEnv_def sentry_on_def Let_def split: option.splits)


definition sample_boot :: boot where
  \<comment> \<open>a cluster in which everything works, and a malformed Sentry address\<close>
  "sample_boot = \<lparr>bt_Getenv = (\<lambda>n. if n = ''POD_NAMESPACE'' then ''baker'' else if n = ''SENTRY_DSN'' then ''not a DSN'' else ''''),
     bt_libs = sample_libs, bt_NewSentryClient = (\<lambda>_. Some ''invalid DSN''), bt_NewClient = None,
     bt_GetSecret = (\<lambda>_ _. Inl NotFound), bt_NewManager = (\<lambda>_. None), bt_Complete = None, bt_AddHealthzCheck = None,
     bt_AddReadyzCheck = None, bt_Start = (\<lambda>_. None), bt_Text = (\<lambda>_. '''')\<rparr>"


end
