(* ===== verification/Admission.thy ===== *)
theory Admission
  imports Console_Wire Build_Pod Children
begin

text \<open>
  What the API server admits as the spec of an App. The markers of \<open>api/v1alpha1/app_types.go\<close> (\<open>Required\<close>, \<open>Minimum\<close>, \<open>Pattern\<close>,
  \<open>Enum\<close>, \<open>XValidation\<close>) are compiled into the schema of the resource, and the server checks every object that is
  written against them. They speak about the JSON object, where a field can be absent (\<open>has\<close>), and the operator reads
  the object into the Go structs, where an absent field is the zero value: \<open>dec_spec\<close> is that reading, by the JSON
  tags of the types. The theorem combines this boundary with the other one, the loaded configuration: an admitted App
  under a loaded configuration gives a build pod that can run, as a non-root user, and publishes a directory of the
  workspace.
\<close>

section \<open>Rules over JSON objects\<close>

definition has :: "(string \<times> any) list \<Rightarrow> string \<Rightarrow> bool" where
  "has m k \<longleftrightarrow> map_of m k \<noteq> None"

fun obj_of :: "any \<Rightarrow> (string \<times> any) list" where
  "obj_of (VMap m) = m"
| "obj_of _ = []"

fun list_of :: "any \<Rightarrow> any list" where
  "list_of (VList xs) = xs"
| "list_of _ = []"

fun str_of :: "any \<Rightarrow> string" where
  "str_of (VString s) = s"
| "str_of _ = ''''"

fun int_of :: "any \<Rightarrow> int" where
  "int_of (VInt n) = n"
| "int_of _ = 0"

fun bool_of :: "any \<Rightarrow> bool" where
  "bool_of (VBool b) = b"
| "bool_of _ = False"

abbreviation sub where "sub m k \<equiv> obj_of (mget m k)"

definition minimum :: "int \<Rightarrow> (string \<times> any) list \<Rightarrow> string \<Rightarrow> bool" where
  "minimum n m k \<longleftrightarrow> (has m k \<longrightarrow> n \<le> int_of (mget m k))"

definition pattern :: "(string \<Rightarrow> bool) \<Rightarrow> (string \<times> any) list \<Rightarrow> string \<Rightarrow> bool" where
  "pattern p m k \<longleftrightarrow> (has m k \<longrightarrow> p (str_of (mget m k)))"

text \<open>The regular expressions. \<open>digits_then p\<close> is \<open>[0-9]+\<close> followed by what \<open>p\<close> accepts.\<close>

definition digits_then :: "(string \<Rightarrow> bool) \<Rightarrow> string \<Rightarrow> bool" where
  "digits_then p s \<longleftrightarrow> takeWhile is_digit s \<noteq> '''' \<and> p (dropWhile is_digit s)"

definition memory_suffix :: "string \<Rightarrow> bool" where
  "memory_suffix s \<longleftrightarrow> s \<in> set ['''', ''Ki'', ''Mi'', ''Gi'', ''Ti'', ''k'', ''M'', ''G'', ''T'']"

definition memory_pattern :: "string \<Rightarrow> bool" where
  \<comment> \<open>\<open>^[0-9]+(\.[0-9]+)?(Ki|Mi|Gi|Ti|k|M|G|T)?$\<close>\<close>
  "memory_pattern = digits_then (\<lambda>r. if HasPrefix r ''.'' then digits_then memory_suffix (tl r) else memory_suffix r)"

definition interval_pattern :: "string \<Rightarrow> bool" where
  \<comment> \<open>\<open>^[0-9]+[mh]$\<close>\<close>
  "interval_pattern = digits_then (\<lambda>r. r \<in> set [''m'', ''h''])"

definition word_char :: "char \<Rightarrow> bool" where
  "word_char c \<longleftrightarrow> is_digit c \<or> 65 \<le> byte c \<and> byte c \<le> 90 \<or> 97 \<le> byte c \<and> byte c \<le> 122 \<or> c = CHR ''_'' \<or> c = CHR ''.''"

fun dir_pattern :: "string \<Rightarrow> bool" where
  \<comment> \<open>\<open>^[a-zA-Z0-9_.][a-zA-Z0-9_./-]*$\<close>\<close>
  "dir_pattern [] \<longleftrightarrow> False"
| "dir_pattern (c # cs) \<longleftrightarrow> word_char c \<and> list_all (\<lambda>d. word_char d \<or> d = CHR ''/'' \<or> d = CHR ''-'') cs"

definition group_char :: "char \<Rightarrow> bool" where
  "group_char c \<longleftrightarrow> is_digit c \<or> 97 \<le> byte c \<and> byte c \<le> 122"

definition group_pattern :: "string \<Rightarrow> bool" where
  \<comment> \<open>\<open>^[a-z0-9]([-a-z0-9]*[a-z0-9])?$\<close>, at most 63 characters\<close>
  "group_pattern s \<longleftrightarrow> s \<noteq> '''' \<and> group_char (hd s) \<and> group_char (last s) \<and>
     list_all (\<lambda>c. group_char c \<or> c = CHR ''-'') s \<and> length s \<le> 63"

definition repo_pattern :: "string \<Rightarrow> bool" where
  \<comment> \<open>\<open>^(https?://|git@|ssh://)[^\s]+$\<close>; the space of a regular expression has no vertical tab\<close>
  "repo_pattern s \<longleftrightarrow> list_ex (\<lambda>p. HasPrefix s p \<and> drop (length p) s \<noteq> '''' \<and>
       list_all (\<lambda>c. byte c \<notin> {9, 10, 12, 13, 32}) (drop (length p) s))
     [''https://'', ''http://'', ''git@'', ''ssh://'']"

section \<open>The admitted spec\<close>

definition required :: "string list \<Rightarrow> (string \<times> any) list \<Rightarrow> bool" where
  "required ks m \<longleftrightarrow> list_all (has m) ks"

definition env_admitted :: "any \<Rightarrow> bool" where
  "env_admitted e \<longleftrightarrow>
     (let m = obj_of e; src = sub m ''valueFrom'' in
      required [''name''] m \<and> (has src ''configMapKeyRef'' \<longrightarrow> required [''name'', ''key''] (sub src ''configMapKeyRef'')))"

definition secret_env_admitted :: "any \<Rightarrow> bool" where
  "secret_env_admitted e \<longleftrightarrow>
     (let m = obj_of e; src = sub m ''valueFrom'' in
      required [''name'', ''valueFrom''] m \<and> required [''secretKeyRef''] src \<and> required [''name'', ''key''] (sub src ''secretKeyRef''))"

definition phase_admitted :: "(string \<times> any) list \<Rightarrow> bool" where
  "phase_admitted m \<longleftrightarrow> list_all env_admitted (list_of (mget m ''env'')) \<and>
     (\<not> has m ''env'' \<or> \<not> has m ''envMap'' \<or>
        list_all (\<lambda>e. \<not> has (sub m ''envMap'') (str_of (mget (obj_of e) ''name''))) (list_of (mget m ''env''))) \<and>
     minimum 1 m ''runAsUser'' \<and> pattern memory_pattern m ''memoryLimit''"

definition build_admitted :: "(string \<times> any) list \<Rightarrow> bool" where
  "build_admitted m \<longleftrightarrow> phase_admitted m \<and>
     (has m ''command'' \<and> list_of (mget m ''command'') \<noteq> []) \<and>
     (\<not> has m ''outputDir'' \<or>
        list_all (\<lambda>s. s \<noteq> '''' \<and> s \<noteq> ''.'' \<and> s \<noteq> ''..'') (SplitByte (str_of (mget m ''outputDir'')) (CHR ''/''))) \<and>
     pattern (\<lambda>s. dir_pattern s \<and> length s \<le> 256) m ''outputDir''"

definition fetch_admitted :: "(string \<times> any) list \<Rightarrow> bool" where
  "fetch_admitted m \<longleftrightarrow> phase_admitted m \<and> list_all secret_env_admitted (list_of (mget m ''secrets'')) \<and>
     (\<not> has m ''secrets'' \<or> list_of (mget m ''secrets'') = [] \<or> (has m ''command'' \<and> list_of (mget m ''command'') \<noteq> []))"

definition setup_admitted :: "(string \<times> any) list \<Rightarrow> bool" where
  "setup_admitted m \<longleftrightarrow> phase_admitted m \<and>
     (\<not> has m ''skip'' \<or> \<not> bool_of (mget m ''skip'') \<or>
        (\<not> has m ''command'' \<and> \<not> has m ''image'' \<and> \<not> has m ''env'' \<and> \<not> has m ''envMap'' \<and>
         \<not> has m ''runAsUser'' \<and> \<not> has m ''memoryLimit''))"

definition pipeline_admitted :: "(string \<times> any) list \<Rightarrow> bool" where
  "pipeline_admitted m \<longleftrightarrow>
     required [''packageManager'', ''phases''] m \<and>
     (let phases = sub m ''phases'' in
      setup_admitted (sub phases ''setup'') \<and> fetch_admitted (sub phases ''fetch'') \<and>
      required [''build''] phases \<and> build_admitted (sub phases ''build'') \<and>
      (has m ''nodeVersion'' \<or> has (sub phases ''build'') ''image'') \<and> minimum 1 m ''nodeVersion'' \<and>
      str_of (mget m ''packageManager'') \<in> set [PackageManagerYarn, PackageManagerPnpm] \<and>
      (\<not> has m ''timeout'' \<or> (case ParseDuration (str_of (mget m ''timeout'')) of None \<Rightarrow> False | Some d \<Rightarrow> 0 < d)))"

definition ingress_admitted :: "(string \<times> any) list \<Rightarrow> bool" where
  "ingress_admitted m \<longleftrightarrow> required [''host''] m \<and> (has m ''tls'' \<longrightarrow> required [''secretName''] (sub m ''tls'')) \<and>
     \<not> has (sub m ''annotations'') middlewaresAnnotation"

definition auth_admitted :: "(string \<times> any) list \<Rightarrow> bool" where
  "auth_admitted m \<longleftrightarrow> (has m ''secretRef'' \<longrightarrow> required [''name'', ''key''] (sub m ''secretRef'')) \<and>
     ((if has m ''passwordHash'' then 1 else 0) + (if has m ''secretRef'' then 1 else 0) = (1 :: nat))"

definition ordered_bytes :: "(string \<times> any) list \<Rightarrow> string \<Rightarrow> string \<Rightarrow> bool" where
  "ordered_bytes m lo hi \<longleftrightarrow> \<not> has m lo \<or> \<not> has m hi \<or> int_of (mget m lo) < int_of (mget m hi)"

definition storage_admitted :: "(string \<times> any) list \<Rightarrow> bool" where
  "storage_admitted m \<longleftrightarrow>
     (let cache = sub m ''cache''; data = sub m ''dataCache''; output = sub m ''output'' in
      minimum 0 cache ''cleanupBytes'' \<and> minimum 0 cache ''alertBytes'' \<and>
      minimum 0 data ''cleanupBytes'' \<and> minimum 0 data ''alertBytes'' \<and> minimum 0 data ''runDeltaBytes'' \<and>
      minimum 0 output ''alertBytes'' \<and> minimum 0 output ''capBytes'' \<and>
      ordered_bytes cache ''cleanupBytes'' ''alertBytes'' \<and> ordered_bytes data ''cleanupBytes'' ''alertBytes'' \<and>
      ordered_bytes output ''alertBytes'' ''capBytes'')"

definition history_admitted :: "(string \<times> any) list \<Rightarrow> bool" where
  "history_admitted m \<longleftrightarrow> minimum 1 m ''keepRecent'' \<and> minimum 1 m ''keepFailed'' \<and>
     (has m ''keepRecent'' \<longrightarrow> int_of (mget m ''keepRecent'') \<le> 50) \<and>
     (has m ''keepFailed'' \<longrightarrow> int_of (mget m ''keepFailed'') \<le> 50)"

definition spec_admitted :: "(string \<times> any) list \<Rightarrow> bool" where
  "spec_admitted m \<longleftrightarrow>
     required [''repo'', ''pipeline'', ''ingress''] m \<and>
     pattern repo_pattern m ''repo'' \<and> pattern group_pattern m ''group'' \<and>
     (has m ''scheduledBuilds'' \<longrightarrow> required [''enabled''] (sub m ''scheduledBuilds'')) \<and>
     minimum 1 (sub m ''scheduledBuilds'') ''alertThreshold'' \<and>
     (has m ''watchCommits'' \<longrightarrow> required [''enabled''] (sub m ''watchCommits'')) \<and>
     pattern interval_pattern (sub m ''watchCommits'') ''interval'' \<and>
     pipeline_admitted (sub m ''pipeline'') \<and> minimum 0 m ''keepReleases'' \<and>
     (has m ''repoAuth'' \<longrightarrow> required [''secretRef''] (sub m ''repoAuth'') \<and> required [''name''] (sub (sub m ''repoAuth'') ''secretRef'')) \<and>
     ingress_admitted (sub m ''ingress'') \<and>
     (has m ''auth'' \<longrightarrow> auth_admitted (sub m ''auth'')) \<and>
     storage_admitted (sub m ''storage'') \<and> history_admitted (sub m ''history'')"

section \<open>The spec the operator reads\<close>

definition dec_ptr :: "(any \<Rightarrow> 'a) \<Rightarrow> (string \<times> any) list \<Rightarrow> string \<Rightarrow> 'a option" where
  \<comment> \<open>a pointer field: nil when the field is absent or null\<close>
  "dec_ptr f m k = (if mget m k = VNil then None else Some (f (mget m k)))"

definition dec_strings :: "any \<Rightarrow> string gomap" where
  "dec_strings v = map (\<lambda>(k, x). (k, str_of x)) (obj_of v)"

definition dec_env :: "any \<Rightarrow> EnvVar" where
  "dec_env v = \<lparr>ev_Name = str_of (mget (obj_of v) ''name''), ev_Value = str_of (mget (obj_of v) ''value''),
     ev_ValueFrom = dec_ptr (\<lambda>s. \<lparr>evs_ConfigMapKeyRef = dec_ptr (\<lambda>c.
       \<lparr>cks_Name = str_of (mget (obj_of c) ''name''), cks_Key = str_of (mget (obj_of c) ''key'')\<rparr>) (obj_of s) ''configMapKeyRef''\<rparr>)
       (obj_of v) ''valueFrom''\<rparr>"

definition dec_secret_env :: "any \<Rightarrow> EnvVarWithSecret" where
  "dec_secret_env v =
     (let r = sub (sub (obj_of v) ''valueFrom'') ''secretKeyRef'' in
      \<lparr>evs_Name = str_of (mget (obj_of v) ''name''),
       evs_ValueFrom = \<lparr>evss_SecretKeyRef = \<lparr>sks_Name = str_of (mget r ''name''), sks_Key = str_of (mget r ''key'')\<rparr>\<rparr>\<rparr>)"

definition dec_phase :: "(string \<times> any) list \<Rightarrow> PhaseSpec" where
  "dec_phase m = \<lparr>ps_Image = str_of (mget m ''image''), ps_Command = map str_of (list_of (mget m ''command'')),
     ps_Env = map dec_env (list_of (mget m ''env'')), ps_EnvMap = dec_strings (mget m ''envMap''),
     ps_RunAsUser = dec_ptr int_of m ''runAsUser'', ps_MemoryLimit = str_of (mget m ''memoryLimit'')\<rparr>"

definition dec_phases :: "(string \<times> any) list \<Rightarrow> PhasesSpec" where
  "dec_phases m =
     (let setup = sub m ''setup''; fetch = sub m ''fetch''; build = sub m ''build'' in
      \<lparr>phs_Setup = \<lparr>sps_Phase = dec_phase setup, sps_Skip = bool_of (mget setup ''skip'')\<rparr>,
       phs_Fetch = \<lparr>fps_Phase = dec_phase fetch, fps_Secrets = map dec_secret_env (list_of (mget fetch ''secrets''))\<rparr>,
       phs_Build = \<lparr>bps_Phase = dec_phase build, bps_OutputDir = str_of (mget build ''outputDir'')\<rparr>\<rparr>)"

definition dec_pipeline :: "(string \<times> any) list \<Rightarrow> PipelineSpec" where
  "dec_pipeline m =
     \<lparr>pl_NodeVersion = int_of (mget m ''nodeVersion''), pl_PackageManager = str_of (mget m ''packageManager''),
      pl_Submodules = bool_of (mget m ''submodules''),
      pl_Timeout = dec_ptr (\<lambda>v. case ParseDuration (str_of v) of Some d \<Rightarrow> d | None \<Rightarrow> 0) m ''timeout'',
      pl_Phases = dec_phases (sub m ''phases'')\<rparr>"

definition dec_ingress :: "(string \<times> any) list \<Rightarrow> IngressConfig" where
  "dec_ingress m = \<lparr>ing_ClassName = dec_ptr str_of m ''className'', ing_Host = str_of (mget m ''host''),
     ing_TLS = dec_ptr (\<lambda>t. \<lparr>tls_SecretName = str_of (mget (obj_of t) ''secretName'')\<rparr>) m ''tls'',
     ing_Annotations = dec_strings (mget m ''annotations'')\<rparr>"

definition dec_auth :: "any \<Rightarrow> AuthConfig" where
  "dec_auth v = \<lparr>auth_PasswordHash = dec_ptr str_of (obj_of v) ''passwordHash'',
     auth_SecretRef = dec_ptr (\<lambda>r. \<lparr>asr_Name = str_of (mget (obj_of r) ''name''), asr_Key = str_of (mget (obj_of r) ''key'')\<rparr>)
       (obj_of v) ''secretRef''\<rparr>"

definition dec_storage :: "(string \<times> any) list \<Rightarrow> StorageSpec" where
  "dec_storage m =
     (let cache = sub m ''cache''; data = sub m ''dataCache''; output = sub m ''output'' in
      \<lparr>sts_Cache = \<lparr>ct_CleanupBytes = int_of (mget cache ''cleanupBytes''), ct_AlertBytes = int_of (mget cache ''alertBytes'')\<rparr>,
       sts_DataCache = \<lparr>dct_CleanupBytes = int_of (mget data ''cleanupBytes''), dct_AlertBytes = int_of (mget data ''alertBytes''),
         dct_RunDeltaBytes = int_of (mget data ''runDeltaBytes'')\<rparr>,
       sts_Output = \<lparr>ot_AlertBytes = int_of (mget output ''alertBytes''), ot_CapBytes = int_of (mget output ''capBytes'')\<rparr>\<rparr>)"

definition dec_spec :: "(string \<times> any) list \<Rightarrow> AppSpec" where
  "dec_spec m =
     \<lparr>spec_Repo = str_of (mget m ''repo''), spec_Ref = str_of (mget m ''ref''), spec_Group = str_of (mget m ''group''),
      spec_ScheduledBuilds = dec_ptr (\<lambda>v. \<lparr>sb_Enabled = bool_of (mget (obj_of v) ''enabled''),
        sb_Schedule = str_of (mget (obj_of v) ''schedule''), sb_AlertThreshold = int_of (mget (obj_of v) ''alertThreshold'')\<rparr>) m ''scheduledBuilds'',
      spec_WatchCommits = dec_ptr (\<lambda>v. \<lparr>wc_Enabled = bool_of (mget (obj_of v) ''enabled''),
        wc_Interval = str_of (mget (obj_of v) ''interval'')\<rparr>) m ''watchCommits'',
      spec_Pipeline = dec_pipeline (sub m ''pipeline''), spec_KeepReleases = int_of (mget m ''keepReleases''),
      spec_RepoAuth = dec_ptr (\<lambda>v. \<lparr>ra_SecretRef = \<lparr>rasr_Name = str_of (mget (sub (obj_of v) ''secretRef'') ''name'')\<rparr>\<rparr>) m ''repoAuth'',
      spec_Ingress = dec_ingress (sub m ''ingress''), spec_Auth = dec_ptr dec_auth m ''auth'',
      spec_Storage = dec_storage (sub m ''storage''),
      spec_History = dec_ptr (\<lambda>v. \<lparr>hs_KeepRecent = int_of (mget (obj_of v) ''keepRecent''),
        hs_KeepFailed = int_of (mget (obj_of v) ''keepFailed'')\<rparr>) m ''history''\<rparr>"

section \<open>Reading back what the operator writes\<close>

lemma of_or_nil [simp]:
  "str_of (or_nil (os s)) = s" "int_of (or_nil (oi n)) = n" "bool_of (or_nil (ob b)) = b"
  "list_of (or_nil (ol xs)) = xs" "obj_of (or_nil (om m)) = m"
  by (simp_all add: or_nil_def os_def oi_def ob_def ol_def om_def)

lemma dec_ptr_fields [simp]:
  "distinct (map fst fs) \<Longrightarrow> dec_ptr f (obj_fields fs) k = (if fget fs k = VNil then None else Some (f (fget fs k)))"
  by (simp add: dec_ptr_def)

lemma dec_strings_enc [simp]: "dec_strings (or_nil (om (enc_strings m))) = m"
  by (simp add: dec_strings_def enc_strings_def) (simp add: comp_def case_prod_unfold)

lemma mget_Cons [simp]: "mget ((k', v) # m) k = (if k' = k then v else mget m k)" "mget [] k = VNil"
  by (auto simp: mget_def)

lemma dec_env_enc [simp]: "dec_env (enc_env e) = e"
proof (cases e)
  case (fields n v src)
  show ?thesis
  proof (cases src)
    case (Some s)
    show ?thesis
      by (cases s; cases "evs_ConfigMapKeyRef s") (simp_all add: dec_env_def enc_env_def fields Some)
  qed (simp add: dec_env_def enc_env_def fields)
qed

lemma dec_secret_env_enc [simp]: "dec_secret_env (enc_secret_env e) = e"
  by (simp add: dec_secret_env_def enc_secret_env_def Let_def)

lemma dec_phase_enc [simp]:
  assumes "distinct (map fst (phase_fields p @ fs))"
  shows "dec_phase (obj_fields (phase_fields p @ fs)) = p"
  using assms by (cases "ps_RunAsUser p") (simp_all add: dec_phase_def phase_fields_def comp_def)


lemma dec_phases_enc: "dec_phases (obj_of (enc_phases p)) = p"
proof -
  have "fget (phase_fields q @ [(k, x)]) k = or_nil x" if "k \<in> set [''skip'', ''secrets'', ''outputDir'']" for q k x
    using that by (auto simp: phase_fields_def)
  then show ?thesis
    by (simp add: dec_phases_def enc_phases_def Let_def phase_fields_def [THEN arg_cong [where f = "map fst"]])
      (simp add: comp_def)
qed

lemma dec_pipeline_enc:
  assumes "\<And>d. md d \<noteq> VNil \<and> ParseDuration (str_of (md d)) = Some d"
  shows "dec_pipeline (obj_of (enc_pipeline md p)) = p"
  using assms by (cases "pl_Timeout p") (simp_all add: dec_pipeline_def enc_pipeline_def dec_phases_enc)

lemma dec_ingress_enc: "dec_ingress (obj_of (enc_ingress i)) = i"
  by (cases "ing_ClassName i"; cases "ing_TLS i") (simp_all add: dec_ingress_def enc_ingress_def)

lemma dec_auth_enc: "dec_auth (enc_auth a) = a"
  by (cases "auth_PasswordHash a"; cases "auth_SecretRef a") (simp_all add: dec_auth_def enc_auth_def)

lemma dec_storage_enc: "dec_storage (enc_storage_spec s) = s"
  by (simp add: dec_storage_def enc_storage_spec_def Let_def)


text \<open>The reading is right: it undoes the encoding that the operator's own writes use.\<close>

lemma dec_spec_enc:
  assumes "\<And>d. md d \<noteq> VNil \<and> ParseDuration (str_of (md d)) = Some d"
  shows "dec_spec (enc_spec md s) = s"
proof -
  have auth: "enc_auth a \<noteq> VNil" for a by (simp add: enc_auth_def)
  show ?thesis
    unfolding dec_spec_def enc_spec_def
    apply (rule AppSpec.equality)
                apply (simp_all add: dec_pipeline_enc [OF assms] dec_ingress_enc dec_storage_enc del: dec_ptr_fields)
    subgoal by (cases "spec_ScheduledBuilds s") simp_all
    subgoal by (cases "spec_WatchCommits s") simp_all
    subgoal by (cases "spec_RepoAuth s") simp_all
    subgoal by (cases "spec_Auth s") (simp_all add: auth dec_auth_enc)
    subgoal by (cases "spec_History s") simp_all
    done
qed


section \<open>What admission gives the operator\<close>

text \<open>A path as the kernel walks it from the root, without symbolic links.\<close>

fun walk :: "string list \<Rightarrow> string list \<Rightarrow> string list" where
  "walk dir [] = dir"
| "walk dir (s # ss) =
     (if s = '''' \<or> s = ''.'' then walk dir ss
      else if s = ''..'' then walk (butlast dir) ss
      else walk (dir @ [s]) ss)"

definition path_of :: "string \<Rightarrow> string list" where
  "path_of p = walk [] (SplitByte p (CHR ''/''))"

lemma walk_plain: "list_all (\<lambda>s. s \<noteq> '''' \<and> s \<noteq> ''.'' \<and> s \<noteq> ''..'') ss \<Longrightarrow> walk dir ss = dir @ ss"
  by (induction ss arbitrary: dir) auto

lemma SplitByte_not_Nil [simp]: "SplitByte s b \<noteq> []"
  by (cases s) (auto split: list.split)

lemma path_below_work: "path_of (workMountPath @ ''/'' @ od) = walk [''work''] (SplitByte od (CHR ''/''))"
  by (simp add: path_of_def)

lemma has_iff: "mget m k \<noteq> VNil \<Longrightarrow> has m k"
  by (auto simp: mget_def has_def split: option.splits)

lemma admitted_output_dir:
  assumes "build_admitted m"
  defines "od \<equiv> (let d = str_of (mget m ''outputDir'') in if d = '''' then ''dist'' else d)"
  shows "\<exists>ds. ds \<noteq> [] \<and> path_of (workMountPath @ ''/'' @ od) = ''work'' # ds"
proof -
  have "list_all (\<lambda>s. s \<noteq> '''' \<and> s \<noteq> ''.'' \<and> s \<noteq> ''..'') (SplitByte od (CHR ''/''))"
  proof (cases "str_of (mget m ''outputDir'') = ''''")
    case False
    then have "has m ''outputDir''" by (auto intro!: has_iff)
    then show ?thesis using assms(1) False by (simp add: od_def build_admitted_def Let_def)
  qed (simp add: od_def)
  then show ?thesis unfolding path_below_work by (simp add: walk_plain)
qed

lemma admitted_user:
  "phase_admitted m \<Longrightarrow> ps_RunAsUser (dec_phase m) = Some u \<Longrightarrow> 1 \<le> u"
  by (auto simp: phase_admitted_def minimum_def dec_phase_def dec_ptr_def has_iff split: if_splits)

lemma resolved_user:
  assumes "config_ok lib cfg" "\<And>u. ps_RunAsUser p = Some u \<Longrightarrow> 1 \<le> u" "rp_RunAsUser (resolvePhase cfg app p) = Some u"
  shows "1 \<le> u"
proof (cases "ps_Image p = '''' \<and> LookupNodeImage (cfg_NodeImages cfg) (pl_NodeVersion (pipeline app)) \<noteq> None")
  case True
  then obtain ni where ni: "LookupNodeImage (cfg_NodeImages cfg) (pl_NodeVersion (pipeline app)) = Some ni" by blast
  then obtain k where "(k, ni) \<in> set (cfg_NodeImages cfg)"
    by (auto simp: LookupNodeImage_def split: if_splits dest: map_of_SomeD)
  then show ?thesis
    using assms(1,3) True ni by (auto simp: config_ok_def list_all_iff resolvePhase_def ResolvePhase_def)
next
  case False
  then show ?thesis using assms(2,3) by (auto simp: resolvePhase_def ResolvePhase_def split: if_splits)
qed


text \<open>The user a container is pinned to.\<close>

definition pinned_user :: "Container \<Rightarrow> int option" where
  "pinned_user c = (case c_SecurityContext c of None \<Rightarrow> None | Some s \<Rightarrow> sc_RunAsUser s)"

lemma with_credential_fields [simp]:
  "pinned_user (with_credential n h c) = pinned_user c" "c_Command (with_credential n h c) = c_Command c"
  "n \<noteq> '''' \<Longrightarrow> c_Name c \<noteq> n \<Longrightarrow> with_credential n h c = c"
  by (simp_all add: with_credential_def pinned_user_def)

lemma resolved_pinned [simp]:
  "pinned_user (c\<lparr>c_SecurityContext := Some (resolvedSecurityContext rp)\<rparr>) = rp_RunAsUser rp"
  "pinned_user (c\<lparr>c_SecurityContext := Some hardenedSecurityContext\<rparr>) = None"
  by (simp_all add: pinned_user_def resolvedSecurityContext_def hardenedSecurityContext_def split: option.split)

lemma base_pinned:
  "pinned_user (shimInstall cfg) = None" "pinned_user (copier_container cfg app token) = None"
  "pinned_user (clone_container cfg app) = rp_RunAsUser (resolvePhase cfg app (bps_Phase (phs_Build (phases app))))"
  "pinned_user (setup_container pq cfg app) = rp_RunAsUser (resolvePhase cfg app (fst (effectiveSetup app cfg)))"
  "pinned_user (fetch_container pq cfg app) = rp_RunAsUser (resolvePhase cfg app (fps_Phase (phs_Fetch (phases app))))"
  "pinned_user (build_container pq cfg app) = rp_RunAsUser (resolvePhase cfg app (bps_Phase (phs_Build (phases app))))"
  by (simp_all add: shimInstall_def copier_container_def clone_container_def setup_container_def fetch_container_def
      build_container_def phase_container_def Let_def)

lemma effectiveSetup_user:
  "ps_RunAsUser (fst (effectiveSetup app cfg)) = Some u \<Longrightarrow> ps_RunAsUser (sps_Phase (phs_Setup (phases app))) = Some u"
  by (auto simp: effectiveSetup_def Let_def split: if_splits)

lemma admitted_phases:
  assumes "spec_admitted raw" "app_Spec app = dec_spec raw"
  obtains ms mf mb where
    "phase_admitted ms" "phase_admitted mf" "build_admitted mb"
    "sps_Phase (phs_Setup (phases app)) = dec_phase ms" "fps_Phase (phs_Fetch (phases app)) = dec_phase mf"
    "phs_Build (phases app) = \<lparr>bps_Phase = dec_phase mb, bps_OutputDir = str_of (mget mb ''outputDir'')\<rparr>"
proof
  let ?p = "sub (sub raw ''pipeline'') ''phases''"
  show "phase_admitted (sub ?p ''setup'')" "phase_admitted (sub ?p ''fetch'')" "build_admitted (sub ?p ''build'')"
    using assms(1) by (simp_all add: spec_admitted_def pipeline_admitted_def setup_admitted_def fetch_admitted_def Let_def)
  show "sps_Phase (phs_Setup (phases app)) = dec_phase (sub ?p ''setup'')"
    "fps_Phase (phs_Fetch (phases app)) = dec_phase (sub ?p ''fetch'')"
    "phs_Build (phases app) = \<lparr>bps_Phase = dec_phase (sub ?p ''build''), bps_OutputDir = str_of (mget (sub ?p ''build'') ''outputDir'')\<rparr>"
    by (simp_all add: assms(2) dec_spec_def dec_pipeline_def dec_phases_def Let_def)
qed


lemma has_value: "int_of (mget m k) \<noteq> 0 \<Longrightarrow> has m k"
  by (rule has_iff) auto

lemma ordered_bytesD:
  "ordered_bytes m lo hi \<Longrightarrow>
     int_of (mget m lo) \<noteq> 0 \<longrightarrow> int_of (mget m hi) \<noteq> 0 \<longrightarrow> int_of (mget m lo) < int_of (mget m hi)"
  by (auto simp: ordered_bytes_def dest: has_value)

lemma two_thresholds:
  "a \<noteq> 0 \<longrightarrow> b \<noteq> 0 \<longrightarrow> a < b \<Longrightarrow> validateVolume n \<lparr>CleanupBytes = a, AlertBytes = b, CapBytes = 0\<rparr> = None"
  "b \<noteq> 0 \<longrightarrow> c \<noteq> 0 \<longrightarrow> b < c \<Longrightarrow> validateVolume n \<lparr>CleanupBytes = 0, AlertBytes = b, CapBytes = c\<rparr> = None"
  by (auto simp: validateVolume_def checkOrder_None_iff)

lemma admitted_storage:
  assumes "storage_admitted m" "spec_Storage (app_Spec app) = dec_storage m"
  shows "ValidateStorage (storageConfigFrom app) = None"
proof -
  from assms(1) have "ordered_bytes (sub m ''cache'') ''cleanupBytes'' ''alertBytes''"
    "ordered_bytes (sub m ''dataCache'') ''cleanupBytes'' ''alertBytes''"
    "ordered_bytes (sub m ''output'') ''alertBytes'' ''capBytes''"
    by (simp_all add: storage_admitted_def Let_def)
  note two_thresholds(1) [OF ordered_bytesD [OF this(1)]] two_thresholds(1) [OF ordered_bytesD [OF this(2)]]
    two_thresholds(2) [OF ordered_bytesD [OF this(3)]]
  then show ?thesis
    by (simp add: ValidateStorage_def Volumes_def storageConfigFrom_def assms(2) dec_storage_def Let_def)
qed

lemma admitted_users:
  assumes "config_ok lib cfg" "spec_admitted raw" "app_Spec app = dec_spec raw"
    and c: "c \<in> set (all_containers (build_pod_spec pq cfg app token no_credential))" "pinned_user c = Some u"
  shows "1 \<le> u"
proof -
  from assms(2,3) obtain ms mf mb where ph: "phase_admitted ms" "phase_admitted mf" "build_admitted mb"
    and p: "sps_Phase (phs_Setup (phases app)) = dec_phase ms" "fps_Phase (phs_Fetch (phases app)) = dec_phase mf"
      "phs_Build (phases app) = \<lparr>bps_Phase = dec_phase mb, bps_OutputDir = str_of (mget mb ''outputDir'')\<rparr>"
    by (rule admitted_phases)
  have "phase_admitted mb" using ph(3) by (simp add: build_admitted_def)
  then have "rp_RunAsUser (resolvePhase cfg app (dec_phase mb)) = Some u \<Longrightarrow> 1 \<le> u"
    "rp_RunAsUser (resolvePhase cfg app (dec_phase mf)) = Some u \<Longrightarrow> 1 \<le> u"
    by (auto intro: resolved_user [OF assms(1)] admitted_user ph(2))
  moreover have "1 \<le> v" if "ps_RunAsUser (fst (effectiveSetup app cfg)) = Some v" for v
    using effectiveSetup_user [OF that] admitted_user [OF ph(1)] p(1) by simp
  then have "rp_RunAsUser (resolvePhase cfg app (fst (effectiveSetup app cfg))) = Some u \<Longrightarrow> 1 \<le> u"
    by (rule resolved_user [OF assms(1)])
  moreover note c(2) p
  ultimately show ?thesis
    using c(1) by (elim base_container_cases) (simp_all add: base_pinned)
qed

lemma build_container_command:
  assumes "build_admitted mb" "phs_Build (phases app) = \<lparr>bps_Phase = dec_phase mb, bps_OutputDir = od\<rparr>"
  shows "\<exists>cmd. cmd \<noteq> [] \<and> c_Command (build_container pq cfg app) = shimWrap cmd"
  using assms by (auto simp: build_container_def phase_container_def build_admitted_def dec_phase_def Let_def)

lemma credential_only_clone:
  "build_container pq cfg app \<in> set (pod_InitContainers (build_pod_spec pq cfg app token gitCred))"
  "pod_Containers (build_pod_spec pq cfg app token gitCred) = [copier_container cfg app token]"
  by (simp_all add: build_pod_spec_def addGitCredential_def Let_def base_names)

section \<open>Properties\<close>

text \<open>C16. An App that the API server admits, under a configuration that the operator loads, gives a build Job that can do
  its work: the build container has a command, no container is pinned to root, the deadline is positive, the copier
  publishes a directory strictly below the workspace whatever the output directory is (an empty one is \<open>dist\<close>, and no
  \<open>..\<close>, \<open>.\<close>, empty segment or absolute path can lead out of it or to the whole of it), and the operator's own check
  of the storage thresholds agrees with the admission rules.\<close>

theorem admitted_app_builds:
  assumes "LoadConfig lib path = Inr (cfg, mgr)" "spec_admitted raw" "app_Spec app = dec_spec raw"
  shows "let job = BuildJob pq cfg app token gitCred; pod = j_PodSpec job in
     (\<exists>c \<in> set (pod_InitContainers pod). c_Name c = ''build'' \<and> (\<exists>cmd. cmd \<noteq> [] \<and> c_Command c = shimWrap cmd)) \<and>
     (\<forall>c \<in> set (all_containers pod). \<forall>u. pinned_user c = Some u \<longrightarrow> 1 \<le> u) \<and>
     (\<exists>n. j_ActiveDeadlineSeconds job = Some n \<and> 0 < n) \<and>
     (\<exists>c od ds. pod_Containers pod = [c] \<and> {env_lit ''WORKSPACE'' workMountPath, env_lit ''OUTPUT_DIR'' od} \<subseteq> set (c_Env c) \<and>
        path_of (workMountPath @ ''/'' @ od) = ''work'' # ds \<and> ds \<noteq> []) \<and>
     ValidateStorage (storageConfigFrom app) = None"
proof -
  have ok: "config_ok lib cfg" using assms(1) load_file_ok by (auto simp: LoadConfig_def split: option.splits)
  from assms(2,3) obtain mb where mb: "build_admitted mb"
    and p: "phs_Build (phases app) = \<lparr>bps_Phase = dec_phase mb, bps_OutputDir = str_of (mget mb ''outputDir'')\<rparr>"
    by (rule admitted_phases)
  have "storage_admitted (sub raw ''storage'')" "spec_Storage (app_Spec app) = dec_storage (sub raw ''storage'')"
    using assms(2,3) by (simp_all add: spec_admitted_def dec_spec_def)
  note storage = admitted_storage [OF this]
  have users: "1 \<le> u" if c: "c \<in> set (all_containers (build_pod_spec pq cfg app token gitCred))" "pinned_user c = Some u" for c u
  proof -
    from c(1) obtain b where b: "b \<in> set (all_containers (build_pod_spec pq cfg app token no_credential))"
      and "pinned_user c = pinned_user b"
      unfolding credential_containers [of pq cfg app token gitCred] by (auto split: if_splits)
    with c(2) show ?thesis by (auto intro: admitted_users [OF ok assms(2,3) b])
  qed
  let ?od = "let d = str_of (mget mb ''outputDir'') in if d = '''' then ''dist'' else d"
  have "{env_lit ''WORKSPACE'' workMountPath, env_lit ''OUTPUT_DIR'' ?od} \<subseteq> set (c_Env (copier_container cfg app token))"
    by (simp add: copier_container_def p Let_def)
  with admitted_output_dir [OF mb] credential_only_clone(2) have copier:
    "\<exists>c od ds. pod_Containers (build_pod_spec pq cfg app token gitCred) = [c] \<and>
       {env_lit ''WORKSPACE'' workMountPath, env_lit ''OUTPUT_DIR'' od} \<subseteq> set (c_Env c) \<and>
       path_of (workMountPath @ ''/'' @ od) = ''work'' # ds \<and> ds \<noteq> []" by blast
  have "0 < buildDeadlineSeconds cfg app" using ok by (intro buildDeadlineSeconds_pos) (simp add: config_ok_def)
  then have "\<exists>n. j_ActiveDeadlineSeconds (BuildJob pq cfg app token gitCred) = Some n \<and> 0 < n" by (simp add: BuildJob_def)
  moreover have "\<exists>c \<in> set (pod_InitContainers (build_pod_spec pq cfg app token gitCred)).
      c_Name c = ''build'' \<and> (\<exists>cmd. cmd \<noteq> [] \<and> c_Command c = shimWrap cmd)"
    using build_container_command [OF mb p] credential_only_clone(1) base_names(5) by blast
  moreover have "j_PodSpec (BuildJob pq cfg app token gitCred) = build_pod_spec pq cfg app token gitCred"
    by (simp add: BuildJob_def)
  ultimately show ?thesis using users storage copier by (simp only: Let_def) blast
qed


definition sample_raw :: "(string \<times> any) list" where
  "sample_raw = enc_spec (\<lambda>_. VString ''1h'') (app_Spec sample_app)"

lemma sample_admitted: "spec_admitted sample_raw"
  by code_simp

lemma sample_decoded: "app_Spec sample_app = dec_spec sample_raw"
  by code_simp

theorem admitted_app_builds_witness:
  "\<exists>n. j_ActiveDeadlineSeconds (BuildJob Some sample_config sample_app ''t'' no_credential) = Some n \<and> 0 < n"
  using admitted_app_builds [OF sample_loaded sample_admitted sample_decoded, of Some "''t''" no_credential]
  unfolding Let_def by blast

text \<open>The rule that asks for an image looks at the presence of the field: an image that is present and empty
  satisfies it without a node version, and the build container then gets the image of the clone step.\<close>

definition imageless_raw :: "(string \<times> any) list" where
  "imageless_raw = [(''packageManager'', VString PackageManagerYarn),
     (''phases'', VMap [(''build'', VMap [(''image'', VString ''''), (''command'', VList [VString ''make''])])])]"

lemma empty_image_admitted:
  "pipeline_admitted imageless_raw"
  "spec_Pipeline (app_Spec app) = dec_pipeline imageless_raw \<Longrightarrow>
     c_Image (build_container pq cfg app) = img_Clone (cfg_Images cfg)"
  subgoal by code_simp
  subgoal by (simp add: build_container_def phase_container_def resolvePhase_def ResolvePhase_def LookupNodeImage_def
      imageless_raw_def dec_pipeline_def dec_phases_def dec_phase_def Let_def)
  done

text \<open>The copier is given no size cap: its container does not depend on the storage thresholds of the spec.\<close>

lemma copier_ignores_storage:
  "copier_container cfg (app\<lparr>app_Spec := (app_Spec app)\<lparr>spec_Storage := s\<rparr>\<rparr>) token = copier_container cfg app token"
  "\<forall>e \<in> set (c_Env (copier_container cfg app token)). ke_Name e \<noteq> ''RELEASE_SIZE_CAP''"
  by (simp_all add: copier_container_def env_lit_def Let_def)

end
