(* ===== verification/Go_Heap.thy ===== *)
theory Go_Heap
  imports "HOL-Library.AList"
begin

text \<open>
  The part of Go's memory that the deep-copy functions of \<open>api/v1alpha1\<close> work on. The other theories pass the API
  objects around as HOL values, so that a copy of an App never shares anything with the App. In the program an App
  is a tree of structs, pointers, slices and maps, and \<open>*out = *in\<close> copies the references and not what they point
  to. Here the memory is explicit: a value is a scalar, a struct of named fields, or a reference into the heap.

  \<open>denote k h T v\<close> reads the value \<open>v\<close> of type \<open>T\<close> as a tree, and is \<open>None\<close> when a reference dangles, has the wrong
  type, or points below the address \<open>k\<close>. Memory is allocated at the end of the heap, so \<open>denote (length h) h' T v\<close>
  being defined says that everything \<open>v\<close> refers to was allocated after \<open>h\<close>. \<open>deep_copier T f\<close>, the contract of a
  deep-copy function, is stated with it, and one rule per Go construct (\<open>copying\<close>) shows that the code meets it.
\<close>

named_theorems copying

section \<open>Values, cells and the heap\<close>

text \<open>A slice is its array, its offset and its length; nil pointers, slices and maps are \<open>GNil\<close>, which is not the
  empty slice.\<close>

datatype gval = GScalar string | GStruct "(string \<times> gval) list" | GNil | GRef nat | GSlice nat nat nat

text \<open>\<open>CNew\<close> is memory that is allocated and not written yet.\<close>

datatype cell = CNew | CVal gval | CArray "gval list" | CMap "(string \<times> gval) list"

type_synonym gheap = "cell list"

type_synonym copier = "gval \<Rightarrow> gheap \<Rightarrow> gval \<times> gheap"

definition peek :: "gheap \<Rightarrow> nat \<Rightarrow> cell option" where
  "peek h a = (if a < length h then Some (h ! a) else None)"

fun load :: "gheap \<Rightarrow> gval \<Rightarrow> gval" where
  "load h (GRef a) = (case peek h a of Some (CVal v) \<Rightarrow> v | _ \<Rightarrow> GNil)"
| "load h v = GNil"

fun elems :: "gheap \<Rightarrow> gval \<Rightarrow> gval list" where
  "elems h (GSlice a off len) = (case peek h a of Some (CArray vs) \<Rightarrow> take len (drop off vs) | _ \<Rightarrow> [])"
| "elems h v = []"

fun entries :: "gheap \<Rightarrow> gval \<Rightarrow> (string \<times> gval) list" where
  "entries h (GRef a) = (case peek h a of Some (CMap kvs) \<Rightarrow> kvs | _ \<Rightarrow> [])"
| "entries h v = []"

fun get_field :: "gval \<Rightarrow> string \<Rightarrow> gval" where
  "get_field (GStruct fs) n = (case map_of fs n of Some v \<Rightarrow> v | None \<Rightarrow> GNil)"
| "get_field v n = GNil"

fun set_field :: "string \<Rightarrow> gval \<Rightarrow> gval \<Rightarrow> gval" where
  "set_field n w (GStruct fs) = GStruct (map (\<lambda>(m, v). (m, if m = n then w else v)) fs)"
| "set_field n w v = v"

section \<open>The statements of the deep-copy functions\<close>

text \<open>\<open>*out = *in\<close>: scalars and references are copied, nothing behind a reference is.\<close>

definition assign :: copier where
  "assign v h = (v, h)"

text \<open>\<open>if in != nil { ... }\<close>, after \<open>*out = *in\<close>: the nil stays.\<close>

definition unless_nil :: "copier \<Rightarrow> copier" where
  "unless_nil f v h = (if v = GNil then (v, h) else f v h)"

text \<open>\<open>*out = new(T)\<close>, then \<open>f\<close> copies what \<open>*in\<close> points to into it.\<close>

definition new_ptr :: "copier \<Rightarrow> copier" where
  "new_ptr f v h =
     (let out = length h;
          (w, h') = f (load h v) (h @ [CNew])
      in (GRef out, h'[out := CVal w]))"

fun copy_elems :: "copier \<Rightarrow> gval list \<Rightarrow> gheap \<Rightarrow> gval list \<times> gheap" where
  "copy_elems f [] h = ([], h)"
| "copy_elems f (v # vs) h =
     (let (w, h) = f v h; (ws, h) = copy_elems f vs h in (w # ws, h))"

text \<open>\<open>*out = make([]T, len(*in))\<close>, then \<open>f\<close> copies element after element; \<open>copy(*out, *in)\<close> is the instance
  with \<open>assign\<close>. The new slice has an array of its own, as long as the slice.\<close>

definition make_slice :: "copier \<Rightarrow> copier" where
  "make_slice f v h =
     (let out = length h;
          (ws, h') = copy_elems f (elems h v) (h @ [CNew])
      in (GSlice out 0 (length ws), h'[out := CArray ws]))"

text \<open>\<open>*out = make(map[string]T, len(*in))\<close>, then \<open>(*out)[key] = val\<close> for each entry.\<close>

definition make_map :: copier where
  "make_map v h =
     (GRef (length h), h @ [CMap (foldl (\<lambda>out (key, val). AList.update key val out) [] (entries h v))])"

text \<open>The body of a \<open>DeepCopyInto\<close>: after \<open>*out = *in\<close>, its statements one after the other, each copying one field
  of \<open>in\<close> over that of \<open>out\<close>.\<close>

fun copy_fields :: "(string \<times> copier) list \<Rightarrow> gval \<Rightarrow> gval \<Rightarrow> gheap \<Rightarrow> gval \<times> gheap" where
  "copy_fields [] inn out h = (out, h)"
| "copy_fields ((n, f) # cs) inn out h =
     (let (v, h) = f (get_field inn n) h in copy_fields cs inn (set_field n v out) h)"

definition copy_into :: "(string \<times> copier) list \<Rightarrow> copier" where
  "copy_into cs inn h = copy_fields cs inn inn h"

section \<open>Types and the trees that values denote\<close>

datatype gtype = TScalar | TStruct "(string \<times> gtype) list" | TPtr gtype | TSlice gtype | TMap gtype

datatype gtree = LScalar string | LStruct "(string \<times> gtree) list" | LNil | LPtr gtree | LSlice "gtree list"
  | LMap "(string \<times> gtree) list"

text \<open>The zero value of a type.\<close>

fun zero_value :: "gtype \<Rightarrow> gval" where
  "zero_value TScalar = GScalar []"
| "zero_value (TStruct fts) = GStruct (map (\<lambda>(n, T). (n, zero_value T)) fts)"
| "zero_value T = GNil"

text \<open>The types with no reference in them.\<close>

fun flat :: "gtype \<Rightarrow> bool" where
  "flat TScalar \<longleftrightarrow> True"
| "flat (TStruct fts) \<longleftrightarrow> (\<forall>(n, T) \<in> set fts. flat T)"
| "flat T \<longleftrightarrow> False"

fun denote :: "nat \<Rightarrow> gheap \<Rightarrow> gtype \<Rightarrow> gval \<Rightarrow> gtree option"
  and denote_fields :: "nat \<Rightarrow> gheap \<Rightarrow> (string \<times> gtype) list \<Rightarrow> (string \<times> gval) list \<Rightarrow> (string \<times> gtree) list option"
where
  "denote k h TScalar v = (case v of GScalar s \<Rightarrow> Some (LScalar s) | _ \<Rightarrow> None)"
| "denote k h (TStruct fts) v =
     (case v of GStruct fs \<Rightarrow> map_option LStruct (denote_fields k h fts fs) | _ \<Rightarrow> None)"
| "denote k h (TPtr T) v =
     (case v of GNil \<Rightarrow> Some LNil
      | GRef a \<Rightarrow>
          (if k \<le> a
           then (case peek h a of Some (CVal w) \<Rightarrow> map_option LPtr (denote k h T w) | _ \<Rightarrow> None)
           else None)
      | _ \<Rightarrow> None)"
| "denote k h (TSlice T) v =
     (case v of GNil \<Rightarrow> Some LNil
      | GSlice a off len \<Rightarrow>
          (if k \<le> a
           then (case peek h a of
                   Some (CArray vs) \<Rightarrow>
                     if off + len \<le> length vs
                     then map_option LSlice (those (map (denote k h T) (take len (drop off vs))))
                     else None
                 | _ \<Rightarrow> None)
           else None)
      | _ \<Rightarrow> None)"
| "denote k h (TMap T) v =
     (case v of GNil \<Rightarrow> Some LNil
      | GRef a \<Rightarrow>
          (if k \<le> a
           then (case peek h a of
                   Some (CMap kvs) \<Rightarrow>
                     if distinct (map fst kvs)
                     then map_option (LMap \<circ> zip (map fst kvs)) (those (map (denote k h T) (map snd kvs)))
                     else None
                 | _ \<Rightarrow> None)
           else None)
      | _ \<Rightarrow> None)"
| "denote_fields k h [] fs = (if fs = [] then Some [] else None)"
| "denote_fields k h ((n, T) # fts) fs =
     (case fs of
        (m, v) # fs' \<Rightarrow>
          if m = n
          then (case (denote k h T v, denote_fields k h fts fs') of
                  (Some t, Some ts) \<Rightarrow> Some ((n, t) # ts)
                | _ \<Rightarrow> None)
          else None
      | [] \<Rightarrow> None)"

text \<open>The contract of a deep-copy function: it only allocates, what it returns denotes the same tree, and all the
  memory this tree is read from is new.\<close>

definition deep_copier :: "gtype \<Rightarrow> copier \<Rightarrow> bool" where
  "deep_copier T f \<longleftrightarrow>
     (\<forall>h v t. denote 0 h T v = Some t \<longrightarrow>
        (\<exists>w new. f v h = (w, h @ new) \<and> denote (length h) (h @ new) T w = Some t))"

section \<open>Reading what was allocated\<close>

lemma those_map_mono:
  "those (map f xs) = Some ts \<Longrightarrow> (\<And>x t. x \<in> set xs \<Longrightarrow> f x = Some t \<Longrightarrow> g x = Some t) \<Longrightarrow> those (map g xs) = Some ts"
  by (induction xs arbitrary: ts) (fastforce split: option.splits)+

lemma denote_ptrE:
  assumes "denote k h (TPtr T) v = Some t"
  obtains (nil) "v = GNil" "t = LNil"
    | (ref) a w s where "v = GRef a" "k \<le> a" "peek h a = Some (CVal w)" "denote k h T w = Some s" "t = LPtr s"
  using assms by (auto split: gval.splits if_splits option.splits cell.splits)

lemma denote_sliceE:
  assumes "denote k h (TSlice T) v = Some t"
  obtains (nil) "v = GNil" "t = LNil"
    | (ref) a off len vs ts where "v = GSlice a off len" "k \<le> a" "peek h a = Some (CArray vs)" "off + len \<le> length vs"
        "those (map (denote k h T) (take len (drop off vs))) = Some ts" "t = LSlice ts"
  using assms by (auto split: gval.splits if_splits option.splits cell.splits)

lemma denote_mapE:
  assumes "denote k h (TMap T) v = Some t"
  obtains (nil) "v = GNil" "t = LNil"
    | (ref) a kvs ts where "v = GRef a" "k \<le> a" "peek h a = Some (CMap kvs)" "distinct (map fst kvs)"
        "those (map (denote k h T) (map snd kvs)) = Some ts" "t = LMap (zip (map fst kvs) ts)"
  using assms by (auto split: gval.splits if_splits option.splits cell.splits)

text \<open>What is read at or above \<open>k\<close> depends on the cells at or above \<open>k\<close> only.\<close>

lemma denote_mono:
  "denote k h T v = Some t \<Longrightarrow> (\<And>a c. k \<le> a \<Longrightarrow> peek h a = Some c \<Longrightarrow> peek h' a = Some c) \<Longrightarrow> k' \<le> k \<Longrightarrow>
     denote k' h' T v = Some t"
  "denote_fields k h fts fs = Some ts \<Longrightarrow> (\<And>a c. k \<le> a \<Longrightarrow> peek h a = Some c \<Longrightarrow> peek h' a = Some c) \<Longrightarrow> k' \<le> k \<Longrightarrow>
     denote_fields k' h' fts fs = Some ts"
proof (induction k h T v and k h fts fs arbitrary: t and ts rule: denote_denote_fields.induct)
  case (3 k h T v)
  then show ?case
    by (cases v) (fastforce split: if_splits option.splits cell.splits)+
next
  case (4 k h T v)
  from "4.prems"(1) show ?case
  proof (cases rule: denote_sliceE)
    case (ref a off len vs us)
    have "those (map (denote k' h' T) (take len (drop off vs))) = Some us"
      using ref(5) by (rule those_map_mono) (rule "4.IH"[OF ref(1,2,3) refl ref(4) _ _ "4.prems"(2,3)])
    then show ?thesis using ref "4.prems" by simp
  qed simp
next
  case (5 k h T v)
  from "5.prems"(1) show ?case
  proof (cases rule: denote_mapE)
    case (ref a kvs us)
    have "those (map (denote k' h' T) (map snd kvs)) = Some us"
      using ref(5) by (rule those_map_mono) (rule "5.IH"[OF ref(1,2,3) refl ref(4) _ _ "5.prems"(2,3)])
    then show ?thesis using ref "5.prems" by simp
  qed simp
next
  case (7 k h n T fts fs)
  then show ?case
    by (fastforce split: list.splits if_splits option.splits)
qed (auto split: gval.splits)

lemma denote_flat:
  "flat T \<Longrightarrow> denote k h T v = denote k' h' T v"
  "\<forall>(n, T) \<in> set fts. flat T \<Longrightarrow> denote_fields k h fts fs = denote_fields k' h' fts fs"
proof (induction k h T v and k h fts fs rule: denote_denote_fields.induct)
  case (2 k h fts v)
  then show ?case by (cases v) simp_all
next
  case (7 k h n T fts fs)
  then show ?case by (auto split: list.split)
qed simp_all

lemma peek_new [simp]: "peek (h @ c # new) (length h) = Some c"
  by (simp add: peek_def)

text \<open>Allocation keeps what is there, and what is new does not see a change of the old memory.\<close>

lemma denote_append: "denote k h T v = Some t \<Longrightarrow> k' \<le> k \<Longrightarrow> denote k' (h @ new) T v = Some t"
  by (erule denote_mono) (auto simp: peek_def nth_append split: if_splits)

lemma denote_new:
  "denote (length h) (h @ new) T v = Some t \<Longrightarrow> length h' = length h \<Longrightarrow> denote k (h' @ new) T v = Some t" if "k \<le> length h"
  using that by (elim denote_mono) (auto simp: peek_def nth_append split: if_splits)

lemma denote_fill:
  "denote (Suc (length h)) (h @ CNew # new) T v = Some t \<Longrightarrow> denote (length h) (h @ c # new) T v = Some t"
  by (erule denote_mono) (auto simp: peek_def nth_append split: if_splits)

section \<open>One rule for each statement\<close>

lemma deep_copierD:
  assumes "deep_copier T f" "denote k h T v = Some t"
  obtains w new where "f v h = (w, h @ new)" "denote (length h) (h @ new) T w = Some t"
proof -
  have "denote 0 h T v = Some t" using assms(2) by (rule denote_mono) simp_all
  then show ?thesis using assms(1) that unfolding deep_copier_def by blast
qed

lemma deep_assign [copying]:
  assumes "flat T"
  shows "deep_copier T assign"
  unfolding deep_copier_def assign_def using denote_flat(1)[OF assms, of 0] by (metis append_Nil2)

lemma deep_new_ptr [copying]:
  assumes f: "deep_copier T f"
  shows "deep_copier (TPtr T) (unless_nil (new_ptr f))"
  unfolding deep_copier_def
proof (intro allI impI)
  fix h v t
  assume "denote 0 h (TPtr T) v = Some t"
  then show "\<exists>w new. unless_nil (new_ptr f) v h = (w, h @ new) \<and> denote (length h) (h @ new) (TPtr T) w = Some t"
  proof (cases rule: denote_ptrE)
    case (ref a v' s)
    then have "denote 0 (h @ [CNew]) T v' = Some s" by (blast intro: denote_append)
    from deep_copierD[OF f this] obtain w new
      where c: "f v' (h @ [CNew]) = (w, (h @ [CNew]) @ new)"
        and d: "denote (Suc (length h)) (h @ CNew # new) T w = Some s" by auto
    have "unless_nil (new_ptr f) v h = (GRef (length h), h @ CVal w # new)"
      using ref c by (simp add: unless_nil_def new_ptr_def)
    moreover have "denote (length h) (h @ CVal w # new) (TPtr T) (GRef (length h)) = Some t"
      using ref denote_fill[OF d] by simp
    ultimately show ?thesis by blast
  qed (simp add: unless_nil_def)
qed

lemma copy_elems_deep:
  assumes f: "deep_copier T f"
  shows "those (map (denote 0 h T) vs) = Some ts \<Longrightarrow>
     \<exists>ws new. copy_elems f vs h = (ws, h @ new) \<and> those (map (denote (length h) (h @ new) T) ws) = Some ts"
proof (induction vs arbitrary: h ts)
  case (Cons v vs)
  then obtain t us where v: "denote 0 h T v = Some t" and vs: "those (map (denote 0 h T) vs) = Some us"
    and ts: "ts = t # us" by (auto split: option.splits)
  from deep_copierD[OF f v] obtain w new
    where w: "f v h = (w, h @ new)" "denote (length h) (h @ new) T w = Some t" .
  from vs have "those (map (denote 0 (h @ new) T) vs) = Some us"
    by (rule those_map_mono) (erule denote_append, simp)
  from Cons.IH[OF this] obtain ws new'
    where ws: "copy_elems f vs (h @ new) = (ws, (h @ new) @ new')"
      and us: "those (map (denote (length (h @ new)) ((h @ new) @ new') T) ws) = Some us" by blast
  have "those (map (denote (length h) ((h @ new) @ new') T) ws) = Some us"
    using us by (rule those_map_mono) (erule denote_mono, simp_all)
  moreover have "denote (length h) ((h @ new) @ new') T w = Some t"
    using w(2) by (rule denote_append) simp
  ultimately show ?case using w ws ts by simp
qed simp

lemma deep_make_slice [copying]:
  assumes f: "deep_copier T f"
  shows "deep_copier (TSlice T) (unless_nil (make_slice f))"
  unfolding deep_copier_def
proof (intro allI impI)
  fix h v t
  assume "denote 0 h (TSlice T) v = Some t"
  then show "\<exists>w new. unless_nil (make_slice f) v h = (w, h @ new) \<and> denote (length h) (h @ new) (TSlice T) w = Some t"
  proof (cases rule: denote_sliceE)
    case (ref a off len vs ts)
    have "those (map (denote 0 (h @ [CNew]) T) (elems h v)) = Some ts"
      using ref(5) unfolding ref(1) elems.simps ref(3) option.case cell.case
      by (rule those_map_mono) (erule denote_append, simp)
    from copy_elems_deep[OF f this] obtain ws new
      where c: "copy_elems f (elems h v) (h @ [CNew]) = (ws, (h @ [CNew]) @ new)"
        and d: "those (map (denote (Suc (length h)) (h @ CNew # new) T) ws) = Some ts" by auto
    have "unless_nil (make_slice f) v h = (GSlice (length h) 0 (length ws), h @ CArray ws # new)"
      using ref c by (simp add: unless_nil_def make_slice_def)
    moreover have "those (map (denote (length h) (h @ CArray ws # new) T) ws) = Some ts"
      using d by (rule those_map_mono) (rule denote_fill)
    then have "denote (length h) (h @ CArray ws # new) (TSlice T) (GSlice (length h) 0 (length ws)) = Some t"
      using ref by simp
    ultimately show ?thesis by blast
  qed (simp add: unless_nil_def)
qed

lemma update_entries:
  "distinct (map fst (out @ kvs)) \<Longrightarrow> foldl (\<lambda>out (key, val). AList.update key val out) out kvs = out @ kvs"
proof (induction kvs arbitrary: out)
  case (Cons kv kvs)
  obtain key val where [simp]: "kv = (key, val)" by force
  have "key \<notin> fst ` set out \<Longrightarrow> AList.update key val out = out @ [(key, val)]" for out :: "('a \<times> 'b) list"
    by (induction out) auto
  then show ?case using Cons by simp
qed simp

lemma deep_make_map [copying]:
  assumes "flat T"
  shows "deep_copier (TMap T) (unless_nil make_map)"
  unfolding deep_copier_def
proof (intro allI impI)
  fix h v t
  assume "denote 0 h (TMap T) v = Some t"
  then show "\<exists>w new. unless_nil make_map v h = (w, h @ new) \<and> denote (length h) (h @ new) (TMap T) w = Some t"
  proof (cases rule: denote_mapE)
    case (ref a kvs ts)
    have "unless_nil make_map v h = (GRef (length h), h @ [CMap kvs])"
      using ref by (simp add: unless_nil_def make_map_def update_entries)
    moreover have "those (map (denote (length h) (h @ [CMap kvs]) T) (map snd kvs)) = Some ts"
      using ref(5) by (rule those_map_mono) (simp add: denote_flat(1)[OF assms, of "length h" _ _ 0 h])
    then have "denote (length h) (h @ [CMap kvs]) (TMap T) (GRef (length h)) = Some t"
      using ref by simp
    ultimately show ?thesis by blast
  qed (simp add: unless_nil_def)
qed

text \<open>The fields of a struct, by name.\<close>

lemma denote_fieldsD:
  "denote_fields k h fts fs = Some ts \<Longrightarrow> distinct (map fst fts) \<Longrightarrow>
     map fst fs = map fst fts \<and> map fst ts = map fst fts \<and>
     (\<forall>(n, T) \<in> set fts. denote k h T (the (map_of fs n)) = Some (the (map_of ts n)))"
proof (induction fts arbitrary: fs ts)
  case (Cons nT fts)
  obtain n T where [simp]: "nT = (n, T)" by force
  from Cons.prems(1) obtain v fs' t us where fs: "fs = (n, v) # fs'" and ts: "ts = (n, t) # us"
    and t: "denote k h T v = Some t" and us: "denote_fields k h fts fs' = Some us"
    by (auto split: list.splits if_splits option.splits)
  have "x \<in> set fts \<Longrightarrow> fst x \<noteq> n" for x using Cons.prems(2) by force
  then show ?case using Cons.IH[OF us] Cons.prems(2) fs ts t by auto
qed (auto split: if_splits)

lemma denote_fieldsI:
  "map fst fs = map fst fts \<Longrightarrow> map fst ts = map fst fts \<Longrightarrow> distinct (map fst fts) \<Longrightarrow>
     \<forall>(n, T) \<in> set fts. denote k h T (the (map_of fs n)) = Some (the (map_of ts n)) \<Longrightarrow>
     denote_fields k h fts fs = Some ts"
proof (induction fts arbitrary: fs ts)
  case (Cons nT fts)
  obtain n T where [simp]: "nT = (n, T)" by force
  from Cons.prems(1,2) obtain v fs' t us where fs: "fs = (n, v) # fs'" and ts: "ts = (n, t) # us"
    by (cases fs; cases ts) auto
  have "x \<in> set fts \<Longrightarrow> fst x \<noteq> n" for x using Cons.prems(3) by force
  then have "denote_fields k h fts fs' = Some us"
    using Cons.prems by (intro Cons.IH) (auto simp: fs ts)
  then show ?case using Cons.prems(4) fs ts by simp
qed simp

lemma map_of_set_field:
  "map_of (map (\<lambda>(m, v). (m, if m = n then w else v)) fs) x =
     (if x = n then map_option (\<lambda>_. w) (map_of fs n) else map_of fs x)"
  by (induction fs) auto

lemma copy_fields_deep:
  assumes "distinct (map fst cs)" "fst ` set cs \<subseteq> fst ` set out"
    "\<forall>(n, f) \<in> set cs. deep_copier (ty n) f \<and> denote 0 h (ty n) (get_field inn n) = Some (tr n)"
  shows "\<exists>out' new. copy_fields cs inn (GStruct out) h = (GStruct out', h @ new) \<and> map fst out' = map fst out \<and>
     (\<forall>n. if n \<in> fst ` set cs then denote (length h) (h @ new) (ty n) (the (map_of out' n)) = Some (tr n)
          else map_of out' n = map_of out n)"
  using assms
proof (induction cs arbitrary: h out)
  case (Cons nf cs)
  obtain n f where [simp]: "nf = (n, f)" by force
  define out1 where "out1 w = map (\<lambda>(m, v). (m, if m = n then w else v)) out" for w
  have names: "map fst (out1 w) = map fst out" for w by (auto simp: out1_def)
  have "deep_copier (ty n) f" "denote 0 h (ty n) (get_field inn n) = Some (tr n)" using Cons.prems(3) by auto
  from deep_copierD[OF this] obtain w new
    where w: "f (get_field inn n) h = (w, h @ new)" "denote (length h) (h @ new) (ty n) w = Some (tr n)" .
  have "fst ` set cs \<subseteq> fst ` set (out1 w)"
    using Cons.prems(2) arg_cong[OF names[of w], of set] by simp
  moreover have "\<forall>(n, f) \<in> set cs. deep_copier (ty n) f \<and> denote 0 (h @ new) (ty n) (get_field inn n) = Some (tr n)"
    using Cons.prems(3) by (auto intro: denote_append)
  ultimately obtain out' new' where c: "copy_fields cs inn (GStruct (out1 w)) (h @ new) = (GStruct out', (h @ new) @ new')"
    and names': "map fst out' = map fst (out1 w)"
    and fields: "\<forall>x. if x \<in> fst ` set cs
          then denote (length (h @ new)) ((h @ new) @ new') (ty x) (the (map_of out' x)) = Some (tr x)
          else map_of out' x = map_of (out1 w) x"
    using Cons.IH[of "out1 w" "h @ new"] Cons.prems(1) by auto
  have fields': "if x \<in> fst ` set (nf # cs)
       then denote (length h) ((h @ new) @ new') (ty x) (the (map_of out' x)) = Some (tr x)
       else map_of out' x = map_of out x" for x
  proof -
    have n: "n \<notin> fst ` set cs" "\<exists>v. map_of out n = Some v" using Cons.prems(1,2) by (auto dest: weak_map_of_SomeI)
    show ?thesis
    proof (cases "x = n")
      case True
      then have "map_of out' x = Some w" using fields n by (auto simp: out1_def map_of_set_field)
      then show ?thesis using True denote_append[OF w(2), of "length h" new'] by simp
    next
      case False
      then show ?thesis using fields[rule_format, of x]
        by (auto simp: out1_def map_of_set_field elim: denote_mono(1) split: if_splits)
    qed
  qed
  have "copy_fields (nf # cs) inn (GStruct out) h = (GStruct out', h @ (new @ new'))"
    using w(1) c by (simp add: out1_def)
  moreover have "map fst out' = map fst out" using names' names by simp
  ultimately show ?case using fields' unfolding append_assoc by blast
qed simp

text \<open>A struct is copied deeply when every field with a reference in it has a statement that copies it deeply.\<close>

lemma deep_copy_into [copying]:
  assumes fts: "distinct (map fst fts)" and cs: "distinct (map fst cs)" "fst ` set cs \<subseteq> fst ` set fts"
    and fields: "\<forall>(n, T) \<in> set fts. case map_of cs n of Some f \<Rightarrow> deep_copier T f | None \<Rightarrow> flat T"
  shows "deep_copier (TStruct fts) (copy_into cs)"
  unfolding deep_copier_def
proof (intro allI impI)
  fix h v t
  assume "denote 0 h (TStruct fts) v = Some t"
  then obtain fs ts where v: "v = GStruct fs" and t: "t = LStruct ts" and d: "denote_fields 0 h fts fs = Some ts"
    by (auto split: gval.splits)
  define ty where "ty n = the (map_of fts n)" for n
  have ty: "(n, T) \<in> set fts \<Longrightarrow> ty n = T" for n T using fts by (simp add: ty_def)
  from denote_fieldsD[OF d fts] have names: "map fst fs = map fst fts" "map fst ts = map fst fts"
    and D: "(n, T) \<in> set fts \<Longrightarrow> denote 0 h T (the (map_of fs n)) = Some (the (map_of ts n))" for n T by auto
  have fs_fts: "fst ` set fs = fst ` set fts" using arg_cong[OF names(1), of set] by simp
  have "deep_copier (ty n) f \<and> denote 0 h (ty n) (get_field v n) = Some (the (map_of ts n))" if "(n, f) \<in> set cs" for n f
  proof -
    from cs(2) that obtain T where T: "(n, T) \<in> set fts" by force
    then have "n \<in> fst ` set fs" unfolding fs_fts by force
    then have "map_of fs n \<noteq> None" by (simp add: map_of_eq_None_iff)
    then have "get_field v n = the (map_of fs n)" by (auto simp: v)
    moreover have "map_of cs n = Some f" using cs(1) that by simp
    then have "deep_copier T f" using fields T by fastforce
    ultimately show ?thesis using D[OF T] ty[OF T] by simp
  qed
  moreover have "fst ` set cs \<subseteq> fst ` set fs" using cs(2) fs_fts by simp
  ultimately obtain out new where c: "copy_into cs v h = (GStruct out, h @ new)" and out: "map fst out = map fst fs"
    and got': "\<forall>n. if n \<in> fst ` set cs
          then denote (length h) (h @ new) (ty n) (the (map_of out n)) = Some (the (map_of ts n))
          else map_of out n = map_of fs n"
    using copy_fields_deep[OF cs(1), of fs ty h v "\<lambda>n. the (map_of ts n)"] unfolding copy_into_def v by blast
  have "denote (length h) (h @ new) T (the (map_of out n)) = Some (the (map_of ts n))" if T: "(n, T) \<in> set fts" for n T
  proof (cases "n \<in> fst ` set cs")
    case True
    then show ?thesis using got' ty[OF T] by metis
  next
    case False
    then have "flat T" using fields T by (auto simp: map_of_eq_None_iff split: option.splits dest: map_of_SomeD)
    then show ?thesis using D[OF T] got' False denote_flat(1)[of T "length h" "h @ new" _ 0 h] by simp
  qed
  then have "denote_fields (length h) (h @ new) fts out = Some ts"
    using names out fts by (intro denote_fieldsI) auto
  then show "\<exists>w new. copy_into cs v h = (w, h @ new) \<and> denote (length h) (h @ new) (TStruct fts) w = Some t"
    using c t by auto
qed

section \<open>What a client may rely on\<close>

text \<open>After a deep copy, the original and its copy are read from separate memory: whatever is written to one of them
  later leaves the other as it is.\<close>

lemma deep_copier_independent:
  assumes "deep_copier T f" "denote 0 h T v = Some t"
  obtains w new where "f v h = (w, h @ new)"
    "\<And>old. length old = length h \<Longrightarrow> denote 0 (old @ new) T w = Some t"
    "\<And>later. denote 0 (h @ later) T v = Some t"
proof -
  from deep_copierD[OF assms] obtain w new
    where w: "f v h = (w, h @ new)" "denote (length h) (h @ new) T w = Some t" .
  show ?thesis
    by (rule that[OF w(1)]) (use w(2) assms(2) in \<open>auto intro: denote_new denote_append\<close>)
qed

end
