(* ===== verification/Deep_Copy.thy ===== *)
theory Deep_Copy
  imports Go_Heap
begin

text \<open>
  \<open>api/v1alpha1/zz_generated.deepcopy.go\<close>: for each type of the API its \<open>DeepCopyInto\<close>, the list of its statements
  in the order of the code, and its \<open>DeepCopy\<close>. \<open>ty_T\<close> is the Go type \<open>T\<close> with the fields that \<open>app_types.go\<close> declares, in
  their order; the string and number types are scalars. A statement is one of the forms of \<open>Go_Heap\<close>.
  What the functions promise is \<open>deep_copier\<close>: a field that was added to a struct without its statement being
  generated would break it, since the copy would then share the memory of the original.

  The types of \<open>metav1\<close> and their own deep-copy functions are a parameter; \<open>meta_documented\<close> says of them what
  their package documents. The location a \<open>Time\<close> points to is never written, and a \<open>Time\<close> counts as one scalar value.
\<close>

section \<open>The metav1 types\<close>

record meta_lib =
  TypeMeta_type :: gtype
  ObjectMeta_type :: gtype
  ListMeta_type :: gtype
  Condition_type :: gtype
  Time_type :: gtype
  Duration_type :: gtype
  ObjectMeta_DeepCopyInto_lib :: copier
  ListMeta_DeepCopyInto_lib :: copier
  Condition_DeepCopyInto_lib :: copier
  Time_DeepCopy_lib :: copier

definition meta_documented :: "meta_lib \<Rightarrow> bool" where
  "meta_documented m \<longleftrightarrow> flat (TypeMeta_type m) \<and> flat (Duration_type m) \<and>
     deep_copier (ObjectMeta_type m) (ObjectMeta_DeepCopyInto_lib m) \<and>
     deep_copier (ListMeta_type m) (ListMeta_DeepCopyInto_lib m) \<and>
     deep_copier (Condition_type m) (Condition_DeepCopyInto_lib m) \<and>
     deep_copier (TPtr (Time_type m)) (unless_nil (Time_DeepCopy_lib m))"

section \<open>The types of the API\<close>

definition ty_ScheduledBuildsSpec :: "gtype" where
  "ty_ScheduledBuildsSpec = TStruct
     [(''Enabled'', TScalar), (''Schedule'', TScalar), (''AlertThreshold'', TScalar)]"

definition ty_WatchCommitsSpec :: "gtype" where
  "ty_WatchCommitsSpec = TStruct
     [(''Enabled'', TScalar), (''Interval'', TScalar)]"

definition ty_ConfigMapKeySelector :: "gtype" where
  "ty_ConfigMapKeySelector = TStruct
     [(''Name'', TScalar), (''Key'', TScalar)]"

definition ty_EnvVarSource :: "gtype" where
  "ty_EnvVarSource = TStruct
     [(''ConfigMapKeyRef'', TPtr ty_ConfigMapKeySelector)]"

definition ty_EnvVar :: "gtype" where
  "ty_EnvVar = TStruct
     [(''Name'', TScalar), (''Value'', TScalar), (''ValueFrom'', TPtr ty_EnvVarSource)]"

definition ty_PhaseSpec :: "gtype" where
  "ty_PhaseSpec = TStruct
     [(''Image'', TScalar), (''Command'', TSlice TScalar), (''Env'', TSlice ty_EnvVar),
      (''EnvMap'', TMap TScalar), (''RunAsUser'', TPtr TScalar), (''MemoryLimit'', TScalar)]"

definition ty_SetupPhaseSpec :: "gtype" where
  "ty_SetupPhaseSpec = TStruct
     [(''PhaseSpec'', ty_PhaseSpec), (''Skip'', TScalar)]"

definition ty_SecretKeySelector :: "gtype" where
  "ty_SecretKeySelector = TStruct
     [(''Name'', TScalar), (''Key'', TScalar)]"

definition ty_EnvVarWithSecretSource :: "gtype" where
  "ty_EnvVarWithSecretSource = TStruct
     [(''SecretKeyRef'', ty_SecretKeySelector)]"

definition ty_EnvVarWithSecret :: "gtype" where
  "ty_EnvVarWithSecret = TStruct
     [(''Name'', TScalar), (''ValueFrom'', ty_EnvVarWithSecretSource)]"

definition ty_FetchPhaseSpec :: "gtype" where
  "ty_FetchPhaseSpec = TStruct
     [(''PhaseSpec'', ty_PhaseSpec), (''Secrets'', TSlice ty_EnvVarWithSecret)]"

definition ty_BuildPhaseSpec :: "gtype" where
  "ty_BuildPhaseSpec = TStruct
     [(''PhaseSpec'', ty_PhaseSpec), (''OutputDir'', TScalar)]"

definition ty_PhasesSpec :: "gtype" where
  "ty_PhasesSpec = TStruct
     [(''Setup'', ty_SetupPhaseSpec), (''Fetch'', ty_FetchPhaseSpec), (''Build'', ty_BuildPhaseSpec)]"

definition ty_PipelineSpec :: "meta_lib \<Rightarrow> gtype" where
  "ty_PipelineSpec m = TStruct
     [(''NodeVersion'', TScalar), (''PackageManager'', TScalar), (''Submodules'', TScalar),
      (''Timeout'', TPtr (Duration_type m)), (''Phases'', ty_PhasesSpec)]"

definition ty_RepoAuthSecretRef :: "gtype" where
  "ty_RepoAuthSecretRef = TStruct
     [(''Name'', TScalar)]"

definition ty_RepoAuthConfig :: "gtype" where
  "ty_RepoAuthConfig = TStruct
     [(''SecretRef'', ty_RepoAuthSecretRef)]"

definition ty_TLSConfig :: "gtype" where
  "ty_TLSConfig = TStruct
     [(''SecretName'', TScalar)]"

definition ty_IngressConfig :: "gtype" where
  "ty_IngressConfig = TStruct
     [(''ClassName'', TPtr TScalar), (''Host'', TScalar), (''TLS'', TPtr ty_TLSConfig),
      (''Annotations'', TMap TScalar)]"

definition ty_AuthSecretRef :: "gtype" where
  "ty_AuthSecretRef = TStruct
     [(''Name'', TScalar), (''Key'', TScalar)]"

definition ty_AuthConfig :: "gtype" where
  "ty_AuthConfig = TStruct
     [(''PasswordHash'', TPtr TScalar), (''SecretRef'', TPtr ty_AuthSecretRef)]"

definition ty_CacheThresholds :: "gtype" where
  "ty_CacheThresholds = TStruct
     [(''CleanupBytes'', TScalar), (''AlertBytes'', TScalar)]"

definition ty_DataCacheThresholds :: "gtype" where
  "ty_DataCacheThresholds = TStruct
     [(''CleanupBytes'', TScalar), (''AlertBytes'', TScalar), (''RunDeltaBytes'', TScalar)]"

definition ty_OutputThresholds :: "gtype" where
  "ty_OutputThresholds = TStruct
     [(''AlertBytes'', TScalar), (''CapBytes'', TScalar)]"

definition ty_StorageConfig :: "gtype" where
  "ty_StorageConfig = TStruct
     [(''Cache'', ty_CacheThresholds), (''DataCache'', ty_DataCacheThresholds),
      (''Output'', ty_OutputThresholds)]"

definition ty_HistorySpec :: "gtype" where
  "ty_HistorySpec = TStruct
     [(''KeepRecent'', TScalar), (''KeepFailed'', TScalar)]"

definition ty_AppSpec :: "meta_lib \<Rightarrow> gtype" where
  "ty_AppSpec m = TStruct
     [(''Repo'', TScalar), (''Ref'', TScalar), (''Group'', TScalar),
      (''ScheduledBuilds'', TPtr ty_ScheduledBuildsSpec), (''WatchCommits'', TPtr ty_WatchCommitsSpec),
      (''Pipeline'', ty_PipelineSpec m), (''KeepReleases'', TScalar), (''RepoAuth'', TPtr ty_RepoAuthConfig),
      (''Ingress'', ty_IngressConfig), (''Auth'', TPtr ty_AuthConfig), (''Storage'', ty_StorageConfig),
      (''History'', TPtr ty_HistorySpec)]"

definition ty_BuildStep :: "meta_lib \<Rightarrow> gtype" where
  "ty_BuildStep m = TStruct
     [(''Name'', TScalar), (''Status'', TScalar), (''Message'', TScalar), (''PeakMemoryBytes'', TScalar),
      (''StartedAt'', TPtr (Time_type m)), (''FinishedAt'', TPtr (Time_type m)), (''MemoryLimit'', TScalar)]"

definition ty_BuildTermination :: "meta_lib \<Rightarrow> gtype" where
  "ty_BuildTermination m = TStruct
     [(''Reason'', TScalar), (''Container'', TScalar), (''ExitCode'', TScalar), (''MemoryLimit'', TScalar),
      (''FinishedAt'', TPtr (Time_type m))]"

definition ty_BuildStatus :: "meta_lib \<Rightarrow> gtype" where
  "ty_BuildStatus m = TStruct
     [(''Phase'', TScalar), (''Result'', TScalar), (''JobName'', TScalar), (''PodName'', TScalar),
      (''StartTime'', TPtr (Time_type m)), (''CompletionTime'', TPtr (Time_type m)), (''Attempts'', TScalar),
      (''Trigger'', TScalar), (''TriggeredBy'', TScalar), (''Commit'', TScalar),
      (''Steps'', TSlice (ty_BuildStep m)), (''ResolvedImages'', TMap TScalar), (''FailedStep'', TScalar),
      (''Message'', TScalar), (''LogsRef'', TScalar), (''Termination'', TPtr (ty_BuildTermination m))]"

definition ty_ReleaseStatus :: "meta_lib \<Rightarrow> gtype" where
  "ty_ReleaseStatus m = TStruct
     [(''Current'', TScalar), (''Previous'', TScalar), (''ServingSince'', TPtr (Time_type m))]"

definition ty_StorageStatus :: "meta_lib \<Rightarrow> gtype" where
  "ty_StorageStatus m = TStruct
     [(''MeasuredAt'', TPtr (Time_type m)), (''Sizes'', TMap TScalar), (''LastRunDeltas'', TMap TScalar),
      (''ThresholdState'', TScalar), (''ReleaseCount'', TScalar), (''Capacities'', TMap TScalar)]"

definition ty_ManualTrigger :: "meta_lib \<Rightarrow> gtype" where
  "ty_ManualTrigger m = TStruct
     [(''TriggeredBy'', TScalar), (''Time'', TPtr (Time_type m))]"

definition ty_CleanupActionStatus :: "meta_lib \<Rightarrow> gtype" where
  "ty_CleanupActionStatus m = TStruct
     [(''RequestedAt'', TScalar), (''RequestedBy'', TScalar), (''Phase'', TScalar),
      (''StartedAt'', TPtr (Time_type m)), (''CompletedAt'', TPtr (Time_type m)),
      (''ReclaimedBytes'', TScalar), (''Message'', TScalar)]"

definition ty_CleanupStatus :: "meta_lib \<Rightarrow> gtype" where
  "ty_CleanupStatus m = TStruct
     [(''Cache'', TPtr (ty_CleanupActionStatus m)), (''Releases'', TPtr (ty_CleanupActionStatus m))]"

definition ty_AppStatus :: "meta_lib \<Rightarrow> gtype" where
  "ty_AppStatus m = TStruct
     [(''ObservedGeneration'', TScalar), (''Phase'', TScalar), (''NodeName'', TScalar), (''URL'', TScalar),
      (''SpecStale'', TScalar), (''Conditions'', TSlice (Condition_type m)), (''Build'', ty_BuildStatus m),
      (''ConsecutiveScheduledFailures'', TScalar), (''BuildHistory'', TSlice (ty_BuildStatus m)),
      (''FailedBuildHistory'', TSlice (ty_BuildStatus m)), (''LastProcessedRebuild'', TScalar),
      (''LastBuiltSpecHash'', TScalar), (''LastBuildTime'', TPtr (Time_type m)),
      (''LastSuccessfulBuildTime'', TPtr (Time_type m)), (''Release'', ty_ReleaseStatus m),
      (''Storage'', ty_StorageStatus m), (''LastManualTrigger'', ty_ManualTrigger m),
      (''Cleanup'', TPtr (ty_CleanupStatus m))]"

definition ty_App :: "meta_lib \<Rightarrow> gtype" where
  "ty_App m = TStruct
     [(''TypeMeta'', TypeMeta_type m), (''ObjectMeta'', ObjectMeta_type m), (''Spec'', ty_AppSpec m),
      (''Status'', ty_AppStatus m)]"

definition ty_AppList :: "meta_lib \<Rightarrow> gtype" where
  "ty_AppList m = TStruct
     [(''TypeMeta'', TypeMeta_type m), (''ListMeta'', ListMeta_type m), (''Items'', TSlice (ty_App m))]"

section \<open>The copy functions\<close>

definition ScheduledBuildsSpec_DeepCopyInto :: "copier" where
  "ScheduledBuildsSpec_DeepCopyInto = copy_into []"

definition ScheduledBuildsSpec_DeepCopy :: "copier" where
  "ScheduledBuildsSpec_DeepCopy = unless_nil (new_ptr ScheduledBuildsSpec_DeepCopyInto)"

definition WatchCommitsSpec_DeepCopyInto :: "copier" where
  "WatchCommitsSpec_DeepCopyInto = copy_into []"

definition WatchCommitsSpec_DeepCopy :: "copier" where
  "WatchCommitsSpec_DeepCopy = unless_nil (new_ptr WatchCommitsSpec_DeepCopyInto)"

definition ConfigMapKeySelector_DeepCopyInto :: "copier" where
  "ConfigMapKeySelector_DeepCopyInto = copy_into []"

definition ConfigMapKeySelector_DeepCopy :: "copier" where
  "ConfigMapKeySelector_DeepCopy = unless_nil (new_ptr ConfigMapKeySelector_DeepCopyInto)"

definition EnvVarSource_DeepCopyInto :: "copier" where
  "EnvVarSource_DeepCopyInto = copy_into [(''ConfigMapKeyRef'', unless_nil (new_ptr assign))]"

definition EnvVarSource_DeepCopy :: "copier" where
  "EnvVarSource_DeepCopy = unless_nil (new_ptr EnvVarSource_DeepCopyInto)"

definition EnvVar_DeepCopyInto :: "copier" where
  "EnvVar_DeepCopyInto = copy_into [(''ValueFrom'', unless_nil (new_ptr EnvVarSource_DeepCopyInto))]"

definition EnvVar_DeepCopy :: "copier" where
  "EnvVar_DeepCopy = unless_nil (new_ptr EnvVar_DeepCopyInto)"

definition PhaseSpec_DeepCopyInto :: "copier" where
  "PhaseSpec_DeepCopyInto = copy_into
     [(''Command'', unless_nil (make_slice assign)), (''Env'', unless_nil (make_slice EnvVar_DeepCopyInto)),
      (''EnvMap'', unless_nil make_map), (''RunAsUser'', unless_nil (new_ptr assign))]"

definition PhaseSpec_DeepCopy :: "copier" where
  "PhaseSpec_DeepCopy = unless_nil (new_ptr PhaseSpec_DeepCopyInto)"

definition SetupPhaseSpec_DeepCopyInto :: "copier" where
  "SetupPhaseSpec_DeepCopyInto = copy_into [(''PhaseSpec'', PhaseSpec_DeepCopyInto)]"

definition SetupPhaseSpec_DeepCopy :: "copier" where
  "SetupPhaseSpec_DeepCopy = unless_nil (new_ptr SetupPhaseSpec_DeepCopyInto)"

definition SecretKeySelector_DeepCopyInto :: "copier" where
  "SecretKeySelector_DeepCopyInto = copy_into []"

definition SecretKeySelector_DeepCopy :: "copier" where
  "SecretKeySelector_DeepCopy = unless_nil (new_ptr SecretKeySelector_DeepCopyInto)"

definition EnvVarWithSecretSource_DeepCopyInto :: "copier" where
  "EnvVarWithSecretSource_DeepCopyInto = copy_into [(''SecretKeyRef'', assign)]"

definition EnvVarWithSecretSource_DeepCopy :: "copier" where
  "EnvVarWithSecretSource_DeepCopy = unless_nil (new_ptr EnvVarWithSecretSource_DeepCopyInto)"

definition EnvVarWithSecret_DeepCopyInto :: "copier" where
  "EnvVarWithSecret_DeepCopyInto = copy_into [(''ValueFrom'', assign)]"

definition EnvVarWithSecret_DeepCopy :: "copier" where
  "EnvVarWithSecret_DeepCopy = unless_nil (new_ptr EnvVarWithSecret_DeepCopyInto)"

definition FetchPhaseSpec_DeepCopyInto :: "copier" where
  "FetchPhaseSpec_DeepCopyInto = copy_into
     [(''PhaseSpec'', PhaseSpec_DeepCopyInto), (''Secrets'', unless_nil (make_slice assign))]"

definition FetchPhaseSpec_DeepCopy :: "copier" where
  "FetchPhaseSpec_DeepCopy = unless_nil (new_ptr FetchPhaseSpec_DeepCopyInto)"

definition BuildPhaseSpec_DeepCopyInto :: "copier" where
  "BuildPhaseSpec_DeepCopyInto = copy_into [(''PhaseSpec'', PhaseSpec_DeepCopyInto)]"

definition BuildPhaseSpec_DeepCopy :: "copier" where
  "BuildPhaseSpec_DeepCopy = unless_nil (new_ptr BuildPhaseSpec_DeepCopyInto)"

definition PhasesSpec_DeepCopyInto :: "copier" where
  "PhasesSpec_DeepCopyInto = copy_into
     [(''Setup'', SetupPhaseSpec_DeepCopyInto), (''Fetch'', FetchPhaseSpec_DeepCopyInto),
      (''Build'', BuildPhaseSpec_DeepCopyInto)]"

definition PhasesSpec_DeepCopy :: "copier" where
  "PhasesSpec_DeepCopy = unless_nil (new_ptr PhasesSpec_DeepCopyInto)"

definition PipelineSpec_DeepCopyInto :: "copier" where
  "PipelineSpec_DeepCopyInto = copy_into
     [(''Timeout'', unless_nil (new_ptr assign)), (''Phases'', PhasesSpec_DeepCopyInto)]"

definition PipelineSpec_DeepCopy :: "copier" where
  "PipelineSpec_DeepCopy = unless_nil (new_ptr PipelineSpec_DeepCopyInto)"

definition RepoAuthSecretRef_DeepCopyInto :: "copier" where
  "RepoAuthSecretRef_DeepCopyInto = copy_into []"

definition RepoAuthSecretRef_DeepCopy :: "copier" where
  "RepoAuthSecretRef_DeepCopy = unless_nil (new_ptr RepoAuthSecretRef_DeepCopyInto)"

definition RepoAuthConfig_DeepCopyInto :: "copier" where
  "RepoAuthConfig_DeepCopyInto = copy_into [(''SecretRef'', assign)]"

definition RepoAuthConfig_DeepCopy :: "copier" where
  "RepoAuthConfig_DeepCopy = unless_nil (new_ptr RepoAuthConfig_DeepCopyInto)"

definition TLSConfig_DeepCopyInto :: "copier" where
  "TLSConfig_DeepCopyInto = copy_into []"

definition TLSConfig_DeepCopy :: "copier" where
  "TLSConfig_DeepCopy = unless_nil (new_ptr TLSConfig_DeepCopyInto)"

definition IngressConfig_DeepCopyInto :: "copier" where
  "IngressConfig_DeepCopyInto = copy_into
     [(''ClassName'', unless_nil (new_ptr assign)), (''TLS'', unless_nil (new_ptr assign)),
      (''Annotations'', unless_nil make_map)]"

definition IngressConfig_DeepCopy :: "copier" where
  "IngressConfig_DeepCopy = unless_nil (new_ptr IngressConfig_DeepCopyInto)"

definition AuthSecretRef_DeepCopyInto :: "copier" where
  "AuthSecretRef_DeepCopyInto = copy_into []"

definition AuthSecretRef_DeepCopy :: "copier" where
  "AuthSecretRef_DeepCopy = unless_nil (new_ptr AuthSecretRef_DeepCopyInto)"

definition AuthConfig_DeepCopyInto :: "copier" where
  "AuthConfig_DeepCopyInto = copy_into
     [(''PasswordHash'', unless_nil (new_ptr assign)), (''SecretRef'', unless_nil (new_ptr assign))]"

definition AuthConfig_DeepCopy :: "copier" where
  "AuthConfig_DeepCopy = unless_nil (new_ptr AuthConfig_DeepCopyInto)"

definition CacheThresholds_DeepCopyInto :: "copier" where
  "CacheThresholds_DeepCopyInto = copy_into []"

definition CacheThresholds_DeepCopy :: "copier" where
  "CacheThresholds_DeepCopy = unless_nil (new_ptr CacheThresholds_DeepCopyInto)"

definition DataCacheThresholds_DeepCopyInto :: "copier" where
  "DataCacheThresholds_DeepCopyInto = copy_into []"

definition DataCacheThresholds_DeepCopy :: "copier" where
  "DataCacheThresholds_DeepCopy = unless_nil (new_ptr DataCacheThresholds_DeepCopyInto)"

definition OutputThresholds_DeepCopyInto :: "copier" where
  "OutputThresholds_DeepCopyInto = copy_into []"

definition OutputThresholds_DeepCopy :: "copier" where
  "OutputThresholds_DeepCopy = unless_nil (new_ptr OutputThresholds_DeepCopyInto)"

definition StorageConfig_DeepCopyInto :: "copier" where
  "StorageConfig_DeepCopyInto = copy_into [(''Cache'', assign), (''DataCache'', assign), (''Output'', assign)]"

definition StorageConfig_DeepCopy :: "copier" where
  "StorageConfig_DeepCopy = unless_nil (new_ptr StorageConfig_DeepCopyInto)"

definition HistorySpec_DeepCopyInto :: "copier" where
  "HistorySpec_DeepCopyInto = copy_into []"

definition HistorySpec_DeepCopy :: "copier" where
  "HistorySpec_DeepCopy = unless_nil (new_ptr HistorySpec_DeepCopyInto)"

definition AppSpec_DeepCopyInto :: "copier" where
  "AppSpec_DeepCopyInto = copy_into
     [(''ScheduledBuilds'', unless_nil (new_ptr assign)), (''WatchCommits'', unless_nil (new_ptr assign)),
      (''Pipeline'', PipelineSpec_DeepCopyInto), (''RepoAuth'', unless_nil (new_ptr assign)),
      (''Ingress'', IngressConfig_DeepCopyInto), (''Auth'', unless_nil (new_ptr AuthConfig_DeepCopyInto)),
      (''Storage'', assign), (''History'', unless_nil (new_ptr assign))]"

definition AppSpec_DeepCopy :: "copier" where
  "AppSpec_DeepCopy = unless_nil (new_ptr AppSpec_DeepCopyInto)"

definition BuildStep_DeepCopyInto :: "meta_lib \<Rightarrow> copier" where
  "BuildStep_DeepCopyInto m = copy_into
     [(''StartedAt'', unless_nil (Time_DeepCopy_lib m)), (''FinishedAt'', unless_nil (Time_DeepCopy_lib m))]"

definition BuildStep_DeepCopy :: "meta_lib \<Rightarrow> copier" where
  "BuildStep_DeepCopy m = unless_nil (new_ptr (BuildStep_DeepCopyInto m))"

definition BuildTermination_DeepCopyInto :: "meta_lib \<Rightarrow> copier" where
  "BuildTermination_DeepCopyInto m = copy_into [(''FinishedAt'', unless_nil (Time_DeepCopy_lib m))]"

definition BuildTermination_DeepCopy :: "meta_lib \<Rightarrow> copier" where
  "BuildTermination_DeepCopy m = unless_nil (new_ptr (BuildTermination_DeepCopyInto m))"

definition BuildStatus_DeepCopyInto :: "meta_lib \<Rightarrow> copier" where
  "BuildStatus_DeepCopyInto m = copy_into
     [(''StartTime'', unless_nil (Time_DeepCopy_lib m)),
      (''CompletionTime'', unless_nil (Time_DeepCopy_lib m)),
      (''Steps'', unless_nil (make_slice (BuildStep_DeepCopyInto m))),
      (''ResolvedImages'', unless_nil make_map),
      (''Termination'', unless_nil (new_ptr (BuildTermination_DeepCopyInto m)))]"

definition BuildStatus_DeepCopy :: "meta_lib \<Rightarrow> copier" where
  "BuildStatus_DeepCopy m = unless_nil (new_ptr (BuildStatus_DeepCopyInto m))"

definition ReleaseStatus_DeepCopyInto :: "meta_lib \<Rightarrow> copier" where
  "ReleaseStatus_DeepCopyInto m = copy_into [(''ServingSince'', unless_nil (Time_DeepCopy_lib m))]"

definition ReleaseStatus_DeepCopy :: "meta_lib \<Rightarrow> copier" where
  "ReleaseStatus_DeepCopy m = unless_nil (new_ptr (ReleaseStatus_DeepCopyInto m))"

definition StorageStatus_DeepCopyInto :: "meta_lib \<Rightarrow> copier" where
  "StorageStatus_DeepCopyInto m = copy_into
     [(''MeasuredAt'', unless_nil (Time_DeepCopy_lib m)), (''Sizes'', unless_nil make_map),
      (''LastRunDeltas'', unless_nil make_map), (''Capacities'', unless_nil make_map)]"

definition StorageStatus_DeepCopy :: "meta_lib \<Rightarrow> copier" where
  "StorageStatus_DeepCopy m = unless_nil (new_ptr (StorageStatus_DeepCopyInto m))"

definition ManualTrigger_DeepCopyInto :: "meta_lib \<Rightarrow> copier" where
  "ManualTrigger_DeepCopyInto m = copy_into [(''Time'', unless_nil (Time_DeepCopy_lib m))]"

definition ManualTrigger_DeepCopy :: "meta_lib \<Rightarrow> copier" where
  "ManualTrigger_DeepCopy m = unless_nil (new_ptr (ManualTrigger_DeepCopyInto m))"

definition CleanupActionStatus_DeepCopyInto :: "meta_lib \<Rightarrow> copier" where
  "CleanupActionStatus_DeepCopyInto m = copy_into
     [(''StartedAt'', unless_nil (Time_DeepCopy_lib m)), (''CompletedAt'', unless_nil (Time_DeepCopy_lib m))]"

definition CleanupActionStatus_DeepCopy :: "meta_lib \<Rightarrow> copier" where
  "CleanupActionStatus_DeepCopy m = unless_nil (new_ptr (CleanupActionStatus_DeepCopyInto m))"

definition CleanupStatus_DeepCopyInto :: "meta_lib \<Rightarrow> copier" where
  "CleanupStatus_DeepCopyInto m = copy_into
     [(''Cache'', unless_nil (new_ptr (CleanupActionStatus_DeepCopyInto m))),
      (''Releases'', unless_nil (new_ptr (CleanupActionStatus_DeepCopyInto m)))]"

definition CleanupStatus_DeepCopy :: "meta_lib \<Rightarrow> copier" where
  "CleanupStatus_DeepCopy m = unless_nil (new_ptr (CleanupStatus_DeepCopyInto m))"

definition AppStatus_DeepCopyInto :: "meta_lib \<Rightarrow> copier" where
  "AppStatus_DeepCopyInto m = copy_into
     [(''Conditions'', unless_nil (make_slice (Condition_DeepCopyInto_lib m))),
      (''Build'', BuildStatus_DeepCopyInto m),
      (''BuildHistory'', unless_nil (make_slice (BuildStatus_DeepCopyInto m))),
      (''FailedBuildHistory'', unless_nil (make_slice (BuildStatus_DeepCopyInto m))),
      (''LastBuildTime'', unless_nil (Time_DeepCopy_lib m)),
      (''LastSuccessfulBuildTime'', unless_nil (Time_DeepCopy_lib m)),
      (''Release'', ReleaseStatus_DeepCopyInto m), (''Storage'', StorageStatus_DeepCopyInto m),
      (''LastManualTrigger'', ManualTrigger_DeepCopyInto m),
      (''Cleanup'', unless_nil (new_ptr (CleanupStatus_DeepCopyInto m)))]"

definition AppStatus_DeepCopy :: "meta_lib \<Rightarrow> copier" where
  "AppStatus_DeepCopy m = unless_nil (new_ptr (AppStatus_DeepCopyInto m))"

definition App_DeepCopyInto :: "meta_lib \<Rightarrow> copier" where
  "App_DeepCopyInto m = copy_into
     [(''TypeMeta'', assign), (''ObjectMeta'', ObjectMeta_DeepCopyInto_lib m),
      (''Spec'', AppSpec_DeepCopyInto), (''Status'', AppStatus_DeepCopyInto m)]"

definition App_DeepCopy :: "meta_lib \<Rightarrow> copier" where
  "App_DeepCopy m = unless_nil (new_ptr (App_DeepCopyInto m))"

definition AppList_DeepCopyInto :: "meta_lib \<Rightarrow> copier" where
  "AppList_DeepCopyInto m = copy_into
     [(''TypeMeta'', assign), (''ListMeta'', ListMeta_DeepCopyInto_lib m),
      (''Items'', unless_nil (make_slice (App_DeepCopyInto m)))]"

definition AppList_DeepCopy :: "meta_lib \<Rightarrow> copier" where
  "AppList_DeepCopy m = unless_nil (new_ptr (AppList_DeepCopyInto m))"

text \<open>\<open>DeepCopyObject\<close> returns an interface, which is nil, \<open>None\<close>, only when it holds no pointer at all: the test keeps
  a nil pointer from becoming an interface that is not nil.\<close>

definition App_DeepCopyObject :: "meta_lib \<Rightarrow> gval \<Rightarrow> gheap \<Rightarrow> gval option \<times> gheap" where
  "App_DeepCopyObject m inn h =
     (let (c, h) = App_DeepCopy m inn h in if c \<noteq> GNil then (Some c, h) else (None, h))"

definition AppList_DeepCopyObject :: "meta_lib \<Rightarrow> gval \<Rightarrow> gheap \<Rightarrow> gval option \<times> gheap" where
  "AppList_DeepCopyObject m inn h =
     (let (c, h) = AppList_DeepCopy m inn h in if c \<noteq> GNil then (Some c, h) else (None, h))"

section \<open>Every copy function copies deeply\<close>

lemma meta_documentedD [copying]:
  assumes "meta_documented m"
  shows "flat (TypeMeta_type m)" "flat (Duration_type m)"
    "deep_copier (ObjectMeta_type m) (ObjectMeta_DeepCopyInto_lib m)"
    "deep_copier (ListMeta_type m) (ListMeta_DeepCopyInto_lib m)"
    "deep_copier (Condition_type m) (Condition_DeepCopyInto_lib m)"
    "deep_copier (TPtr (Time_type m)) (unless_nil (Time_DeepCopy_lib m))"
  using assms by (simp_all add: meta_documented_def)

lemma flat_types [copying]:
  "flat ty_ScheduledBuildsSpec" "flat ty_WatchCommitsSpec" "flat ty_ConfigMapKeySelector"
  "flat ty_SecretKeySelector" "flat ty_EnvVarWithSecretSource" "flat ty_EnvVarWithSecret"
  "flat ty_RepoAuthSecretRef" "flat ty_RepoAuthConfig" "flat ty_TLSConfig" "flat ty_AuthSecretRef"
  "flat ty_CacheThresholds" "flat ty_DataCacheThresholds" "flat ty_OutputThresholds"
  "flat ty_StorageConfig" "flat ty_HistorySpec"
  by (simp_all add: ty_ScheduledBuildsSpec_def ty_WatchCommitsSpec_def ty_ConfigMapKeySelector_def ty_SecretKeySelector_def
    ty_EnvVarWithSecretSource_def ty_EnvVarWithSecret_def ty_RepoAuthSecretRef_def ty_RepoAuthConfig_def
    ty_TLSConfig_def ty_AuthSecretRef_def ty_CacheThresholds_def ty_DataCacheThresholds_def
    ty_OutputThresholds_def ty_StorageConfig_def ty_HistorySpec_def)

lemma ScheduledBuildsSpec_deep [copying]:
  "deep_copier ty_ScheduledBuildsSpec ScheduledBuildsSpec_DeepCopyInto"
  unfolding ty_ScheduledBuildsSpec_def ScheduledBuildsSpec_DeepCopyInto_def by (rule deep_copy_into) (simp_all add: copying)

lemma WatchCommitsSpec_deep [copying]:
  "deep_copier ty_WatchCommitsSpec WatchCommitsSpec_DeepCopyInto"
  unfolding ty_WatchCommitsSpec_def WatchCommitsSpec_DeepCopyInto_def by (rule deep_copy_into) (simp_all add: copying)

lemma ConfigMapKeySelector_deep [copying]:
  "deep_copier ty_ConfigMapKeySelector ConfigMapKeySelector_DeepCopyInto"
  unfolding ty_ConfigMapKeySelector_def ConfigMapKeySelector_DeepCopyInto_def by (rule deep_copy_into) (simp_all add: copying)

lemma EnvVarSource_deep [copying]:
  "deep_copier ty_EnvVarSource EnvVarSource_DeepCopyInto"
  unfolding ty_EnvVarSource_def EnvVarSource_DeepCopyInto_def by (rule deep_copy_into) (simp_all add: copying)

lemma EnvVar_deep [copying]:
  "deep_copier ty_EnvVar EnvVar_DeepCopyInto"
  unfolding ty_EnvVar_def EnvVar_DeepCopyInto_def by (rule deep_copy_into) (simp_all add: copying)

lemma PhaseSpec_deep [copying]:
  "deep_copier ty_PhaseSpec PhaseSpec_DeepCopyInto"
  unfolding ty_PhaseSpec_def PhaseSpec_DeepCopyInto_def by (rule deep_copy_into) (simp_all add: copying)

lemma SetupPhaseSpec_deep [copying]:
  "deep_copier ty_SetupPhaseSpec SetupPhaseSpec_DeepCopyInto"
  unfolding ty_SetupPhaseSpec_def SetupPhaseSpec_DeepCopyInto_def by (rule deep_copy_into) (simp_all add: copying)

lemma SecretKeySelector_deep [copying]:
  "deep_copier ty_SecretKeySelector SecretKeySelector_DeepCopyInto"
  unfolding ty_SecretKeySelector_def SecretKeySelector_DeepCopyInto_def by (rule deep_copy_into) (simp_all add: copying)

lemma EnvVarWithSecretSource_deep [copying]:
  "deep_copier ty_EnvVarWithSecretSource EnvVarWithSecretSource_DeepCopyInto"
  unfolding ty_EnvVarWithSecretSource_def EnvVarWithSecretSource_DeepCopyInto_def by (rule deep_copy_into) (simp_all add: copying)

lemma EnvVarWithSecret_deep [copying]:
  "deep_copier ty_EnvVarWithSecret EnvVarWithSecret_DeepCopyInto"
  unfolding ty_EnvVarWithSecret_def EnvVarWithSecret_DeepCopyInto_def by (rule deep_copy_into) (simp_all add: copying)

lemma FetchPhaseSpec_deep [copying]:
  "deep_copier ty_FetchPhaseSpec FetchPhaseSpec_DeepCopyInto"
  unfolding ty_FetchPhaseSpec_def FetchPhaseSpec_DeepCopyInto_def by (rule deep_copy_into) (simp_all add: copying)

lemma BuildPhaseSpec_deep [copying]:
  "deep_copier ty_BuildPhaseSpec BuildPhaseSpec_DeepCopyInto"
  unfolding ty_BuildPhaseSpec_def BuildPhaseSpec_DeepCopyInto_def by (rule deep_copy_into) (simp_all add: copying)

lemma PhasesSpec_deep [copying]:
  "deep_copier ty_PhasesSpec PhasesSpec_DeepCopyInto"
  unfolding ty_PhasesSpec_def PhasesSpec_DeepCopyInto_def by (rule deep_copy_into) (simp_all add: copying)

lemma PipelineSpec_deep [copying]:
  "meta_documented m \<Longrightarrow> deep_copier (ty_PipelineSpec m) PipelineSpec_DeepCopyInto"
  unfolding ty_PipelineSpec_def PipelineSpec_DeepCopyInto_def by (rule deep_copy_into) (simp_all add: copying)

lemma RepoAuthSecretRef_deep [copying]:
  "deep_copier ty_RepoAuthSecretRef RepoAuthSecretRef_DeepCopyInto"
  unfolding ty_RepoAuthSecretRef_def RepoAuthSecretRef_DeepCopyInto_def by (rule deep_copy_into) (simp_all add: copying)

lemma RepoAuthConfig_deep [copying]:
  "deep_copier ty_RepoAuthConfig RepoAuthConfig_DeepCopyInto"
  unfolding ty_RepoAuthConfig_def RepoAuthConfig_DeepCopyInto_def by (rule deep_copy_into) (simp_all add: copying)

lemma TLSConfig_deep [copying]:
  "deep_copier ty_TLSConfig TLSConfig_DeepCopyInto"
  unfolding ty_TLSConfig_def TLSConfig_DeepCopyInto_def by (rule deep_copy_into) (simp_all add: copying)

lemma IngressConfig_deep [copying]:
  "deep_copier ty_IngressConfig IngressConfig_DeepCopyInto"
  unfolding ty_IngressConfig_def IngressConfig_DeepCopyInto_def by (rule deep_copy_into) (simp_all add: copying)

lemma AuthSecretRef_deep [copying]:
  "deep_copier ty_AuthSecretRef AuthSecretRef_DeepCopyInto"
  unfolding ty_AuthSecretRef_def AuthSecretRef_DeepCopyInto_def by (rule deep_copy_into) (simp_all add: copying)

lemma AuthConfig_deep [copying]:
  "deep_copier ty_AuthConfig AuthConfig_DeepCopyInto"
  unfolding ty_AuthConfig_def AuthConfig_DeepCopyInto_def by (rule deep_copy_into) (simp_all add: copying)

lemma CacheThresholds_deep [copying]:
  "deep_copier ty_CacheThresholds CacheThresholds_DeepCopyInto"
  unfolding ty_CacheThresholds_def CacheThresholds_DeepCopyInto_def by (rule deep_copy_into) (simp_all add: copying)

lemma DataCacheThresholds_deep [copying]:
  "deep_copier ty_DataCacheThresholds DataCacheThresholds_DeepCopyInto"
  unfolding ty_DataCacheThresholds_def DataCacheThresholds_DeepCopyInto_def by (rule deep_copy_into) (simp_all add: copying)

lemma OutputThresholds_deep [copying]:
  "deep_copier ty_OutputThresholds OutputThresholds_DeepCopyInto"
  unfolding ty_OutputThresholds_def OutputThresholds_DeepCopyInto_def by (rule deep_copy_into) (simp_all add: copying)

lemma StorageConfig_deep [copying]:
  "deep_copier ty_StorageConfig StorageConfig_DeepCopyInto"
  unfolding ty_StorageConfig_def StorageConfig_DeepCopyInto_def by (rule deep_copy_into) (simp_all add: copying)

lemma HistorySpec_deep [copying]:
  "deep_copier ty_HistorySpec HistorySpec_DeepCopyInto"
  unfolding ty_HistorySpec_def HistorySpec_DeepCopyInto_def by (rule deep_copy_into) (simp_all add: copying)

lemma AppSpec_deep [copying]:
  "meta_documented m \<Longrightarrow> deep_copier (ty_AppSpec m) AppSpec_DeepCopyInto"
  unfolding ty_AppSpec_def AppSpec_DeepCopyInto_def by (rule deep_copy_into) (simp_all add: copying)

lemma BuildStep_deep [copying]:
  "meta_documented m \<Longrightarrow> deep_copier (ty_BuildStep m) (BuildStep_DeepCopyInto m)"
  unfolding ty_BuildStep_def BuildStep_DeepCopyInto_def by (rule deep_copy_into) (simp_all add: copying)

lemma BuildTermination_deep [copying]:
  "meta_documented m \<Longrightarrow> deep_copier (ty_BuildTermination m) (BuildTermination_DeepCopyInto m)"
  unfolding ty_BuildTermination_def BuildTermination_DeepCopyInto_def by (rule deep_copy_into) (simp_all add: copying)

lemma BuildStatus_deep [copying]:
  "meta_documented m \<Longrightarrow> deep_copier (ty_BuildStatus m) (BuildStatus_DeepCopyInto m)"
  unfolding ty_BuildStatus_def BuildStatus_DeepCopyInto_def by (rule deep_copy_into) (simp_all add: copying)

lemma ReleaseStatus_deep [copying]:
  "meta_documented m \<Longrightarrow> deep_copier (ty_ReleaseStatus m) (ReleaseStatus_DeepCopyInto m)"
  unfolding ty_ReleaseStatus_def ReleaseStatus_DeepCopyInto_def by (rule deep_copy_into) (simp_all add: copying)

lemma StorageStatus_deep [copying]:
  "meta_documented m \<Longrightarrow> deep_copier (ty_StorageStatus m) (StorageStatus_DeepCopyInto m)"
  unfolding ty_StorageStatus_def StorageStatus_DeepCopyInto_def by (rule deep_copy_into) (simp_all add: copying)

lemma ManualTrigger_deep [copying]:
  "meta_documented m \<Longrightarrow> deep_copier (ty_ManualTrigger m) (ManualTrigger_DeepCopyInto m)"
  unfolding ty_ManualTrigger_def ManualTrigger_DeepCopyInto_def by (rule deep_copy_into) (simp_all add: copying)

lemma CleanupActionStatus_deep [copying]:
  "meta_documented m \<Longrightarrow> deep_copier (ty_CleanupActionStatus m) (CleanupActionStatus_DeepCopyInto m)"
  unfolding ty_CleanupActionStatus_def CleanupActionStatus_DeepCopyInto_def by (rule deep_copy_into) (simp_all add: copying)

lemma CleanupStatus_deep [copying]:
  "meta_documented m \<Longrightarrow> deep_copier (ty_CleanupStatus m) (CleanupStatus_DeepCopyInto m)"
  unfolding ty_CleanupStatus_def CleanupStatus_DeepCopyInto_def by (rule deep_copy_into) (simp_all add: copying)

lemma AppStatus_deep [copying]:
  "meta_documented m \<Longrightarrow> deep_copier (ty_AppStatus m) (AppStatus_DeepCopyInto m)"
  unfolding ty_AppStatus_def AppStatus_DeepCopyInto_def by (rule deep_copy_into) (simp_all add: copying)

lemma App_deep [copying]:
  "meta_documented m \<Longrightarrow> deep_copier (ty_App m) (App_DeepCopyInto m)"
  unfolding ty_App_def App_DeepCopyInto_def by (rule deep_copy_into) (simp_all add: copying)

lemma AppList_deep [copying]:
  "meta_documented m \<Longrightarrow> deep_copier (ty_AppList m) (AppList_DeepCopyInto m)"
  unfolding ty_AppList_def AppList_DeepCopyInto_def by (rule deep_copy_into) (simp_all add: copying)

section \<open>The copies that the operator and the informers take\<close>

lemma App_DeepCopy_deep: "meta_documented m \<Longrightarrow> deep_copier (TPtr (ty_App m)) (App_DeepCopy m)"
  by (simp add: App_DeepCopy_def copying)

lemma AppList_DeepCopy_deep: "meta_documented m \<Longrightarrow> deep_copier (TPtr (ty_AppList m)) (AppList_DeepCopy m)"
  by (simp add: AppList_DeepCopy_def copying)

text \<open>C27. The copy that \<open>app.DeepCopy()\<close> returns is equal to the App and shares no memory with it: the copy function
  only allocates, whatever is written to the memory of the App afterwards leaves the copy as it was, and whatever is
  written to the memory of the copy, or allocated later, leaves the App as it was. So the \<open>old\<close> object that a
  patch is computed against does not change with the App, and an object from the informer cache is not changed
  through its copy.\<close>

theorem deep_copy_independent:
  assumes "meta_documented m" "denote 0 h (TPtr (ty_App m)) app = Some t"
  shows "\<exists>old new. App_DeepCopy m app h = (old, h @ new) \<and>
     (\<forall>written. length written = length h \<longrightarrow> denote 0 (written @ new) (TPtr (ty_App m)) old = Some t) \<and>
     (\<forall>written. denote 0 (h @ written) (TPtr (ty_App m)) app = Some t)"
  using assms(2) by (rule deep_copier_independent[OF App_DeepCopy_deep[OF assms(1)]]) blast

text \<open>An example of the library's types, with a map in \<open>ObjectMeta\<close>, and an App with a map in its status.\<close>

definition sample_meta :: meta_lib where
  "sample_meta =
     \<lparr>TypeMeta_type = TStruct [(''Kind'', TScalar), (''APIVersion'', TScalar)],
      ObjectMeta_type = TStruct [(''Name'', TScalar), (''Annotations'', TMap TScalar)],
      ListMeta_type = TStruct [(''ResourceVersion'', TScalar)],
      Condition_type = TStruct [(''Type'', TScalar), (''Status'', TScalar)],
      Time_type = TScalar, Duration_type = TScalar,
      ObjectMeta_DeepCopyInto_lib = copy_into [(''Annotations'', unless_nil make_map)],
      ListMeta_DeepCopyInto_lib = assign, Condition_DeepCopyInto_lib = assign,
      Time_DeepCopy_lib = new_ptr assign\<rparr>"

lemma sample_meta_documented: "meta_documented sample_meta"
  unfolding meta_documented_def sample_meta_def by (simp add: copying)

definition sample_heap :: gheap where
  "sample_heap =
     (let app = zero_value (ty_App sample_meta);
          build = set_field ''ResolvedImages'' (GRef 1) (get_field (get_field app ''Status'') ''Build'')
      in [CVal (set_field ''Status'' (set_field ''Build'' build (get_field app ''Status'')) app),
          CMap [(''node'', GScalar ''node:22'')]])"

lemma sample_heap_app: "denote 0 sample_heap (TPtr (ty_App sample_meta)) (GRef 0) \<noteq> None"
  by code_simp

theorem deep_copy_independent_witness:
  "\<exists>t old new. denote 0 sample_heap (TPtr (ty_App sample_meta)) (GRef 0) = Some t \<and>
     App_DeepCopy sample_meta (GRef 0) sample_heap = (old, sample_heap @ new) \<and>
     denote 0 ([CNew, CNew] @ new) (TPtr (ty_App sample_meta)) old = Some t"
proof -
  from sample_heap_app obtain t where t: "denote 0 sample_heap (TPtr (ty_App sample_meta)) (GRef 0) = Some t" by blast
  have "length [CNew, CNew] = length sample_heap" by (simp add: sample_heap_def Let_def)
  then show ?thesis using deep_copy_independent[OF sample_meta_documented t] t by blast
qed

text \<open>A nil App gives a nil object and nothing is allocated; any other App an object that is not nil.\<close>

lemma DeepCopyObject_nil_iff:
  "fst (App_DeepCopyObject m app h) = None \<longleftrightarrow> app = GNil" "App_DeepCopyObject m GNil h = (None, h)"
  by (auto simp: App_DeepCopyObject_def App_DeepCopy_def unless_nil_def new_ptr_def Let_def split: prod.splits)

end

