(* ===== verification/Spec2Isabelle.thy ===== *)
theory Spec2Isabelle
  imports Status_Types Console_Contract Phase_Shim Operator_Startup Admission Deep_Copy
begin

text \<open>
  \<^bold>\<open>Toggle Web Baker.\<close> The program is a Kubernetes operator (\<open>cmd/\<close>, \<open>internal/\<close>, \<open>api/\<close>) that builds
  static web apps from git and serves them, with a console (\<open>console/\<close>) beside it. An \<open>App\<close> custom
  resource describes one app. For each App the reconciler creates volumes, trigger CronJobs and network
  policies, starts build Jobs on request, observes them, publishes their result through nginx and an
  Ingress, prunes caches and old releases on request, measures volume sizes, and reports status, metrics
  and platform faults. A small binary (\<open>images/shim\<close>) wraps the user's commands in a build and measures their
  memory. The console shows Apps, logs and manifests to signed-in users and turns their
  clicks into annotations that the operator acts on. This development models the three programs from their Go
  sources and proves what makes them correct, alone and together.

  \<^bold>\<open>Theories and sources.\<close>
  \<^item> \<open>Baker_Prelude\<close>: Go maps as association lists, 64-bit wrap-around, truncating division, and the
    state-and-error monad (\<open>ret\<close>, \<open>raise\<close>, \<open>bindr\<close>, \<open>seqr\<close>, \<open>tryr\<close>) in which effectful code is written.
  \<^item> \<open>Go_Strings\<close>, \<open>Go_Time\<close>, \<open>Go_Url\<close>, \<open>Go_Net\<close>, \<open>Go_Hash\<close>, \<open>Go_Json\<close>: what the sources use of the Go
    standard library (\<open>strings\<close>, \<open>strconv\<close>, \<open>time.ParseDuration\<close>, \<open>net/url\<close>, \<open>net.ParseCIDR\<close>, SHA-256,
    \<open>encoding/json\<close>), executable.
  \<^item> \<open>Domain_Decisions\<close>, \<open>Domain_Storage\<close>, \<open>Domain_Images\<close>, \<open>Domain_RepoHost\<close>, \<open>Domain_WatchCron\<close>,
    \<open>Domain_BuildSpec\<close>: the files of \<open>internal/domain\<close>, function by function.
  \<^item> \<open>App_Types\<close>: \<open>api/v1alpha1/app_types.go\<close>. \<open>Admission\<close>: the validation markers of its spec, and the reading of the
    JSON object into its types. \<open>Kube_Types\<close>: the fields of Kubernetes objects that the operator sets or reads.
  \<^item> \<open>Go_Heap\<close>: Go's pointers, slices and maps over an explicit heap, and the contract of a deep copy. \<open>Deep_Copy\<close>:
    \<open>api/v1alpha1/zz_generated.deepcopy.go\<close>, every function. The other theories pass Apps around as values; that the
    code may be read so where it takes copies (\<open>PatchApp\<close>, the informer's cache) is what this theory shows.
  \<^item> \<open>Operator_Config\<close>: \<open>internal/controller/config.go\<close>.
  \<^item> \<open>Build_Steps\<close>: \<open>naming.go\<close>, \<open>buildsteps.go\<close>, \<open>termination.go\<close>, \<open>platformfault.go\<close>. \<open>App_Decisions\<close>: the
    pure helpers of \<open>app_controller.go\<close>. \<open>Build_Pod\<close>: \<open>buildpod.go\<close> and the pure half of \<open>gitcred.go\<close>.
    \<open>Children\<close>: \<open>children.go\<close>, \<open>util.go\<close>.
  \<^item> \<open>Metrics_Recorder\<close>: \<open>metrics.go\<close>. \<open>Sentry_Limiter\<close>: \<open>internal/observability\<close> (limiter, reporter,
    filters) and the console's copy of the limiter. \<open>Sentry_Core\<close>: \<open>zapcore.go\<close> and \<open>init.go\<close> of the same package.
  \<^item> \<open>Kube_Client\<close>: the reconciler's environment. \<open>Measure\<close>: \<open>measure.go\<close>. \<open>Cleanup\<close>: \<open>cleanup.go\<close>.
    \<open>Ensure\<close>: \<open>ensure.go\<close>, \<open>gitauth_secret.go\<close> and the effectful half of \<open>gitcred.go\<close>.
    \<open>Build_Lifecycle\<close>: starting and observing builds in \<open>app_controller.go\<close>. \<open>Reconcile_Loop\<close>: \<open>Reconcile\<close>,
    \<open>fail\<close>, \<open>deleteJobs\<close>, \<open>reconcileDelete\<close>.
  \<^item> \<open>Build_Outcome\<close>, \<open>Credential_Scope\<close>, \<open>Status_Types\<close>: no new operations; total correctness of the observation of a
    build, the build step as a gate, the calls of a pass that carry a git credential, and the types of the status.
  \<^item> \<open>Operator_Startup\<close>: \<open>cmd/main.go\<close> and \<open>SetupWithManager\<close>. \<open>Phase_Shim\<close>: \<open>images/shim/main.go\<close>.
  \<^item> \<open>Go_Format\<close>: the calendar and RFC 3339 times, \<open>float64\<close> and its printing, \<open>%q\<close>, HTML and URL escaping.
  \<^item> \<open>Console_View\<close>: \<open>console/internal/view\<close>, the view types and their methods. \<open>Console_Decode\<close>: reading an
    untyped App object (\<open>coerce.go\<close>, \<open>FromUnstructured\<close> of \<open>model.go\<close>). \<open>Console_Wire\<close>: the JSON tags of
    \<open>api/v1alpha1/app_types.go\<close>, that is what the console receives for an App of the operator.
  \<^item> \<open>Console_Client\<close>: \<open>console/internal/k8s\<close>, requests. \<open>Console_Informer\<close>: the construction of that client and its
    goroutines. \<open>Console_Loki\<close>: \<open>console/internal/loki\<close>. \<open>Console_Pages\<close>: the pure
    part of \<open>console/internal/server\<close> (\<open>server.go\<close>, \<open>manifest.go\<close>, \<open>timeTag\<close>). \<open>Console_Loghl\<close>: \<open>loghl.go\<close>.
    \<open>Console_Server\<close>: the handlers and the route table. \<open>Console_Sentry\<close>: \<open>console/internal/sentryhttp\<close> and
    \<open>console/cmd/console/main.go\<close>.
  \<^item> \<open>Console_Contract\<close>: no new code; what the console and the operator promise each other.

  \<^bold>\<open>State and effects.\<close> A pass of the reconciler is a value of type \<open>('w, 'a) kube\<close>: a function from the
  state \<open>rstate\<close> to a result or an error and the next state. The state has the in-memory App (\<open>r_app\<close>,
  which the Go code passes as a pointer), the metrics recorder, the Sentry limiter, the flag
  \<open>gitSourceMissing\<close>, a world of an arbitrary type \<open>'w\<close> and the trace \<open>r_calls\<close>. The Kubernetes client, the
  clock and the helpers of controller-runtime are the record \<open>client\<close>: functions of the world that may
  return any answer or error at any time. No law is assumed of them, so a theorem about \<open>Reconcile\<close> holds
  against every API server, every cache (stale ones included) and every clock. Conflicts, missing
  objects, failing reads and Go panics (an index out of range) are values. The Prometheus registry is
  the locale \<open>series_store\<close>. Maps whose iteration order Go leaves open are association lists, and where
  the code iterates over one the theorems hold for every order. The console is written in the same monad
  over the state \<open>cstate\<close>: the world, the time of the last watch error and the list \<open>c_writes\<close> of the patches sent; its
  cluster is the record \<open>cluster\<close>, Loki the function \<open>sv_send\<close>, again without any law unless a theorem names one
  (\<open>documented\<close> for the accessors of the package \<open>unstructured\<close>, \<open>merges\<close> for a merge patch). The shim runs over the
  record \<open>os\<close> of system calls, each of which may fail; its loop over signals is a partial function, and that it ends
  exactly with the command is a theorem. The goroutines of the console's client are a machine with one program
  counter per goroutine, \<open>act\<close>, whose interleavings are the predicate \<open>reach\<close>; client-go is the parameter \<open>informer_lib\<close>.

  \<^bold>\<open>Interfaces.\<close> The two decision functions of \<open>internal/domain\<close> are instances of one locale of request
  gates (\<open>build_gate\<close>, \<open>cleanup_gate\<close>), the two rate limiters of one locale of pruning limiters, the
  metric operations act on a \<open>series_store\<close>, the two history rings are instances of one locale of capped
  logs, and the properties of traces are proved by the locale \<open>call_discipline\<close>: a discipline that is closed under
  concatenation holds of a pass when it holds of its calls. It is interpreted for confinement of calls
  to classes, for the guard before a build and for the order of deletions.

  \<^bold>\<open>What is shown.\<close>
  \<^item> One pass (this theory): at most one build or prune Job is started, every build Job directly after a
    list that shows no active build, Jobs are deleted only after an accepted status write, the serving
    stack is written only when the stored status records a success, credentials are scoped to the App's
    repository, and a rejected App changes only its status. The build step refines the request gate and
    starts a pending build against a server that answers; a failed build leaves what is served alone and a
    successful one records the spec it was started from. Every status it writes keeps the bounds of the schema, and
    the operator puts only declared values into it.
  \<^item> Start: the reconciler runs only with a checked configuration and a usable git credential, and Sentry
    decides nothing but reporting.
  \<^item> Shim: it is transparent to the command, ends exactly with it, reports the kernel's peak to the operator, and
    installs itself atomically.
  \<^item> Decisions: no request is lost, at most one start per request, over all interleavings.
  \<^item> Confinement: secrets only in fetch, output only in the copier, credentials only for an allowed host
    and told that host, hardened containers, memory ceilings, network fencing, basic auth.
  \<^item> Configuration and admission: fail-closed loading, image allowlist, storage thresholds, intervals,
    the host of a repository URL; an admitted App under a loaded configuration builds, as a non-root user, and
    publishes a directory inside its workspace.
  \<^item> Memory: the copy of an App is equal to it and independent of it.
  \<^item> Status: staleness exactly for changed configurations up to an explicit SHA-256 collision, history
    rings, failure attribution, the alert streak, sizes and prune results recorded once.
  \<^item> Telemetry: one phase series, one degraded series, one count per build, a frozen deadline; limiters
    that refine the limiter without pruning, also for forwarded error logs.
  \<^item> Console: it writes only what a signed-in user asked for and answers every request; a click starts the
    build it asked for, attributed to the user; every field an App has reaches its view unchanged; the badge
    is the operator's phase; manifests do not depend on secrets; log output cannot inject markup; the pager
    shows every match once; sizes, totals, log tails and the log pane are right. Its client survives any
    interleaving of \<open>Close\<close> and \<open>waitForSync\<close> without a panic, a deadlock or a leaked goroutine.

  \<^bold>\<open>Bounds.\<close> Integers are kept in \<open>int\<close> with \<open>wrap64\<close> where Go arithmetic can overflow. The JSON decoder is
  the only function with fuel: \<open>json_parse\<close> gives it twice the input length plus two, each call of the
  value parser consumes input or goes one container down, and \<open>json_value_fuel\<close> shows that more fuel
  never changes a result. All other functions terminate by structural recursion or a proved measure, except
  \<open>supervise\<close> of the shim, which waits for a command.

  \<^bold>\<open>Not modelled.\<close> Log lines; the wording of error messages that quote library errors (\<open>e_Text\<close> renders
  them); mutexes (each recorder or limiter call is atomic); YAML decoding, cron parsing and quantity
  parsing, which are parameters; controller-runtime's queue and watches; the console's HTML templates, YAML
  encoder and syntax highlighter, which work on the data the handlers return; the inside of the HTTP server,
  of the informers and of the manager; flag parsing; scheme registration; the type checks of the CRD schema; the test
  transport of \<open>sentrytest\<close>. Lower case and white space are those of ASCII. \<open>view.Now\<close> is read once per object, where the code reads it for each use.
\<close>

section \<open>One reconcile pass\<close>

text \<open>C1. Serialization: against every API server, cache and clock, and whatever errors occur, one pass
  of the reconciler creates at most one Job among build Jobs and prune Jobs. In particular a pass never
  starts a prune beside a build it just started, nor the two prunes together.\<close>

theorem pass_starts_at_most_one:
  "\<exists>cs. r_calls (snd (Reconcile C E ns nm s)) = r_calls s @ cs \<and> starts cs \<le> 1"
  using Reconcile_starts [of C E ns nm] unfolding yields_def by blast

text \<open>C2. Single active build: every build Job a pass creates is created directly after a list, by the
  Job's own labels, in which every build Job of the App is finished.\<close>

theorem pass_builds_guarded:
  "\<exists>cs. r_calls (snd (Reconcile C E ns nm s)) = r_calls s @ cs \<and> build_guarded cs"
  using Reconcile_guarded [of C E ns nm] unfolding obeys_def by blast

text \<open>C3. Results are durable before their Job goes: in a pass over a live App every deletion of a Job
  comes after a status write the server accepted, so a rejected status write loses no measurement and
  no prune result.\<close>

theorem pass_deletes_after_status:
  "\<exists>cs. r_calls (snd (reconcile_live C E s)) = r_calls s @ cs \<and> deletes_after_status cs"
  using reconcile_live_deletes [of C E] unfolding obeys_def by blast

definition records_success :: "App \<Rightarrow> bool" where
  \<comment> \<open>what a completed build leaves in the status: its time, and the hash of the spec it was built from\<close>
  "records_success a \<longleftrightarrow>
     st_LastSuccessfulBuildTime (app_Status a) \<noteq> None \<or> st_LastBuiltSpecHash (app_Status a) \<noteq> ''''"

text \<open>C4. Nothing is served before a success: if a pass over a live App writes any part of the serving stack
  (nginx configuration, Deployment, Service, Middleware, Ingress), then every status it stores records a
  successful build, by a last successful build time or a hash of the spec last built.\<close>

theorem pass_serves_after_success:
  "\<exists>cs. r_calls (snd (reconcile_live C E s)) = r_calls s @ cs \<and> serves_when records_success cs"
proof -
  have "hasSucceededOnce = records_success" by (rule ext) (simp only: hasSucceededOnce_def records_success_def)
  with reconcile_live_serves [of C E] show ?thesis unfolding obeys_def by simp
qed

text \<open>C6. The build step implements the request gate: whenever step 8 of a pass returns, the request in the
  annotation, the processed token in the status, the running build in the cluster and the tokens of the
  build Jobs created so far have moved by exactly one reconcile step of the abstract gate, run on the Job
  list the step has just read. So what holds of every run of the gate holds of the reconciler.\<close>

theorem build_step_refines_gate:
  assumes "reconcile_build C E d s = (Inr active, s')"
  shows "\<exists>js cs. r_calls s' = r_calls s @ CListJobs (buildLabelsFor (r_app s)) (Some js) # cs \<and>
    gate_of active s' = gate_step build_go (gate_of (list_ex (\<lambda>j. jobFinished j = None) js) s) Domain_Decisions.Reconcile"
  by (rule build_step_simulates [OF assms])

theorem build_step_refines_gate_witness:
  "\<exists>active s' js. reconcile_build sample_client sample_env no_credential (sample_state sample_app) = (Inr active, s') \<and>
     gate_of active s' = gate_step build_go (gate_of (list_ex (\<lambda>j. jobFinished j = None) js) (sample_state sample_app)) Domain_Decisions.Reconcile"
proof -
  obtain active s' where "reconcile_build sample_client sample_env no_credential (sample_state sample_app) = (Inr active, s')"
    by (rule succeedsD [OF sure_reconcile_build [OF sample_available]]) auto
  with build_step_refines_gate [of sample_client sample_env no_credential "sample_state sample_app" active s']
  show ?thesis by blast
qed

text \<open>C7. A pending request is built: against an API server that answers, when the annotation carries a token
  that was not processed and no listed build is active, the build step returns, the last call of the
  step is the creation of a build Job for that token, and the token is recorded as processed.\<close>

theorem pending_request_starts_build:
  assumes "available C" "map_get (app_Annotations (r_app s)) RebuildAnnotation = t"
      "t \<noteq> st_LastProcessedRebuild (app_Status (r_app s))"
    and "fst (k_ListJobs C (app_Namespace (r_app s)) (buildLabelsFor (r_app s)) (r_world s)) = Inr js"
      "list_all (\<lambda>j. jobFinished j \<noteq> None) js"
  shows "\<exists>s'. reconcile_build C E d s = (Inr True, s') \<and> st_LastProcessedRebuild (app_Status (r_app s')) = t \<and>
    build_token (last (r_calls s')) = [t]"
  by (rule pending_starts [OF assms])

theorem pending_request_starts_build_witness:
  "\<exists>s'. reconcile_build sample_client sample_env no_credential (sample_state sample_app) = (Inr True, s') \<and>
     build_token (last (r_calls s')) = [''1'']"
proof -
  have "map_get (app_Annotations (r_app (sample_state sample_app))) RebuildAnnotation = ''1''"
    "''1'' \<noteq> st_LastProcessedRebuild (app_Status (r_app (sample_state sample_app)))"
    by (simp_all add: sample_state_def sample_app_def sample_status_def map_get_def)
  moreover have "fst (k_ListJobs sample_client ns ls w) = Inr []" for ns ls w
    by (simp add: sample_client_def)
  ultimately show ?thesis
    using pending_request_starts_build [OF sample_available, where s = "sample_state sample_app" and js = "[]"] by fastforce
qed

definition finalizer_update :: "'w client \<Rightarrow> App \<Rightarrow> 'w \<Rightarrow> call list \<times> App option" where
  \<comment> \<open>the write before the checks, and the App they see: none when the App as read has the finalizer; else
    the update that adds it, after which the App is the server's answer\<close>
  "finalizer_update C app w =
     (if k_ContainsFinalizer C (app_Finalizers app) ''baker.toggle-corp.com/finalizer'' then ([], Some app)
      else
        let a = app\<lparr>app_Finalizers := k_AddFinalizer C (app_Finalizers app) ''baker.toggle-corp.com/finalizer''\<rparr>
        in case fst (k_UpdateApp C a w) of
             Inl _ \<Rightarrow> ([CUpdateApp a False], None)
           | Inr app' \<Rightarrow> ([CUpdateApp a True], Some app'))"

lemma Reconcile_live_from:
  assumes "k_GetApp C ns nm (r_world s) = (Inr app, w)" "app_DeletionTimestamp app = None" "Reconcile C E ns nm s = (r, s')"
  shows "case finalizer_update C app w of
      (upd, None) \<Rightarrow> r_calls s' = r_calls s @ upd \<and> (\<exists>e. r = Inl e)
    | (upd, Some app') \<Rightarrow> \<exists>s1. r_app s1 = app' \<and> r_calls s1 = r_calls s @ upd \<and> reconcile_live C E s1 = (r, s')"
proof (cases "k_ContainsFinalizer C (app_Finalizers app) FinalizerName")
  case True
  let ?s = "s\<lparr>r_world := w, r_app := app\<rparr>"
  have "reconcile_live C E ?s = (r, s')"
    using assms True by (simp add: Reconcile_def world_op_def put_app_def seqr_def bindr_def ret_def modify_def)
  with True show ?thesis by (auto simp: finalizer_update_def intro!: exI [of _ ?s])
next
  case False
  let ?a = "app\<lparr>app_Finalizers := k_AddFinalizer C (app_Finalizers app) FinalizerName\<rparr>"
  obtain res w' where upd: "k_UpdateApp C ?a w = (res, w')" by (meson surj_pair)
  note unfold = Reconcile_def UpdateApp_def app_write_def log_calls_def world_op_def put_app_def get_app_def mod_app_def
    seqr_def bindr_def ret_def raise_def gets_def modify_def
  show ?thesis
  proof (cases res)
    case (Inl e)
    with assms False upd show ?thesis by (auto simp: unfold finalizer_update_def Let_def)
  next
    case (Inr app')
    let ?s = "s\<lparr>r_world := w', r_calls := r_calls s @ [CUpdateApp ?a True], r_app := app'\<rparr>"
    have "reconcile_live C E ?s = (r, s')" using assms False upd Inr by (simp add: unfold)
    with False upd Inr show ?thesis by (auto simp: finalizer_update_def Let_def intro!: exI [of _ ?s])
  qed
qed

text \<open>C13. A rejected App changes nothing but its status: in a full pass over an App that is not being deleted
  and that the checks of steps 1 to 2c reject, the calls after the read are telemetry and then one status
  write, which stores phase Degraded with Ready False and Degraded True for the reason and message of the
  first failing check; the pass asks to be repeated in a minute, or returns the error of the status write.
  Only for an App read without the finalizer does one write come before these, the update that adds the
  finalizer to it: the checks are then those of the App the server answers with, and when the server
  refuses the update it is the only call and the pass returns an error.\<close>

theorem rejected_app_degraded:
  assumes "k_GetApp C ns nm (r_world s) = (Inr app, w)" "app_DeletionTimestamp app = None" "Reconcile C E ns nm s = (r, s')"
  shows "case finalizer_update C app w of
      (upd, None) \<Rightarrow> r_calls s' = r_calls s @ upd \<and> (\<exists>e. r = Inl e)
    | (upd, Some app') \<Rightarrow> \<forall>reason rej. check_spec (e_Config E) app' = Some (Some (reason, rej)) \<longrightarrow>
        (\<exists>cs a ok. r_calls s' = r_calls s @ upd @ cs @ [CStatusUpdate a ok] \<and> list_all (\<lambda>c. class_of c = Telemetry) cs \<and>
          degraded_with reason (e_Text E rej) a \<and> (if ok then r = Inr (requeue_after Minute) else (\<exists>e. r = Inl e)))"
proof (cases "finalizer_update C app w")
  case (Pair upd seen)
  show ?thesis
  proof (cases seen)
    case None
    with Reconcile_live_from [OF assms] Pair show ?thesis by simp
  next
    case (Some app')
    with Reconcile_live_from [OF assms] Pair obtain s1 where s1: "r_app s1 = app'" "r_calls s1 = r_calls s @ upd"
      "reconcile_live C E s1 = (r, s')" by auto
    show ?thesis unfolding Pair Some prod.case option.case
    proof (intro allI impI)
      fix reason rej assume "check_spec (e_Config E) app' = Some (Some (reason, rej))"
      with s1(1) have "check_spec (e_Config E) (r_app s1) = Some (Some (reason, rej))" by simp
      from rejected_run [OF this s1(3)] show "\<exists>cs a ok. r_calls s' = r_calls s @ upd @ cs @ [CStatusUpdate a ok] \<and>
          list_all (\<lambda>c. class_of c = Telemetry) cs \<and> degraded_with reason (e_Text E rej) a \<and>
          (if ok then r = Inr (requeue_after Minute) else (\<exists>e. r = Inl e))" unfolding s1(2) append_assoc .
    qed
  qed
qed

theorem rejected_app_degraded_witness:
  "\<exists>r s' cs a ok. Reconcile sample_client (sample_env\<lparr>e_Config := sample_config\<lparr>cfg_ClusterCIDRs := []\<rparr>\<rparr>) ''ns'' ''site'' (sample_state sample_app) = (r, s') \<and>
     r_calls s' = cs @ [CStatusUpdate a ok] \<and> degraded_with ReasonConfigError ''rejected'' a"
proof -
  let ?E = "sample_env\<lparr>e_Config := sample_config\<lparr>cfg_ClusterCIDRs := []\<rparr>\<rparr>"
  obtain r s' where run: "Reconcile sample_client ?E ''ns'' ''site'' (sample_state sample_app) = (r, s')"
    by (cases "Reconcile sample_client ?E ''ns'' ''site'' (sample_state sample_app)")
  have app: "k_GetApp sample_client ''ns'' ''site'' (r_world (sample_state sample_app)) = (Inr sample_app, ())"
    "app_DeletionTimestamp sample_app = None"
    "finalizer_update sample_client sample_app () = ([], Some sample_app)"
    by (simp_all add: sample_client_def finalizer_update_def sample_app_def)
  have "check_spec (e_Config ?E) sample_app = Some (Some (ReasonConfigError, RConfig NoClusterCIDRs))"
    by (simp add: check_spec_def Validate_def)
  with rejected_app_degraded [OF app(1,2) run] run show ?thesis
    unfolding app(3) by (fastforce simp: sample_state_def sample_env_def)
qed

text \<open>C11. A failed build never takes the site down: when the Job of the build in flight has failed, observing
  it returns without error and leaves the served release, the hash it was built from, the time of the last
  success and the storage record as they were; the result is Failed and the App is marked Degraded.\<close>

theorem failed_build_keeps_serving:
  assumes "k_GetJob C (app_Namespace (r_app s)) (build_JobName (st_Build (app_Status (r_app s)))) (r_world s) = (Inr job, w)"
    and "build_JobName (st_Build (app_Status (r_app s))) \<noteq> ''''" "\<not> terminal_build (st_Build (app_Status (r_app s)))"
    and "jobFinished job = Some cond" "jc_Type cond \<noteq> JobComplete"
  shows "\<exists>s'. observeBuild C E s = (Inr (), s') \<and> served (r_app s') = served (r_app s) \<and>
    result_of (r_app s') = BuildResultFailed \<and> degraded (r_app s') ConditionTrue"
proof -
  let ?s = "s\<lparr>r_world := w\<rparr>"
  from failed_build_outcome [OF assms(5)] obtain x s' where run: "observe_finished C E job cond ?s = (Inr x, s')"
      "result_of (r_app s') = BuildResultFailed \<and> degraded (r_app s') ConditionTrue"
    by (rule succeedsD [where s = ?s]) simp_all
  moreover have "served (r_app s') = served (r_app s)"
    using failed_build_keeps_served [OF assms(5), of C E job, unfolded keeps_def, rule_format, of ?s] run by simp
  ultimately show ?thesis using observeBuild_finished [OF assms(1-4)] by simp
qed

theorem failed_build_keeps_serving_witness:
  "\<exists>s'. observeBuild (job_client (sample_job JobFailed)) sample_env (observing ''site-build'' '''') = (Inr (), s') \<and>
     served (r_app s') = served sample_app \<and> degraded (r_app s') ConditionTrue"
proof -
  let ?s = "observing ''site-build'' ''''"
  have "\<exists>s'. observeBuild (job_client (sample_job JobFailed)) sample_env ?s = (Inr (), s') \<and> served (r_app s') = served (r_app ?s) \<and>
      result_of (r_app s') = BuildResultFailed \<and> degraded (r_app s') ConditionTrue"
    by (rule failed_build_keeps_serving [of _ _ "sample_job JobFailed" "()"])
      (simp_all add: sample_job_finished, simp_all add: job_client_def observing_def sample_state_def terminal_build_def upd_build_def)
  then show ?thesis by (auto simp: observing_def sample_state_def)
qed

text \<open>C12. A success records what was built: when the Job of the build in flight carries the annotations its
  build was started with and has completed, observing it returns without error, records a success and the
  hash of the spec the build was started from, and reports the App as stale exactly when the spec in
  force now has another hash. An edit during a build is thus never mistaken for deployed.\<close>

theorem success_records_built_spec:
  assumes "k_GetJob C (app_Namespace (r_app s)) (build_JobName (st_Build (app_Status (r_app s)))) (r_world s) = (Inr job, w)"
    and "build_JobName (st_Build (app_Status (r_app s))) \<noteq> ''''" "\<not> terminal_build (st_Build (app_Status (r_app s)))"
    and "jobFinished job = Some cond" "jc_Type cond = JobComplete"
    and "om_Annotations (j_Meta job) = om_Annotations (j_Meta (BuildJob pq cfg app0 token d))"
  shows "\<exists>s'. observeBuild C E s = (Inr (), s') \<and> hasSucceededOnce (r_app s') \<and>
    result_of (r_app s') = BuildResultSucceeded \<and> degraded (r_app s') ConditionFalse \<and>
    st_LastBuiltSpecHash (app_Status (r_app s')) = Hash (buildSpecFrom app0) \<and>
    (st_SpecStale (app_Status (r_app s')) \<longleftrightarrow> Hash (buildSpecFrom (r_app s)) \<noteq> Hash (buildSpecFrom app0))"
proof -
  let ?s = "s\<lparr>r_world := w\<rparr>" and ?h = "Hash (buildSpecFrom app0)"
  have h: "stamped_hash job = ?h" using BuildJob_stamp [of pq cfg app0 token d] by (simp add: assms(6))
  have "succeeds (\<lambda>_. True) (observe_finished C E job cond) (\<lambda>a. recorded ?h a \<and> degraded a ConditionFalse)"
    using successful_build_outcome [of cond job C E] assms(5) Hash_not_empty [of "buildSpecFrom app0"] unfolding h by blast
  then obtain x s' where run: "observe_finished C E job cond ?s = (Inr x, s')" "recorded ?h (r_app s') \<and> degraded (r_app s') ConditionFalse"
    by (rule succeedsD [where s = ?s]) simp_all
  have "app_Spec (r_app s') = app_Spec (r_app s)"
    using keeps_spec_observe_finished [of C E job cond, unfolded keeps_def, rule_format, of ?s] run by simp
  then have "buildSpecFrom (r_app s') = buildSpecFrom (r_app s)" by (simp add: buildSpecFrom_def)
  with run observeBuild_finished [OF assms(1-4)] show ?thesis
    by (auto simp: recorded_def hasSucceededOnce_def IsStale_def)
qed

theorem success_records_built_spec_witness:
  "\<exists>s'. observeBuild (job_client (sample_job JobComplete)) sample_env (observing ''site-build'' '''') = (Inr (), s') \<and>
     \<not> st_SpecStale (app_Status (r_app s')) \<and> st_LastBuiltSpecHash (app_Status (r_app s')) = Hash (buildSpecFrom sample_app)"
proof -
  let ?s = "observing ''site-build'' ''''"
  have same: "buildSpecFrom (r_app ?s) = buildSpecFrom sample_app"
    by (simp add: buildSpecFrom_def observing_def sample_state_def)
  have "\<exists>s'. observeBuild (job_client (sample_job JobComplete)) sample_env ?s = (Inr (), s') \<and> hasSucceededOnce (r_app s') \<and>
    result_of (r_app s') = BuildResultSucceeded \<and> degraded (r_app s') ConditionFalse \<and>
    st_LastBuiltSpecHash (app_Status (r_app s')) = Hash (buildSpecFrom sample_app) \<and>
    (st_SpecStale (app_Status (r_app s')) \<longleftrightarrow> Hash (buildSpecFrom (r_app ?s)) \<noteq> Hash (buildSpecFrom sample_app))"
    by (rule success_records_built_spec [of _ _ "sample_job JobComplete" "()"])
      (simp_all add: sample_job_finished, simp_all add: sample_job_def job_client_def observing_def sample_state_def terminal_build_def upd_build_def)
  then show ?thesis unfolding same by blast
qed

text \<open>C5. Credentials stay with the repository they were decided for: whatever the API server answers, in
  every build Job and every trigger CronJob a pass writes, a container that mounts a git credential is
  told the host of the repository of the App as it was loaded, and that App brought its own Secret or the
  host is on the operator's allowlist. The decision taken in step 2d, also when it falls back to the last
  synced copy, is the one the pods are built from.\<close>

theorem pass_credentials_scoped:
  "\<exists>cs. r_calls (snd (reconcile_live C E s)) = r_calls s @ cs \<and>
     list_all (credential_call (cfg_GitAuth (e_Config E)) (r_app s)) cs"
  using reconcile_live_credentials [of "r_app s" E C] unfolding given_def by blast

end
